(* ===== verification/Prelude.thy ===== *)
theory Prelude
  imports Main "HOL-Library.Word"
begin

text \<open>
  Shared vocabulary of the development: the machine integers of the Rust code and their
  checked conversions, results of fallible code as sums, byte-level string predicates, and
  generic facts on tables kept as lists.

  \<^item> \<open>u64\<close>, \<open>u32\<close> and \<open>u128\<close> are machine words. An \<open>i64\<close> (every SQLite INTEGER column and
    every timestamp) is an \<open>int\<close>; each operation of the code that could leave the 64-bit
    range is written out with its check.
  \<^item> A Rust \<open>str\<close> is the list of its UTF-8 bytes (\<open>string\<close>, one \<open>char\<close> per byte), so
    \<open>length\<close> is Rust's \<open>len()\<close>.
  \<^item> A \<open>Uuid\<close> is represented by its canonical hyphenated lower-case text, which is what
    \<open>Uuid::to_string\<close> prints and what every database column and URL of the program holds.
  \<^item> A fallible function returns \<open>'e + 'a\<close>: \<open>Inl\<close> is an \<open>Err\<close> (a \<open>bail!\<close>, a failed \<open>?\<close>),
    \<open>Inr\<close> an \<open>Ok\<close>.
\<close>

named_theorems conv_simps "machine integer conversions"
named_theorems table_simps "lookups in and updates of tables kept as lists"

section \<open>Machine integers\<close>

type_synonym u32 = "32 word"
type_synonym u64 = "64 word"
type_synonym u128 = "128 word"
type_synonym i64 = int
type_synonym uuid = string

definition i64_max :: int where
  "i64_max = 9223372036854775807"

definition i64_min :: int where
  "i64_min = - 9223372036854775808"

definition in_i64 :: "int \<Rightarrow> bool" where
  "in_i64 i \<longleftrightarrow> i64_min \<le> i \<and> i \<le> i64_max"

text \<open>\<open>u64::checked_add\<close>, \<open>u64::checked_sub\<close>, \<open>u128::checked_mul\<close>, \<open>i64::checked_add\<close>.\<close>

definition checked_add_u64 :: "u64 \<Rightarrow> u64 \<Rightarrow> u64 option" where
  "checked_add_u64 a b = (if unat a + unat b < 2 ^ 64 then Some (a + b) else None)"

definition checked_sub_u64 :: "u64 \<Rightarrow> u64 \<Rightarrow> u64 option" where
  "checked_sub_u64 a b = (if a < b then None else Some (a - b))"

definition checked_mul_u128 :: "u128 \<Rightarrow> u128 \<Rightarrow> u128 option" where
  "checked_mul_u128 a b = (if unat a * unat b < 2 ^ 128 then Some (a * b) else None)"

definition checked_add_i64 :: "i64 \<Rightarrow> i64 \<Rightarrow> i64 option" where
  "checked_add_i64 a b = (if in_i64 (a + b) then Some (a + b) else None)"

text \<open>A CHECK such as \<open>first_seen_at >= 0\<close> passes for NULL.\<close>

definition some_negative :: "i64 option \<Rightarrow> bool" where
  "some_negative x = (case x of None \<Rightarrow> False | Some t \<Rightarrow> t < 0)"

lemma some_negative_simps [simp]: "\<not> some_negative None" "some_negative (Some t) \<longleftrightarrow> t < 0"
  by (simp_all add: some_negative_def)

text \<open>\<open>i64::try_from(u64)\<close> and \<open>u64::try_from(i64)\<close>, the two conversions at the SQLite boundary.\<close>

definition i64_of_u64 :: "u64 \<Rightarrow> i64 option" where
  "i64_of_u64 w = (if uint w \<le> i64_max then Some (uint w) else None)"

definition u64_of_i64 :: "i64 \<Rightarrow> u64 option" where
  "u64_of_i64 i = (if 0 \<le> i then Some (word_of_int i) else None)"

lemma checked_add_u64_Some [conv_simps]:
  "checked_add_u64 a b = Some c \<longleftrightarrow> unat a + unat b < 2 ^ 64 \<and> c = a + b"
  by (auto simp: checked_add_u64_def)

lemma checked_add_u64_unat: "checked_add_u64 a b = Some c \<Longrightarrow> unat c = unat a + unat b"
  by (auto simp: checked_add_u64_def unat_word_ariths split: if_splits)

lemma checked_add_u64_None: "checked_add_u64 a b = None \<longleftrightarrow> 2 ^ 64 \<le> unat a + unat b"
  by (auto simp: checked_add_u64_def)

lemma checked_sub_u64_Some: "checked_sub_u64 a b = Some c \<longleftrightarrow> b \<le> a \<and> c = a - b"
  by (auto simp: checked_sub_u64_def)

lemma checked_sub_u64_unat: "checked_sub_u64 a b = Some c \<Longrightarrow> unat c = unat a - unat b"
  by (auto simp: checked_sub_u64_Some unat_sub)

lemma i64_of_u64_Some [conv_simps]:
  "i64_of_u64 w = Some i \<longleftrightarrow> uint w \<le> i64_max \<and> i = uint w"
  by (auto simp: i64_of_u64_def)

lemma u64_of_i64_Some [conv_simps]:
  "u64_of_i64 i = Some w \<longleftrightarrow> 0 \<le> i \<and> w = word_of_int i"
  by (auto simp: u64_of_i64_def)

lemma uint_word_of_int_i64: "0 \<le> i \<Longrightarrow> i \<le> i64_max \<Longrightarrow> uint (word_of_int i :: u64) = i"
  by (simp add: i64_max_def uint_word_of_int)

lemma unat_word_of_int_i64: "0 \<le> i \<Longrightarrow> i \<le> i64_max \<Longrightarrow> unat (word_of_int i :: u64) = nat i"
  by (simp add: unat_eq_nat_uint uint_word_of_int_i64)

lemma i64_round_trip: "i64_of_u64 w = Some i \<Longrightarrow> u64_of_i64 i = Some w"
  by (auto simp: i64_of_u64_Some u64_of_i64_Some)

lemma word_le_uint: "(a :: u64) \<le> b \<longleftrightarrow> uint a \<le> uint b"
  by (simp add: word_le_def)

lemma word_less_uint: "(a :: u64) < b \<longleftrightarrow> uint a < uint b"
  by (simp add: word_less_def)

lemma word_eq_0_uint: "(a :: u64) = 0 \<longleftrightarrow> uint a = 0"
  by (simp add: uint_0_iff)

section \<open>Fallible code\<close>

text \<open>
  \<open>andthen m f\<close> is Rust's \<open>let x = m?; f\<close>: an error is returned at once, a value is passed on.
  \<open>ok_or e x\<close> is \<open>Option::ok_or\<close> (\<open>.context(..)?\<close> on an \<open>Option\<close>).
\<close>

definition andthen :: "'e + 'a \<Rightarrow> ('a \<Rightarrow> 'e + 'b) \<Rightarrow> 'e + 'b" where
  "andthen m f = (case m of Inl e \<Rightarrow> Inl e | Inr x \<Rightarrow> f x)"

definition ok_or :: "'e \<Rightarrow> 'a option \<Rightarrow> 'e + 'a" where
  "ok_or e x = (case x of None \<Rightarrow> Inl e | Some a \<Rightarrow> Inr a)"

text \<open>\<open>map_err f m\<close>: the \<open>?\<close> operator converting one error type into another.\<close>

definition map_err :: "('e \<Rightarrow> 'f) \<Rightarrow> 'e + 'a \<Rightarrow> 'f + 'a" where
  "map_err f m = (case m of Inl e \<Rightarrow> Inl (f e) | Inr x \<Rightarrow> Inr x)"

text \<open>\<open>Result::ok\<close>.\<close>

definition result_ok :: "'e + 'a \<Rightarrow> 'a option" where
  "result_ok m = (case m of Inl e \<Rightarrow> None | Inr x \<Rightarrow> Some x)"

lemma map_err_simps [simp]: "map_err f (Inl e) = Inl (f e)" "map_err f (Inr x) = Inr x"
  by (simp_all add: map_err_def)

lemma map_err_eq_Inr [simp]: "map_err f m = Inr x \<longleftrightarrow> m = Inr x"
  by (cases m) simp_all

lemma result_ok_simps [simp]: "result_ok (Inl e) = None" "result_ok (Inr x) = Some x"
  by (simp_all add: result_ok_def)

lemma result_ok_eq_Some [simp]: "result_ok m = Some x \<longleftrightarrow> m = Inr x"
  by (cases m) simp_all

lemma andthen_simps [simp]:
  "andthen (Inl e) f = Inl e"
  "andthen (Inr x) f = f x"
  by (simp_all add: andthen_def)

lemma andthen_eq_Inr: "andthen m f = Inr y \<longleftrightarrow> (\<exists>x. m = Inr x \<and> f x = Inr y)"
  by (cases m) simp_all

lemma andthen_eq_Inl: "andthen m f = Inl e \<longleftrightarrow> m = Inl e \<or> (\<exists>x. m = Inr x \<and> f x = Inl e)"
  by (cases m) simp_all

lemma ok_or_simps [simp]:
  "ok_or e None = Inl e"
  "ok_or e (Some a) = Inr a"
  by (simp_all add: ok_or_def)

lemma ok_or_eq_Inr [simp]: "ok_or e x = Inr a \<longleftrightarrow> x = Some a"
  by (cases x) simp_all

lemma ok_or_eq_Inl [simp]: "ok_or e x = Inl e' \<longleftrightarrow> x = None \<and> e' = e"
  by (cases x) auto

text \<open>A \<open>bail!\<close> under a condition.\<close>

lemma guard_Inr: "(if c then Inl e else m) = Inr y \<longleftrightarrow> \<not> c \<and> m = Inr y"
  by simp

lemmas res_simps = andthen_eq_Inr andthen_eq_Inl

text \<open>Collecting an iterator of results (\<open>collect::<Result<Vec<_>>>\<close>): the first error wins.\<close>

fun collect_results :: "('e + 'a) list \<Rightarrow> 'e + 'a list" where
  "collect_results [] = Inr []"
| "collect_results (r # rs) =
     andthen r (\<lambda>x. andthen (collect_results rs) (\<lambda>xs. Inr (x # xs)))"

lemma collect_results_Inr: "collect_results (map Inr xs) = Inr xs"
  by (induction xs) simp_all

section \<open>Bytes and strings\<close>

definition byte :: "char \<Rightarrow> nat" where
  "byte c = of_char c"

definition is_ascii_digit :: "char \<Rightarrow> bool" where
  "is_ascii_digit c \<longleftrightarrow> 48 \<le> byte c \<and> byte c \<le> 57"

definition is_ascii_lowercase :: "char \<Rightarrow> bool" where
  "is_ascii_lowercase c \<longleftrightarrow> 97 \<le> byte c \<and> byte c \<le> 122"

definition is_ascii_uppercase :: "char \<Rightarrow> bool" where
  "is_ascii_uppercase c \<longleftrightarrow> 65 \<le> byte c \<and> byte c \<le> 90"

definition is_ascii_alphanumeric :: "char \<Rightarrow> bool" where
  "is_ascii_alphanumeric c \<longleftrightarrow> is_ascii_digit c \<or> is_ascii_lowercase c \<or> is_ascii_uppercase c"

definition is_ascii_hexdigit :: "char \<Rightarrow> bool" where
  "is_ascii_hexdigit c \<longleftrightarrow> is_ascii_digit c \<or> (97 \<le> byte c \<and> byte c \<le> 102)
     \<or> (65 \<le> byte c \<and> byte c \<le> 70)"

definition to_ascii_lower :: "char \<Rightarrow> char" where
  "to_ascii_lower c = (if is_ascii_uppercase c then char_of (byte c + 32) else c)"

definition to_ascii_lowercase :: "string \<Rightarrow> string" where
  "to_ascii_lowercase s = map to_ascii_lower s"

definition eq_ignore_ascii_case :: "string \<Rightarrow> string \<Rightarrow> bool" where
  "eq_ignore_ascii_case s t \<longleftrightarrow> to_ascii_lowercase s = to_ascii_lowercase t"

text \<open>
  \<open>s.chars().any(char::is_control)\<close>: U+0000 to U+001F and U+007F are single bytes; U+0080 to
  U+009F are the byte 0xC2 followed by 0x80 to 0x9F.
\<close>

fun has_control :: "string \<Rightarrow> bool" where
  "has_control [] = False"
| "has_control (c # cs) =
     (byte c < 32 \<or> byte c = 127
      \<or> (byte c = 194 \<and> (case cs of [] \<Rightarrow> False | d # _ \<Rightarrow> 128 \<le> byte d \<and> byte d \<le> 159))
      \<or> has_control cs)"

text \<open>\<open>s.chars().take(n).collect()\<close>: a byte 0x80 to 0xBF continues the character before it.\<close>

definition is_continuation :: "char \<Rightarrow> bool" where
  "is_continuation c \<longleftrightarrow> 128 \<le> byte c \<and> byte c \<le> 191"

fun take_chars :: "nat \<Rightarrow> string \<Rightarrow> string" where
  "take_chars n [] = []"
| "take_chars n (c # cs) =
     (if is_continuation c then c # take_chars n cs
      else case n of 0 \<Rightarrow> [] | Suc m \<Rightarrow> c # take_chars m cs)"

lemma length_to_ascii_lowercase [simp]: "length (to_ascii_lowercase s) = length s"
  by (simp add: to_ascii_lowercase_def)

lemma byte_to_ascii_lower:
  "byte (to_ascii_lower c) = (if is_ascii_uppercase c then byte c + 32 else byte c)"
  by (simp add: to_ascii_lower_def byte_def is_ascii_uppercase_def)

lemma to_ascii_lower_idem [simp]: "to_ascii_lower (to_ascii_lower c) = to_ascii_lower c"
  by (auto simp: to_ascii_lower_def is_ascii_uppercase_def byte_def)

lemma to_ascii_lowercase_idem [simp]:
  "to_ascii_lowercase (to_ascii_lowercase s) = to_ascii_lowercase s"
  by (simp add: to_ascii_lowercase_def)

lemma to_ascii_lowercase_fixed:
  "(\<forall>c \<in> set s. \<not> is_ascii_uppercase c) \<Longrightarrow> to_ascii_lowercase s = s"
  by (induction s) (auto simp: to_ascii_lowercase_def to_ascii_lower_def)

section \<open>Tables\<close>

text \<open>
  A table is the list of its rows in insertion order, so rowid (and AUTOINCREMENT) order is
  list order. \<open>SELECT .. WHERE key = ?\<close> on a unique key is \<open>find\<close>; \<open>UPDATE .. WHERE p\<close> is
  \<open>update_where\<close>, and \<open>count_where\<close> is both \<open>SELECT COUNT(*)\<close> and \<open>rows_affected\<close>.
\<close>

definition count_where :: "('r \<Rightarrow> bool) \<Rightarrow> 'r list \<Rightarrow> nat" where
  "count_where p rs = length (filter p rs)"

definition update_where :: "('r \<Rightarrow> bool) \<Rightarrow> ('r \<Rightarrow> 'r) \<Rightarrow> 'r list \<Rightarrow> 'r list" where
  "update_where p f rs = map (\<lambda>r. if p r then f r else r) rs"

text \<open>The next AUTOINCREMENT id: rows are never deleted from such a table, so it is one past
  the largest id (1 for an empty table).\<close>

definition next_id :: "('r \<Rightarrow> int) \<Rightarrow> 'r list \<Rightarrow> int" where
  "next_id key rs = fold (\<lambda>r m. max m (key r)) rs 0 + 1"

text \<open>
  SQLite's \<open>SUM\<close> of an INTEGER column: it fails with "integer overflow" when the running sum
  leaves the 64-bit range at any row, even if the total would be in range again.
\<close>

fun sum_from :: "i64 \<Rightarrow> i64 list \<Rightarrow> i64 option" where
  "sum_from acc [] = Some acc"
| "sum_from acc (x # xs) = (if in_i64 (acc + x) then sum_from (acc + x) xs else None)"

definition sql_sum :: "i64 list \<Rightarrow> i64 option" where
  "sql_sum xs = sum_from 0 xs"

lemma count_where_0: "count_where p rs = 0 \<longleftrightarrow> \<not> (\<exists>r \<in> set rs. p r)"
  by (auto simp: count_where_def filter_empty_conv)

lemma count_where_append [table_simps]:
  "count_where p (rs @ ss) = count_where p rs + count_where p ss"
  by (simp add: count_where_def)

lemma count_where_Cons [table_simps]:
  "count_where p (r # rs) = (if p r then Suc (count_where p rs) else count_where p rs)"
  by (simp add: count_where_def)

lemma count_where_Nil [table_simps]: "count_where p [] = 0"
  by (simp add: count_where_def)

lemma update_where_append [table_simps]:
  "update_where p f (rs @ ss) = update_where p f rs @ update_where p f ss"
  by (simp add: update_where_def)

lemma update_where_Cons [table_simps]:
  "update_where p f (r # rs) = (if p r then f r else r) # update_where p f rs"
  by (simp add: update_where_def)

lemma length_update_where [simp]: "length (update_where p f rs) = length rs"
  by (simp add: update_where_def)

lemma map_update_where:
  "(\<And>r. p r \<Longrightarrow> g (f r) = g r) \<Longrightarrow> map g (update_where p f rs) = map g rs"
  by (simp add: update_where_def)

lemma set_update_where:
  "set (update_where p f rs) = f ` {r \<in> set rs. p r} \<union> {r \<in> set rs. \<not> p r}"
  by (auto simp: update_where_def)

lemma update_where_unused: "\<not> (\<exists>r \<in> set rs. p r) \<Longrightarrow> update_where p f rs = rs"
  by (simp add: update_where_def map_idI)

lemma find_Some_in: "find p rs = Some r \<Longrightarrow> r \<in> set rs \<and> p r"
  by (auto simp: find_Some_iff)

lemma find_None: "find p rs = None \<longleftrightarrow> (\<forall>r \<in> set rs. \<not> p r)"
  by (auto simp: find_None_iff)

lemma bex_key: "(\<exists>r \<in> A. k r = x) \<longleftrightarrow> x \<in> k ` A"
  by blast

lemma find_append: "find p (rs @ ss) = (case find p rs of None \<Rightarrow> find p ss | Some r \<Rightarrow> Some r)"
  by (induction rs) auto

lemma find_unique:
  assumes "distinct (map k rs)" and "r \<in> set rs"
  shows "find (\<lambda>x. k x = k r) rs = Some r"
  using assms by (induction rs) (auto simp: rev_image_eqI)

lemma count_where_distinct_le_1:
  "distinct (map k rs) \<Longrightarrow> count_where (\<lambda>r. k r = x \<and> p r) rs \<le> 1"
proof (induction rs)
  case Nil
  then show ?case by (simp add: count_where_def)
next
  case (Cons r rs)
  show ?case
  proof (cases "k r = x \<and> p r")
    case True
    with Cons.prems have "count_where (\<lambda>r. k r = x \<and> p r) rs = 0"
      by (auto simp: count_where_0 image_iff)
    with True show ?thesis by (simp add: count_where_Cons)
  next
    case False
    with Cons show ?thesis by (auto simp: count_where_Cons)
  qed
qed

text \<open>An \<open>UPDATE\<close> that selects by a unique key changes one row in place.\<close>

lemma update_one:
  assumes "distinct (map k rs)" "r \<in> set rs" "P r"
  obtains xs ys where "rs = xs @ r # ys" "k r \<notin> k ` set xs" "k r \<notin> k ` set ys"
    and "\<And>f. update_where (\<lambda>x. k x = k r \<and> P x) f rs = xs @ f r # ys"
    and "count_where (\<lambda>x. k x = k r \<and> P x) rs = 1"
    and "find (\<lambda>x. k x = k r \<and> P x) rs = Some r"
proof -
  from assms(2) obtain xs ys where rs: "rs = xs @ r # ys" by (auto simp: in_set_conv_decomp)
  with assms(1) have new: "k r \<notin> k ` set xs" "k r \<notin> k ` set ys" by auto
  then have xs: "\<forall>x \<in> set xs. k x \<noteq> k r" and ys: "\<forall>x \<in> set ys. k x \<noteq> k r"
    by (auto simp: image_iff)
  then have "update_where (\<lambda>x. k x = k r \<and> P x) f xs = xs"
    "update_where (\<lambda>x. k x = k r \<and> P x) f ys = ys"
    "count_where (\<lambda>x. k x = k r \<and> P x) xs = 0" "count_where (\<lambda>x. k x = k r \<and> P x) ys = 0"
    "find (\<lambda>x. k x = k r \<and> P x) xs = None" for f
    by (auto intro!: update_where_unused simp: count_where_0 find_None)
  then show thesis
    using that [OF rs new] assms(3) rs
    by (simp add: count_where_append count_where_Cons find_append update_where_append)
      (simp add: update_where_def)
qed

lemma fold_max_ge:
  fixes key :: "'r \<Rightarrow> int"
  shows "a \<le> fold (\<lambda>r m. max m (key r)) rs a
    \<and> (\<forall>r \<in> set rs. key r \<le> fold (\<lambda>r m. max m (key r)) rs a)"
proof (induction rs arbitrary: a)
  case Nil
  then show ?case by simp
next
  case (Cons r rs)
  from Cons [of "max a (key r)"] show ?case by auto
qed

lemma next_id_fresh: "r \<in> set rs \<Longrightarrow> key r < next_id key rs"
  using fold_max_ge [where a = 0 and rs = rs and key = key] by (auto simp: next_id_def)

lemma next_id_pos: "0 < next_id key rs"
  using fold_max_ge [where a = 0 and rs = rs and key = key] by (auto simp: next_id_def)

lemma next_id_not_in: "next_id key rs \<notin> key ` set rs"
  using next_id_fresh by (metis imageE less_irrefl)

lemma sum_from_Some: "sum_from a xs = Some s \<Longrightarrow> s = a + sum_list xs"
  by (induction xs arbitrary: a) (force split: if_splits)+

lemma sum_from_append:
  "sum_from a (xs @ ys) = (case sum_from a xs of None \<Rightarrow> None | Some b \<Rightarrow> sum_from b ys)"
  by (induction xs arbitrary: a) auto

lemma sql_sum_Some: "sql_sum xs = Some s \<Longrightarrow> s = sum_list xs"
  unfolding sql_sum_def by (drule sum_from_Some) simp

lemma sql_sum_snoc:
  "sql_sum xs = Some s \<Longrightarrow> sql_sum (xs @ [x]) = (if in_i64 (s + x) then Some (s + x) else None)"
  by (simp add: sql_sum_def sum_from_append)

lemma sql_sum_Nil [simp]: "sql_sum [] = Some 0"
  by (simp add: sql_sum_def)

lemma sum_from_nonneg:
  "0 \<le> a \<Longrightarrow> \<forall>x \<in> set xs. 0 \<le> x \<Longrightarrow> a + sum_list xs \<le> i64_max \<Longrightarrow>
     sum_from a xs = Some (a + sum_list xs)"
proof (induction xs arbitrary: a)
  case Nil
  then show ?case by simp
next
  case (Cons x xs)
  from Cons.prems have "0 \<le> sum_list xs" by (intro sum_list_nonneg) auto
  with Cons.prems have "in_i64 (a + x)" by (simp add: in_i64_def i64_min_def)
  with Cons.IH [of "a + x"] Cons.prems show ?case by (simp add: add.assoc)
qed

lemma sql_sum_nonneg:
  "\<forall>x \<in> set xs. 0 \<le> x \<Longrightarrow> sum_list xs \<le> i64_max \<Longrightarrow> sql_sum xs = Some (sum_list xs)"
  using sum_from_nonneg [of 0 xs] by (simp add: sql_sum_def)

lemma sum_from_in_i64: "sum_from a xs = Some s \<Longrightarrow> in_i64 a \<Longrightarrow> in_i64 s"
  by (induction xs arbitrary: a) (auto split: if_splits)

lemma in_i64_0 [simp]: "in_i64 0"
  by (simp add: in_i64_def i64_min_def i64_max_def)

lemma sql_sum_in_i64: "sql_sum xs = Some s \<Longrightarrow> in_i64 s"
  unfolding sql_sum_def using sum_from_in_i64 in_i64_0 by blast

end
