(* ===== verification/Domain_Credit.thy ===== *)
theory Domain_Credit
  imports Prelude
begin

text \<open>
  Asset-tagged amounts and the immutable valuation of receipts in sats, the model of
  \<open>src/src/domain/credit.rs\<close>. \<open>asset_amount\<close>, \<open>credit_terms\<close>, \<open>xmr_btc_rate\<close> and \<open>xmr_quote\<close>
  are the code's structs; their fields are private there, so only values made by the smart
  constructors occur, and the predicates \<open>valid_amount\<close>, \<open>valid_terms\<close> and \<open>valid_rate\<close> say
  which those are. The products are computed in \<open>u128\<close> as in the code; that they never wrap is a
  theorem. The last part shows that \<open>assess_update\<close> pays out, over any sequence of growing
  cumulative receipts, exactly the floor of the final total.
\<close>

section \<open>Amounts\<close>

definition MAX_ACCOUNTING_UNITS :: u64 where
  "MAX_ACCOUNTING_UNITS = 9223372036854775807"

definition PICONERO_PER_XMR :: u64 where
  "PICONERO_PER_XMR = 1000000000000"

definition SATS_PER_BTC :: u64 where
  "SATS_PER_BTC = 100000000"

datatype asset = Btc | Xmr

fun atomic_units_per_coin :: "asset \<Rightarrow> u64" where
  "atomic_units_per_coin Btc = SATS_PER_BTC"
| "atomic_units_per_coin Xmr = PICONERO_PER_XMR"

record asset_amount =
  am_asset :: asset
  atomic_units :: u64

datatype credit_error =
    AmountOutOfRange
  | NonBtcNeedsValuation
  | QuoteNotPositive
  | QuoteOutOfRange
  | AssetMismatch
  | CreditMultiplicationOverflow
  | CreditOutOfRange
  | SavedCreditInconsistent
  | EligibleRegressed
  | CreditRegressed
  | RateNotPositive
  | RateSourceInvalid
  | RateTimeNegative
  | QuoteTargetInvalid
  | QuoteLifetimeInvalid
  | RateInFuture
  | RateStale
  | QuoteCalculationOverflow
  | QuotedAmountOutOfRange

definition asset_amount_new :: "asset \<Rightarrow> u64 \<Rightarrow> credit_error + asset_amount" where
  "asset_amount_new a units =
     (if MAX_ACCOUNTING_UNITS < units then Inl AmountOutOfRange
      else Inr \<lparr>am_asset = a, atomic_units = units\<rparr>)"

definition native_sats :: "asset_amount \<Rightarrow> credit_error + u64" where
  "native_sats am =
     (if am_asset am \<noteq> Btc then Inl NonBtcNeedsValuation else Inr (atomic_units am))"

section \<open>Credit terms\<close>

record credit_terms =
  ct_asset :: asset
  expected_atomic :: u64
  target_sats :: u64

definition native_btc :: credit_terms where
  "native_btc = \<lparr>ct_asset = Btc, expected_atomic = 1, target_sats = 1\<rparr>"

definition quoted_xmr :: "u64 \<Rightarrow> u64 \<Rightarrow> credit_error + credit_terms" where
  "quoted_xmr expected target =
     (if expected = 0 \<or> target = 0 then Inl QuoteNotPositive
      else if MAX_ACCOUNTING_UNITS < expected \<or> MAX_ACCOUNTING_UNITS < target
      then Inl QuoteOutOfRange
      else Inr \<lparr>ct_asset = Xmr, expected_atomic = expected, target_sats = target\<rparr>)"

definition cumulative_sats :: "credit_terms \<Rightarrow> asset_amount \<Rightarrow> credit_error + u64" where
  "cumulative_sats t eligible =
     (if am_asset eligible \<noteq> ct_asset t then Inl AssetMismatch
      else andthen
        (ok_or CreditMultiplicationOverflow
          (checked_mul_u128 (ucast (atomic_units eligible)) (ucast (target_sats t))))
        (\<lambda>product. let total = product div ucast (expected_atomic t) in
           if ucast MAX_ACCOUNTING_UNITS < total then Inl CreditOutOfRange
           else Inr (ucast total)))"

record credit_update =
  cumulative_eligible :: asset_amount
  cumulative_credit_sats :: u64
  delta_sats :: u64

definition assess_update ::
  "credit_terms \<Rightarrow> asset_amount \<Rightarrow> u64 \<Rightarrow> asset_amount \<Rightarrow> credit_error + credit_update" where
  "assess_update t previous credited current =
     andthen (cumulative_sats t previous) (\<lambda>previous_total.
     andthen (cumulative_sats t current) (\<lambda>current_total.
       if previous_total \<noteq> credited then Inl SavedCreditInconsistent
       else if atomic_units current < atomic_units previous then Inl EligibleRegressed
       else andthen (ok_or CreditRegressed (checked_sub_u64 current_total previous_total))
         (\<lambda>delta. Inr \<lparr>cumulative_eligible = current, cumulative_credit_sats = current_total,
                       delta_sats = delta\<rparr>)))"

section \<open>Rates and quotes\<close>

record xmr_btc_rate =
  sats_per_xmr_numerator :: u64
  sats_per_xmr_denominator :: u64
  rate_source :: string
  observed_at :: i64

text \<open>The bytes allowed in a rate source: alphanumerics and \<open>-\<close>, \<open>_\<close>, \<open>.\<close>, \<open>:\<close>.\<close>

definition rate_source_byte :: "char \<Rightarrow> bool" where
  "rate_source_byte c \<longleftrightarrow> is_ascii_alphanumeric c \<or> c \<in> set ''-_.:''"

definition xmr_btc_rate_new ::
  "u64 \<Rightarrow> u64 \<Rightarrow> string \<Rightarrow> i64 \<Rightarrow> credit_error + xmr_btc_rate" where
  "xmr_btc_rate_new num den source observed =
     (if num = 0 \<or> den = 0 then Inl RateNotPositive
      else if source = [] \<or> 96 < length source \<or> \<not> list_all rate_source_byte source
      then Inl RateSourceInvalid
      else if observed < 0 then Inl RateTimeNegative
      else Inr \<lparr>sats_per_xmr_numerator = num, sats_per_xmr_denominator = den,
                rate_source = source, observed_at = observed\<rparr>)"

record xmr_quote =
  xq_terms :: credit_terms
  xq_rate :: xmr_btc_rate
  xq_issued_at :: i64
  xq_expires_at :: i64

text \<open>
  \<open>XmrBtcRate::quote\<close>. The cast \<open>(issued_at - observed_at) as u64\<close> is of a nonnegative number
  there (the two timestamps are ordered), which the code's comment says; \<open>word_of_int\<close> is the cast.
\<close>

definition quote_at ::
  "xmr_btc_rate \<Rightarrow> u64 \<Rightarrow> i64 \<Rightarrow> i64 \<Rightarrow> u64 \<Rightarrow> credit_error + xmr_quote" where
  "quote_at rate target issued expires max_rate_age =
     (if target = 0 \<or> MAX_ACCOUNTING_UNITS < target then Inl QuoteTargetInvalid
      else if issued < 0 \<or> expires \<le> issued \<or> max_rate_age = 0 then Inl QuoteLifetimeInvalid
      else if issued < observed_at rate then Inl RateInFuture
      else if max_rate_age < word_of_int (issued - observed_at rate) then Inl RateStale
      else andthen
        (ok_or QuoteCalculationOverflow
          (case checked_mul_u128 (ucast target) (ucast PICONERO_PER_XMR) of
             None \<Rightarrow> None
           | Some n \<Rightarrow> checked_mul_u128 n (ucast (sats_per_xmr_denominator rate))))
        (\<lambda>numerator.
          let denominator = ucast (sats_per_xmr_numerator rate);
              required = numerator div denominator
                + (if numerator mod denominator \<noteq> 0 then 1 else 0) in
          if ucast MAX_ACCOUNTING_UNITS < required then Inl QuotedAmountOutOfRange
          else andthen (quoted_xmr (ucast required) target)
            (\<lambda>terms. Inr \<lparr>xq_terms = terms, xq_rate = rate, xq_issued_at = issued,
                          xq_expires_at = expires\<rparr>)))"

definition accepts_first_seen_at :: "xmr_quote \<Rightarrow> i64 \<Rightarrow> bool" where
  "accepts_first_seen_at q first_seen \<longleftrightarrow>
     xq_issued_at q \<le> first_seen \<and> first_seen < xq_expires_at q"

section \<open>What the smart constructors establish\<close>

definition valid_amount :: "asset_amount \<Rightarrow> bool" where
  "valid_amount am \<longleftrightarrow> atomic_units am \<le> MAX_ACCOUNTING_UNITS"

definition valid_terms :: "credit_terms \<Rightarrow> bool" where
  "valid_terms t \<longleftrightarrow> 0 < expected_atomic t \<and> expected_atomic t \<le> MAX_ACCOUNTING_UNITS
     \<and> 0 < target_sats t \<and> target_sats t \<le> MAX_ACCOUNTING_UNITS
     \<and> (ct_asset t = Btc \<longrightarrow> expected_atomic t = 1 \<and> target_sats t = 1)"

definition valid_rate :: "xmr_btc_rate \<Rightarrow> bool" where
  "valid_rate r \<longleftrightarrow> 0 < sats_per_xmr_numerator r \<and> 0 < sats_per_xmr_denominator r
     \<and> 0 \<le> observed_at r \<and> observed_at r \<le> i64_max"

lemma asset_amount_new_Inr:
  "asset_amount_new a u = Inr am \<longleftrightarrow>
     u \<le> MAX_ACCOUNTING_UNITS \<and> am = \<lparr>am_asset = a, atomic_units = u\<rparr>"
  by (auto simp: asset_amount_new_def not_less)

lemma asset_amount_new_valid: "asset_amount_new a u = Inr am \<Longrightarrow> valid_amount am"
  by (auto simp: asset_amount_new_Inr valid_amount_def)

lemma native_btc_valid [simp]: "valid_terms native_btc"
  by (simp add: native_btc_def valid_terms_def MAX_ACCOUNTING_UNITS_def)

lemma quoted_xmr_Inr:
  "quoted_xmr e s = Inr t \<longleftrightarrow> e \<noteq> 0 \<and> s \<noteq> 0 \<and> e \<le> MAX_ACCOUNTING_UNITS
     \<and> s \<le> MAX_ACCOUNTING_UNITS
     \<and> t = \<lparr>ct_asset = Xmr, expected_atomic = e, target_sats = s\<rparr>"
  by (auto simp: quoted_xmr_def not_less)

lemma quoted_xmr_valid: "quoted_xmr e s = Inr t \<Longrightarrow> valid_terms t"
  by (auto simp: quoted_xmr_Inr valid_terms_def word_neq_0_conv)

section \<open>The valuation is a floor that never overflows\<close>

lemma unat_MAX: "unat MAX_ACCOUNTING_UNITS = 9223372036854775807"
  by (simp add: MAX_ACCOUNTING_UNITS_def)

lemma uint_MAX: "uint MAX_ACCOUNTING_UNITS = i64_max"
  by (simp add: MAX_ACCOUNTING_UNITS_def i64_max_def)

lemma unat_ucast_64_128 [simp]: "unat (ucast (w :: u64) :: u128) = unat w"
  by transfer (simp add: take_bit_take_bit min_def)

lemma unat_ucast_128_64: "unat (w :: u128) < 2 ^ 64 \<Longrightarrow> unat (ucast w :: u64) = unat w"
  by (simp add: unsigned_ucast_eq take_bit_nat_eq_self)

lemma checked_mul_u128_Some:
  "unat a * unat b < 2 ^ 128 \<Longrightarrow> checked_mul_u128 a b = Some (a * b)
    \<and> unat (a * b) = unat a * unat b"
  by (simp add: checked_mul_u128_def unat_word_ariths)

lemma u64_product_fits:
  "unat (a :: u64) * unat (b :: u64) < 2 ^ 128"
proof -
  have "unat a * unat b < 2 ^ 64 * 2 ^ 64"
    using unsigned_less [of a] unsigned_less [of b] by (intro mult_strict_mono) auto
  then show ?thesis by simp
qed

text \<open>The valuation as arithmetic: the error \<open>CreditMultiplicationOverflow\<close> is dead code.\<close>

definition floor_sats :: "credit_terms \<Rightarrow> u64 \<Rightarrow> nat" where
  "floor_sats t units = unat units * unat (target_sats t) div unat (expected_atomic t)"

lemma cumulative_sats_eq:
  "cumulative_sats t am =
     (if am_asset am \<noteq> ct_asset t then Inl AssetMismatch
      else if 9223372036854775807 < floor_sats t (atomic_units am) then Inl CreditOutOfRange
      else Inr (of_nat (floor_sats t (atomic_units am))))"
proof (cases "am_asset am = ct_asset t")
  case False
  then show ?thesis by (simp add: cumulative_sats_def)
next
  case True
  let ?a = "ucast (atomic_units am) :: u128" and ?b = "ucast (target_sats t) :: u128"
  let ?q = "?a * ?b div (ucast (expected_atomic t) :: u128)"
  have mul: "checked_mul_u128 ?a ?b = Some (?a * ?b)" "unat (?a * ?b) = unat ?a * unat ?b"
    using checked_mul_u128_Some [of ?a ?b] u64_product_fits by simp_all
  have q: "unat ?q = floor_sats t (atomic_units am)"
    by (simp add: unat_div_distrib mul(2) floor_sats_def)
  have less: "(ucast MAX_ACCOUNTING_UNITS :: u128) < ?q
      \<longleftrightarrow> 9223372036854775807 < floor_sats t (atomic_units am)"
    by (simp add: word_less_nat_alt q unat_MAX)
  have cast: "ucast ?q = (of_nat (floor_sats t (atomic_units am)) :: u64)"
    by (metis q of_nat_unat)
  from True show ?thesis
    by (simp add: cumulative_sats_def mul(1) Let_def less cast del: ucast_id)
qed

lemma floor_sats_mono: "a \<le> b \<Longrightarrow> floor_sats t a \<le> floor_sats t b"
  by (simp add: floor_sats_def div_le_mono word_le_nat_alt)

lemma unat_of_nat_MAX: "n \<le> 9223372036854775807 \<Longrightarrow> unat (of_nat n :: u64) = n"
  by (simp add: unat_of_nat take_bit_nat_eq_self)

lemma u64_of_unat: "unat (c :: u64) = n \<Longrightarrow> c = of_nat n"
  by auto

lemma cumulative_sats_Inr:
  "cumulative_sats t am = Inr c \<longleftrightarrow> am_asset am = ct_asset t
     \<and> floor_sats t (atomic_units am) \<le> 9223372036854775807
     \<and> c = of_nat (floor_sats t (atomic_units am))"
  by (auto simp: cumulative_sats_eq)

lemma cumulative_sats_unat:
  "cumulative_sats t am = Inr c \<Longrightarrow> unat c = floor_sats t (atomic_units am)"
  by (auto simp: cumulative_sats_Inr unat_of_nat_MAX)

lemma assess_update_Inr:
  "assess_update t p credited c = Inr u \<longleftrightarrow>
     cumulative_sats t p = Inr credited \<and> atomic_units p \<le> atomic_units c
     \<and> cumulative_sats t c = Inr (cumulative_credit_sats u)
     \<and> u = \<lparr>cumulative_eligible = c, cumulative_credit_sats = cumulative_credit_sats u,
            delta_sats = cumulative_credit_sats u - credited\<rparr>"
proof -
  have le: "credited \<le> total" if "cumulative_sats t p = Inr credited"
    "cumulative_sats t c = Inr total" "atomic_units p \<le> atomic_units c" for total
    using cumulative_sats_unat [OF that(1)] cumulative_sats_unat [OF that(2)]
      floor_sats_mono [OF that(3)] by (simp add: word_le_nat_alt)
  show ?thesis
    by (cases u)
      (auto simp: assess_update_def res_simps checked_sub_u64_Some not_less dest: le
        split: if_splits)
qed

lemma assess_update_delta:
  assumes "assess_update t p credited c = Inr u"
  shows "unat (delta_sats u)
    = floor_sats t (atomic_units c) - floor_sats t (atomic_units p)"
    and "cumulative_sats t c = Inr (cumulative_credit_sats u)"
    and "cumulative_eligible u = c" and "atomic_units p \<le> atomic_units c"
proof -
  from assms have *: "cumulative_sats t p = Inr credited" "atomic_units p \<le> atomic_units c"
    "cumulative_sats t c = Inr (cumulative_credit_sats u)"
    "delta_sats u = cumulative_credit_sats u - credited" "cumulative_eligible u = c"
    unfolding assess_update_Inr by (metis credit_update.select_convs)+
  have "credited \<le> cumulative_credit_sats u"
    using cumulative_sats_unat [OF *(1)] cumulative_sats_unat [OF *(3)]
      floor_sats_mono [OF *(2)] by (simp add: word_le_nat_alt)
  with * show "unat (delta_sats u)
      = floor_sats t (atomic_units c) - floor_sats t (atomic_units p)"
    by (simp add: unat_sub cumulative_sats_unat)
  from * show "cumulative_sats t c = Inr (cumulative_credit_sats u)"
    and "cumulative_eligible u = c" and "atomic_units p \<le> atomic_units c" by auto
qed

text \<open>
  An adapter's use of \<open>assess_update\<close>: the new cumulative totals arrive one after another, each
  update starts from the totals the previous one saved, and the deltas are paid out.
\<close>

fun assess_all ::
  "credit_terms \<Rightarrow> asset_amount \<Rightarrow> u64 \<Rightarrow> asset_amount list \<Rightarrow> credit_error + u64 list" where
  "assess_all t previous credited [] = Inr []"
| "assess_all t previous credited (c # cs) =
     andthen (assess_update t previous credited c) (\<lambda>u.
     andthen (assess_all t (cumulative_eligible u) (cumulative_credit_sats u) cs) (\<lambda>ds.
       Inr (delta_sats u # ds)))"

lemma assess_all_sum:
  "assess_all t p credited cs = Inr ds \<Longrightarrow>
     sum_list (map unat ds)
       = floor_sats t (atomic_units (last (p # cs))) - floor_sats t (atomic_units p)
     \<and> atomic_units p \<le> atomic_units (last (p # cs))"
proof (induction cs arbitrary: p credited ds)
  case Nil
  then show ?case by simp
next
  case (Cons c cs)
  from Cons.prems obtain u ds' where u: "assess_update t p credited c = Inr u"
    and all: "assess_all t c (cumulative_credit_sats u) cs = Inr ds'"
    and ds: "ds = delta_sats u # ds'"
    by (auto simp: res_simps assess_update_delta(3))
  note d = assess_update_delta [OF u]
  from Cons.IH [OF all] have
    "sum_list (map unat ds') = floor_sats t (atomic_units (last (c # cs)))
       - floor_sats t (atomic_units c)"
    and ge: "atomic_units c \<le> atomic_units (last (c # cs))" by auto
  with d(1) floor_sats_mono [OF d(4), of t] floor_sats_mono [OF ge, of t] d(4)
  show ?case by (auto simp: ds)
qed

lemma assess_all_total:
  assumes "sorted (map atomic_units (p # cs))"
    and "\<forall>c \<in> set (p # cs). am_asset c = ct_asset t"
    and "floor_sats t (atomic_units (last (p # cs))) \<le> 9223372036854775807"
    and "cumulative_sats t p = Inr credited"
  shows "\<exists>ds. assess_all t p credited cs = Inr ds"
  using assms
proof (induction cs arbitrary: p credited)
  case Nil
  then show ?case by simp
next
  case (Cons c cs)
  have pc: "atomic_units p \<le> atomic_units c" using Cons.prems(1) by simp
  have "atomic_units c \<le> atomic_units (last (c # cs))"
    using Cons.prems(1) by (cases cs rule: rev_cases) auto
  then have "floor_sats t (atomic_units c) \<le> floor_sats t (atomic_units (last (c # cs)))"
    by (rule floor_sats_mono)
  also have "\<dots> \<le> 9223372036854775807"
    using Cons.prems(3) by simp
  finally have "floor_sats t (atomic_units c) \<le> 9223372036854775807" .
  moreover have "am_asset c = ct_asset t" using Cons.prems(2) by simp
  ultimately obtain total where total: "cumulative_sats t c = Inr total"
    using cumulative_sats_Inr by blast
  have u: "assess_update t p credited c
      = Inr \<lparr>cumulative_eligible = c, cumulative_credit_sats = total,
            delta_sats = total - credited\<rparr>"
    using Cons.prems(4) pc total by (simp add: assess_update_Inr)
  have "\<exists>ds. assess_all t c total cs = Inr ds"
    using Cons.prems total by (intro Cons.IH) auto
  then show ?case by (auto simp: u)
qed

section \<open>A quote is the least amount that covers its target\<close>

text \<open>The ceiling division of \<open>quote_at\<close>, over the naturals.\<close>

definition ceil_div :: "nat \<Rightarrow> nat \<Rightarrow> nat" where
  "ceil_div n d = n div d + (if n mod d \<noteq> 0 then 1 else 0)"

lemma ceil_div_least: "0 < d \<Longrightarrow> ceil_div n d \<le> k \<longleftrightarrow> n \<le> k * d"
proof -
  assume d: "0 < d"
  show ?thesis
  proof (cases "n mod d = 0")
    case True
    then obtain m where "n = d * m" by auto
    with d show ?thesis by (simp add: ceil_div_def mult.commute)
  next
    case False
    then have "n \<noteq> k * d" by auto
    then have "n div d < k \<longleftrightarrow> n \<le> k * d"
      by (simp add: div_less_iff_less_mult [OF d] le_less)
    with False show ?thesis by (simp add: ceil_div_def Suc_le_eq)
  qed
qed

lemma unat_required:
  fixes n d :: u128
  assumes "0 < d"
  shows "unat (n div d + (if n mod d \<noteq> 0 then 1 else 0)) = ceil_div (unat n) (unat d)"
proof (cases "n mod d = 0")
  case True
  then have "unat n mod unat d = 0" by (metis unat_mod_distrib unat_0)
  with True show ?thesis by (simp add: ceil_div_def unat_div_distrib)
next
  case False
  then have m: "unat n mod unat d \<noteq> 0" by (metis unat_mod_distrib unat_eq_zero)
  have "unat d \<noteq> 1"
  proof
    assume "unat d = 1"
    with m show False by simp
  qed
  moreover have "0 < unat d" using assms by (simp add: unat_gt_0)
  ultimately have "unat n div unat d < unat n" using m by (intro div_less_dividend) (auto intro: gr0I)
  then have "unat n div unat d + 1 < 2 ^ 128"
    using unsigned_less [of n, where ?'a = nat] by simp
  with False m show ?thesis
    by (simp add: ceil_div_def unat_word_ariths unat_div_distrib)
qed

definition quote_numerator :: "xmr_btc_rate \<Rightarrow> u64 \<Rightarrow> nat" where
  "quote_numerator r target =
     unat target * 1000000000000 * unat (sats_per_xmr_denominator r)"

lemma word_of_int_le_age:
  assumes "0 \<le> d" "d \<le> i64_max"
  shows "age < (word_of_int d :: u64) \<longleftrightarrow> uint age < d"
  using assms by (simp add: word_less_uint uint_word_of_int_i64)

lemma quote_multiplication:
  assumes "target \<le> MAX_ACCOUNTING_UNITS"
  shows "(case checked_mul_u128 (ucast target) (ucast PICONERO_PER_XMR) of None \<Rightarrow> None
      | Some n \<Rightarrow> checked_mul_u128 n (ucast (sats_per_xmr_denominator r)))
    = (if quote_numerator r target < 2 ^ 128
       then Some (of_nat (quote_numerator r target)) else None)"
proof -
  have pico: "unat (ucast PICONERO_PER_XMR :: u128) = 1000000000000"
    by (simp add: PICONERO_PER_XMR_def)
  let ?n = "ucast target * ucast PICONERO_PER_XMR :: u128"
  let ?d = "ucast (sats_per_xmr_denominator r) :: u128"
  have "unat target \<le> 9223372036854775807"
    using assms by (simp add: word_le_nat_alt unat_MAX)
  then have fits: "unat (ucast target :: u128) * unat (ucast PICONERO_PER_XMR :: u128) < 2 ^ 128"
    by (simp add: PICONERO_PER_XMR_def)
  have n: "unat ?n = unat target * 1000000000000"
    using checked_mul_u128_Some [OF fits] pico by simp
  have "?n * ?d = of_nat (unat ?n * unat ?d)"
    by (simp only: of_nat_mult of_nat_unat ucast_id)
  then have "?n * ?d = of_nat (quote_numerator r target)"
    by (simp only: n quote_numerator_def unat_ucast_64_128)
  with fits n show ?thesis
    by (simp add: checked_mul_u128_def quote_numerator_def)
qed

lemma quote_at_Inr:
  assumes "valid_rate r" and "issued \<le> i64_max"
  shows "quote_at r target issued expires age = Inr q \<longleftrightarrow>
    target \<noteq> 0 \<and> target \<le> MAX_ACCOUNTING_UNITS \<and> 0 \<le> issued \<and> issued < expires \<and> age \<noteq> 0
    \<and> observed_at r \<le> issued \<and> issued - observed_at r \<le> uint age
    \<and> quote_numerator r target < 2 ^ 128
    \<and> ceil_div (quote_numerator r target) (unat (sats_per_xmr_numerator r))
        \<le> 9223372036854775807
    \<and> q = \<lparr>xq_terms = \<lparr>ct_asset = Xmr,
             expected_atomic =
               of_nat (ceil_div (quote_numerator r target) (unat (sats_per_xmr_numerator r))),
             target_sats = target\<rparr>,
           xq_rate = r, xq_issued_at = issued, xq_expires_at = expires\<rparr>"
    (is "?lhs \<longleftrightarrow> ?rhs")
proof (cases "target \<noteq> 0 \<and> target \<le> MAX_ACCOUNTING_UNITS \<and> 0 \<le> issued \<and> issued < expires
    \<and> age \<noteq> 0 \<and> observed_at r \<le> issued \<and> issued - observed_at r \<le> uint age
    \<and> quote_numerator r target < 2 ^ 128")
  case guards: True
  define n :: u128 where "n = of_nat (quote_numerator r target)"
  define d :: u128 where "d = ucast (sats_per_xmr_numerator r)"
  define c where "c = ceil_div (quote_numerator r target) (unat (sats_per_xmr_numerator r))"
  define w where "w = n div d + (if n mod d \<noteq> 0 then 1 else 0)"
  have num: "0 < quote_numerator r target" "0 < unat (sats_per_xmr_numerator r)"
    using assms(1) guards by (auto simp: quote_numerator_def valid_rate_def unat_gt_0)
  have un: "unat n = quote_numerator r target"
    using guards by (simp add: n_def unat_of_nat take_bit_nat_eq_self)
  have ud: "unat d = unat (sats_per_xmr_numerator r)" by (simp add: d_def)
  then have "0 < d" using num(2) by (simp add: word_less_nat_alt)
  then have w: "unat w = c" unfolding w_def c_def by (simp add: unat_required un ud)
  have c0: "c \<noteq> 0" using ceil_div_least [OF num(2), of "quote_numerator r target" 0] num(1)
    by (auto simp: c_def)
  have big: "(ucast MAX_ACCOUNTING_UNITS :: u128) < w \<longleftrightarrow> 9223372036854775807 < c"
    by (simp add: word_less_nat_alt w unat_MAX)
  have cast: "(ucast w :: u64) = of_nat c" using w by (metis of_nat_unat)
  have terms: "quoted_xmr (of_nat c) target
      = Inr \<lparr>ct_asset = Xmr, expected_atomic = of_nat c, target_sats = target\<rparr>"
    if "c \<le> 9223372036854775807"
  proof -
    have "unat (of_nat c :: u64) = c" using that by (rule unat_of_nat_MAX)
    then have "(of_nat c :: u64) \<noteq> 0" "(of_nat c :: u64) \<le> MAX_ACCOUNTING_UNITS"
      using c0 that by (auto simp: word_le_nat_alt unat_MAX)
    with guards show ?thesis by (simp add: quoted_xmr_Inr)
  qed
  have age: "\<not> age < word_of_int (issued - observed_at r)"
    using guards assms by (simp add: word_of_int_le_age valid_rate_def del: of_int_diff)
  have mul: "(case checked_mul_u128 (ucast target) (ucast PICONERO_PER_XMR) of None \<Rightarrow> None
      | Some n \<Rightarrow> checked_mul_u128 n (ucast (sats_per_xmr_denominator r))) = Some n"
    using guards by (simp add: quote_multiplication n_def)
  have "quote_at r target issued expires age =
      (if ucast MAX_ACCOUNTING_UNITS < w then Inl QuotedAmountOutOfRange
       else andthen (quoted_xmr (ucast w) target)
            (\<lambda>terms. Inr \<lparr>xq_terms = terms, xq_rate = r, xq_issued_at = issued,
                          xq_expires_at = expires\<rparr>))"
    unfolding quote_at_def mul ok_or_simps andthen_simps Let_def d_def [symmetric]
      w_def [symmetric] using guards age by (simp add: leD del: of_int_diff)
  with guards terms show ?thesis
    by (auto simp: big cast c_def [symmetric])
next
  case False
  then have "\<not> ?rhs" by blast
  moreover have "\<not> ?lhs"
    using False assms
    by (auto simp: quote_at_def quote_multiplication word_of_int_le_age valid_rate_def not_less
        simp del: of_int_diff split: if_splits)
  ultimately show ?thesis by blast
qed

section \<open>Properties\<close>

text \<open>
  C37: Over any sequence of growing cumulative receipts of the right asset whose final value fits
  the accounting range, every update succeeds and the deltas paid out add up to exactly the floor
  of the final total less the floor of the starting one, however the receipts were split.
\<close>

theorem assess_update_pays_the_floor:
  assumes "sorted (map atomic_units (p # cs))"
    and "\<forall>c \<in> set (p # cs). am_asset c = ct_asset t"
    and "floor_sats t (atomic_units (last (p # cs))) \<le> 9223372036854775807"
    and "cumulative_sats t p = Inr credited"
  shows "\<exists>ds. assess_all t p credited cs = Inr ds
    \<and> sum_list (map unat ds)
        = floor_sats t (atomic_units (last (p # cs))) - floor_sats t (atomic_units p)"
  using assess_all_total [OF assms] assess_all_sum by blast

definition piconero_amounts :: "u64 list \<Rightarrow> asset_amount list" where
  "piconero_amounts = map (\<lambda>n. \<lparr>am_asset = Xmr, atomic_units = n\<rparr>)"

theorem assess_update_pays_the_floor_witness:
  "\<exists>ds. assess_all \<lparr>ct_asset = Xmr, expected_atomic = 3, target_sats = 10\<rparr>
       \<lparr>am_asset = Xmr, atomic_units = 0\<rparr> 0 (piconero_amounts [1, 1, 2, 3]) = Inr ds
     \<and> sum_list (map unat ds) = 10"
  using assess_update_pays_the_floor
    [of "\<lparr>am_asset = Xmr, atomic_units = 0\<rparr>" "piconero_amounts [1, 1, 2, 3]"
      "\<lparr>ct_asset = Xmr, expected_atomic = 3, target_sats = 10\<rparr>" 0]
  by (simp add: piconero_amounts_def floor_sats_def cumulative_sats_eq)

text \<open>
  The valuation of an eligible amount is the floor of \<open>atomic * target / expected\<close>: the
  \<open>u128\<close> product never overflows, so the only refusals are a foreign asset and a total beyond the
  accounting range. Paying the expected amount gives exactly the target, and paying less never
  gives more.
\<close>

theorem valuation_is_a_floor:
  assumes "valid_terms t"
  shows "cumulative_sats t am \<noteq> Inl CreditMultiplicationOverflow
    \<and> (cumulative_sats t am = Inr c \<longleftrightarrow> am_asset am = ct_asset t
         \<and> unat c = unat (atomic_units am) * unat (target_sats t) div unat (expected_atomic t)
         \<and> c \<le> MAX_ACCOUNTING_UNITS)
    \<and> cumulative_sats t \<lparr>am_asset = ct_asset t, atomic_units = expected_atomic t\<rparr>
        = Inr (target_sats t)
    \<and> (cumulative_sats t am = Inr c \<and> atomic_units am \<le> expected_atomic t
         \<longrightarrow> c \<le> target_sats t)"
proof -
  have e: "0 < unat (expected_atomic t)" and s: "unat (target_sats t) \<le> 9223372036854775807"
    using assms by (auto simp: valid_terms_def word_le_nat_alt word_less_nat_alt unat_MAX)
  then have exact: "floor_sats t (expected_atomic t) = unat (target_sats t)"
    by (simp add: floor_sats_def)
  have "c \<le> target_sats t"
    if "cumulative_sats t am = Inr c" "atomic_units am \<le> expected_atomic t"
    using cumulative_sats_unat [OF that(1)] floor_sats_mono [OF that(2), of t] exact
    by (simp add: word_le_nat_alt)
  moreover have "cumulative_sats t am = Inr c \<longleftrightarrow> am_asset am = ct_asset t
      \<and> unat c = floor_sats t (atomic_units am) \<and> c \<le> MAX_ACCOUNTING_UNITS"
    using cumulative_sats_unat [of t am c]
    by (auto simp: cumulative_sats_Inr word_le_nat_alt unat_MAX dest: u64_of_unat)
  ultimately show ?thesis
    using s exact by (auto simp: cumulative_sats_eq floor_sats_def)
qed

theorem valuation_is_a_floor_witness:
  "cumulative_sats native_btc \<lparr>am_asset = Btc, atomic_units = 7\<rparr> = Inr 7"
  using valuation_is_a_floor
    [OF native_btc_valid, of "\<lparr>am_asset = Btc, atomic_units = 7\<rparr>" 7]
  by (simp add: native_btc_def MAX_ACCOUNTING_UNITS_def)

text \<open>
  A quote asks for the least number of piconero whose value at the locked rate covers the
  target, is worth exactly the target when paid, is only issued on a fresh rate observation, and
  accepts precisely the receipts first seen in its lifetime.
\<close>

theorem quote_is_the_least_amount:
  assumes "valid_rate r" and "issued \<le> i64_max"
    and "quote_at r target issued expires age = Inr q"
  shows "(\<forall>k. unat (expected_atomic (xq_terms q)) \<le> k \<longleftrightarrow>
            unat target * 1000000000000 * unat (sats_per_xmr_denominator r)
              \<le> k * unat (sats_per_xmr_numerator r))
    \<and> valid_terms (xq_terms q)
    \<and> cumulative_sats (xq_terms q)
        \<lparr>am_asset = Xmr, atomic_units = expected_atomic (xq_terms q)\<rparr> = Inr target
    \<and> observed_at r \<le> issued \<and> issued \<le> observed_at r + uint age
    \<and> (accepts_first_seen_at q s \<longleftrightarrow> issued \<le> s \<and> s < expires)"
proof -
  let ?c = "ceil_div (quote_numerator r target) (unat (sats_per_xmr_numerator r))"
  note q = assms(3) [unfolded quote_at_Inr [OF assms(1,2)]]
  then have c: "unat (of_nat ?c :: u64) = ?c" by (blast intro: unat_of_nat_MAX)
  have d: "0 < unat (sats_per_xmr_numerator r)"
    using assms(1) by (simp add: valid_rate_def word_less_nat_alt)
  have t: "0 < unat target" "unat target \<le> 9223372036854775807"
    using q by (auto simp: word_le_nat_alt unat_MAX unat_gt_0)
  have "0 < quote_numerator r target"
    using assms(1) t by (simp add: quote_numerator_def valid_rate_def word_less_nat_alt)
  then have c0: "0 < ?c"
    using ceil_div_least [OF d, of "quote_numerator r target" 0] by simp
  then have "floor_sats (xq_terms q) (of_nat ?c) = unat target"
    using q c by (simp add: floor_sats_def)
  with q c c0 t have valid: "valid_terms (xq_terms q)"
    and exact: "cumulative_sats (xq_terms q)
        \<lparr>am_asset = Xmr, atomic_units = expected_atomic (xq_terms q)\<rparr> = Inr target"
    by (auto simp: valid_terms_def cumulative_sats_eq word_le_nat_alt word_less_nat_alt unat_MAX
        simp del: unat_of_nat)
  from q have least: "unat (expected_atomic (xq_terms q)) \<le> k \<longleftrightarrow>
      unat target * 1000000000000 * unat (sats_per_xmr_denominator r)
        \<le> k * unat (sats_per_xmr_numerator r)" for k
    using ceil_div_least [OF d, of "quote_numerator r target" k] c
    by (simp add: quote_numerator_def del: unat_of_nat)
  from q have times: "observed_at r \<le> issued" "issued \<le> observed_at r + uint age"
    "xq_issued_at q = issued" "xq_expires_at q = expires" by auto
  with least valid exact show ?thesis
    unfolding accepts_first_seen_at_def by blast
qed

theorem quote_is_the_least_amount_witness:
  "(\<forall>k. unat (expected_atomic (xq_terms
      (projr (quote_at \<lparr>sats_per_xmr_numerator = 300000, sats_per_xmr_denominator = 1,
         rate_source = ''test'', observed_at = 90\<rparr> 1000 100 200 60)))) \<le> k
       \<longleftrightarrow> 1000000000000000 \<le> k * 300000)"
proof -
  let ?r = "\<lparr>sats_per_xmr_numerator = 300000, sats_per_xmr_denominator = 1,
         rate_source = ''test'', observed_at = 90\<rparr>"
  have "\<exists>q. quote_at ?r 1000 100 200 60 = Inr q"
    by (simp add: quote_at_Inr valid_rate_def i64_max_def MAX_ACCOUNTING_UNITS_def
        quote_numerator_def ceil_div_def)
  then obtain q where q: "quote_at ?r 1000 100 200 60 = Inr q" ..
  show ?thesis
    using quote_is_the_least_amount [OF _ _ q] by (simp add: q valid_rate_def i64_max_def)
qed

end
