(* ===== verification/Domain_Feed.thy ===== *)
theory Domain_Feed
  imports Prelude
begin

text \<open>
  The in-memory feed accounting of \<open>src/src/domain/feed.rs\<close>: a \<open>FeedLedger\<close> (threshold and
  credit in sats) and a \<open>FeedRuntime\<close> that adds the single active attempt. A method taking
  \<open>&mut self\<close> becomes a function to the new state; where the code returns an \<open>Err\<close> it has not
  yet assigned, so an \<open>Inl\<close> leaves the state as it was. \<open>Uuid::new_v4()\<close> is the parameter \<open>fresh\<close>.
  The fields are private in the code; the invariant \<open>runtime_inv\<close> holds of every runtime the
  public methods can build, and this type is the abstract specification that the SQL feed ledger
  refines (theory \<open>Ledger_Feed\<close>).
\<close>

section \<open>The ledger\<close>

datatype feed_error =
    ZeroThreshold
  | CreditOverflow
  | NoFeedDue
  | OverrideEnabled
  | AttemptAlreadyActive
  | NoActiveAttempt
  | AttemptIdMismatch
  | InvalidAttemptState

fun feed_error_message :: "feed_error \<Rightarrow> string" where
  "feed_error_message ZeroThreshold = ''feeder threshold must be greater than zero''"
| "feed_error_message CreditOverflow = ''feed credit overflow''"
| "feed_error_message NoFeedDue = ''no feed is due''"
| "feed_error_message OverrideEnabled = ''automatic feeding is blocked by FeederOverride''"
| "feed_error_message AttemptAlreadyActive = ''a feed attempt is already active''"
| "feed_error_message NoActiveAttempt = ''no feed attempt is active''"
| "feed_error_message AttemptIdMismatch =
     ''feed attempt id does not match the active attempt''"
| "feed_error_message InvalidAttemptState =
     ''feed attempt is in an invalid state for this transition''"

record feed_ledger =
  threshold_sats :: u64
  credit_sats :: u64

definition feed_ledger_new :: "u64 \<Rightarrow> feed_error + feed_ledger" where
  "feed_ledger_new threshold =
     (if threshold = 0 then Inl ZeroThreshold
      else Inr \<lparr>threshold_sats = threshold, credit_sats = 0\<rparr>)"

definition with_credit :: "u64 \<Rightarrow> u64 \<Rightarrow> feed_error + feed_ledger" where
  "with_credit threshold credit =
     andthen (feed_ledger_new threshold) (\<lambda>l. Inr (l\<lparr>credit_sats := credit\<rparr>))"

definition ledger_credit :: "u64 \<Rightarrow> feed_ledger \<Rightarrow> feed_error + feed_ledger" where
  "ledger_credit amount l =
     andthen (ok_or CreditOverflow (checked_add_u64 (credit_sats l) amount))
       (\<lambda>c. Inr (l\<lparr>credit_sats := c\<rparr>))"

definition debit_confirmed_feed :: "feed_ledger \<Rightarrow> feed_error + feed_ledger" where
  "debit_confirmed_feed l =
     (if credit_sats l < threshold_sats l then Inl NoFeedDue
      else Inr (l\<lparr>credit_sats := credit_sats l - threshold_sats l\<rparr>))"

definition feeds_due :: "feed_ledger \<Rightarrow> u64" where
  "feeds_due l = credit_sats l div threshold_sats l"

definition remainder_sats :: "feed_ledger \<Rightarrow> u64" where
  "remainder_sats l = credit_sats l mod threshold_sats l"

section \<open>The runtime\<close>

datatype feed_attempt_status = IntentCommitted | Unknown

record feed_attempt =
  attempt_id :: uuid
  attempt_status :: feed_attempt_status

record feed_runtime =
  rt_ledger :: feed_ledger
  active_attempt :: "feed_attempt option"

definition feed_runtime_new :: "feed_ledger \<Rightarrow> feed_runtime" where
  "feed_runtime_new l = \<lparr>rt_ledger = l, active_attempt = None\<rparr>"

definition runtime_credit :: "u64 \<Rightarrow> feed_runtime \<Rightarrow> feed_error + feed_runtime" where
  "runtime_credit amount rt =
     andthen (ledger_credit amount (rt_ledger rt)) (\<lambda>l. Inr (rt\<lparr>rt_ledger := l\<rparr>))"

definition begin_next_feed ::
  "bool \<Rightarrow> uuid \<Rightarrow> feed_runtime \<Rightarrow> feed_error + (feed_attempt \<times> feed_runtime)" where
  "begin_next_feed override_enabled fresh rt =
     (if override_enabled then Inl OverrideEnabled
      else if active_attempt rt \<noteq> None then Inl AttemptAlreadyActive
      else if feeds_due (rt_ledger rt) = 0 then Inl NoFeedDue
      else let attempt = \<lparr>attempt_id = fresh, attempt_status = IntentCommitted\<rparr>
           in Inr (attempt, rt\<lparr>active_attempt := Some attempt\<rparr>))"

definition require_attempt ::
  "uuid \<Rightarrow> feed_attempt_status \<Rightarrow> feed_runtime \<Rightarrow> feed_error + unit" where
  "require_attempt aid expected rt =
     (case active_attempt rt of
        Some a \<Rightarrow> if attempt_id a = aid \<and> attempt_status a = expected then Inr ()
                  else if attempt_id a \<noteq> aid then Inl AttemptIdMismatch
                  else Inl InvalidAttemptState
      | None \<Rightarrow> Inl NoActiveAttempt)"

definition confirm_feed :: "uuid \<Rightarrow> feed_runtime \<Rightarrow> feed_error + feed_runtime" where
  "confirm_feed aid rt =
     andthen (require_attempt aid IntentCommitted rt) (\<lambda>_.
     andthen (debit_confirmed_feed (rt_ledger rt)) (\<lambda>l.
       Inr (rt\<lparr>rt_ledger := l, active_attempt := None\<rparr>)))"

definition mark_feed_unknown :: "uuid \<Rightarrow> feed_runtime \<Rightarrow> feed_error + feed_runtime" where
  "mark_feed_unknown aid rt =
     andthen (require_attempt aid IntentCommitted rt) (\<lambda>_.
       Inr (rt\<lparr>active_attempt := Some \<lparr>attempt_id = aid, attempt_status = Unknown\<rparr>\<rparr>))"

definition reconcile_unknown_as_fed :: "uuid \<Rightarrow> feed_runtime \<Rightarrow> feed_error + feed_runtime" where
  "reconcile_unknown_as_fed aid rt =
     andthen (require_attempt aid Unknown rt) (\<lambda>_.
     andthen (debit_confirmed_feed (rt_ledger rt)) (\<lambda>l.
       Inr (rt\<lparr>rt_ledger := l, active_attempt := None\<rparr>)))"

definition reconcile_unknown_as_not_fed ::
  "uuid \<Rightarrow> feed_runtime \<Rightarrow> feed_error + feed_runtime" where
  "reconcile_unknown_as_not_fed aid rt =
     andthen (require_attempt aid Unknown rt) (\<lambda>_. Inr (rt\<lparr>active_attempt := None\<rparr>))"

section \<open>The invariant\<close>

definition ledger_inv :: "feed_ledger \<Rightarrow> bool" where
  "ledger_inv l \<longleftrightarrow> 0 < threshold_sats l"

definition runtime_inv :: "feed_runtime \<Rightarrow> bool" where
  "runtime_inv rt \<longleftrightarrow> ledger_inv (rt_ledger rt)
     \<and> (active_attempt rt \<noteq> None \<longrightarrow> threshold_sats (rt_ledger rt) \<le> credit_sats (rt_ledger rt))"

lemma feed_ledger_new_Inr:
  "feed_ledger_new t = Inr l \<longleftrightarrow> t \<noteq> 0 \<and> l = \<lparr>threshold_sats = t, credit_sats = 0\<rparr>"
  by (auto simp: feed_ledger_new_def)

lemma ledger_credit_Inr:
  "ledger_credit a l = Inr l' \<longleftrightarrow>
     unat (credit_sats l) + unat a < 2 ^ 64 \<and> l' = l\<lparr>credit_sats := credit_sats l + a\<rparr>"
  by (auto simp: ledger_credit_def res_simps checked_add_u64_Some)

lemma debit_Inr:
  "debit_confirmed_feed l = Inr l' \<longleftrightarrow> threshold_sats l \<le> credit_sats l
     \<and> l' = l\<lparr>credit_sats := credit_sats l - threshold_sats l\<rparr>"
  by (auto simp: debit_confirmed_feed_def)

lemma require_attempt_Inr:
  "require_attempt aid st rt = Inr u \<longleftrightarrow>
     active_attempt rt = Some \<lparr>attempt_id = aid, attempt_status = st\<rparr>"
proof (cases "active_attempt rt")
  case (Some a)
  then show ?thesis by (cases a) (auto simp: require_attempt_def)
qed (simp add: require_attempt_def)

lemma feeds_due_0: "0 < threshold_sats l \<Longrightarrow> feeds_due l = 0 \<longleftrightarrow> credit_sats l < threshold_sats l"
  by (simp add: feeds_due_def word_less_nat_alt unat_eq_0 [symmetric] unat_div_distrib
      div_eq_0_iff del: unat_eq_0)

lemma begin_next_feed_Inr:
  "begin_next_feed ov fresh rt = Inr (a, rt') \<longleftrightarrow> \<not> ov \<and> active_attempt rt = None
     \<and> feeds_due (rt_ledger rt) \<noteq> 0 \<and> a = \<lparr>attempt_id = fresh, attempt_status = IntentCommitted\<rparr>
     \<and> rt' = rt\<lparr>active_attempt := Some a\<rparr>"
  by (auto simp: begin_next_feed_def Let_def)

lemma confirm_feed_Inr:
  "confirm_feed aid rt = Inr rt' \<longleftrightarrow>
     active_attempt rt = Some \<lparr>attempt_id = aid, attempt_status = IntentCommitted\<rparr>
     \<and> (\<exists>l. debit_confirmed_feed (rt_ledger rt) = Inr l
          \<and> rt' = rt\<lparr>rt_ledger := l, active_attempt := None\<rparr>)"
  by (auto simp: confirm_feed_def res_simps require_attempt_Inr)

lemma reconcile_fed_Inr:
  "reconcile_unknown_as_fed aid rt = Inr rt' \<longleftrightarrow>
     active_attempt rt = Some \<lparr>attempt_id = aid, attempt_status = Unknown\<rparr>
     \<and> (\<exists>l. debit_confirmed_feed (rt_ledger rt) = Inr l
          \<and> rt' = rt\<lparr>rt_ledger := l, active_attempt := None\<rparr>)"
  by (auto simp: reconcile_unknown_as_fed_def res_simps require_attempt_Inr)

lemma mark_unknown_Inr:
  "mark_feed_unknown aid rt = Inr rt' \<longleftrightarrow>
     active_attempt rt = Some \<lparr>attempt_id = aid, attempt_status = IntentCommitted\<rparr>
     \<and> rt' = rt\<lparr>active_attempt := Some \<lparr>attempt_id = aid, attempt_status = Unknown\<rparr>\<rparr>"
  by (auto simp: mark_feed_unknown_def res_simps require_attempt_Inr)

lemma reconcile_not_fed_Inr:
  "reconcile_unknown_as_not_fed aid rt = Inr rt' \<longleftrightarrow>
     active_attempt rt = Some \<lparr>attempt_id = aid, attempt_status = Unknown\<rparr>
     \<and> rt' = rt\<lparr>active_attempt := None\<rparr>"
  by (auto simp: reconcile_unknown_as_not_fed_def res_simps require_attempt_Inr)

lemmas runtime_Inr_simps = begin_next_feed_Inr confirm_feed_Inr reconcile_fed_Inr
  mark_unknown_Inr reconcile_not_fed_Inr debit_Inr ledger_credit_Inr

lemma debit_total: "threshold_sats l \<le> credit_sats l \<Longrightarrow>
    unat (credit_sats l - threshold_sats l) + unat (threshold_sats l) = unat (credit_sats l)"
  by (simp add: unat_sub word_le_nat_alt)

section \<open>Runs\<close>

text \<open>
  \<open>runtime_run rt added fed rt'\<close>: a sequence of successful method calls leads from \<open>rt\<close> to \<open>rt'\<close>,
  with \<open>added\<close> sats credited and \<open>fed\<close> feeds debited. (A failed call changes nothing.)
\<close>

inductive runtime_run :: "feed_runtime \<Rightarrow> nat \<Rightarrow> nat \<Rightarrow> feed_runtime \<Rightarrow> bool" where
  run_start: "runtime_run rt 0 0 rt"
| run_credit: "runtime_run rt added fed r \<Longrightarrow> runtime_credit amount r = Inr r' \<Longrightarrow>
     runtime_run rt (added + unat amount) fed r'"
| run_begin: "runtime_run rt added fed r \<Longrightarrow> begin_next_feed ov fresh r = Inr (a, r') \<Longrightarrow>
     runtime_run rt added fed r'"
| run_confirm: "runtime_run rt added fed r \<Longrightarrow> confirm_feed aid r = Inr r' \<Longrightarrow>
     runtime_run rt added (Suc fed) r'"
| run_unknown: "runtime_run rt added fed r \<Longrightarrow> mark_feed_unknown aid r = Inr r' \<Longrightarrow>
     runtime_run rt added fed r'"
| run_fed: "runtime_run rt added fed r \<Longrightarrow> reconcile_unknown_as_fed aid r = Inr r' \<Longrightarrow>
     runtime_run rt added (Suc fed) r'"
| run_not_fed: "runtime_run rt added fed r \<Longrightarrow> reconcile_unknown_as_not_fed aid r = Inr r' \<Longrightarrow>
     runtime_run rt added fed r'"

lemma runtime_credit_inv:
  assumes "runtime_credit amount r = Inr r'" "runtime_inv r"
  shows "runtime_inv r'"
    and "unat (credit_sats (rt_ledger r')) = unat (credit_sats (rt_ledger r)) + unat amount"
    and "threshold_sats (rt_ledger r') = threshold_sats (rt_ledger r)"
  using assms
  by (auto simp: runtime_credit_def res_simps ledger_credit_Inr runtime_inv_def ledger_inv_def
      unat_word_ariths word_le_nat_alt)

lemma runtime_run_inv:
  assumes "runtime_run rt added fed rt'" and "runtime_inv rt"
  shows "runtime_inv rt'
    \<and> threshold_sats (rt_ledger rt') = threshold_sats (rt_ledger rt)
    \<and> unat (credit_sats (rt_ledger rt')) + fed * unat (threshold_sats (rt_ledger rt))
        = unat (credit_sats (rt_ledger rt)) + added"
  using assms
proof induction
  case (run_credit rt added fed r amount r')
  then show ?case using runtime_credit_inv [OF run_credit.hyps(2)] by auto
next
  case (run_begin rt added fed r ov fresh a r')
  then show ?case
    by (auto simp: runtime_Inr_simps runtime_inv_def ledger_inv_def feeds_due_0)
next
  case (run_confirm rt added fed r aid r')
  then show ?case using debit_total [of "rt_ledger r"]
    by (auto simp: runtime_Inr_simps runtime_inv_def ledger_inv_def)
next
  case (run_fed rt added fed r aid r')
  then show ?case using debit_total [of "rt_ledger r"]
    by (auto simp: runtime_Inr_simps runtime_inv_def ledger_inv_def)
qed (auto simp: runtime_Inr_simps runtime_inv_def)

lemma runtime_new_inv: "ledger_inv l \<Longrightarrow> runtime_inv (feed_runtime_new l)"
  by (simp add: runtime_inv_def feed_runtime_new_def)

section \<open>Draining the credit\<close>

text \<open>The feeder's loop on a runtime: begin and confirm until \<open>begin_next_feed\<close> refuses, with one
  fresh id per turn.\<close>

fun drain :: "uuid list \<Rightarrow> feed_runtime \<Rightarrow> nat \<times> feed_runtime" where
  "drain [] rt = (0, rt)"
| "drain (u # us) rt =
     (case begin_next_feed False u rt of
        Inl e \<Rightarrow> (0, rt)
      | Inr (a, rt1) \<Rightarrow>
          (case confirm_feed (attempt_id a) rt1 of
             Inl e \<Rightarrow> (0, rt1)
           | Inr rt2 \<Rightarrow> (case drain us rt2 of (n, rt3) \<Rightarrow> (Suc n, rt3))))"

lemma drain_step:
  assumes "runtime_inv rt" "active_attempt rt = None"
    "threshold_sats (rt_ledger rt) \<le> credit_sats (rt_ledger rt)"
  defines "rt2 \<equiv> rt\<lparr>rt_ledger := (rt_ledger rt)\<lparr>credit_sats :=
      credit_sats (rt_ledger rt) - threshold_sats (rt_ledger rt)\<rparr>\<rparr>"
  shows "drain (u # us) rt = (case drain us rt2 of (n, rt3) \<Rightarrow> (Suc n, rt3))"
proof -
  let ?a = "\<lparr>attempt_id = u, attempt_status = IntentCommitted\<rparr>"
  have b: "begin_next_feed False u rt = Inr (?a, rt\<lparr>active_attempt := Some ?a\<rparr>)"
    using assms by (auto simp: begin_next_feed_Inr feeds_due_0 runtime_inv_def ledger_inv_def)
  have c: "confirm_feed u (rt\<lparr>active_attempt := Some ?a\<rparr>) = Inr rt2"
    using assms by (auto simp: confirm_feed_Inr debit_Inr rt2_def)
  show ?thesis by (simp add: b c)
qed

lemma drain_stop:
  assumes "runtime_inv rt" "credit_sats (rt_ledger rt) < threshold_sats (rt_ledger rt)"
  shows "drain us rt = (0, rt)"
  using assms
  by (cases us) (auto simp: begin_next_feed_def feeds_due_0 runtime_inv_def ledger_inv_def)

lemma drain_result:
  assumes "runtime_inv rt" "active_attempt rt = None"
    "unat (credit_sats (rt_ledger rt)) div unat (threshold_sats (rt_ledger rt)) \<le> length us"
  shows "fst (drain us rt)
      = unat (credit_sats (rt_ledger rt)) div unat (threshold_sats (rt_ledger rt))
    \<and> active_attempt (snd (drain us rt)) = None
    \<and> unat (credit_sats (rt_ledger (snd (drain us rt))))
      = unat (credit_sats (rt_ledger rt)) mod unat (threshold_sats (rt_ledger rt))"
  using assms
proof (induction us arbitrary: rt)
  case Nil
  then have "unat (credit_sats (rt_ledger rt)) < unat (threshold_sats (rt_ledger rt))"
    by (auto simp: runtime_inv_def ledger_inv_def div_eq_0_iff word_less_nat_alt)
  with Nil show ?case by simp
next
  case (Cons u us)
  let ?l = "rt_ledger rt"
  show ?case
  proof (cases "threshold_sats ?l \<le> credit_sats ?l")
    case True
    let ?rt2 = "rt\<lparr>rt_ledger := ?l\<lparr>credit_sats := credit_sats ?l - threshold_sats ?l\<rparr>\<rparr>"
    have inv: "runtime_inv ?rt2" "active_attempt ?rt2 = None"
      using Cons.prems by (auto simp: runtime_inv_def ledger_inv_def)
    have t: "0 < unat (threshold_sats ?l)" "unat (threshold_sats ?l) \<le> unat (credit_sats ?l)"
      using Cons.prems True by (auto simp: runtime_inv_def ledger_inv_def word_le_nat_alt
          word_less_nat_alt)
    have "unat (credit_sats ?l) div unat (threshold_sats ?l)
        = Suc (unat (credit_sats ?l - threshold_sats ?l) div unat (threshold_sats ?l))"
      using t True by (simp add: unat_sub le_div_geq)
    moreover have "unat (credit_sats ?l) mod unat (threshold_sats ?l)
        = unat (credit_sats ?l - threshold_sats ?l) mod unat (threshold_sats ?l)"
      using t True by (simp add: unat_sub le_mod_geq)
    ultimately show ?thesis
      using Cons.IH [OF inv] Cons.prems True
      by (simp add: drain_step [OF Cons.prems(1,2) True] split_beta del: drain.simps)
  next
    case False
    then have "unat (credit_sats ?l) < unat (threshold_sats ?l)"
      by (simp add: word_le_nat_alt)
    with False Cons.prems show ?thesis by (simp add: drain_stop not_le del: drain.simps)
  qed
qed

section \<open>Properties\<close>

text \<open>
  Along every sequence of calls on a feed runtime the sats are conserved: what is left plus
  the threshold of each confirmed feed is what was there plus what was credited. The threshold
  never changes, and an active attempt is always covered by credit, so whoever settles it, as
  confirmed or, once unknown, as fed or as not fed, is never refused.
\<close>

theorem feed_runtime_conserves_credit:
  assumes "with_credit threshold credit = Inr l"
    and "runtime_run (feed_runtime_new l) added fed rt"
  shows "unat (credit_sats (rt_ledger rt)) + fed * unat threshold = unat credit + added
    \<and> threshold_sats (rt_ledger rt) = threshold
    \<and> (case active_attempt rt of
         None \<Rightarrow> True
       | Some a \<Rightarrow>
           (case attempt_status a of
              IntentCommitted \<Rightarrow> (\<exists>r. confirm_feed (attempt_id a) rt = Inr r)
                \<and> (\<exists>r. mark_feed_unknown (attempt_id a) rt = Inr r)
            | Unknown \<Rightarrow> (\<exists>r. reconcile_unknown_as_fed (attempt_id a) rt = Inr r)
                \<and> (\<exists>r. reconcile_unknown_as_not_fed (attempt_id a) rt = Inr r)))"
proof -
  from assms(1) have l: "l = \<lparr>threshold_sats = threshold, credit_sats = credit\<rparr>"
    "threshold \<noteq> 0" by (auto simp: with_credit_def res_simps feed_ledger_new_Inr)
  then have "runtime_inv (feed_runtime_new l)"
    by (intro runtime_new_inv) (simp add: ledger_inv_def word_gt_0)
  from runtime_run_inv [OF assms(2) this] l show ?thesis
    by (auto simp: feed_runtime_new_def runtime_Inr_simps runtime_inv_def
        split: option.split feed_attempt_status.split)
qed

theorem feed_runtime_conserves_credit_witness:
  "unat (credit_sats \<lparr>threshold_sats = 5, credit_sats = 2\<rparr>) + 1 * 5 = (3 :: nat) + 4"
proof -
  let ?l = "\<lparr>threshold_sats = 5, credit_sats = 3\<rparr>"
  let ?rt = "\<lparr>rt_ledger = \<lparr>threshold_sats = 5, credit_sats = 2\<rparr>, active_attempt = None\<rparr>"
  have "runtime_run (feed_runtime_new ?l) 0 0 (feed_runtime_new ?l)"
    by (rule run_start)
  then have "runtime_run (feed_runtime_new ?l) (0 + unat (4 :: u64)) 0
      (feed_runtime_new (?l\<lparr>credit_sats := 7\<rparr>))"
    by (rule run_credit)
      (simp add: runtime_credit_def ledger_credit_def feed_runtime_new_def checked_add_u64_def)
  then have "runtime_run (feed_runtime_new ?l) (0 + unat (4 :: u64)) 0
      ((feed_runtime_new (?l\<lparr>credit_sats := 7\<rparr>))
        \<lparr>active_attempt := Some \<lparr>attempt_id = ''a'', attempt_status = IntentCommitted\<rparr>\<rparr>)"
    by (rule run_begin [where ov = False and fresh = "''a''"])
      (simp add: begin_next_feed_def feed_runtime_new_def feeds_due_def Let_def)
  then have "runtime_run (feed_runtime_new ?l) (0 + unat (4 :: u64)) (Suc 0) ?rt"
    by (rule run_confirm [where aid = "''a''"])
      (simp add: confirm_feed_def require_attempt_def debit_confirmed_feed_def
        feed_runtime_new_def)
  from feed_runtime_conserves_credit [OF _ this, of 5 3] show ?thesis
    by (simp add: with_credit_def feed_ledger_new_def)
qed

text \<open>
  Feeding until the runtime refuses terminates after exactly \<open>credit div threshold\<close> confirmed
  feeds (one id each is enough), leaves \<open>credit mod threshold\<close> and no active attempt.
\<close>

theorem drain_feeds_the_quotient:
  assumes "runtime_inv rt" "active_attempt rt = None"
    and "unat (feeds_due (rt_ledger rt)) \<le> length ids"
  shows "fst (drain ids rt) = unat (feeds_due (rt_ledger rt))
    \<and> credit_sats (rt_ledger (snd (drain ids rt))) = remainder_sats (rt_ledger rt)
    \<and> active_attempt (snd (drain ids rt)) = None"
  using drain_result [OF assms(1,2), of ids] assms(3)
  by (simp add: feeds_due_def remainder_sats_def unat_div_distrib unat_mod_distrib
      word_unat_eq_iff)

theorem drain_feeds_the_quotient_witness:
  "fst (drain [''a'', ''b'', ''c'']
     (feed_runtime_new \<lparr>threshold_sats = 5, credit_sats = 13\<rparr>)) = 2"
  using drain_feeds_the_quotient
    [of "feed_runtime_new \<lparr>threshold_sats = 5, credit_sats = 13\<rparr>" "[''a'', ''b'', ''c'']"]
  by (simp add: runtime_inv_def ledger_inv_def feed_runtime_new_def feeds_due_def
      del: drain.simps)

end
