(* ===== verification/Ledger_DB.thy ===== *)
theory Ledger_DB
  imports Domain_Credit Domain_Feed Decimal_Text
begin

text \<open>
  The SQLite database of the daemon (\<open>src/migrations/0001\<close> to \<open>0011\<close>): one record field per table,
  a table being the list of its rows in insertion (rowid) order. INTEGER columns are \<open>i64\<close>,
  nullable columns are options, the \<open>singleton\<close> tables are plain values. Columns with a CHECK over
  a fixed set of words are datatypes. Timestamp columns that no code reads back (\<open>updated_at\<close>,
  \<open>received_at\<close>, \<open>published_at\<close> and most \<open>created_at\<close>) are left out. The \<open>payload_json\<close> column of
  the event log holds the JSON value whose text \<open>serde_json\<close> wrote there.

  Every operation of \<open>LedgerStore\<close> is one SQLite transaction, so it is one function from the
  database to an error or a result with the new database: the database serialises writers, and an
  error (a \<open>bail!\<close>, a constraint violation) drops the transaction, which rolls it back.
  \<open>unixepoch()\<close> is the parameter \<open>now\<close> and \<open>Uuid::new_v4()\<close> the parameter \<open>fresh\<close>.
\<close>

section \<open>JSON values\<close>

datatype json =
    JNull
  | JBool bool
  | JNum int
  | JFloat string
  | JStr string
  | JArr "json list"
  | JObj "(string \<times> json) list"

definition JU64 :: "u64 \<Rightarrow> json" where
  "JU64 w = JNum (uint w)"

definition JOptStr :: "string option \<Rightarrow> json" where
  "JOptStr x = (case x of None \<Rightarrow> JNull | Some s \<Rightarrow> JStr s)"

section \<open>Rows\<close>

datatype entry_type = HERD_RECEIPT | FEED_DEBIT

record ledger_entry =
  le_id :: i64
  le_type :: entry_type
  le_source_key :: string
  le_delta_sats :: i64
  le_payment_hash :: "string option"
  le_payment_source :: "string option"
  le_payment_source_id :: "string option"
  le_address_user :: "string option"
  le_credit_pool :: "string option"
  le_feed_attempt_id :: "string option"

datatype attempt_state = St_intent_committed | St_confirmed | St_unknown | St_reconciled_not_fed

record attempt_row =
  fa_id :: uuid
  fa_status :: attempt_state
  fa_threshold_sats :: i64
  fa_resolved_at :: "i64 option"
  fa_error :: "string option"

record event_row =
  ev_seq :: i64
  ev_type :: string
  ev_payload :: json

record settled_row =
  sp_id :: i64
  sp_source :: string
  sp_source_id :: string
  sp_payment_hash :: "string option"
  sp_address_user :: string
  sp_credit_pool :: string
  sp_amount_msat :: i64
  sp_settled_at :: "i64 option"
  sp_context_json :: "string option"

text \<open>The \<open>Valuation\<close> struct of \<open>ledger/credit.rs\<close> is the row of \<open>credit_valuations\<close>.\<close>

record valuation =
  va_id :: string
  va_asset :: asset
  va_network :: string
  va_provider :: string
  va_account_scope :: string
  va_receive_scope :: string
  va_address_user :: string
  va_credit_pool :: string
  va_expected_atomic :: i64
  va_target_sats :: i64
  va_max_credit_sats :: i64
  va_rate_numerator :: "string option"
  va_rate_denominator :: "string option"
  va_rate_source :: "string option"
  va_rate_observed_at :: "i64 option"
  va_issued_at :: "i64 option"
  va_expires_at :: "i64 option"
  va_policy_version :: string

record allocation_row =
  al_valuation_id :: string
  al_eligible_atomic :: i64
  al_credited_sats :: i64
  al_hold_reason :: "string option"

record receipt_row =
  ar_id :: i64
  ar_valuation_id :: string
  ar_receipt_key :: string
  ar_amount_atomic :: i64
  ar_first_seen_at :: "i64 option"
  ar_unlocked :: bool
  ar_eligible :: bool
  ar_btc_settlement_id :: "i64 option"

record grant_row =
  cg_receipt_id :: i64
  cg_delta_sats :: i64
  cg_cumulative_atomic :: i64
  cg_cumulative_sats :: i64
  cg_ledger_entry_id :: "i64 option"
  cg_event_seq :: "i64 option"

record conflict_row =
  cc_valuation_id :: string
  cc_receipt_key :: string
  cc_amount_atomic :: i64
  cc_first_seen_at :: i64
  cc_unlocked :: bool
  cc_reason :: string

datatype outbox_status = Ob_pending | Ob_published | Ob_failed

record outbox_row =
  ob_event_id :: string
  ob_signed_event_json :: string
  ob_status :: outbox_status
  ob_attempts :: i64
  ob_last_error :: "string option"
  ob_created_at :: i64
  ob_source_event_seq :: i64

record strike_request_row =
  sr_receive_request_id :: uuid
  sr_address_user :: string
  sr_credit_pool :: string
  sr_amount_msat :: i64
  sr_description_hash :: string
  sr_payment_hash :: string
  sr_invoice :: string
  sr_created_provider :: "string option"
  sr_created_at :: i64

datatype inbox_status = In_pending | In_quarantined | In_done

record inbox_row =
  in_work_key :: string
  in_event_id :: uuid
  in_receive_request_id :: uuid
  in_receive_id :: uuid
  in_status :: inbox_status
  in_attempts :: i64
  in_next_attempt :: i64
  in_created_at :: i64
  in_completed_at :: "i64 option"

record scan_row =
  sc_receive_request_id :: uuid
  sc_page_offset :: i64
  sc_attempts :: i64
  sc_next_attempt :: i64

record admission_row =
  ad_id :: uuid
  ad_created_at :: i64
  ad_expires_at :: i64
  ad_finished :: bool

datatype quote_status = Qs_reserved | Qs_ready | Qs_failed

record quote_row =
  qr_id :: uuid
  qr_identity_json :: string
  qr_client_bucket :: string
  qr_requested_at :: i64
  qr_reservation_until :: i64
  qr_status :: quote_status
  qr_document_json :: "string option"

record watermark_row =
  rw_source :: string
  rw_observed_at :: i64
  rw_numerator :: string
  rw_denominator :: string

record binding_row =
  qb_quote_id :: uuid
  qb_valuation_id :: string
  qb_receive_scope :: string
  qb_bound_at :: i64

record ledger_db =
  ledger_entries :: "ledger_entry list"
  feed_attempts :: "attempt_row list"
  feeder_resume_after :: i64
  event_log :: "event_row list"
  settled_payments :: "settled_row list"
  credit_valuations :: "valuation list"
  credit_allocations :: "allocation_row list"
  asset_receipts :: "receipt_row list"
  credit_grants :: "grant_row list"
  credit_conflicts :: "conflict_row list"
  message_cursor :: i64
  message_outbox :: "outbox_row list"
  strike_receive_requests :: "strike_request_row list"
  strike_inbox :: "inbox_row list"
  strike_recovery_scan :: "scan_row list"
  invoice_admissions :: "admission_row list"
  overlay_identity :: "uuid option"
  xmr_quote_requests :: "quote_row list"
  xmr_quote_clock :: i64
  xmr_rate_watermarks :: "watermark_row list"
  xmr_quote_bindings :: "binding_row list"

text \<open>The database after the migrations have run on an empty file.\<close>

definition empty_db :: ledger_db where
  "empty_db =
     \<lparr>ledger_entries = [], feed_attempts = [], feeder_resume_after = 0, event_log = [],
      settled_payments = [], credit_valuations = [], credit_allocations = [],
      asset_receipts = [], credit_grants = [], credit_conflicts = [],
      message_cursor = 0, message_outbox = [], strike_receive_requests = [],
      strike_inbox = [], strike_recovery_scan = [], invoice_admissions = [],
      overlay_identity = None, xmr_quote_requests = [], xmr_quote_clock = 0,
      xmr_rate_watermarks = [], xmr_quote_bindings = []\<rparr>"

section \<open>Errors\<close>

text \<open>One constructor per \<open>bail!\<close>, \<open>context\<close> or constraint that can end a transaction, grouped
  by the module that raises it.\<close>

datatype db_error =
    ExceedsSqliteRange
  | UnexpectedlyNegative
  | SumOverflow
  | NegativeCredit
  | UniqueViolation string
  | CheckViolation string
  | RowNotFound
  | MissingColumn

datatype attempt_error =
    AttemptZeroThreshold
  | UnresolvedFeedAttempt
  | NotInExpectedState
  | InsufficientCredit
  | ChangedWhileResolving
  | InvalidCooldown

datatype payment_error =
    InvalidSource
  | InvalidExternalId
  | InvalidUser
  | InvalidPaymentHash
  | ZeroAmount
  | NotSatAligned
  | NegativeSettledAt
  | ContextNotJson
  | ContextNotObject
  | ConflictingSettlement
  | PaymentHashCollision
  | ProvenanceInconsistent
  | InvalidNativeSettlement

datatype xmr_error =
    NilIntentId
  | UnsupportedPool
  | InvalidCreditLimit
  | DifferentImmutableTerms
  | UnknownIntent
  | UnsupportedPolicy
  | UnsupportedNetwork
  | RateUnparsable
  | RatioMismatch
  | InvalidObservation
  | BindingMismatch
  | MissingAllocation

datatype queue_error =
    CursorBackward
  | NotAheadOfCursor
  | NotPendingPublication
  | InboxConflict
  | InboxFull
  | RequestDisappeared
  | RequestConflict
  | InvoiceLength

datatype quote_error =
    ClockRegressed
  | QuoteInputsDiffer
  | QuoteInProgress
  | QuoteRequestFailed
  | QuoteOutsideBounds
  | QuoteCapacity
  | ReservationOverflow
  | ReservationInvalid
  | RateRegressed
  | UnknownQuote
  | QuoteChanged
  | BindingDiffers
  | CannotBind

datatype ledger_error =
    Db db_error
  | Attempt attempt_error
  | Payment payment_error
  | Credit credit_error
  | Xmr_Credit xmr_error
  | Queue queue_error
  | Quote quote_error

type_synonym 'a ledger_result = "ledger_error + 'a \<times> ledger_db"

section \<open>Conversions at the SQLite boundary\<close>

text \<open>\<open>to_i64\<close> and \<open>to_u64\<close> of \<open>ledger/mod.rs\<close>.\<close>

definition to_i64 :: "u64 \<Rightarrow> ledger_error + i64" where
  "to_i64 v = ok_or (Db ExceedsSqliteRange) (i64_of_u64 v)"

definition to_u64 :: "i64 \<Rightarrow> ledger_error + u64" where
  "to_u64 v = ok_or (Db UnexpectedlyNegative) (u64_of_i64 v)"

lemma to_i64_Inr [conv_simps]: "to_i64 w = Inr i \<longleftrightarrow> uint w \<le> i64_max \<and> i = uint w"
  by (simp add: to_i64_def i64_of_u64_Some)

lemma to_u64_Inr [conv_simps]: "to_u64 i = Inr w \<longleftrightarrow> 0 \<le> i \<and> w = word_of_int i"
  by (simp add: to_u64_def u64_of_i64_Some)

lemma to_u64_nonneg [simp]: "0 \<le> i \<Longrightarrow> to_u64 i = Inr (word_of_int i)"
  by (simp add: to_u64_def u64_of_i64_def)

lemma to_i64_fits [simp]: "uint w \<le> i64_max \<Longrightarrow> to_i64 w = Inr (uint w)"
  by (simp add: to_i64_def i64_of_u64_def)

section \<open>The credit of the ledger\<close>

text \<open>
  \<open>feed_credit_in_transaction\<close> of \<open>ledger/feed.rs\<close>, and \<open>LedgerStore::feed_credit_sats\<close> which
  runs the same query: \<open>SELECT COALESCE(SUM(delta_sats), 0) FROM ledger_entries\<close>.
\<close>

definition feed_credit_in_transaction :: "ledger_db \<Rightarrow> ledger_error + u64" where
  "feed_credit_in_transaction db =
     andthen (ok_or (Db SumOverflow) (sql_sum (map le_delta_sats (ledger_entries db)))) (\<lambda>credit.
       if credit < 0 then Inl (Db NegativeCredit) else to_u64 credit)"

definition feed_credit_sats :: "ledger_db \<Rightarrow> ledger_error + u64" where
  "feed_credit_sats db =
     andthen (ok_or (Db SumOverflow) (sql_sum (map le_delta_sats (ledger_entries db)))) (\<lambda>credit.
       if credit < 0 then Inl (Db NegativeCredit) else to_u64 credit)"

text \<open>The mathematical balance, for stating invariants.\<close>

definition balance :: "ledger_db \<Rightarrow> int" where
  "balance db = sum_list (map le_delta_sats (ledger_entries db))"

lemma feed_credit_Inr:
  "feed_credit_in_transaction db = Inr c \<longleftrightarrow>
     sql_sum (map le_delta_sats (ledger_entries db)) = Some (balance db)
     \<and> 0 \<le> balance db \<and> c = word_of_int (balance db)"
  by (cases "sql_sum (map le_delta_sats (ledger_entries db))")
    (auto simp: feed_credit_in_transaction_def balance_def to_u64_Inr dest: sql_sum_Some)

lemma feed_credit_uint:
  "feed_credit_in_transaction db = Inr c \<Longrightarrow> uint c = balance db \<and> uint c \<le> i64_max"
  using sql_sum_in_i64 by (auto simp: feed_credit_Inr uint_word_of_int_i64 in_i64_def)

section \<open>Inserting into the two logs\<close>

text \<open>INSERT INTO \<open>ledger_entries\<close>: the id is assigned by AUTOINCREMENT, \<open>source_key\<close> is UNIQUE.\<close>

definition insert_ledger_entry :: "ledger_entry \<Rightarrow> ledger_db \<Rightarrow> i64 ledger_result" where
  "insert_ledger_entry e db =
     (if \<exists>r \<in> set (ledger_entries db). le_source_key r = le_source_key e
      then Inl (Db (UniqueViolation ''ledger_entries.source_key''))
      else let i = next_id le_id (ledger_entries db) in
        Inr (i, db\<lparr>ledger_entries := ledger_entries db @ [e\<lparr>le_id := i\<rparr>]\<rparr>))"

text \<open>\<open>append_event_in_transaction\<close> of \<open>ledger/events.rs\<close>.\<close>

definition append_event_in_transaction :: "string \<Rightarrow> json \<Rightarrow> ledger_db \<Rightarrow> u64 ledger_result" where
  "append_event_in_transaction event_type payload db =
     (let seq = next_id ev_seq (event_log db) in
      andthen (to_u64 seq) (\<lambda>s.
        Inr (s, db\<lparr>event_log := event_log db
                   @ [\<lparr>ev_seq = seq, ev_type = event_type, ev_payload = payload\<rparr>]\<rparr>)))"

lemma append_event_eq:
  "append_event_in_transaction ty p db =
     Inr (word_of_int (next_id ev_seq (event_log db)),
          db\<lparr>event_log := event_log db
            @ [\<lparr>ev_seq = next_id ev_seq (event_log db), ev_type = ty, ev_payload = p\<rparr>]\<rparr>)"
  using next_id_pos [of ev_seq "event_log db"]
  by (simp add: append_event_in_transaction_def Let_def less_imp_le)

lemma append_event_frame:
  assumes "append_event_in_transaction ty p db = Inr (s, db')"
  shows "\<exists>log. db' = db\<lparr>event_log := log\<rparr>"
  using assms by (auto simp: append_event_eq)

lemma insert_ledger_entry_Inr:
  "insert_ledger_entry e db = Inr (i, db') \<longleftrightarrow>
     le_source_key e \<notin> le_source_key ` set (ledger_entries db)
     \<and> i = next_id le_id (ledger_entries db)
     \<and> db' = db\<lparr>ledger_entries := ledger_entries db @ [e\<lparr>le_id := i\<rparr>]\<rparr>"
  by (auto simp: insert_ledger_entry_def Let_def bex_key)

end
