(* ===== verification/Ledger_Events.thy ===== *)
theory Ledger_Events
  imports Ledger_DB
begin

text \<open>
  The durable event log and what the overlay reads of it: \<open>src/src/ledger/events.rs\<close> and
  \<open>src/src/ledger/overlay.rs\<close>. The log is append-only; \<open>events_contiguous\<close> (the sequence numbers are
  1 to the length) is kept by every append, and the paging and window queries are characterised
  as sublists of the log. The locale \<open>event_log_reader\<close> states what the message processor and the
  overlay rely on, and is interpreted on the queries modelled here.
\<close>

section \<open>Appending and paging\<close>

record durable_event =
  de_seq :: u64
  de_event_type :: string
  de_payload_json :: json

definition append_event :: "string \<Rightarrow> json \<Rightarrow> ledger_db \<Rightarrow> u64 ledger_result" where
  "append_event event_type payload db = append_event_in_transaction event_type payload db"

definition durable_of_row :: "event_row \<Rightarrow> ledger_error + durable_event" where
  "durable_of_row r =
     andthen (to_u64 (ev_seq r)) (\<lambda>s.
       Inr \<lparr>de_seq = s, de_event_type = ev_type r, de_payload_json = ev_payload r\<rparr>)"

text \<open>\<open>limit.clamp(1, 1_000)\<close>.\<close>

definition clamp_limit :: "u32 \<Rightarrow> nat" where
  "clamp_limit limit = max 1 (min 1000 (unat limit))"

definition events_after :: "u64 \<Rightarrow> u32 \<Rightarrow> ledger_db \<Rightarrow> ledger_error + durable_event list" where
  "events_after after_seq limit db =
     andthen (to_i64 after_seq) (\<lambda>after.
       collect_results (map durable_of_row
         (take (clamp_limit limit)
           (sort_key ev_seq (filter (\<lambda>r. after < ev_seq r) (event_log db))))))"

definition max_event_seq :: "ledger_db \<Rightarrow> i64" where
  "max_event_seq db = fold (\<lambda>r m. max m (ev_seq r)) (event_log db) 0"

definition latest_event_seq :: "ledger_db \<Rightarrow> ledger_error + u64" where
  "latest_event_seq db = to_u64 (max_event_seq db)"

section \<open>The overlay's queries\<close>

text \<open>
  \<open>overlay_event_window\<close>. \<open>text_of\<close> is \<open>serde_json\<close>'s text of a value, whose byte length the query
  sums up. The casts \<open>as i64\<close> are of numbers the guard has bounded.
\<close>

definition overlay_event_window ::
  "(json \<Rightarrow> string) \<Rightarrow> u64 \<Rightarrow> u64 \<Rightarrow> ledger_db \<Rightarrow> ledger_error + durable_event list option" where
  "overlay_event_window text_of after through db =
     (if through < after \<or> 1000 < through - after \<or> MAX_ACCOUNTING_UNITS < through then Inr None
      else
        let rows = filter (\<lambda>r. uint after < ev_seq r \<and> ev_seq r \<le> uint through) (event_log db)
        in
        andthen (ok_or (Db SumOverflow)
          (sql_sum (map (\<lambda>r. int (length (text_of (ev_payload r))) + int (length (ev_type r)))
             rows))) (\<lambda>bytes.
          if int (length rows) \<noteq> uint (through - after) \<or> 512 * 1024 < bytes then Inr None
          else andthen (collect_results (map durable_of_row (sort_key ev_seq rows)))
                 (\<lambda>events. Inr (Some events))))"

definition reset_overlay_stream :: "uuid \<Rightarrow> ledger_db \<Rightarrow> uuid ledger_result" where
  "reset_overlay_stream fresh db = Inr (fresh, db\<lparr>overlay_identity := Some fresh\<rparr>)"

definition overlay_stream_id :: "uuid \<Rightarrow> ledger_db \<Rightarrow> uuid ledger_result" where
  "overlay_stream_id fresh db =
     (case overlay_identity db of
        Some u \<Rightarrow> Inr (u, db)
      | None \<Rightarrow> Inr (fresh, db\<lparr>overlay_identity := Some fresh\<rparr>))"

section \<open>The log is contiguous\<close>

definition events_contiguous :: "ledger_db \<Rightarrow> bool" where
  "events_contiguous db \<longleftrightarrow>
     map ev_seq (event_log db) = [1..int (length (event_log db))]"

lemma upt_split: "i \<le> j \<Longrightarrow> j \<le> k \<Longrightarrow> [i..<j] @ [j..<k] = [i..<k]"
  using upt_add_eq_append [of i j "k - j"] by simp

lemma fold_max_map: "fold (\<lambda>r m. max m (key r)) rs a = fold (\<lambda>x m. max m x) (map key rs) (a :: int)"
  by (induction rs arbitrary: a) simp_all

lemma fold_max_upto: "0 \<le> (n :: int) \<Longrightarrow> fold (\<lambda>x m. max m x) [1..n] 0 = n"
proof (induction n rule: int_ge_induct)
  case base
  then show ?case by simp
next
  case (step i)
  then show ?case by (simp add: upto_rec2)
qed

lemma max_event_seq_contiguous:
  "events_contiguous db \<Longrightarrow> max_event_seq db = int (length (event_log db))"
  unfolding max_event_seq_def events_contiguous_def
  by (subst fold_max_map) (simp add: fold_max_upto)

lemma next_event_seq:
  "events_contiguous db \<Longrightarrow> next_id ev_seq (event_log db) = int (length (event_log db)) + 1"
  using max_event_seq_contiguous [of db] by (simp add: next_id_def max_event_seq_def)

lemma append_event_contiguous:
  assumes "append_event_in_transaction ty p db = Inr (s, db')" and "events_contiguous db"
  shows "events_contiguous db'"
  using assms next_event_seq [OF assms(2)]
  by (auto simp: append_event_eq events_contiguous_def upto_rec2 [of 1 "1 + int _"])

lemma nth_contiguous:
  assumes "events_contiguous db" "i < length (event_log db)"
  shows "ev_seq (event_log db ! i) = int i + 1"
proof -
  have "ev_seq (event_log db ! i) = map ev_seq (event_log db) ! i" using assms(2) by simp
  also have "\<dots> = int i + 1"
    using assms by (simp add: events_contiguous_def)
  finally show ?thesis .
qed

lemma filter_after_contiguous:
  assumes "events_contiguous db" "0 \<le> after"
  shows "filter (\<lambda>r. after < ev_seq r) (event_log db) = drop (nat after) (event_log db)"
proof -
  let ?log = "event_log db" and ?n = "nat after"
  have "filter (\<lambda>r. after < ev_seq r) (take ?n ?log) = []"
    using assms nth_contiguous [OF assms(1)]
    by (force simp: filter_empty_conv in_set_conv_nth)
  moreover have "filter (\<lambda>r. after < ev_seq r) (drop ?n ?log) = drop ?n ?log"
    using assms nth_contiguous [OF assms(1)]
    by (intro filter_True) (auto simp: in_set_conv_nth)
  ultimately show ?thesis
    by (metis append_Nil append_take_drop_id filter_append)
qed

lemma contiguous_sorted: "events_contiguous db \<Longrightarrow> sorted (map ev_seq (event_log db))"
  by (simp add: events_contiguous_def)

lemma sort_key_drop:
  "events_contiguous db \<Longrightarrow> sort_key ev_seq (drop n (event_log db)) = drop n (event_log db)"
  by (intro sort_key_id_if_sorted) (simp add: drop_map [symmetric] contiguous_sorted sorted_wrt_drop)

lemma durable_of_row_nonneg:
  "0 \<le> ev_seq r \<Longrightarrow> durable_of_row r =
     Inr \<lparr>de_seq = word_of_int (ev_seq r), de_event_type = ev_type r, de_payload_json = ev_payload r\<rparr>"
  by (simp add: durable_of_row_def)

section \<open>What the queries return\<close>

definition event_of_row :: "event_row \<Rightarrow> durable_event" where
  "event_of_row r =
     \<lparr>de_seq = word_of_int (ev_seq r), de_event_type = ev_type r, de_payload_json = ev_payload r\<rparr>"

lemma collect_durable:
  assumes "\<forall>r \<in> set rs. 0 \<le> ev_seq r"
  shows "collect_results (map durable_of_row rs) = Inr (map event_of_row rs)"
proof -
  have "map durable_of_row rs = map Inr (map event_of_row rs)"
    using assms by (simp add: durable_of_row_nonneg event_of_row_def)
  then show ?thesis by (simp only: collect_results_Inr)
qed

lemma contiguous_nonneg: "events_contiguous db \<Longrightarrow> r \<in> set (event_log db) \<Longrightarrow> 0 < ev_seq r"
  by (auto simp: in_set_conv_nth nth_contiguous)

lemma events_after_eq:
  assumes "events_contiguous db" "uint after \<le> i64_max"
  shows "events_after after limit db
    = Inr (map event_of_row (take (clamp_limit limit) (drop (unat after) (event_log db))))"
proof -
  have "\<forall>r \<in> set (take n (drop m (event_log db))). 0 \<le> ev_seq r" for n m
    using contiguous_nonneg [OF assms(1)] by (meson in_set_dropD in_set_takeD less_imp_le)
  then show ?thesis
    using assms by (simp add: events_after_def filter_after_contiguous sort_key_drop
        collect_durable)
qed

lemma map_seq_slice:
  assumes "events_contiguous db" "int (length (event_log db)) \<le> i64_max"
  shows "map (\<lambda>e. unat (de_seq e)) (map event_of_row (take n (drop a (event_log db))))
    = [Suc a..<Suc (min (a + n) (length (event_log db)))]"
proof (rule nth_equalityI)
  show "length (map (\<lambda>e. unat (de_seq e)) (map event_of_row (take n (drop a (event_log db)))))
      = length [Suc a..<Suc (min (a + n) (length (event_log db)))]"
    by (simp only: length_map length_take length_drop length_upt)
next
  fix i
  assume "i < length (map (\<lambda>e. unat (de_seq e))
      (map event_of_row (take n (drop a (event_log db)))))"
  then have i: "i < n" "a + i < length (event_log db)" by auto
  then have "ev_seq (event_log db ! (a + i)) = int (a + i) + 1"
    by (intro nth_contiguous assms(1))
  moreover have "unat (word_of_int (int (a + i) + 1) :: u64) = Suc (a + i)"
    using i assms(2) by (subst unat_word_of_int_i64) auto
  ultimately show "map (\<lambda>e. unat (de_seq e))
      (map event_of_row (take n (drop a (event_log db)))) ! i
      = [Suc a..<Suc (min (a + n) (length (event_log db)))] ! i"
    using i by (simp add: event_of_row_def del: upt_Suc of_int_add)
qed

section \<open>Readers of an append-only log\<close>

text \<open>
  What the message processor and the overlay assume of the log: a page after position \<open>a\<close> holds the
  next events, consecutively numbered, and is only shorter than asked for at the end of the log.
\<close>

locale event_log_reader =
  fixes inv :: "'db \<Rightarrow> bool"
    and log_length :: "'db \<Rightarrow> nat"
    and page :: "'db \<Rightarrow> nat \<Rightarrow> nat \<Rightarrow> 'e list"
    and seq :: "'e \<Rightarrow> nat"
  assumes page_seqs: "inv db \<Longrightarrow> 1 \<le> n \<Longrightarrow> n \<le> 1000 \<Longrightarrow> a \<le> log_length db \<Longrightarrow>
    map seq (page db a n) = [Suc a..<Suc (min (a + n) (log_length db))]"
begin

text \<open>A reader that pages from its cursor until a page is empty.\<close>

fun read_pages :: "nat \<Rightarrow> 'db \<Rightarrow> nat \<Rightarrow> nat \<Rightarrow> 'e list" where
  "read_pages 0 db a n = []"
| "read_pages (Suc fuel) db a n =
     (let es = page db a n in
      if es = [] then [] else es @ read_pages fuel db (a + length es) n)"

lemma page_length:
  assumes "inv db" "1 \<le> n" "n \<le> 1000" "a \<le> log_length db"
  shows "length (page db a n) = min n (log_length db - a)"
  using arg_cong [OF page_seqs [OF assms], of length] assms(4) by simp arith

lemma read_pages_complete:
  assumes "inv db" "1 \<le> n" "n \<le> 1000" "a \<le> log_length db" "log_length db - a < fuel"
  shows "map seq (read_pages fuel db a n) = [Suc a..<Suc (log_length db)]"
  using assms
proof (induction fuel arbitrary: a)
  case 0
  then show ?case by simp
next
  case (Suc fuel)
  let ?es = "page db a n"
  note len = page_length [OF Suc.prems(1-4)]
  show ?case
  proof (cases "a = log_length db")
    case True
    then have "?es = []" using len by simp
    with True show ?thesis by (simp add: Let_def)
  next
    case False
    with Suc.prems len have ne: "?es \<noteq> []" "length ?es = min n (log_length db - a)"
      by auto
    have "map seq (read_pages fuel db (a + length ?es) n)
        = [Suc (a + length ?es)..<Suc (log_length db)]"
      using Suc.prems ne False by (intro Suc.IH) auto
    moreover have "map seq ?es = [Suc a..<Suc (a + length ?es)]"
      using page_seqs [OF Suc.prems(1-4)] ne(2) Suc.prems(4) by (simp add: min_def del: upt_Suc)
    moreover have "[Suc a..<Suc (a + length ?es)] @ [Suc (a + length ?es)..<Suc (log_length db)]
        = [Suc a..<Suc (log_length db)]"
      using ne Suc.prems(4) by (intro upt_split) auto
    ultimately show ?thesis
      using ne by (simp add: Let_def del: upt_Suc)
  qed
qed

end

definition log_inv :: "ledger_db \<Rightarrow> bool" where
  "log_inv db \<longleftrightarrow> events_contiguous db \<and> int (length (event_log db)) \<le> i64_max"

definition events_page :: "ledger_db \<Rightarrow> nat \<Rightarrow> nat \<Rightarrow> durable_event list" where
  "events_page db a n =
     (case events_after (of_nat a) (of_nat n) db of Inl e \<Rightarrow> [] | Inr es \<Rightarrow> es)"

definition event_position :: "durable_event \<Rightarrow> nat" where
  "event_position e = unat (de_seq e)"

lemma u64_of_nat_small:
  "int a \<le> i64_max \<Longrightarrow> uint (of_nat a :: u64) = int a \<and> unat (of_nat a :: u64) = a"
  using uint_word_of_int_i64 [of "int a"] unat_word_of_int_i64 [of "int a"] by simp

lemma clamp_limit_small: "1 \<le> n \<Longrightarrow> n \<le> 1000 \<Longrightarrow> clamp_limit (of_nat n) = n"
  by (simp add: clamp_limit_def unat_of_nat take_bit_nat_eq_self)

lemma events_page_seqs:
  assumes "log_inv db" "1 \<le> n" "n \<le> 1000" "a \<le> length (event_log db)"
  shows "map event_position (events_page db a n)
    = [Suc a..<Suc (min (a + n) (length (event_log db)))]"
proof -
  have a: "uint (of_nat a :: u64) = int a" "unat (of_nat a :: u64) = a"
    using assms by (auto simp: log_inv_def intro!: u64_of_nat_small [THEN conjunct1]
        u64_of_nat_small [THEN conjunct2])
  then have "events_page db a n = map event_of_row (take n (drop a (event_log db)))"
    using assms by (simp add: events_page_def events_after_eq log_inv_def clamp_limit_small)
  then show ?thesis
    using assms map_seq_slice [of db n a] by (simp add: log_inv_def event_position_def [abs_def])
qed

interpretation log: event_log_reader log_inv "\<lambda>db. length (event_log db)" events_page event_position
  by unfold_locales (rule events_page_seqs)

section \<open>The overlay's window\<close>

definition event_bytes :: "(json \<Rightarrow> string) \<Rightarrow> event_row \<Rightarrow> int" where
  "event_bytes text_of r = int (length (text_of (ev_payload r))) + int (length (ev_type r))"

lemma filter_window_contiguous:
  assumes "events_contiguous db" "a \<le> b"
  shows "filter (\<lambda>r. int a < ev_seq r \<and> ev_seq r \<le> int b) (event_log db)
    = take (b - a) (drop a (event_log db))"
proof -
  let ?log = "event_log db"
  have "filter (\<lambda>r. int a < ev_seq r \<and> ev_seq r \<le> int b) ?log
      = filter (\<lambda>r. ev_seq r \<le> int b) (filter (\<lambda>r. int a < ev_seq r) ?log)"
    by (simp add: conj_commute)
  also have "filter (\<lambda>r. int a < ev_seq r) ?log = drop a ?log"
    using filter_after_contiguous [OF assms(1), of "int a"] by simp
  also have "filter (\<lambda>r. ev_seq r \<le> int b) (drop a ?log)
      = filter (\<lambda>r. ev_seq r \<le> int b) (take (b - a) (drop a ?log))
        @ filter (\<lambda>r. ev_seq r \<le> int b) (drop (b - a) (drop a ?log))"
    by (metis append_take_drop_id filter_append)
  also have "filter (\<lambda>r. ev_seq r \<le> int b) (take (b - a) (drop a ?log))
      = take (b - a) (drop a ?log)"
    using nth_contiguous [OF assms(1)] by (intro filter_True) (auto simp: in_set_conv_nth)
  also have "filter (\<lambda>r. ev_seq r \<le> int b) (drop (b - a) (drop a ?log)) = []"
    using nth_contiguous [OF assms(1)] assms(2)
    by (auto simp: filter_empty_conv in_set_conv_nth)
  finally show ?thesis by simp
qed

lemma window_rows:
  assumes "log_inv db" "after \<le> through"
  shows "filter (\<lambda>r. uint after < ev_seq r \<and> ev_seq r \<le> uint through) (event_log db)
    = take (unat through - unat after) (drop (unat after) (event_log db))"
proof -
  have "uint after = int (unat after)" "uint through = int (unat through)" by simp_all
  moreover have "unat after \<le> unat through" using assms(2) by (simp add: word_le_nat_alt)
  ultimately show ?thesis
    using filter_window_contiguous [of db "unat after" "unat through"] assms(1)
    by (simp only: log_inv_def)
qed

lemma overlay_window_Some:
  assumes inv: "log_inv db"
  shows "overlay_event_window text_of after through db = Inr (Some es) \<longleftrightarrow>
    after \<le> through \<and> through - after \<le> 1000 \<and> through \<le> MAX_ACCOUNTING_UNITS
    \<and> (after = through \<or> unat through \<le> length (event_log db))
    \<and> sum_list (map (event_bytes text_of)
        (take (unat through - unat after) (drop (unat after) (event_log db)))) \<le> 524288
    \<and> es = map event_of_row (take (unat through - unat after) (drop (unat after) (event_log db)))"
    (is "?lhs \<longleftrightarrow> ?rhs")
proof (cases "after \<le> through \<and> through - after \<le> 1000 \<and> through \<le> MAX_ACCOUNTING_UNITS")
  case True
  define rows where "rows = take (unat through - unat after) (drop (unat after) (event_log db))"
  have le: "unat after \<le> unat through" using True by (simp add: word_le_nat_alt)
  have diff: "uint (through - after) = int (unat through - unat after)"
    using True by (simp add: unat_sub [symmetric])
  have "length rows = unat through - unat after
      \<longleftrightarrow> unat after = unat through \<or> unat through \<le> length (event_log db)"
    using le by (auto simp: rows_def)
  then have count: "int (length rows) = uint (through - after)
      \<longleftrightarrow> after = through \<or> unat through \<le> length (event_log db)"
    unfolding diff of_nat_eq_iff by (simp add: word_unat_eq_iff)
  have rows: "filter (\<lambda>r. uint after < ev_seq r \<and> ev_seq r \<le> uint through) (event_log db) = rows"
    unfolding rows_def using True by (intro window_rows inv) simp
  have sum: "sql_sum (map (event_bytes text_of) rows) = Some b
      \<Longrightarrow> b = sum_list (map (event_bytes text_of) rows)" for b
    by (rule sql_sum_Some)
  have small: "sql_sum (map (event_bytes text_of) rows)
      = Some (sum_list (map (event_bytes text_of) rows))"
    if "sum_list (map (event_bytes text_of) rows) \<le> 524288"
    using that by (intro sql_sum_nonneg) (auto simp: event_bytes_def i64_max_def)
  have sorted: "sort_key ev_seq rows = rows"
    using inv by (intro sort_key_id_if_sorted)
      (simp add: rows_def log_inv_def take_map [symmetric] drop_map [symmetric] contiguous_sorted
        sorted_wrt_drop sorted_wrt_take)
  have nonneg: "\<forall>r \<in> set rows. 0 \<le> ev_seq r"
    using contiguous_nonneg inv unfolding rows_def log_inv_def
    by (meson in_set_dropD in_set_takeD less_imp_le)
  have "overlay_event_window text_of after through db =
      andthen (ok_or (Db SumOverflow) (sql_sum (map (event_bytes text_of) rows))) (\<lambda>bytes.
        if int (length rows) \<noteq> uint (through - after) \<or> 512 * 1024 < bytes then Inr None
        else Inr (Some (map event_of_row rows)))"
    using True unfolding overlay_event_window_def rows Let_def event_bytes_def [symmetric]
    by (simp add: leD sorted collect_durable [OF nonneg] cong: if_cong)
  with True count sum small show ?thesis
    unfolding rows_def [symmetric]
    by (cases "sql_sum (map (event_bytes text_of) rows)") auto
next
  case False
  then show ?thesis by (auto simp: overlay_event_window_def)
qed

section \<open>Properties\<close>

text \<open>
  Paging through the event log with \<open>events_after\<close>, from any cursor inside it and with any page
  size the clamp allows, terminates and delivers every later event exactly once and in order.
\<close>

theorem event_paging_is_complete:
  assumes "log_inv db" "1 \<le> n" "n \<le> 1000" "cursor \<le> length (event_log db)"
    and "length (event_log db) - cursor < fuel"
  shows "map event_position (log.read_pages fuel db cursor n)
    = [Suc cursor..<Suc (length (event_log db))]"
  by (rule log.read_pages_complete [OF assms])

definition sample_log :: ledger_db where
  "sample_log = empty_db\<lparr>event_log :=
     [\<lparr>ev_seq = 1, ev_type = ''payment_received'', ev_payload = JNull\<rparr>,
      \<lparr>ev_seq = 2, ev_type = ''feeder_confirmed'', ev_payload = JNull\<rparr>,
      \<lparr>ev_seq = 3, ev_type = ''weather_alert'', ev_payload = JNull\<rparr>]\<rparr>"

lemma sample_log_inv: "log_inv sample_log"
  by (simp add: log_inv_def sample_log_def events_contiguous_def i64_max_def upto.simps)

theorem event_paging_is_complete_witness:
  "map event_position (log.read_pages 3 sample_log 1 1) = [2, 3]"
  using event_paging_is_complete [OF sample_log_inv, of 1 1 3]
  by (simp add: sample_log_def upt_rec)

text \<open>
  The overlay's replay window is all or nothing: it returns exactly the events after the
  client's cursor up to the requested one, consecutively numbered, or nothing. It returns
  them precisely when the range is ordered, spans at most 1000 events, lies in the log (or is
  empty) and holds at most 512 KiB of text.
\<close>

theorem overlay_window_is_exact:
  assumes "log_inv db"
  shows "((\<exists>es. overlay_event_window text_of after through db = Inr (Some es)) \<longleftrightarrow>
      after \<le> through \<and> through - after \<le> 1000 \<and> through \<le> MAX_ACCOUNTING_UNITS
      \<and> (after = through \<or> unat through \<le> length (event_log db))
      \<and> sum_list (map (event_bytes text_of)
          (take (unat through - unat after) (drop (unat after) (event_log db)))) \<le> 524288)
    \<and> (overlay_event_window text_of after through db = Inr (Some es) \<longrightarrow>
        map event_position es = [Suc (unat after)..<Suc (unat through)])"
proof -
  have "map event_position es = [Suc (unat after)..<Suc (unat through)]"
    if "overlay_event_window text_of after through db = Inr (Some es)"
  proof -
    from that have es: "es = map event_of_row
        (take (unat through - unat after) (drop (unat after) (event_log db)))"
      and le: "unat after \<le> unat through"
      and len: "after = through \<or> unat through \<le> length (event_log db)"
      using assms by (auto simp: overlay_window_Some word_le_nat_alt)
    show ?thesis
    proof (cases "after = through")
      case True
      then show ?thesis by (simp add: es del: upt_Suc)
    next
      case False
      then show ?thesis
        using map_seq_slice [of db "unat through - unat after" "unat after"] assms le len
        by (simp add: es log_inv_def event_position_def [abs_def] del: upt_Suc)
    qed
  qed
  then show ?thesis by (simp add: overlay_window_Some [OF assms])
qed

theorem overlay_window_is_exact_witness:
  "\<exists>es. overlay_event_window (\<lambda>j. ''null'') 1 3 sample_log = Inr (Some es)"
  using overlay_window_is_exact [OF sample_log_inv, of "\<lambda>j. ''null''" 1 3]
  by (simp add: sample_log_def event_bytes_def MAX_ACCOUNTING_UNITS_def)

end
