(* ===== verification/Ledger_Feed.thy ===== *)
theory Ledger_Feed
  imports Ledger_Events
begin

text \<open>
  The durable feed attempts of \<open>src/src/ledger/feed.rs\<close>: intent, confirmation, unknown outcome and
  their reconciliation, each one transaction over \<open>feed_attempts\<close>, \<open>ledger_entries\<close>,
  \<open>feeder_cooldown\<close> and \<open>event_log\<close>. \<open>feed_inv\<close> is the invariant the code calls "ledger invariant":
  the credit is the receipts less the confirmed thresholds and never negative, at most one attempt
  is unresolved, and it is always affordable. The last sections show that the operations refine
  the in-memory \<open>FeedRuntime\<close> of \<open>Domain_Feed\<close>.
\<close>

section \<open>Operations\<close>

datatype stored_attempt_status = Stored_IntentCommitted | Stored_Unknown

record stored_feed_attempt =
  sfa_id :: uuid
  sfa_status :: stored_attempt_status
  sfa_threshold_sats :: u64

definition unresolved :: "attempt_row \<Rightarrow> bool" where
  "unresolved r \<longleftrightarrow> fa_status r = St_intent_committed \<or> fa_status r = St_unknown"

text \<open>INSERT INTO \<open>feed_attempts\<close>, with its primary key and the partial unique index
  \<open>one_unresolved_feed_attempt\<close>.\<close>

definition insert_feed_attempt :: "attempt_row \<Rightarrow> ledger_db \<Rightarrow> ledger_error + ledger_db" where
  "insert_feed_attempt r db =
     (if \<exists>q \<in> set (feed_attempts db). fa_id q = fa_id r
      then Inl (Db (UniqueViolation ''feed_attempts.id''))
      else if unresolved r \<and> (\<exists>q \<in> set (feed_attempts db). unresolved q)
      then Inl (Db (UniqueViolation ''one_unresolved_feed_attempt''))
      else Inr (db\<lparr>feed_attempts := feed_attempts db @ [r]\<rparr>))"

definition truncate_error :: "string \<Rightarrow> string" where
  "truncate_error e = take_chars 1000 e"

definition mark_interrupted_feed_intents_unknown :: "ledger_db \<Rightarrow> u64 ledger_result" where
  "mark_interrupted_feed_intents_unknown db =
     (let p = (\<lambda>r. fa_status r = St_intent_committed);
          affected = count_where p (feed_attempts db);
          db1 = db\<lparr>feed_attempts := update_where p
            (\<lambda>r. r\<lparr>fa_status := St_unknown,
                   fa_error := Some ''daemon restarted with an unresolved feed intent''\<rparr>)
            (feed_attempts db)\<rparr>
      in if 0 < affected
         then andthen (append_event_in_transaction ''processing_error''
                (JObj [(''message'', JStr
                  ''An automatic feed was interrupted and requires operator reconciliation.'')])
                db1) (\<lambda>(_, db2). Inr (of_nat affected, db2))
         else Inr (0, db1))"

definition begin_feed_attempt ::
  "u64 \<Rightarrow> i64 \<Rightarrow> uuid \<Rightarrow> ledger_db \<Rightarrow> uuid option ledger_result" where
  "begin_feed_attempt threshold now fresh db =
     (if threshold = 0 then Inl (Attempt AttemptZeroThreshold)
      else andthen (to_i64 threshold) (\<lambda>threshold_i64.
        case find unresolved (feed_attempts db) of
          Some _ \<Rightarrow> Inl (Attempt UnresolvedFeedAttempt)
        | None \<Rightarrow>
            if now < feeder_resume_after db then Inr (None, db)
            else andthen (feed_credit_in_transaction db) (\<lambda>credit.
              if credit < threshold then Inr (None, db)
              else andthen (insert_feed_attempt
                     \<lparr>fa_id = fresh, fa_status = St_intent_committed,
                      fa_threshold_sats = threshold_i64, fa_resolved_at = None,
                      fa_error = None\<rparr> db)
                   (\<lambda>db1. Inr (Some fresh, db1)))))"

text \<open>\<open>UPDATE feed_attempts SET .. WHERE id = ? AND status = ?\<close>, failing unless one row changed.\<close>

definition update_attempt ::
  "uuid \<Rightarrow> (attempt_state \<Rightarrow> bool) \<Rightarrow> (attempt_row \<Rightarrow> attempt_row) \<Rightarrow> attempt_error
     \<Rightarrow> ledger_db \<Rightarrow> ledger_error + ledger_db" where
  "update_attempt aid ok f e db =
     (let p = (\<lambda>r. fa_id r = aid \<and> ok (fa_status r)) in
      if count_where p (feed_attempts db) \<noteq> 1 then Inl (Attempt e)
      else Inr (db\<lparr>feed_attempts := update_where p f (feed_attempts db)\<rparr>))"

definition resolve_as_fed :: "uuid \<Rightarrow> attempt_state \<Rightarrow> i64 \<Rightarrow> ledger_db \<Rightarrow> unit ledger_result" where
  "resolve_as_fed aid expected now db =
     andthen (ok_or (Attempt NotInExpectedState)
       (find (\<lambda>r. fa_id r = aid \<and> fa_status r = expected) (feed_attempts db))) (\<lambda>row.
     andthen (to_u64 (fa_threshold_sats row)) (\<lambda>threshold.
     andthen (feed_credit_in_transaction db) (\<lambda>current.
       if current < threshold then Inl (Attempt InsufficientCredit)
       else andthen (update_attempt aid (\<lambda>s. s = expected)
              (\<lambda>r. r\<lparr>fa_status := St_confirmed, fa_resolved_at := Some now, fa_error := None\<rparr>)
              ChangedWhileResolving db) (\<lambda>db1.
       andthen (insert_ledger_entry
              \<lparr>le_id = 0, le_type = FEED_DEBIT, le_source_key = ''feed:'' @ aid,
               le_delta_sats = - fa_threshold_sats row, le_payment_hash = None,
               le_payment_source = None, le_payment_source_id = None, le_address_user = None,
               le_credit_pool = None, le_feed_attempt_id = Some aid\<rparr> db1) (\<lambda>(_, db2).
       andthen (feed_credit_in_transaction db2) (\<lambda>credit.
       andthen (append_event_in_transaction ''feeder_confirmed''
              (JObj [(''feed_attempt_id'', JStr aid), (''threshold_sats'', JU64 threshold),
                     (''feed_credit_sats'', JU64 credit)]) db2) (\<lambda>(_, db3).
         Inr ((), db3))))))))"

definition confirm_feed_attempt :: "uuid \<Rightarrow> i64 \<Rightarrow> ledger_db \<Rightarrow> unit ledger_result" where
  "confirm_feed_attempt aid now db = resolve_as_fed aid St_intent_committed now db"

definition db_mark_feed_unknown :: "uuid \<Rightarrow> string \<Rightarrow> ledger_db \<Rightarrow> unit ledger_result" where
  "db_mark_feed_unknown aid error db =
     andthen (update_attempt aid (\<lambda>s. s = St_intent_committed)
       (\<lambda>r. r\<lparr>fa_status := St_unknown, fa_error := Some (truncate_error error)\<rparr>)
       NotInExpectedState db) (\<lambda>db1.
     andthen (append_event_in_transaction ''processing_error''
       (JObj [(''feed_attempt_id'', JStr aid), (''message'', JStr
         ''An automatic feed could not be confirmed. Operator reconciliation is required.'')])
       db1) (\<lambda>(_, db2). Inr ((), db2)))"

definition db_reconcile_unknown_as_fed :: "uuid \<Rightarrow> i64 \<Rightarrow> ledger_db \<Rightarrow> unit ledger_result" where
  "db_reconcile_unknown_as_fed aid now db = resolve_as_fed aid St_unknown now db"

definition db_reconcile_unknown_as_not_fed :: "uuid \<Rightarrow> i64 \<Rightarrow> ledger_db \<Rightarrow> unit ledger_result" where
  "db_reconcile_unknown_as_not_fed aid now db =
     andthen (update_attempt aid (\<lambda>s. s = St_unknown)
       (\<lambda>r. r\<lparr>fa_status := St_reconciled_not_fed, fa_resolved_at := Some now, fa_error := None\<rparr>)
       NotInExpectedState db) (\<lambda>db1.
     andthen (feed_credit_in_transaction db1) (\<lambda>credit.
     andthen (append_event_in_transaction ''feed_reconciled_not_fed''
       (JObj [(''feed_attempt_id'', JStr aid), (''feed_credit_sats'', JU64 credit)])
       db1) (\<lambda>(_, db2). Inr ((), db2))))"

definition resolve_feed_not_dispatched ::
  "uuid \<Rightarrow> u64 \<Rightarrow> i64 \<Rightarrow> ledger_db \<Rightarrow> unit ledger_result" where
  "resolve_feed_not_dispatched aid retry_after now db =
     (if \<not> (1 \<le> retry_after \<and> retry_after \<le> 86400) then Inl (Attempt InvalidCooldown)
      else andthen (update_attempt aid (\<lambda>s. s = St_intent_committed \<or> s = St_unknown)
        (\<lambda>r. r\<lparr>fa_status := St_reconciled_not_fed, fa_resolved_at := Some now,
               fa_error := None\<rparr>)
        NotInExpectedState db) (\<lambda>db1.
      andthen (to_i64 retry_after) (\<lambda>retry.
        let db2 = db1\<lparr>feeder_resume_after := max (feeder_resume_after db1) (now + retry)\<rparr> in
        andthen (append_event_in_transaction ''feeder_not_dispatched''
          (JObj [(''feed_attempt_id'', JStr aid), (''retry_after_seconds'', JU64 retry_after)])
          db2) (\<lambda>(_, db3). Inr ((), db3)))))"

definition stored_of_row :: "attempt_row \<Rightarrow> ledger_error + stored_feed_attempt" where
  "stored_of_row r =
     andthen (case fa_status r of
                St_intent_committed \<Rightarrow> Inr Stored_IntentCommitted
              | St_unknown \<Rightarrow> Inr Stored_Unknown
              | _ \<Rightarrow> Inl (Attempt NotInExpectedState)) (\<lambda>st.
     andthen (to_u64 (fa_threshold_sats r)) (\<lambda>t.
       Inr \<lparr>sfa_id = fa_id r, sfa_status = st, sfa_threshold_sats = t\<rparr>))"

definition unresolved_feed_attempt ::
  "ledger_db \<Rightarrow> ledger_error + stored_feed_attempt option" where
  "unresolved_feed_attempt db =
     (case find unresolved (feed_attempts db) of
        None \<Rightarrow> Inr None
      | Some r \<Rightarrow> andthen (stored_of_row r) (\<lambda>s. Inr (Some s)))"

section \<open>The overlay snapshot\<close>

text \<open>\<open>overlay_snapshot_state\<close> and \<open>overlay_snapshot_message\<close> of \<open>ledger/events.rs\<close>: one
  transaction reads the sequence number, the credit and the unresolved attempt.\<close>

record overlay_snapshot =
  snap_seq :: u64
  snap_feed_credit_sats :: u64
  snap_unresolved :: "stored_feed_attempt option"

definition overlay_snapshot_state :: "ledger_db \<Rightarrow> ledger_error + overlay_snapshot" where
  "overlay_snapshot_state db =
     andthen (ok_or (Db SumOverflow) (sql_sum (map le_delta_sats (ledger_entries db)))) (\<lambda>credit.
     if credit < 0 then Inl (Db NegativeCredit)
     else andthen (unresolved_feed_attempt db) (\<lambda>attempt.
     andthen (to_u64 (max_event_seq db)) (\<lambda>seq.
     andthen (to_u64 credit) (\<lambda>c.
       Inr \<lparr>snap_seq = seq, snap_feed_credit_sats = c, snap_unresolved = attempt\<rparr>))))"

definition overlay_snapshot_message :: "u64 \<Rightarrow> ledger_db \<Rightarrow> ledger_error + (u64 \<times> json)" where
  "overlay_snapshot_message threshold db =
     (if threshold = 0 then Inl (Attempt AttemptZeroThreshold)
      else andthen (overlay_snapshot_state db) (\<lambda>snap.
        Inr (snap_seq snap, JObj
          [(''type'', JStr ''snapshot''),
           (''seq'', JU64 (snap_seq snap)),
           (''feed_credit_sats'', JU64 (snap_feed_credit_sats snap)),
           (''threshold_sats'', JU64 threshold),
           (''feeds_due'', JU64 (snap_feed_credit_sats snap div threshold)),
           (''remainder_sats'', JU64 (snap_feed_credit_sats snap mod threshold)),
           (''unresolved_feed_attempt'', JOptStr (map_option sfa_id (snap_unresolved snap)))])))"

section \<open>The invariant\<close>

definition receipts :: "ledger_db \<Rightarrow> int" where
  "receipts db =
     sum_list (map le_delta_sats (filter (\<lambda>e. le_type e = HERD_RECEIPT) (ledger_entries db)))"

definition confirmed_sats :: "ledger_db \<Rightarrow> int" where
  "confirmed_sats db = sum_list (map fa_threshold_sats
     (filter (\<lambda>r. fa_status r = St_confirmed) (feed_attempts db)))"

definition feed_key :: "uuid \<Rightarrow> string" where
  "feed_key aid = ''feed:'' @ aid"

definition debits_confirmed :: "ledger_db \<Rightarrow> bool" where
  "debits_confirmed db \<longleftrightarrow> (\<forall>e \<in> set (ledger_entries db). \<forall>aid. le_source_key e = feed_key aid \<longrightarrow>
     (\<exists>r \<in> set (feed_attempts db). fa_id r = aid \<and> fa_status r = St_confirmed))"

definition feed_inv :: "ledger_db \<Rightarrow> bool" where
  "feed_inv db \<longleftrightarrow>
     sql_sum (map le_delta_sats (ledger_entries db)) = Some (balance db) \<and> 0 \<le> balance db
     \<and> distinct (map fa_id (feed_attempts db))
     \<and> count_where unresolved (feed_attempts db) \<le> 1
     \<and> (\<forall>r \<in> set (feed_attempts db). 0 < fa_threshold_sats r
          \<and> (unresolved r \<longrightarrow> fa_threshold_sats r \<le> balance db))
     \<and> debits_confirmed db
     \<and> balance db = receipts db - confirmed_sats db"

lemma feed_inv_empty: "feed_inv empty_db"
  by (simp add: feed_inv_def empty_db_def balance_def receipts_def confirmed_sats_def
      debits_confirmed_def count_where_def)

text \<open>The invariant reads only the ledger entries and the attempts.\<close>

lemma feed_inv_cong:
  assumes "ledger_entries db' = ledger_entries db" "feed_attempts db' = feed_attempts db"
  shows "feed_inv db' \<longleftrightarrow> feed_inv db"
  using assms by (simp add: feed_inv_def balance_def receipts_def confirmed_sats_def
      debits_confirmed_def)

lemma feed_inv_credit:
  assumes "feed_inv db"
  shows "feed_credit_in_transaction db = Inr (word_of_int (balance db))"
    and "uint (word_of_int (balance db) :: u64) = balance db"
    and "0 \<le> balance db" and "balance db \<le> i64_max"
proof -
  from assms have *: "sql_sum (map le_delta_sats (ledger_entries db)) = Some (balance db)"
    "0 \<le> balance db" by (auto simp: feed_inv_def)
  then show "feed_credit_in_transaction db = Inr (word_of_int (balance db))" "0 \<le> balance db"
    by (simp_all add: feed_credit_Inr)
  from sql_sum_in_i64 [OF *(1)] show "balance db \<le> i64_max" by (simp add: in_i64_def)
  with * show "uint (word_of_int (balance db) :: u64) = balance db"
    by (simp add: uint_word_of_int_i64)
qed

lemma sql_sum_snoc_fits:
  "sql_sum xs = Some s \<Longrightarrow> in_i64 (s + x) \<Longrightarrow> sql_sum (xs @ [x]) = Some (s + x)"
  by (simp add: sql_sum_snoc)

text \<open>An attempt whose status changes to another state that is not confirmed: nothing is debited
  and the number of unresolved attempts does not grow.\<close>

lemma feed_inv_status_change:
  assumes inv: "feed_inv db" and r: "r \<in> set (feed_attempts db)" "unresolved r"
    and f: "fa_id (f r) = fa_id r" "fa_threshold_sats (f r) = fa_threshold_sats r"
      "fa_status (f r) \<noteq> St_confirmed"
    and rows: "feed_attempts db = xs @ r # ys" "feed_attempts db' = xs @ f r # ys"
    and entries: "ledger_entries db' = ledger_entries db"
  shows "feed_inv db'"
proof -
  have b: "balance db' = balance db" "receipts db' = receipts db"
    using entries by (simp_all add: balance_def receipts_def)
  have st: "fa_status r \<noteq> St_confirmed" using r(2) by (auto simp: unresolved_def)
  then have c: "confirmed_sats db' = confirmed_sats db"
    using rows f by (simp add: confirmed_sats_def)
  have "count_where unresolved (feed_attempts db') \<le> count_where unresolved (feed_attempts db)"
    using r(2) rows by (simp add: count_where_append count_where_Cons)
  moreover have "debits_confirmed db'"
  proof -
    have "r' \<in> set xs \<union> set ys" if "r' \<in> set (feed_attempts db)" "fa_status r' = St_confirmed" for r'
      using that st rows(1) by auto
    then show ?thesis
      using inv unfolding feed_inv_def debits_confirmed_def entries rows(2)
      by (metis Un_iff list.set_intros(2) set_append)
  qed
  ultimately show ?thesis
    using inv r f rows unfolding feed_inv_def b c entries by (auto simp: b)
qed

section \<open>What each operation does in a good state\<close>

lemma find_attempt:
  assumes "feed_inv db" "r \<in> set (feed_attempts db)" "ok (fa_status r)"
  obtains xs ys where "feed_attempts db = xs @ r # ys" "fa_id r \<notin> fa_id ` set xs"
    "fa_id r \<notin> fa_id ` set ys"
    and "\<And>f. update_where (\<lambda>x. fa_id x = fa_id r \<and> ok (fa_status x)) f (feed_attempts db)
        = xs @ f r # ys"
    and "count_where (\<lambda>x. fa_id x = fa_id r \<and> ok (fa_status x)) (feed_attempts db) = 1"
    and "find (\<lambda>x. fa_id x = fa_id r \<and> ok (fa_status x)) (feed_attempts db) = Some r"
  using assms update_one [of fa_id "feed_attempts db" r "\<lambda>x. ok (fa_status x)"]
  by (auto simp: feed_inv_def)

lemma update_attempt_Inr:
  assumes "update_attempt aid ok f e db = Inr db'" "feed_inv db"
  obtains r xs ys where "r \<in> set (feed_attempts db)" "fa_id r = aid" "ok (fa_status r)"
    "feed_attempts db = xs @ r # ys" "db' = db\<lparr>feed_attempts := xs @ f r # ys\<rparr>"
proof -
  from assms(1) have "count_where (\<lambda>r. fa_id r = aid \<and> ok (fa_status r)) (feed_attempts db) \<noteq> 0"
    and db': "db' = db\<lparr>feed_attempts :=
      update_where (\<lambda>r. fa_id r = aid \<and> ok (fa_status r)) f (feed_attempts db)\<rparr>"
    by (auto simp: update_attempt_def Let_def split: if_splits)
  then obtain r where r: "r \<in> set (feed_attempts db)" "fa_id r = aid" "ok (fa_status r)"
    by (auto simp: count_where_0)
  from find_attempt [of db r ok, OF assms(2) r(1,3)] show thesis
    using that r db' by metis
qed

lemma update_attempt_ok:
  assumes "feed_inv db" "r \<in> set (feed_attempts db)" "fa_id r = aid" "ok (fa_status r)"
  obtains xs ys where "feed_attempts db = xs @ r # ys"
    "update_attempt aid ok f e db = Inr (db\<lparr>feed_attempts := xs @ f r # ys\<rparr>)"
proof -
  show thesis
  proof (rule find_attempt [of db r ok, OF assms(1,2,4)], goal_cases)
    case (1 xs ys)
    show ?case
      by (rule that [OF 1(1)]) (simp add: update_attempt_def Let_def 1(4,5) assms(3) [symmetric])
  qed
qed

lemma begin_feed_attempt_Inr:
  assumes "feed_inv db"
  shows "begin_feed_attempt t now fresh db = Inr (x, db') \<longleftrightarrow>
    t \<noteq> 0 \<and> uint t \<le> i64_max \<and> find unresolved (feed_attempts db) = None
    \<and> (if now < feeder_resume_after db \<or> balance db < uint t then x = None \<and> db' = db
       else fresh \<notin> fa_id ` set (feed_attempts db) \<and> x = Some fresh
         \<and> db' = db\<lparr>feed_attempts := feed_attempts db
              @ [\<lparr>fa_id = fresh, fa_status = St_intent_committed, fa_threshold_sats = uint t,
                  fa_resolved_at = None, fa_error = None\<rparr>]\<rparr>)"
proof (cases "find unresolved (feed_attempts db)")
  case None
  then have "\<not> (\<exists>q \<in> set (feed_attempts db). unresolved q)" by (auto simp: find_None)
  with None feed_inv_credit [OF assms] show ?thesis
    by (auto simp: begin_feed_attempt_def res_simps to_i64_Inr insert_feed_attempt_def bex_key
        word_less_uint split: if_splits)
qed (auto simp: begin_feed_attempt_def res_simps)

lemma begin_feed_attempt_inv:
  assumes "begin_feed_attempt t now fresh db = Inr (x, db')" "feed_inv db"
  shows "feed_inv db'"
proof (cases x)
  case None
  with assms show ?thesis by (auto simp: begin_feed_attempt_Inr split: if_splits)
next
  case (Some u)
  with assms have new: "fresh \<notin> fa_id ` set (feed_attempts db)" "uint t \<le> balance db" "t \<noteq> 0"
    and none: "find unresolved (feed_attempts db) = None"
    and db': "db' = db\<lparr>feed_attempts := feed_attempts db
              @ [\<lparr>fa_id = fresh, fa_status = St_intent_committed, fa_threshold_sats = uint t,
                  fa_resolved_at = None, fa_error = None\<rparr>]\<rparr>"
    by (auto simp: begin_feed_attempt_Inr split: if_splits)
  from none have "count_where unresolved (feed_attempts db) = 0"
    by (auto simp: count_where_0 find_None)
  moreover have "0 < uint t" using new(3) by (simp add: word_eq_0_uint less_le)
  ultimately show ?thesis
    using assms(2) new unfolding feed_inv_def db'
    by (auto simp: balance_def receipts_def confirmed_sats_def debits_confirmed_def
        count_where_append count_where_Cons count_where_Nil)
qed

text \<open>The state after a confirmed feed.\<close>

definition fed_db :: "attempt_row \<Rightarrow> attempt_row list \<Rightarrow> attempt_row list \<Rightarrow> i64
    \<Rightarrow> ledger_db \<Rightarrow> ledger_db" where
  "fed_db r xs ys now db =
     db\<lparr>feed_attempts := xs @ r\<lparr>fa_status := St_confirmed, fa_resolved_at := Some now,
                                 fa_error := None\<rparr> # ys,
        ledger_entries := ledger_entries db @
          [\<lparr>le_id = next_id le_id (ledger_entries db), le_type = FEED_DEBIT,
            le_source_key = feed_key (fa_id r),
            le_delta_sats = - fa_threshold_sats r, le_payment_hash = None,
            le_payment_source = None, le_payment_source_id = None, le_address_user = None,
            le_credit_pool = None, le_feed_attempt_id = Some (fa_id r)\<rparr>],
        event_log := event_log db @
          [\<lparr>ev_seq = next_id ev_seq (event_log db), ev_type = ''feeder_confirmed'',
            ev_payload = JObj [(''feed_attempt_id'', JStr (fa_id r)),
              (''threshold_sats'', JNum (fa_threshold_sats r)),
              (''feed_credit_sats'', JNum (balance db - fa_threshold_sats r))]\<rparr>]\<rparr>"

lemma balance_snoc [simp]:
  "balance (db\<lparr>ledger_entries := es @ [e]\<rparr>) = sum_list (map le_delta_sats es) + le_delta_sats e"
  by (simp add: balance_def)

lemma resolve_as_fed_ok:
  assumes inv: "feed_inv db" and r: "r \<in> set (feed_attempts db)" "fa_status r = st"
    and st: "st = St_intent_committed \<or> st = St_unknown"
  obtains xs ys where "feed_attempts db = xs @ r # ys"
    "resolve_as_fed (fa_id r) st now db = Inr ((), fed_db r xs ys now db)"
proof -
  have un: "unresolved r" using r st by (auto simp: unresolved_def)
  with inv r have t: "0 < fa_threshold_sats r" "fa_threshold_sats r \<le> balance db"
    by (auto simp: feed_inv_def)
  note c = feed_inv_credit [OF inv]
  let ?f = "\<lambda>r. r\<lparr>fa_status := St_confirmed, fa_resolved_at := Some now, fa_error := None\<rparr>"
  obtain xs ys where
    rows: "feed_attempts db = xs @ r # ys" and new: "fa_id r \<notin> fa_id ` set xs" "fa_id r \<notin> fa_id ` set ys"
    and upd: "\<And>f. update_where (\<lambda>x. fa_id x = fa_id r \<and> fa_status x = st) f (feed_attempts db)
        = xs @ f r # ys"
    and cnt: "count_where (\<lambda>x. fa_id x = fa_id r \<and> fa_status x = st) (feed_attempts db) = 1"
    and fnd: "find (\<lambda>x. fa_id x = fa_id r \<and> fa_status x = st) (feed_attempts db) = Some r"
    by (rule find_attempt [of db r "\<lambda>s. s = st", OF inv r]) (rule that)
  have upd': "update_attempt (fa_id r) (\<lambda>s. s = st) ?f ChangedWhileResolving db
      = Inr (db\<lparr>feed_attempts := xs @ ?f r # ys\<rparr>)"
    by (simp add: update_attempt_def Let_def cnt upd)
  have key: "feed_key (fa_id r) \<notin> le_source_key ` set (ledger_entries db)"
  proof
    assume "feed_key (fa_id r) \<in> le_source_key ` set (ledger_entries db)"
    then obtain q where q: "q \<in> set (feed_attempts db)" "fa_id q = fa_id r"
      "fa_status q = St_confirmed"
      using inv unfolding feed_inv_def debits_confirmed_def by (metis imageE)
    with new have "q \<notin> set xs" "q \<notin> set ys" by (metis imageI)+
    with q(1) rows have "q = r" by simp
    with q r st show False by auto
  qed
  have word_t: "uint (word_of_int (fa_threshold_sats r) :: u64) = fa_threshold_sats r"
    using t c by (intro uint_word_of_int_i64) auto
  have sum: "sql_sum (map le_delta_sats (ledger_entries db) @ [- fa_threshold_sats r])
      = Some (balance db - fa_threshold_sats r)"
    using inv c t unfolding feed_inv_def
    by (subst sql_sum_snoc_fits [where s = "balance db"]) (auto simp: in_i64_def i64_min_def)
  have rest: "uint (word_of_int (balance db - fa_threshold_sats r) :: u64)
      = balance db - fa_threshold_sats r"
    using t c by (intro uint_word_of_int_i64) auto
  show thesis
  proof (rule that [OF rows])
    show "resolve_as_fed (fa_id r) st now db = Inr ((), fed_db r xs ys now db)"
      using t c(1,2) key sum word_t rest
      unfolding resolve_as_fed_def fnd ok_or_simps andthen_simps upd'
      by (simp add: word_less_uint insert_ledger_entry_def bex_key feed_key_def Let_def
          feed_credit_in_transaction_def append_event_eq fed_db_def JU64_def del: of_int_diff)
  qed
qed

lemma fed_db_inv:
  assumes inv: "feed_inv db" and r: "r \<in> set (feed_attempts db)" "unresolved r"
    and rows: "feed_attempts db = xs @ r # ys"
  shows "feed_inv (fed_db r xs ys now db)"
    and "balance (fed_db r xs ys now db) = balance db - fa_threshold_sats r"
    and "find unresolved (feed_attempts (fed_db r xs ys now db)) = None"
proof -
  have t: "0 < fa_threshold_sats r" "fa_threshold_sats r \<le> balance db"
    using inv r by (auto simp: feed_inv_def)
  have st: "fa_status r \<noteq> St_confirmed" using r(2) by (auto simp: unresolved_def)
  have b: "balance (fed_db r xs ys now db) = balance db - fa_threshold_sats r"
    by (simp add: fed_db_def balance_def)
  then show "balance (fed_db r xs ys now db) = balance db - fa_threshold_sats r" .
  have none: "count_where unresolved (feed_attempts (fed_db r xs ys now db)) = 0"
    using inv r(2) rows
    by (simp add: feed_inv_def fed_db_def count_where_append count_where_Cons unresolved_def)
  then show "find unresolved (feed_attempts (fed_db r xs ys now db)) = None"
    by (auto simp: count_where_0 find_None)
  have sum: "sql_sum (map le_delta_sats (ledger_entries db) @ [- fa_threshold_sats r])
      = Some (balance db - fa_threshold_sats r)"
    using inv feed_inv_credit [OF inv] t unfolding feed_inv_def
    by (subst sql_sum_snoc_fits [where s = "balance db"]) (auto simp: in_i64_def i64_min_def)
  have "debits_confirmed (fed_db r xs ys now db)"
    using inv rows st unfolding feed_inv_def debits_confirmed_def
    by (auto simp: fed_db_def feed_key_def)
  moreover have "receipts (fed_db r xs ys now db) = receipts db"
    by (simp add: receipts_def fed_db_def)
  moreover have "confirmed_sats (fed_db r xs ys now db) = confirmed_sats db + fa_threshold_sats r"
    using rows st by (simp add: confirmed_sats_def fed_db_def)
  moreover have "\<forall>q \<in> set (feed_attempts (fed_db r xs ys now db)). 0 < fa_threshold_sats q
      \<and> \<not> unresolved q"
    using inv rows none t unfolding feed_inv_def by (auto simp: fed_db_def count_where_0)
  ultimately show "feed_inv (fed_db r xs ys now db)"
    using inv rows none t sum b unfolding feed_inv_def by (auto simp: fed_db_def)
qed

lemma resolve_as_fed_Inr:
  assumes "resolve_as_fed aid st now db = Inr (u, db')" "feed_inv db"
    and "st = St_intent_committed \<or> st = St_unknown"
  obtains r xs ys where "r \<in> set (feed_attempts db)" "fa_id r = aid" "fa_status r = st"
    "unresolved r" "feed_attempts db = xs @ r # ys" "db' = fed_db r xs ys now db"
proof -
  from assms(1) obtain r where
    "find (\<lambda>r. fa_id r = aid \<and> fa_status r = st) (feed_attempts db) = Some r"
    by (auto simp: resolve_as_fed_def res_simps)
  from find_Some_in [OF this] have r: "r \<in> set (feed_attempts db)" "fa_id r = aid"
    "fa_status r = st" by auto
  show thesis
  proof (rule resolve_as_fed_ok [OF assms(2) r(1,3) assms(3), of now], goal_cases)
    case (1 xs ys)
    from 1(2) assms(1) r(2) have "db' = fed_db r xs ys now db" by simp
    with 1(1) r assms(3) show ?case by (intro that) (auto simp: unresolved_def)
  qed
qed

lemma feed_inv_frame [simp]:
  "feed_inv (db\<lparr>event_log := l\<rparr>) = feed_inv db"
  "feed_inv (db\<lparr>feeder_resume_after := n\<rparr>) = feed_inv db"
  by (simp_all add: feed_inv_cong [of "db\<lparr>event_log := l\<rparr>" db]
      feed_inv_cong [of "db\<lparr>feeder_resume_after := n\<rparr>" db])

lemma update_attempt_inv:
  assumes "update_attempt aid ok f e db = Inr db'" "feed_inv db"
    and "\<And>st. ok st \<Longrightarrow> st = St_intent_committed \<or> st = St_unknown"
    and "\<And>r. fa_id (f r) = fa_id r" "\<And>r. fa_threshold_sats (f r) = fa_threshold_sats r"
      "\<And>r. fa_status (f r) \<noteq> St_confirmed"
  shows "feed_inv db'"
proof (rule update_attempt_Inr [OF assms(1,2)], goal_cases)
  case (1 r xs ys)
  have un: "unresolved r" using assms(3) [OF 1(3)] by (simp add: unresolved_def)
  have "feed_attempts db' = xs @ f r # ys" "ledger_entries db' = ledger_entries db"
    by (simp_all add: 1(5))
  with feed_inv_status_change [where db = db and f = f and r = r,
      OF assms(2) 1(1) un assms(4) assms(5) assms(6) 1(4)] show ?case by blast
qed

lemma mark_unknown_inv:
  assumes "db_mark_feed_unknown aid err db = Inr (u, db')" "feed_inv db"
  shows "feed_inv db'"
proof -
  from assms(1) obtain db1 where "update_attempt aid (\<lambda>s. s = St_intent_committed)
       (\<lambda>r. r\<lparr>fa_status := St_unknown, fa_error := Some (truncate_error err)\<rparr>)
       NotInExpectedState db = Inr db1" and db': "\<exists>l. db' = db1\<lparr>event_log := l\<rparr>"
    by (auto simp: db_mark_feed_unknown_def res_simps append_event_eq)
  then have "feed_inv db1" by (elim update_attempt_inv) (auto simp: assms(2))
  with db' show ?thesis by auto
qed

lemma reconcile_not_fed_inv:
  assumes "db_reconcile_unknown_as_not_fed aid now db = Inr (u, db')" "feed_inv db"
  shows "feed_inv db'"
proof -
  from assms(1) obtain db1 where "update_attempt aid (\<lambda>s. s = St_unknown)
       (\<lambda>r. r\<lparr>fa_status := St_reconciled_not_fed, fa_resolved_at := Some now, fa_error := None\<rparr>)
       NotInExpectedState db = Inr db1" and db': "\<exists>l. db' = db1\<lparr>event_log := l\<rparr>"
    by (auto simp: db_reconcile_unknown_as_not_fed_def res_simps append_event_eq)
  then have "feed_inv db1" by (elim update_attempt_inv) (auto simp: assms(2))
  with db' show ?thesis by auto
qed

lemma not_dispatched_inv:
  assumes "resolve_feed_not_dispatched aid retry now db = Inr (u, db')" "feed_inv db"
  shows "feed_inv db'"
proof -
  from assms(1) obtain db1 where
    "update_attempt aid (\<lambda>s. s = St_intent_committed \<or> s = St_unknown)
        (\<lambda>r. r\<lparr>fa_status := St_reconciled_not_fed, fa_resolved_at := Some now, fa_error := None\<rparr>)
        NotInExpectedState db = Inr db1"
    and db': "\<exists>n l. db' = db1\<lparr>feeder_resume_after := n, event_log := l\<rparr>"
    by (auto simp: resolve_feed_not_dispatched_def res_simps Let_def append_event_eq
        split: if_splits)
  then have "feed_inv db1" by (elim update_attempt_inv) (auto simp: assms(2))
  with db' show ?thesis by auto
qed

lemma resolve_as_fed_inv:
  assumes "resolve_as_fed aid st now db = Inr (u, db')" "feed_inv db"
    and "st = St_intent_committed \<or> st = St_unknown"
  shows "feed_inv db'"
  by (rule resolve_as_fed_Inr [OF assms]) (simp add: fed_db_inv(1) [OF assms(2)])

lemma interrupted_inv:
  assumes "mark_interrupted_feed_intents_unknown db = Inr (n, db')" "feed_inv db"
  shows "feed_inv db'"
proof (cases "\<exists>r \<in> set (feed_attempts db). fa_status r = St_intent_committed")
  case False
  then have "count_where (\<lambda>r. fa_status r = St_intent_committed) (feed_attempts db) = 0"
    by (simp add: count_where_0)
  with False assms show ?thesis
    by (simp add: mark_interrupted_feed_intents_unknown_def Let_def update_where_unused)
next
  case True
  then obtain r where r: "r \<in> set (feed_attempts db)" "fa_status r = St_intent_committed" by auto
  then obtain xs ys where rows: "feed_attempts db = xs @ r # ys" by (auto simp: in_set_conv_decomp)
  let ?f = "\<lambda>r. r\<lparr>fa_status := St_unknown,
    fa_error := Some ''daemon restarted with an unresolved feed intent''\<rparr>"
  let ?p = "\<lambda>r. fa_status r = St_intent_committed"
  have un: "unresolved r" using r by (simp add: unresolved_def)
  have "count_where unresolved xs = 0 \<and> count_where unresolved ys = 0"
    using assms(2) rows un by (simp add: feed_inv_def count_where_append count_where_Cons)
  then have "\<not> (\<exists>q \<in> set xs. ?p q)" "\<not> (\<exists>q \<in> set ys. ?p q)"
    by (auto simp: count_where_0 unresolved_def)
  then have "update_where ?p ?f (feed_attempts db) = xs @ ?f r # ys"
    using r rows by (simp add: update_where_append update_where_Cons update_where_unused)
  then have "feed_inv (db\<lparr>feed_attempts := update_where ?p ?f (feed_attempts db)\<rparr>)"
    using rows by (intro feed_inv_status_change [OF assms(2) r(1) un, where f = ?f]) auto
  with assms(1) show ?thesis
    by (auto simp: mark_interrupted_feed_intents_unknown_def Let_def append_event_eq
        split: if_splits)
qed

section \<open>Refinement of the in-memory runtime\<close>

text \<open>The runtime a database stands for, at the configured threshold.\<close>

definition abs_attempt :: "attempt_row \<Rightarrow> feed_attempt" where
  "abs_attempt r = \<lparr>attempt_id = fa_id r,
     attempt_status = (if fa_status r = St_unknown then Unknown else IntentCommitted)\<rparr>"

definition abs_runtime :: "u64 \<Rightarrow> ledger_db \<Rightarrow> feed_runtime" where
  "abs_runtime t db =
     \<lparr>rt_ledger = \<lparr>threshold_sats = t, credit_sats = word_of_int (balance db)\<rparr>,
      active_attempt = map_option abs_attempt (find unresolved (feed_attempts db))\<rparr>"

definition uniform_threshold :: "u64 \<Rightarrow> ledger_db \<Rightarrow> bool" where
  "uniform_threshold t db \<longleftrightarrow>
     (\<forall>r \<in> set (feed_attempts db). unresolved r \<longrightarrow> fa_threshold_sats r = uint t)"

text \<open>Outcomes compared up to the error's name.\<close>

definition same_outcome :: "'e + unit \<times> ledger_db \<Rightarrow> u64 \<Rightarrow> 'f + feed_runtime \<Rightarrow> bool" where
  "same_outcome m t a = (case m of
     Inl _ \<Rightarrow> (\<exists>e. a = Inl e) | Inr (_, db') \<Rightarrow> a = Inr (abs_runtime t db'))"

lemma find_unresolved:
  assumes "feed_inv db" "r \<in> set (feed_attempts db)" "unresolved r"
  shows "find unresolved (feed_attempts db) = Some r"
proof -
  from assms(2) obtain xs ys where rows: "feed_attempts db = xs @ r # ys"
    by (auto simp: in_set_conv_decomp)
  with assms(1,3) have "count_where unresolved xs = 0"
    by (simp add: feed_inv_def count_where_append count_where_Cons)
  then have "find unresolved xs = None" by (auto simp: count_where_0 find_None)
  with rows assms(3) show ?thesis by (simp add: find_append)
qed

lemma abs_active:
  assumes "feed_inv db"
  shows "active_attempt (abs_runtime t db) = Some \<lparr>attempt_id = aid, attempt_status = s\<rparr> \<longleftrightarrow>
    (\<exists>r \<in> set (feed_attempts db). fa_id r = aid
       \<and> fa_status r = (if s = Unknown then St_unknown else St_intent_committed))"
proof
  assume "active_attempt (abs_runtime t db) = Some \<lparr>attempt_id = aid, attempt_status = s\<rparr>"
  then obtain r where r: "find unresolved (feed_attempts db) = Some r"
    and a: "abs_attempt r = \<lparr>attempt_id = aid, attempt_status = s\<rparr>"
    by (auto simp: abs_runtime_def)
  from find_Some_in [OF r] a
  show "\<exists>r \<in> set (feed_attempts db). fa_id r = aid
       \<and> fa_status r = (if s = Unknown then St_unknown else St_intent_committed)"
    by (intro bexI [of _ r]) (auto simp: abs_attempt_def unresolved_def split: if_splits)
next
  assume "\<exists>r \<in> set (feed_attempts db). fa_id r = aid
       \<and> fa_status r = (if s = Unknown then St_unknown else St_intent_committed)"
  then obtain r where r: "r \<in> set (feed_attempts db)" "fa_id r = aid"
    "fa_status r = (if s = Unknown then St_unknown else St_intent_committed)" by auto
  then have "unresolved r" by (auto simp: unresolved_def)
  from find_unresolved [OF assms r(1) this] r(2,3)
  show "active_attempt (abs_runtime t db) = Some \<lparr>attempt_id = aid, attempt_status = s\<rparr>"
    by (cases s) (auto simp: abs_runtime_def abs_attempt_def)
qed

lemma require_attempt_abs:
  assumes "feed_inv db"
  shows "(\<exists>u. require_attempt aid s (abs_runtime t db) = Inr u) \<longleftrightarrow>
    (\<exists>r \<in> set (feed_attempts db). fa_id r = aid
       \<and> fa_status r = (if s = Unknown then St_unknown else St_intent_committed))"
  unfolding require_attempt_Inr abs_active [OF assms] by simp

lemma resolve_as_fed_refines:
  assumes inv: "feed_inv db" "uniform_threshold t db"
    and st: "st = (if s = Unknown then St_unknown else St_intent_committed)"
  shows "same_outcome (resolve_as_fed aid st now db) t
    (andthen (require_attempt aid s (abs_runtime t db)) (\<lambda>_.
     andthen (debit_confirmed_feed (rt_ledger (abs_runtime t db))) (\<lambda>l.
       Inr ((abs_runtime t db)\<lparr>rt_ledger := l, active_attempt := None\<rparr>))))"
proof (cases "\<exists>r \<in> set (feed_attempts db). fa_id r = aid \<and> fa_status r = st")
  case True
  then obtain r where r: "r \<in> set (feed_attempts db)" "fa_id r = aid" "fa_status r = st" by auto
  have un: "unresolved r" using r(3) st by (auto simp: unresolved_def)
  with inv r(1) have t: "fa_threshold_sats r = uint t" "uint t \<le> balance db"
    by (auto simp: uniform_threshold_def feed_inv_def)
  have req: "require_attempt aid s (abs_runtime t db) = Inr ()"
    using require_attempt_abs [OF inv(1), of aid s t] r st by auto
  have st': "st = St_intent_committed \<or> st = St_unknown" using st by auto
  show ?thesis
  proof (rule resolve_as_fed_ok [OF inv(1) r(1,3) st', of now], goal_cases)
    case (1 xs ys)
    note f = fed_db_inv [OF inv(1) r(1) un 1(1), of now]
    have "\<not> word_of_int (balance db) < t"
      using t feed_inv_credit(2) [OF inv(1)] by (simp add: word_less_uint)
    then show ?case
      using 1(2) r(2) f(2,3) t req
      by (simp add: same_outcome_def debit_confirmed_feed_def abs_runtime_def)
  qed
next
  case False
  then have "find (\<lambda>r. fa_id r = aid \<and> fa_status r = st) (feed_attempts db) = None"
    by (auto simp: find_None)
  then have m: "resolve_as_fed aid st now db = Inl (Attempt NotInExpectedState)"
    by (simp add: resolve_as_fed_def)
  have "\<not> (\<exists>u. require_attempt aid s (abs_runtime t db) = Inr u)"
    using False require_attempt_abs [OF inv(1), of aid s t] st by auto
  then obtain e where "require_attempt aid s (abs_runtime t db) = Inl e"
    by (metis sum.exhaust)
  with m show ?thesis by (simp add: same_outcome_def)
qed

lemma update_attempt_None:
  assumes "\<not> (\<exists>r \<in> set (feed_attempts db). fa_id r = aid \<and> ok (fa_status r))"
  shows "update_attempt aid ok f e db = Inl (Attempt e)"
proof -
  have "count_where (\<lambda>r. fa_id r = aid \<and> ok (fa_status r)) (feed_attempts db) = 0"
    using assms by (auto simp: count_where_0)
  then show ?thesis by (simp add: update_attempt_def Let_def)
qed

lemma mark_unknown_refines:
  assumes inv: "feed_inv db"
  shows "same_outcome (db_mark_feed_unknown aid err db) t
    (mark_feed_unknown aid (abs_runtime t db))"
proof (cases "\<exists>r \<in> set (feed_attempts db). fa_id r = aid \<and> fa_status r = St_intent_committed")
  case True
  then obtain r where r: "r \<in> set (feed_attempts db)" "fa_id r = aid"
    "fa_status r = St_intent_committed" by auto
  have un: "unresolved r" using r(3) by (simp add: unresolved_def)
  have req: "require_attempt aid IntentCommitted (abs_runtime t db) = Inr ()"
    using require_attempt_abs [OF inv, of aid IntentCommitted t] r by auto
  let ?f = "\<lambda>r. r\<lparr>fa_status := St_unknown, fa_error := Some (truncate_error err)\<rparr>"
  show ?thesis
  proof (rule update_attempt_ok [OF inv r(1,2), of "\<lambda>s. s = St_intent_committed" ?f
        NotInExpectedState], goal_cases)
    case 1
    show ?case by (rule r(3))
  next
    case (2 xs ys)
    have "count_where unresolved xs = 0"
      using inv 2(1) un by (simp add: feed_inv_def count_where_append count_where_Cons)
    then have "find unresolved xs = None" by (auto simp: count_where_0 find_None)
    moreover have "unresolved (?f r)" by (simp add: unresolved_def)
    ultimately have "find unresolved (xs @ ?f r # ys) = Some (?f r)"
      by (simp add: find_append)
    with req r(2) 2(2) show ?case
      by (simp add: same_outcome_def db_mark_feed_unknown_def mark_feed_unknown_def
          append_event_eq abs_runtime_def abs_attempt_def balance_def)
  qed
next
  case False
  then have m: "db_mark_feed_unknown aid err db = Inl (Attempt NotInExpectedState)"
    by (simp add: db_mark_feed_unknown_def update_attempt_None)
  have "\<not> (\<exists>u. require_attempt aid IntentCommitted (abs_runtime t db) = Inr u)"
    using False require_attempt_abs [OF inv, of aid IntentCommitted t] by simp
  then obtain e where "require_attempt aid IntentCommitted (abs_runtime t db) = Inl e"
    by (metis sum.exhaust)
  with m show ?thesis by (simp add: same_outcome_def mark_feed_unknown_def)
qed

lemma find_unresolved_replaced:
  assumes "feed_inv db" "feed_attempts db = xs @ r # ys" "unresolved r" "\<not> unresolved (f r)"
  shows "find unresolved (xs @ f r # ys) = None"
proof -
  have "count_where unresolved (xs @ f r # ys) = 0"
    using assms by (simp add: feed_inv_def count_where_append count_where_Cons)
  then show ?thesis by (simp only: count_where_0 find_None) blast
qed

lemma reconcile_not_fed_refines:
  assumes inv: "feed_inv db"
  shows "same_outcome (db_reconcile_unknown_as_not_fed aid now db) t
    (reconcile_unknown_as_not_fed aid (abs_runtime t db))"
proof (cases "\<exists>r \<in> set (feed_attempts db). fa_id r = aid \<and> fa_status r = St_unknown")
  case True
  then obtain r where r: "r \<in> set (feed_attempts db)" "fa_id r = aid" "fa_status r = St_unknown"
    by auto
  have un: "unresolved r" using r(3) by (simp add: unresolved_def)
  have req: "require_attempt aid Unknown (abs_runtime t db) = Inr ()"
    using require_attempt_abs [OF inv, of aid Unknown t] r by auto
  let ?f = "\<lambda>r. r\<lparr>fa_status := St_reconciled_not_fed, fa_resolved_at := Some now,
    fa_error := None\<rparr>"
  show ?thesis
  proof (rule update_attempt_ok [OF inv r(1,2), of "\<lambda>s. s = St_unknown" ?f
        NotInExpectedState], goal_cases)
    case 1
    show ?case by (rule r(3))
  next
    case (2 xs ys)
    have none: "find unresolved (xs @ ?f r # ys) = None"
      by (rule find_unresolved_replaced [OF inv 2(1) un]) (simp add: unresolved_def)
    have "feed_credit_in_transaction (db\<lparr>feed_attempts := xs @ ?f r # ys\<rparr>)
        = feed_credit_in_transaction db"
      by (simp add: feed_credit_in_transaction_def)
    with req r(2) 2(2) none feed_inv_credit(1) [OF inv] show ?case
      by (simp add: same_outcome_def db_reconcile_unknown_as_not_fed_def
          reconcile_unknown_as_not_fed_def append_event_eq abs_runtime_def balance_def)
  qed
next
  case False
  then have m: "db_reconcile_unknown_as_not_fed aid now db = Inl (Attempt NotInExpectedState)"
    by (simp add: db_reconcile_unknown_as_not_fed_def update_attempt_None)
  have "\<not> (\<exists>u. require_attempt aid Unknown (abs_runtime t db) = Inr u)"
    using False require_attempt_abs [OF inv, of aid Unknown t] by simp
  then obtain e where "require_attempt aid Unknown (abs_runtime t db) = Inl e"
    by (metis sum.exhaust)
  with m show ?thesis by (simp add: same_outcome_def reconcile_unknown_as_not_fed_def)
qed

lemma begin_refines:
  assumes inv: "feed_inv db" and t: "t \<noteq> 0" "uint t \<le> i64_max"
    and "feeder_resume_after db \<le> now" "fresh \<notin> fa_id ` set (feed_attempts db)"
  shows "case begin_feed_attempt t now fresh db of
      Inr (Some u, db') \<Rightarrow> \<exists>a. begin_next_feed False fresh (abs_runtime t db)
          = Inr (a, abs_runtime t db') \<and> attempt_id a = u
    | Inr (None, db') \<Rightarrow> db' = db \<and> begin_next_feed False fresh (abs_runtime t db) = Inl NoFeedDue
    | Inl e \<Rightarrow> begin_next_feed False fresh (abs_runtime t db) = Inl AttemptAlreadyActive"
proof (cases "find unresolved (feed_attempts db)")
  case (Some r)
  then have "begin_feed_attempt t now fresh db = Inl (Attempt UnresolvedFeedAttempt)"
    using t by (simp add: begin_feed_attempt_def)
  with Some show ?thesis by (simp add: begin_next_feed_def abs_runtime_def)
next
  case None
  then have un: "\<not> (\<exists>q \<in> set (feed_attempts db). unresolved q)" by (auto simp: find_None)
  note c = feed_inv_credit [OF inv]
  have due: "feeds_due (rt_ledger (abs_runtime t db)) = 0 \<longleftrightarrow> balance db < uint t"
  proof (subst feeds_due_0)
    show "0 < threshold_sats (rt_ledger (abs_runtime t db))"
      using t(1) by (simp add: abs_runtime_def word_gt_0)
  qed (simp add: abs_runtime_def word_less_uint c(2))
  show ?thesis
  proof (cases "balance db < uint t")
    case True
    then have "begin_feed_attempt t now fresh db = Inr (None, db)"
      using None t assms(4) c by (simp add: begin_feed_attempt_def word_less_uint)
    with True None due show ?thesis by (simp add: begin_next_feed_def abs_runtime_def)
  next
    case False
    let ?r = "\<lparr>fa_id = fresh, fa_status = St_intent_committed, fa_threshold_sats = uint t,
      fa_resolved_at = None, fa_error = None\<rparr>"
    have "begin_feed_attempt t now fresh db
        = Inr (Some fresh, db\<lparr>feed_attempts := feed_attempts db @ [?r]\<rparr>)"
      using None un t assms(4,5) c False
      by (simp add: begin_feed_attempt_def word_less_uint insert_feed_attempt_def bex_key)
    moreover have "find unresolved (feed_attempts db @ [?r]) = Some ?r"
      using None by (simp add: find_append unresolved_def)
    ultimately show ?thesis
      using None False due
      by (simp add: begin_next_feed_def abs_runtime_def Let_def abs_attempt_def balance_def)
  qed
qed

section \<open>Properties\<close>

text \<open>
  C36: The SQL feed ledger refines the in-memory \<open>FeedRuntime\<close>. Outside a cooldown, beginning a
  feed, confirming it, marking it unknown and both reconciliations succeed exactly when the
  runtime's method does and lead to the database whose abstraction is the runtime's new state:
  no attempt is begun without the credit for it and each confirmation debits the threshold once.
\<close>

theorem feed_ledger_refines_runtime:
  assumes "feed_inv db" "uniform_threshold t db" "t \<noteq> 0" "uint t \<le> i64_max"
    and "fresh \<notin> fa_id ` set (feed_attempts db)" "feeder_resume_after db \<le> now"
  shows "(case begin_feed_attempt t now fresh db of
       Inr (Some u, db') \<Rightarrow> \<exists>a. begin_next_feed False fresh (abs_runtime t db)
           = Inr (a, abs_runtime t db') \<and> attempt_id a = u
     | Inr (None, db') \<Rightarrow> db' = db \<and> begin_next_feed False fresh (abs_runtime t db) = Inl NoFeedDue
     | Inl e \<Rightarrow> begin_next_feed False fresh (abs_runtime t db) = Inl AttemptAlreadyActive)
   \<and> same_outcome (confirm_feed_attempt aid now db) t (confirm_feed aid (abs_runtime t db))
   \<and> same_outcome (db_mark_feed_unknown aid err db) t (mark_feed_unknown aid (abs_runtime t db))
   \<and> same_outcome (db_reconcile_unknown_as_fed aid now db) t
       (reconcile_unknown_as_fed aid (abs_runtime t db))
   \<and> same_outcome (db_reconcile_unknown_as_not_fed aid now db) t
       (reconcile_unknown_as_not_fed aid (abs_runtime t db))"
  using begin_refines [OF assms(1,3,4,6,5)]
    resolve_as_fed_refines [OF assms(1,2), of St_intent_committed IntentCommitted aid now]
    resolve_as_fed_refines [OF assms(1,2), of St_unknown Unknown aid now]
    mark_unknown_refines [OF assms(1)] reconcile_not_fed_refines [OF assms(1)]
  by (simp add: confirm_feed_attempt_def confirm_feed_def db_reconcile_unknown_as_fed_def
      reconcile_unknown_as_fed_def)

definition receipt_entry :: "i64 \<Rightarrow> string \<Rightarrow> i64 \<Rightarrow> ledger_entry" where
  "receipt_entry i key sats =
     \<lparr>le_id = i, le_type = HERD_RECEIPT, le_source_key = key, le_delta_sats = sats,
      le_payment_hash = None, le_payment_source = None, le_payment_source_id = None,
      le_address_user = None, le_credit_pool = None, le_feed_attempt_id = None\<rparr>"

definition pending_row :: "uuid \<Rightarrow> attempt_state \<Rightarrow> i64 \<Rightarrow> attempt_row" where
  "pending_row u st t =
     \<lparr>fa_id = u, fa_status = st, fa_threshold_sats = t, fa_resolved_at = None, fa_error = None\<rparr>"

definition sample_feed_db :: ledger_db where
  "sample_feed_db = empty_db
     \<lparr>ledger_entries := [receipt_entry 1 ''payment:strike:x'' 120],
      feed_attempts := [pending_row ''u1'' St_intent_committed 100]\<rparr>"

lemma sample_feed_inv: "feed_inv sample_feed_db"
  by (simp add: feed_inv_def sample_feed_db_def empty_db_def receipt_entry_def pending_row_def
      balance_def receipts_def confirmed_sats_def debits_confirmed_def feed_key_def sql_sum_def
      in_i64_def i64_min_def i64_max_def count_where_def unresolved_def)

lemma sample_feed_attempts:
  "feed_attempts sample_feed_db = [pending_row ''u1'' St_intent_committed 100]"
  "balance sample_feed_db = 120" "feeder_resume_after sample_feed_db = 0"
  by (simp_all add: sample_feed_db_def balance_def receipt_entry_def empty_db_def)

theorem feed_ledger_refines_runtime_witness:
  "same_outcome (confirm_feed_attempt ''u1'' 7 sample_feed_db) 100
     (confirm_feed ''u1'' (abs_runtime 100 sample_feed_db))"
  using feed_ledger_refines_runtime
    [OF sample_feed_inv, of 100 "''u2''" 7 "''u1''" "''e''"]
  by (simp add: uniform_threshold_def sample_feed_attempts pending_row_def i64_max_def)

text \<open>
  Whatever happens to an unresolved attempt can be recorded: the ledger accepts its
  confirmation (or, once it is unknown, its reconciliation as fed) and debits exactly its threshold
  without ever going negative, and it accepts a no-dispatch result without touching the credit. So
  the "ledger invariant violated" errors and the UNIQUE key of the debit are never reached.
\<close>

theorem unresolved_attempt_can_be_settled:
  assumes "feed_inv db" "r \<in> set (feed_attempts db)" "unresolved r"
    and "1 \<le> retry" "retry \<le> 86400"
  shows "(\<exists>db'. (if fa_status r = St_unknown then db_reconcile_unknown_as_fed (fa_id r) now db
              else confirm_feed_attempt (fa_id r) now db) = Inr ((), db')
        \<and> balance db' = balance db - fa_threshold_sats r \<and> 0 \<le> balance db'
        \<and> unresolved_feed_attempt db' = Inr None)
    \<and> (\<exists>db'. resolve_feed_not_dispatched (fa_id r) retry now db = Inr ((), db')
        \<and> balance db' = balance db \<and> unresolved_feed_attempt db' = Inr None
        \<and> now + uint retry \<le> feeder_resume_after db')"
proof
  have st: "fa_status r = St_intent_committed \<or> fa_status r = St_unknown"
    using assms(3) by (simp add: unresolved_def)
  show "\<exists>db'. (if fa_status r = St_unknown then db_reconcile_unknown_as_fed (fa_id r) now db
              else confirm_feed_attempt (fa_id r) now db) = Inr ((), db')
        \<and> balance db' = balance db - fa_threshold_sats r \<and> 0 \<le> balance db'
        \<and> unresolved_feed_attempt db' = Inr None"
  proof (rule resolve_as_fed_ok [OF assms(1,2) refl st, of now], goal_cases)
    case (1 xs ys)
    note f = fed_db_inv [OF assms(1-3) 1(1), of now]
    from feed_inv_credit(3) [OF f(1)] have "0 \<le> balance (fed_db r xs ys now db)" .
    with 1(2) f(2,3) st show ?case
      by (auto simp: confirm_feed_attempt_def db_reconcile_unknown_as_fed_def
          unresolved_feed_attempt_def)
  qed
  let ?f = "\<lambda>r. r\<lparr>fa_status := St_reconciled_not_fed, fa_resolved_at := Some now,
    fa_error := None\<rparr>"
  show "\<exists>db'. resolve_feed_not_dispatched (fa_id r) retry now db = Inr ((), db')
        \<and> balance db' = balance db \<and> unresolved_feed_attempt db' = Inr None
        \<and> now + uint retry \<le> feeder_resume_after db'"
  proof (rule update_attempt_ok [OF assms(1,2) refl,
        of "\<lambda>s. s = St_intent_committed \<or> s = St_unknown" ?f NotInExpectedState], goal_cases)
    case 1
    show ?case by (rule st)
  next
    case (2 xs ys)
    have none: "find unresolved (xs @ ?f r # ys) = None"
      by (rule find_unresolved_replaced [OF assms(1) 2(1) assms(3)]) (simp add: unresolved_def)
    have small: "uint retry \<le> i64_max"
      using assms(5) by (simp add: word_le_uint i64_max_def)
    with assms(4,5) 2(2) none show ?case
      by (simp add: resolve_feed_not_dispatched_def append_event_eq balance_def
          unresolved_feed_attempt_def)
  qed
qed

theorem unresolved_attempt_can_be_settled_witness:
  "\<exists>db'. confirm_feed_attempt ''u1'' 7 sample_feed_db = Inr ((), db') \<and> balance db' = 20"
  using unresolved_attempt_can_be_settled
    [OF sample_feed_inv, of "pending_row ''u1'' St_intent_committed 100" 60 7]
  by (auto simp: sample_feed_attempts pending_row_def unresolved_def)

text \<open>
  A no-dispatch result starts a cooldown that survives restarts: it never shortens a longer
  one, and until it ends \<open>begin_feed_attempt\<close> begins nothing and changes nothing.
\<close>

theorem cooldown_blocks_feeding:
  assumes "feed_inv db" "resolve_feed_not_dispatched aid retry now db = Inr (u, db1)"
    and "t \<noteq> 0" "uint t \<le> i64_max" "later < max (feeder_resume_after db) (now + uint retry)"
  shows "begin_feed_attempt t later fresh db1 = Inr (None, db1)
    \<and> feeder_resume_after db \<le> feeder_resume_after db1"
proof -
  let ?f = "\<lambda>r. r\<lparr>fa_status := St_reconciled_not_fed, fa_resolved_at := Some now,
    fa_error := None\<rparr>"
  from assms(2) obtain db0 where
    upd: "update_attempt aid (\<lambda>s. s = St_intent_committed \<or> s = St_unknown) ?f
        NotInExpectedState db = Inr db0"
    and db1: "feeder_resume_after db1 = max (feeder_resume_after db0) (now + uint retry)"
      "feed_attempts db1 = feed_attempts db0"
    by (auto simp: resolve_feed_not_dispatched_def res_simps Let_def append_event_eq to_i64_Inr
        split: if_splits)
  show ?thesis
  proof (rule update_attempt_Inr [OF upd assms(1)], goal_cases)
    case (1 r xs ys)
    have "unresolved r" using 1(3) by (simp add: unresolved_def)
    from find_unresolved_replaced [OF assms(1) 1(4) this, of ?f]
    have "find unresolved (feed_attempts db1) = None"
      by (simp add: db1(2) 1(5) unresolved_def)
    moreover have "feeder_resume_after db1 = max (feeder_resume_after db) (now + uint retry)"
      by (simp add: db1(1) 1(5))
    ultimately show ?case using assms(3-5) by (simp add: begin_feed_attempt_def)
  qed
qed

theorem cooldown_blocks_feeding_witness:
  "\<exists>db1. resolve_feed_not_dispatched ''u1'' 60 7 sample_feed_db = Inr ((), db1)
     \<and> begin_feed_attempt 100 66 ''u2'' db1 = Inr (None, db1)"
proof -
  obtain db1 where "resolve_feed_not_dispatched ''u1'' 60 7 sample_feed_db = Inr ((), db1)"
    by (simp add: resolve_feed_not_dispatched_def update_attempt_def sample_feed_attempts
        pending_row_def count_where_def Let_def i64_max_def append_event_eq)
  moreover from cooldown_blocks_feeding [OF sample_feed_inv this, of 100 66 "''u2''"]
  have "begin_feed_attempt 100 66 ''u2'' db1 = Inr (None, db1)"
    by (simp add: i64_max_def)
  ultimately show ?thesis by blast
qed

end
