(* ===== verification/Domain_Payment.thy ===== *)
theory Domain_Payment
  imports Ledger_DB
begin

text \<open>
  The settled payment handed to the ledger (\<open>src/src/domain/payment.rs\<close>), the Lightning Address
  user of \<open>src/src/domain/invoice.rs\<close>, and the validators of \<open>src/src/ledger/mod.rs\<close> that every
  externally supplied identifier passes before it reaches the database.
\<close>

record settled_payment =
  pay_source :: string
  pay_source_id :: string
  pay_payment_hash :: "string option"
  pay_address_user :: string
  pay_credit_pool :: string
  pay_amount_msat :: u64
  pay_settled_at :: "i64 option"
  pay_context_json :: "string option"

definition MAX_USER_LEN :: nat where
  "MAX_USER_LEN = 64"

definition user_byte :: "char \<Rightarrow> bool" where
  "user_byte c \<longleftrightarrow> is_ascii_lowercase c \<or> is_ascii_digit c \<or> c \<in> set ''._-''"

text \<open>\<open>domain::invoice::validate_user\<close>: \<open>Inl ()\<close> is its single error.\<close>

definition lightning_address_user :: "string \<Rightarrow> unit + unit" where
  "lightning_address_user user =
     (if user = [] \<or> MAX_USER_LEN < length user \<or> user = ''.'' \<or> user = ''..'' then Inl ()
      else if list_all user_byte user then Inr () else Inl ())"

definition validate_user :: "string \<Rightarrow> ledger_error + unit" where
  "validate_user v = map_err (\<lambda>_. Payment InvalidUser) (lightning_address_user v)"

definition source_byte :: "char \<Rightarrow> bool" where
  "source_byte c \<longleftrightarrow> is_ascii_lowercase c \<or> is_ascii_digit c \<or> c \<in> set ''-_''"

definition validate_source :: "string \<Rightarrow> ledger_error + unit" where
  "validate_source source =
     (if source = [] \<or> 32 < length source then Inl (Payment InvalidSource)
      else if \<not> list_all source_byte source then Inl (Payment InvalidSource)
      else Inr ())"

definition validate_external_id :: "string \<Rightarrow> nat \<Rightarrow> ledger_error + unit" where
  "validate_external_id v max_len =
     (if v = [] \<or> max_len < length v then Inl (Payment InvalidExternalId)
      else if has_control v then Inl (Payment InvalidExternalId)
      else Inr ())"

definition validate_payment_hash :: "string \<Rightarrow> ledger_error + unit" where
  "validate_payment_hash v =
     (if length v \<noteq> 64 \<or> \<not> list_all is_ascii_hexdigit v then Inl (Payment InvalidPaymentHash)
      else Inr ())"

lemma source_no_colon: "validate_source s = Inr u \<Longrightarrow> CHR '':'' \<notin> set s"
  by (auto simp: validate_source_def source_byte_def is_ascii_lowercase_def is_ascii_digit_def
      byte_def list_all_iff split: if_splits)

text \<open>The ledger key of a payment, and why two payments never share one: a validated source
  contains no colon, so the first colon separates it from the provider's id.\<close>

definition payment_key :: "string \<Rightarrow> string \<Rightarrow> string" where
  "payment_key source source_id = ''payment:'' @ source @ '':'' @ source_id"

lemma split_at_colon:
  assumes "s @ CHR '':'' # x = t @ CHR '':'' # y" "CHR '':'' \<notin> set s" "CHR '':'' \<notin> set t"
  shows "s = t \<and> x = y"
  using assms
proof (induction s arbitrary: t)
  case Nil
  then show ?case by (cases t) auto
next
  case (Cons c s)
  then show ?case by (cases t) auto
qed

lemma payment_key_inject:
  assumes "payment_key s x = payment_key t y" "CHR '':'' \<notin> set s" "CHR '':'' \<notin> set t"
  shows "s = t \<and> x = y"
  using assms split_at_colon [of s x t y] by (simp add: payment_key_def)

end
