(* ===== verification/Ledger_Credit.thy ===== *)
theory Ledger_Credit
  imports Ledger_Feed Domain_Payment
begin

text \<open>
  Receipt provenance and asset credit: \<open>src/src/ledger/credit.rs\<close> over the tables
  \<open>credit_valuations\<close>, \<open>credit_allocations\<close>, \<open>asset_receipts\<close>, \<open>credit_grants\<close> and
  \<open>credit_conflicts\<close>. A native BTC settlement gets an identity valuation of its own
  (\<open>record_native_btc\<close>); an XMR intent is registered with immutable quote terms, and each receipt
  observed for it is valued from the cumulative eligible total (\<open>record_xmr_receipt\<close>). The inserts
  carry the UNIQUE and CHECK constraints of migration 0010. The invariant and the properties are in
  \<open>Credit_Invariant\<close>.
\<close>

section \<open>Types\<close>

datatype xmr_network = Mainnet | Testnet | Stagenet

fun network_str :: "xmr_network \<Rightarrow> string" where
  "network_str Mainnet = ''mainnet''"
| "network_str Testnet = ''testnet''"
| "network_str Stagenet = ''stagenet''"

record xmr_credit_intent =
  xi_id :: uuid
  xi_provider :: string
  xi_network :: xmr_network
  xi_account_scope :: string
  xi_receive_scope :: string
  xi_address_user :: string
  xi_credit_pool :: string
  xi_quote :: xmr_quote
  xi_max_credit_sats :: u64

record xmr_receipt_observation =
  xo_provider :: string
  xo_network :: xmr_network
  xo_account_scope :: string
  xo_receive_scope :: string
  xo_receipt_key :: string
  xo_amount :: asset_amount
  xo_first_seen_at :: i64
  xo_unlocked :: bool
  xo_double_spend_seen :: bool

datatype credit_hold =
    ReceiptConflict
  | FinalityRegression
  | DoubleSpend
  | AllocationMismatch
  | CreditLimit
  | ProviderInconsistency

fun hold_str :: "credit_hold \<Rightarrow> string" where
  "hold_str ReceiptConflict = ''receipt_conflict''"
| "hold_str FinalityRegression = ''finality_regression''"
| "hold_str DoubleSpend = ''double_spend''"
| "hold_str AllocationMismatch = ''allocation_mismatch''"
| "hold_str CreditLimit = ''credit_limit''"
| "hold_str ProviderInconsistency = ''provider_inconsistency''"

datatype credit_receipt_outcome =
    ReceiptDuplicate
  | ReceiptPending
  | ReceiptHeld
  | ReceiptRecorded u64 u64

record credit_allocation =
  ca_eligible_atomic :: u64
  ca_credited_sats :: u64
  ca_hold_reason :: "string option"

definition nil_uuid :: uuid where
  "nil_uuid = ''00000000-0000-0000-0000-000000000000''"

definition xmr_id :: "uuid \<Rightarrow> string" where
  "xmr_id u = ''xmr:'' @ u"

definition btc_id :: "i64 \<Rightarrow> string" where
  "btc_id i = ''btc:'' @ show_int i"

definition asset_receipt_key :: "i64 \<Rightarrow> string" where
  "asset_receipt_key i = ''asset-receipt:'' @ show_int i"

definition XMR_POLICY :: string where
  "XMR_POLICY = ''xmr-unlocked-quote-v1''"

definition amount_of :: "asset \<Rightarrow> u64 \<Rightarrow> ledger_error + asset_amount" where
  "amount_of a n = map_err Credit (asset_amount_new a n)"

section \<open>Inserts with their constraints\<close>

definition receive_binding :: "valuation \<Rightarrow> asset \<times> string \<times> string \<times> string \<times> string" where
  "receive_binding v =
     (va_asset v, va_network v, va_provider v, va_account_scope v, va_receive_scope v)"

text \<open>The CHECK of \<open>credit_valuations\<close>; a NULL in a comparison makes the XMR branch fail.\<close>

definition valuation_check :: "valuation \<Rightarrow> bool" where
  "valuation_check v \<longleftrightarrow>
     0 < va_expected_atomic v \<and> 0 < va_target_sats v \<and> va_target_sats v \<le> va_max_credit_sats v
     \<and> (case va_asset v of
          Btc \<Rightarrow> va_expected_atomic v = 1 \<and> va_target_sats v = 1 \<and> va_rate_numerator v = None
            \<and> va_rate_denominator v = None \<and> va_rate_source v = None
            \<and> va_rate_observed_at v = None \<and> va_issued_at v = None \<and> va_expires_at v = None
        | Xmr \<Rightarrow> va_rate_numerator v \<noteq> None \<and> va_rate_denominator v \<noteq> None
            \<and> va_rate_source v \<noteq> None
            \<and> (case (va_rate_observed_at v, va_issued_at v, va_expires_at v) of
                 (Some observed, Some issued, Some expires) \<Rightarrow>
                   0 \<le> observed \<and> observed \<le> issued \<and> issued < expires
               | _ \<Rightarrow> False))"

text \<open>\<open>Valuation::insert\<close>: the valuation and its empty allocation.\<close>

definition insert_valuation :: "valuation \<Rightarrow> ledger_db \<Rightarrow> ledger_error + ledger_db" where
  "insert_valuation v db =
     (if va_id v \<in> va_id ` set (credit_valuations db)
      then Inl (Db (UniqueViolation ''credit_valuations.id''))
      else if receive_binding v \<in> receive_binding ` set (credit_valuations db)
      then Inl (Db (UniqueViolation ''credit_valuations.receive_scope''))
      else if \<not> valuation_check v then Inl (Db (CheckViolation ''credit_valuations''))
      else if va_id v \<in> al_valuation_id ` set (credit_allocations db)
      then Inl (Db (UniqueViolation ''credit_allocations.valuation_id''))
      else Inr (db\<lparr>credit_valuations := credit_valuations db @ [v],
                   credit_allocations := credit_allocations db
                     @ [\<lparr>al_valuation_id = va_id v, al_eligible_atomic = 0, al_credited_sats = 0,
                          al_hold_reason = None\<rparr>]\<rparr>))"

definition insert_receipt :: "receipt_row \<Rightarrow> ledger_db \<Rightarrow> i64 ledger_result" where
  "insert_receipt r db =
     (if \<exists>q \<in> set (asset_receipts db). ar_valuation_id q = ar_valuation_id r
           \<and> ar_receipt_key q = ar_receipt_key r
      then Inl (Db (UniqueViolation ''asset_receipts.receipt_key''))
      else if ar_btc_settlement_id r \<noteq> None
           \<and> ar_btc_settlement_id r \<in> ar_btc_settlement_id ` set (asset_receipts db)
      then Inl (Db (UniqueViolation ''asset_receipts.btc_settlement_id''))
      else if ar_amount_atomic r \<le> 0 \<or> some_negative (ar_first_seen_at r)
      then Inl (Db (CheckViolation ''asset_receipts''))
      else let i = next_id ar_id (asset_receipts db) in
        Inr (i, db\<lparr>asset_receipts := asset_receipts db @ [r\<lparr>ar_id := i\<rparr>]\<rparr>))"

definition grant_check :: "grant_row \<Rightarrow> bool" where
  "grant_check g \<longleftrightarrow>
     0 \<le> cg_delta_sats g \<and> 0 < cg_cumulative_atomic g \<and> cg_delta_sats g \<le> cg_cumulative_sats g
     \<and> ((cg_delta_sats g = 0 \<and> cg_ledger_entry_id g = None \<and> cg_event_seq g = None)
        \<or> (0 < cg_delta_sats g \<and> cg_ledger_entry_id g \<noteq> None))"

definition insert_grant :: "grant_row \<Rightarrow> ledger_db \<Rightarrow> ledger_error + ledger_db" where
  "insert_grant g db =
     (if cg_receipt_id g \<in> cg_receipt_id ` set (credit_grants db)
      then Inl (Db (UniqueViolation ''credit_grants.receipt_id''))
      else if cg_ledger_entry_id g \<noteq> None
           \<and> cg_ledger_entry_id g \<in> cg_ledger_entry_id ` set (credit_grants db)
      then Inl (Db (UniqueViolation ''credit_grants.ledger_entry_id''))
      else if cg_event_seq g \<noteq> None \<and> cg_event_seq g \<in> cg_event_seq ` set (credit_grants db)
      then Inl (Db (UniqueViolation ''credit_grants.event_seq''))
      else if \<not> grant_check g then Inl (Db (CheckViolation ''credit_grants''))
      else Inr (db\<lparr>credit_grants := credit_grants db @ [g]\<rparr>))"

section \<open>Allocations and holds\<close>

definition allocation_in_tx :: "string \<Rightarrow> ledger_db \<Rightarrow> ledger_error + credit_allocation" where
  "allocation_in_tx vid db =
     andthen (ok_or (Xmr_Credit MissingAllocation)
       (find (\<lambda>a. al_valuation_id a = vid) (credit_allocations db))) (\<lambda>row.
     andthen (to_u64 (al_eligible_atomic row)) (\<lambda>eligible.
     andthen (to_u64 (al_credited_sats row)) (\<lambda>credited.
       Inr \<lparr>ca_eligible_atomic = eligible, ca_credited_sats = credited,
            ca_hold_reason = al_hold_reason row\<rparr>)))"

text \<open>\<open>hold_reason = COALESCE(hold_reason, ?)\<close>: a hold keeps its first reason.\<close>

definition set_hold :: "string \<Rightarrow> credit_hold \<Rightarrow> ledger_db \<Rightarrow> ledger_db" where
  "set_hold vid reason db =
     db\<lparr>credit_allocations := update_where (\<lambda>a. al_valuation_id a = vid)
       (\<lambda>a. a\<lparr>al_hold_reason :=
          (case al_hold_reason a of None \<Rightarrow> Some (hold_str reason) | Some h \<Rightarrow> Some h)\<rparr>)
       (credit_allocations db)\<rparr>"

definition hold_observation ::
  "string \<Rightarrow> xmr_receipt_observation \<Rightarrow> credit_hold \<Rightarrow> ledger_db \<Rightarrow> ledger_error + ledger_db" where
  "hold_observation vid o' reason db =
     andthen (to_i64 (atomic_units (xo_amount o'))) (\<lambda>amount.
       let c = \<lparr>cc_valuation_id = vid, cc_receipt_key = xo_receipt_key o',
                cc_amount_atomic = amount, cc_first_seen_at = xo_first_seen_at o',
                cc_unlocked = xo_unlocked o', cc_reason = hold_str reason\<rparr>;
           db1 = (if c \<in> set (credit_conflicts db) then db
                  else db\<lparr>credit_conflicts := credit_conflicts db @ [c]\<rparr>)
       in Inr (set_hold vid reason db1))"

definition hold_xmr_credit_intent :: "uuid \<Rightarrow> ledger_db \<Rightarrow> unit ledger_result" where
  "hold_xmr_credit_intent intent_id db =
     (if count_where (\<lambda>a. al_valuation_id a = xmr_id intent_id) (credit_allocations db) \<noteq> 1
      then Inl (Xmr_Credit UnknownIntent)
      else Inr ((), set_hold (xmr_id intent_id) ProviderInconsistency db))"

definition xmr_credit_allocation :: "uuid \<Rightarrow> ledger_db \<Rightarrow> ledger_error + credit_allocation" where
  "xmr_credit_allocation intent_id db = allocation_in_tx (xmr_id intent_id) db"

section \<open>Registering an intent\<close>

definition intent_valuation :: "xmr_credit_intent \<Rightarrow> ledger_error + valuation" where
  "intent_valuation intent =
     (let terms = xq_terms (xi_quote intent); rate = xq_rate (xi_quote intent) in
      andthen (to_i64 (expected_atomic terms)) (\<lambda>expected.
      andthen (to_i64 (target_sats terms)) (\<lambda>target.
      andthen (to_i64 (xi_max_credit_sats intent)) (\<lambda>max_credit.
        Inr \<lparr>va_id = xmr_id (xi_id intent), va_asset = Xmr,
             va_network = network_str (xi_network intent), va_provider = xi_provider intent,
             va_account_scope = xi_account_scope intent,
             va_receive_scope = xi_receive_scope intent,
             va_address_user = xi_address_user intent, va_credit_pool = xi_credit_pool intent,
             va_expected_atomic = expected, va_target_sats = target,
             va_max_credit_sats = max_credit,
             va_rate_numerator = Some (show_u64 (sats_per_xmr_numerator rate)),
             va_rate_denominator = Some (show_u64 (sats_per_xmr_denominator rate)),
             va_rate_source = Some (rate_source rate),
             va_rate_observed_at = Some (observed_at rate),
             va_issued_at = Some (xq_issued_at (xi_quote intent)),
             va_expires_at = Some (xq_expires_at (xi_quote intent)),
             va_policy_version = XMR_POLICY\<rparr>))))"

definition register_xmr_intent_in_transaction ::
  "xmr_credit_intent \<Rightarrow> ledger_db \<Rightarrow> ledger_error + ledger_db" where
  "register_xmr_intent_in_transaction intent db =
     (if xi_id intent = nil_uuid then Inl (Xmr_Credit NilIntentId)
      else andthen (validate_source (xi_provider intent)) (\<lambda>_.
      andthen (validate_external_id (xi_account_scope intent) 256) (\<lambda>_.
      andthen (validate_external_id (xi_receive_scope intent) 256) (\<lambda>_.
      andthen (validate_user (xi_address_user intent)) (\<lambda>_.
        if xi_credit_pool intent \<noteq> ''herd'' then Inl (Xmr_Credit UnsupportedPool)
        else if xi_max_credit_sats intent < target_sats (xq_terms (xi_quote intent))
             \<or> MAX_ACCOUNTING_UNITS < xi_max_credit_sats intent
        then Inl (Xmr_Credit InvalidCreditLimit)
        else andthen (intent_valuation intent) (\<lambda>v.
          case find (\<lambda>w. va_id w = va_id v) (credit_valuations db) of
            Some existing \<Rightarrow>
              if existing \<noteq> v then Inl (Xmr_Credit DifferentImmutableTerms) else Inr db
          | None \<Rightarrow> insert_valuation v db))))))"

definition register_xmr_credit_intent :: "xmr_credit_intent \<Rightarrow> ledger_db \<Rightarrow> unit ledger_result" where
  "register_xmr_credit_intent intent db =
     andthen (register_xmr_intent_in_transaction intent db) (\<lambda>db1. Inr ((), db1))"

text \<open>\<open>LedgerStore::xmr_credit_intent\<close>: rebuild a stored intent and check its quote again.\<close>

definition stored_xmr_intent :: "uuid \<Rightarrow> ledger_db \<Rightarrow> ledger_error + xmr_credit_intent" where
  "stored_xmr_intent intent_id db =
     andthen (ok_or (Xmr_Credit UnknownIntent)
       (find (\<lambda>v. va_id v = xmr_id intent_id \<and> va_asset v = Xmr) (credit_valuations db))) (\<lambda>v.
     if va_policy_version v \<noteq> XMR_POLICY then Inl (Xmr_Credit UnsupportedPolicy)
     else andthen (ok_or (Db MissingColumn) (va_rate_numerator v)) (\<lambda>ns.
     andthen (ok_or (Xmr_Credit RateUnparsable) (parse_u64 ns)) (\<lambda>n.
     andthen (ok_or (Db MissingColumn) (va_rate_denominator v)) (\<lambda>ds.
     andthen (ok_or (Xmr_Credit RateUnparsable) (parse_u64 ds)) (\<lambda>d.
     andthen (ok_or (Db MissingColumn) (va_rate_source v)) (\<lambda>source.
     andthen (ok_or (Db MissingColumn) (va_rate_observed_at v)) (\<lambda>observed.
     andthen (map_err Credit (xmr_btc_rate_new n d source observed)) (\<lambda>rate.
     andthen (to_u64 (va_target_sats v)) (\<lambda>target.
     andthen (ok_or (Db MissingColumn) (va_issued_at v)) (\<lambda>issued.
     andthen (ok_or (Db MissingColumn) (va_expires_at v)) (\<lambda>expires.
     andthen (map_err Credit (quote_at rate target issued expires (- 1))) (\<lambda>quote.
     andthen (to_u64 (va_expected_atomic v)) (\<lambda>expected.
     if expected_atomic (xq_terms quote) \<noteq> expected then Inl (Xmr_Credit RatioMismatch)
     else andthen
       (if va_network v = ''mainnet'' then Inr Mainnet
        else if va_network v = ''testnet'' then Inr Testnet
        else if va_network v = ''stagenet'' then Inr Stagenet
        else Inl (Xmr_Credit UnsupportedNetwork)) (\<lambda>network.
     andthen (to_u64 (va_max_credit_sats v)) (\<lambda>max_credit.
       Inr \<lparr>xi_id = intent_id, xi_provider = va_provider v, xi_network = network,
            xi_account_scope = va_account_scope v, xi_receive_scope = va_receive_scope v,
            xi_address_user = va_address_user v, xi_credit_pool = va_credit_pool v,
            xi_quote = quote, xi_max_credit_sats = max_credit\<rparr>)))))))))))))))"

section \<open>Recording an XMR receipt\<close>

text \<open>The grants of a valuation with their receipts, in the order the join enumerates them.\<close>

definition joined :: "string \<Rightarrow> ledger_db \<Rightarrow> (receipt_row \<times> grant_row) list" where
  "joined vid db =
     concat (map (\<lambda>g. map (\<lambda>r. (r, g))
       (filter (\<lambda>r. ar_id r = cg_receipt_id g \<and> ar_valuation_id r = vid) (asset_receipts db)))
       (credit_grants db))"

definition granted_atomic :: "string \<Rightarrow> ledger_db \<Rightarrow> i64 list" where
  "granted_atomic vid db = map (\<lambda>(r, g). ar_amount_atomic r) (joined vid db)"

definition granted_sats :: "string \<Rightarrow> ledger_db \<Rightarrow> i64 list" where
  "granted_sats vid db = map (\<lambda>(r, g). cg_delta_sats g) (joined vid db)"

text \<open>The reason to hold an intent when a known receipt is observed again (lines 244 to 260).\<close>

definition receipt_conflict ::
  "receipt_row option \<Rightarrow> xmr_receipt_observation \<Rightarrow> i64 \<Rightarrow> credit_hold option" where
  "receipt_conflict existing o' amount =
     (case existing of
        None \<Rightarrow> None
      | Some row \<Rightarrow>
          let changed = ar_amount_atomic row \<noteq> amount
                \<or> ar_first_seen_at row \<noteq> Some (xo_first_seen_at o');
              regressed = ar_unlocked row \<and> \<not> xo_unlocked o'
          in if changed \<or> regressed \<or> xo_double_spend_seen o'
             then Some (if changed then ReceiptConflict
                        else if regressed then FinalityRegression
                        else DoubleSpend)
             else None)"

text \<open>The credit update of lines 321 to 340: \<open>None\<close> is the branch that holds with \<open>CreditLimit\<close>.\<close>

definition xmr_update ::
  "credit_terms \<Rightarrow> credit_allocation \<Rightarrow> u64 \<Rightarrow> i64 \<Rightarrow> credit_update option" where
  "xmr_update terms allocation amount max_credit =
     (case checked_add_u64 (ca_eligible_atomic allocation) amount of
        None \<Rightarrow> None
      | Some current \<Rightarrow>
          if MAX_ACCOUNTING_UNITS < current then None
          else case (asset_amount_new Xmr (ca_eligible_atomic allocation),
                     asset_amount_new Xmr current) of
            (Inr previous, Inr next) \<Rightarrow>
              (case assess_update terms previous (ca_credited_sats allocation) next of
                 Inr u \<Rightarrow> if cumulative_credit_sats u \<le> word_of_int max_credit then Some u
                          else None
               | Inl _ \<Rightarrow> None)
          | _ \<Rightarrow> None)"

text \<open>The ledger entry, the public event and the grant (lines 341 to 383).\<close>

definition post_grant ::
  "string \<Rightarrow> valuation \<Rightarrow> i64 \<Rightarrow> xmr_receipt_observation \<Rightarrow> credit_update \<Rightarrow> ledger_db
     \<Rightarrow> credit_receipt_outcome ledger_result" where
  "post_grant vid valuation receipt_id o' update db =
     andthen (feed_credit_in_transaction db) (\<lambda>before.
     case (case checked_add_u64 before (delta_sats update) of
             Some v \<Rightarrow> if v \<le> MAX_ACCOUNTING_UNITS then Some v else None
           | None \<Rightarrow> None) of
       None \<Rightarrow> andthen (hold_observation vid o' CreditLimit db) (\<lambda>db1. Inr (ReceiptHeld, db1))
     | Some feed_credit \<Rightarrow>
         andthen
           (if 0 < delta_sats update then
              andthen (to_i64 (delta_sats update)) (\<lambda>delta.
              andthen (insert_ledger_entry
                \<lparr>le_id = 0, le_type = HERD_RECEIPT,
                 le_source_key = asset_receipt_key receipt_id, le_delta_sats = delta,
                 le_payment_hash = None, le_payment_source = None, le_payment_source_id = None,
                 le_address_user = Some (va_address_user valuation),
                 le_credit_pool = Some (va_credit_pool valuation),
                 le_feed_attempt_id = None\<rparr> db) (\<lambda>(ledger_id, db1).
              andthen (append_event_in_transaction ''payment_received''
                (JObj [(''amount_sats'', JU64 (delta_sats update)),
                       (''feed_credit_sats'', JU64 feed_credit),
                       (''address_user'', JStr (va_address_user valuation)),
                       (''credit_pool'', JStr (va_credit_pool valuation))]) db1) (\<lambda>(seq, db2).
              andthen (to_i64 seq) (\<lambda>event_seq.
                Inr (Some ledger_id, Some event_seq, db2)))))
            else Inr (None, None, db)) (\<lambda>(ledger_id, event_seq, db3).
         andthen (to_i64 (delta_sats update)) (\<lambda>delta.
         andthen (to_i64 (atomic_units (cumulative_eligible update))) (\<lambda>atomic.
         andthen (to_i64 (cumulative_credit_sats update)) (\<lambda>sats.
         andthen (insert_grant
           \<lparr>cg_receipt_id = receipt_id, cg_delta_sats = delta, cg_cumulative_atomic = atomic,
            cg_cumulative_sats = sats, cg_ledger_entry_id = ledger_id,
            cg_event_seq = event_seq\<rparr> db3) (\<lambda>db4.
           Inr (ReceiptRecorded (delta_sats update) feed_credit,
             db4\<lparr>credit_allocations := update_where (\<lambda>a. al_valuation_id a = vid)
                 (\<lambda>a. a\<lparr>al_eligible_atomic := atomic, al_credited_sats := sats\<rparr>)
                 (credit_allocations db4)\<rparr>)))))))"

text \<open>From the watermark check to the end (lines 294 to 383).\<close>

definition grant_receipt ::
  "string \<Rightarrow> valuation \<Rightarrow> credit_allocation \<Rightarrow> i64 \<Rightarrow> xmr_receipt_observation \<Rightarrow> ledger_db
     \<Rightarrow> credit_receipt_outcome ledger_result" where
  "grant_receipt vid valuation allocation receipt_id o' db =
     andthen (to_u64 (va_expected_atomic valuation)) (\<lambda>expected.
     andthen (to_u64 (va_target_sats valuation)) (\<lambda>target.
     andthen (map_err Credit (quoted_xmr expected target)) (\<lambda>terms.
     andthen (ok_or (Db SumOverflow) (sql_sum (granted_atomic vid db))) (\<lambda>total_atomic.
     andthen (ok_or (Db SumOverflow) (sql_sum (granted_sats vid db))) (\<lambda>total_sats.
     andthen (to_i64 (ca_eligible_atomic allocation)) (\<lambda>eligible_i64.
     andthen (to_i64 (ca_credited_sats allocation)) (\<lambda>credited_i64.
     andthen (amount_of Xmr (ca_eligible_atomic allocation)) (\<lambda>eligible.
       if total_atomic \<noteq> eligible_i64 \<or> total_sats \<noteq> credited_i64
          \<or> result_ok (cumulative_sats terms eligible) \<noteq> Some (ca_credited_sats allocation)
       then andthen (hold_observation vid o' AllocationMismatch db)
              (\<lambda>db1. Inr (ReceiptHeld, db1))
       else if receipt_id \<in> cg_receipt_id ` set (credit_grants db) then Inr (ReceiptDuplicate, db)
       else case xmr_update terms allocation (atomic_units (xo_amount o'))
                   (va_max_credit_sats valuation) of
         None \<Rightarrow> andthen (hold_observation vid o' CreditLimit db) (\<lambda>db1. Inr (ReceiptHeld, db1))
       | Some update \<Rightarrow> post_grant vid valuation receipt_id o' update db))))))))"

definition record_xmr_receipt ::
  "uuid \<Rightarrow> xmr_receipt_observation \<Rightarrow> ledger_db \<Rightarrow> credit_receipt_outcome ledger_result" where
  "record_xmr_receipt intent_id o' db =
     andthen (validate_external_id (xo_receipt_key o') 256) (\<lambda>_.
     if am_asset (xo_amount o') \<noteq> Xmr \<or> atomic_units (xo_amount o') = 0
        \<or> xo_first_seen_at o' < 0
     then Inl (Xmr_Credit InvalidObservation)
     else andthen (to_i64 (atomic_units (xo_amount o'))) (\<lambda>amount.
     let vid = xmr_id intent_id in
     andthen (ok_or (Xmr_Credit UnknownIntent)
       (find (\<lambda>v. va_id v = vid \<and> va_asset v = Xmr) (credit_valuations db))) (\<lambda>valuation.
     if va_policy_version valuation \<noteq> XMR_POLICY then Inl (Xmr_Credit UnsupportedPolicy)
     else if xo_provider o' \<noteq> va_provider valuation
        \<or> network_str (xo_network o') \<noteq> va_network valuation
        \<or> xo_account_scope o' \<noteq> va_account_scope valuation
        \<or> xo_receive_scope o' \<noteq> va_receive_scope valuation
     then Inl (Xmr_Credit BindingMismatch)
     else andthen (allocation_in_tx vid db) (\<lambda>allocation.
     let existing = find (\<lambda>r. ar_valuation_id r = vid \<and> ar_receipt_key r = xo_receipt_key o')
           (asset_receipts db) in
     case receipt_conflict existing o' amount of
       Some reason \<Rightarrow> andthen (hold_observation vid o' reason db) (\<lambda>db1. Inr (ReceiptHeld, db1))
     | None \<Rightarrow>
     andthen (ok_or (Db MissingColumn) (va_issued_at valuation)) (\<lambda>issued.
     andthen (ok_or (Db MissingColumn) (va_expires_at valuation)) (\<lambda>expires.
     let timely = (issued \<le> xo_first_seen_at o' \<and> xo_first_seen_at o' < expires) in
     andthen
       (case existing of
          Some row \<Rightarrow> Inr (ar_id row, db)
        | None \<Rightarrow> insert_receipt
            \<lparr>ar_id = 0, ar_valuation_id = vid, ar_receipt_key = xo_receipt_key o',
             ar_amount_atomic = amount, ar_first_seen_at = Some (xo_first_seen_at o'),
             ar_unlocked = xo_unlocked o',
             ar_eligible = (timely \<and> \<not> xo_double_spend_seen o'),
             ar_btc_settlement_id = None\<rparr> db) (\<lambda>(receipt_id, db1).
     let db2 = (if xo_unlocked o'
                then db1\<lparr>asset_receipts := update_where (\<lambda>r. ar_id r = receipt_id)
                       (\<lambda>r. r\<lparr>ar_unlocked := True\<rparr>) (asset_receipts db1)\<rparr>
                else db1) in
     andthen (if xo_double_spend_seen o' then hold_observation vid o' DoubleSpend db2
              else Inr db2) (\<lambda>db3.
     if ca_hold_reason allocation \<noteq> None \<or> xo_double_spend_seen o' then Inr (ReceiptHeld, db3)
     else if \<not> timely then Inr (ReceiptHeld, db3)
     else if \<not> xo_unlocked o' then Inr (ReceiptPending, db3)
     else grant_receipt vid valuation allocation receipt_id o' db3))))))))"

section \<open>Native BTC\<close>

text \<open>\<open>record_native_btc\<close>, called only inside \<open>record_payment\<close>'s transaction.\<close>

definition record_native_btc ::
  "i64 \<Rightarrow> i64 \<Rightarrow> u64 \<Rightarrow> ledger_db \<Rightarrow> ledger_error + ledger_db" where
  "record_native_btc settlement_id ledger_id event_seq db =
     andthen (ok_or (Db RowNotFound)
       (find (\<lambda>p. sp_id p = settlement_id) (settled_payments db))) (\<lambda>row.
     let msat = sp_amount_msat row in
     if msat \<le> 0 \<or> msat mod 1000 \<noteq> 0 then Inl (Payment InvalidNativeSettlement)
     else andthen (amount_of Btc (word_of_int (msat div 1000))) (\<lambda>am.
     andthen (map_err Credit (native_sats am)) (\<lambda>sats.
     andthen (amount_of Btc 0) (\<lambda>zero.
     andthen (amount_of Btc sats) (\<lambda>now_eligible.
     andthen (map_err Credit (assess_update native_btc zero 0 now_eligible)) (\<lambda>delta.
     let vid = btc_id settlement_id in
     andthen (insert_valuation
       \<lparr>va_id = vid, va_asset = Btc, va_network = ''legacy-unspecified'',
        va_provider = sp_source row, va_account_scope = ''legacy-settled-payment'',
        va_receive_scope = sp_source_id row, va_address_user = sp_address_user row,
        va_credit_pool = sp_credit_pool row, va_expected_atomic = 1, va_target_sats = 1,
        va_max_credit_sats = i64_max, va_rate_numerator = None, va_rate_denominator = None,
        va_rate_source = None, va_rate_observed_at = None, va_issued_at = None,
        va_expires_at = None, va_policy_version = ''btc-identity-v1''\<rparr> db) (\<lambda>db1.
     andthen (to_i64 sats) (\<lambda>sats_i64.
     andthen (insert_receipt
       \<lparr>ar_id = 0, ar_valuation_id = vid, ar_receipt_key = sp_source_id row,
        ar_amount_atomic = sats_i64, ar_first_seen_at = None, ar_unlocked = True,
        ar_eligible = True, ar_btc_settlement_id = Some settlement_id\<rparr> db1) (\<lambda>(receipt, db2).
     andthen (to_i64 (delta_sats delta)) (\<lambda>delta_i64.
     andthen (to_i64 event_seq) (\<lambda>event_i64.
     andthen (insert_grant
       \<lparr>cg_receipt_id = receipt, cg_delta_sats = delta_i64, cg_cumulative_atomic = sats_i64,
        cg_cumulative_sats = sats_i64, cg_ledger_entry_id = Some ledger_id,
        cg_event_seq = Some event_i64\<rparr> db2) (\<lambda>db3.
       Inr (db3\<lparr>credit_allocations := update_where (\<lambda>a. al_valuation_id a = vid)
              (\<lambda>a. a\<lparr>al_eligible_atomic := sats_i64, al_credited_sats := sats_i64\<rparr>)
              (credit_allocations db3)\<rparr>)))))))))))))"

text \<open>The query of \<open>verify_native_btc\<close>: the joined rows exist and agree with the settlement.\<close>

definition native_provenance ::
  "settled_row \<Rightarrow> receipt_row \<Rightarrow> valuation \<Rightarrow> allocation_row \<Rightarrow> grant_row \<Rightarrow> ledger_entry \<Rightarrow> bool"
where
  "native_provenance p r v a g l \<longleftrightarrow>
     ar_btc_settlement_id r = Some (sp_id p) \<and> va_id v = ar_valuation_id r
     \<and> al_valuation_id a = va_id v \<and> cg_receipt_id g = ar_id r
     \<and> cg_ledger_entry_id g = Some (le_id l)
     \<and> sp_amount_msat p mod 1000 = 0
     \<and> va_asset v = Btc \<and> va_provider v = sp_source p \<and> va_receive_scope v = sp_source_id p
     \<and> va_address_user v = sp_address_user p \<and> va_credit_pool v = sp_credit_pool p
     \<and> va_expected_atomic v = 1 \<and> va_target_sats v = 1
     \<and> ar_receipt_key r = sp_source_id p \<and> ar_amount_atomic r = sp_amount_msat p div 1000
     \<and> ar_unlocked r \<and> ar_eligible r
     \<and> al_eligible_atomic a = ar_amount_atomic r \<and> al_credited_sats a = ar_amount_atomic r
     \<and> al_hold_reason a = None
     \<and> cg_delta_sats g = ar_amount_atomic r \<and> cg_cumulative_atomic g = ar_amount_atomic r
     \<and> cg_cumulative_sats g = ar_amount_atomic r \<and> le_delta_sats l = ar_amount_atomic r
     \<and> le_source_key l = payment_key (sp_source p) (sp_source_id p) \<and> le_type l = HERD_RECEIPT"

definition native_btc_valid_row :: "i64 \<Rightarrow> ledger_db \<Rightarrow> bool" where
  "native_btc_valid_row settlement_id db \<longleftrightarrow>
     (\<exists>p \<in> set (settled_payments db). sp_id p = settlement_id
       \<and> (\<exists>r \<in> set (asset_receipts db). \<exists>v \<in> set (credit_valuations db).
            \<exists>a \<in> set (credit_allocations db). \<exists>g \<in> set (credit_grants db).
            \<exists>l \<in> set (ledger_entries db). native_provenance p r v a g l))"

definition verify_native_btc :: "i64 \<Rightarrow> ledger_db \<Rightarrow> ledger_error + unit" where
  "verify_native_btc settlement_id db =
     (if native_btc_valid_row settlement_id db then Inr ()
      else Inl (Payment ProvenanceInconsistent))"

end
