(* ===== verification/Ledger_Payment.thy ===== *)
theory Ledger_Payment
  imports Ledger_Credit
begin

text \<open>
  \<open>LedgerStore::record_payment\<close> of \<open>src/src/ledger/mod.rs\<close>: a settled native BTC payment becomes one
  row of \<open>settled_payments\<close>, one ledger entry, one public event and its credit provenance, in one
  transaction. Redelivery of the same settlement is a duplicate, a different settlement under
  the same identity is refused.
\<close>

datatype settlement_outcome =
    Credited u64 string string
  | Duplicate

text \<open>The checks before the transaction; \<open>parse_json\<close> is \<open>serde_json::from_str\<close>.\<close>

definition validate_payment ::
  "(string \<Rightarrow> json option) \<Rightarrow> settled_payment \<Rightarrow> ledger_error + unit" where
  "validate_payment parse_json p =
     andthen (validate_source (pay_source p)) (\<lambda>_.
     andthen (validate_external_id (pay_source_id p) 256) (\<lambda>_.
     andthen (validate_user (pay_address_user p)) (\<lambda>_.
     andthen (validate_user (pay_credit_pool p)) (\<lambda>_.
     andthen (case pay_payment_hash p of None \<Rightarrow> Inr () | Some h \<Rightarrow> validate_payment_hash h) (\<lambda>_.
     if pay_amount_msat p = 0 then Inl (Payment ZeroAmount)
     else if pay_amount_msat p mod 1000 \<noteq> 0 then Inl (Payment NotSatAligned)
     else if some_negative (pay_settled_at p) then Inl (Payment NegativeSettledAt)
     else case pay_context_json p of
       None \<Rightarrow> Inr ()
     | Some context \<Rightarrow>
         (case parse_json context of
            None \<Rightarrow> Inl (Payment ContextNotJson)
          | Some (JObj _) \<Rightarrow> Inr ()
          | Some _ \<Rightarrow> Inl (Payment ContextNotObject)))))))"

text \<open>The existing settlement agrees with the delivered one.\<close>

definition settlement_matches :: "settled_row \<Rightarrow> settled_payment \<Rightarrow> i64 \<Rightarrow> bool" where
  "settlement_matches row p amount_msat \<longleftrightarrow>
     sp_payment_hash row = pay_payment_hash p \<and> sp_address_user row = pay_address_user p
     \<and> sp_credit_pool row = pay_credit_pool p \<and> sp_amount_msat row = amount_msat
     \<and> sp_settled_at row = pay_settled_at p"

text \<open>INSERT INTO \<open>settled_payments\<close> with its unique identity and payment hash.\<close>

definition insert_settled :: "settled_row \<Rightarrow> ledger_db \<Rightarrow> i64 ledger_result" where
  "insert_settled r db =
     (if \<exists>q \<in> set (settled_payments db). sp_source q = sp_source r \<and> sp_source_id q = sp_source_id r
      then Inl (Db (UniqueViolation ''settled_payments.source_id''))
      else if sp_payment_hash r \<noteq> None
           \<and> sp_payment_hash r \<in> sp_payment_hash ` set (settled_payments db)
      then Inl (Db (UniqueViolation ''settled_payments.payment_hash''))
      else let i = next_id sp_id (settled_payments db) in
        Inr (i, db\<lparr>settled_payments := settled_payments db @ [r\<lparr>sp_id := i\<rparr>]\<rparr>))"

definition record_payment ::
  "(string \<Rightarrow> json option) \<Rightarrow> settled_payment \<Rightarrow> ledger_db \<Rightarrow> settlement_outcome ledger_result" where
  "record_payment parse_json p db =
     andthen (validate_payment parse_json p) (\<lambda>_.
     andthen (to_i64 (pay_amount_msat p)) (\<lambda>amount_msat.
     let credited_sats = pay_amount_msat p div 1000 in
     andthen (to_i64 credited_sats) (\<lambda>credited_i64.
     case find (\<lambda>r. sp_source r = pay_source p \<and> sp_source_id r = pay_source_id p)
            (settled_payments db) of
       Some row \<Rightarrow>
         if settlement_matches row p amount_msat
         then andthen (verify_native_btc (sp_id row) db) (\<lambda>_. Inr (Duplicate, db))
         else Inl (Payment ConflictingSettlement)
     | None \<Rightarrow>
         if pay_payment_hash p \<noteq> None
            \<and> (\<exists>r \<in> set (settled_payments db). sp_payment_hash r = pay_payment_hash p)
         then Inl (Payment PaymentHashCollision)
         else
           andthen (insert_settled
             \<lparr>sp_id = 0, sp_source = pay_source p, sp_source_id = pay_source_id p,
              sp_payment_hash = pay_payment_hash p, sp_address_user = pay_address_user p,
              sp_credit_pool = pay_credit_pool p, sp_amount_msat = amount_msat,
              sp_settled_at = pay_settled_at p, sp_context_json = pay_context_json p\<rparr> db)
             (\<lambda>(settlement_id, db1).
           andthen (insert_ledger_entry
             \<lparr>le_id = 0, le_type = HERD_RECEIPT,
              le_source_key = payment_key (pay_source p) (pay_source_id p),
              le_delta_sats = credited_i64, le_payment_hash = pay_payment_hash p,
              le_payment_source = Some (pay_source p),
              le_payment_source_id = Some (pay_source_id p),
              le_address_user = Some (pay_address_user p),
              le_credit_pool = Some (pay_credit_pool p), le_feed_attempt_id = None\<rparr> db1)
             (\<lambda>(ledger_id, db2).
           andthen (feed_credit_in_transaction db2) (\<lambda>feed_credit.
           andthen (append_event_in_transaction ''payment_received''
             (JObj [(''source'', JStr (pay_source p)), (''source_id'', JStr (pay_source_id p)),
                    (''payment_hash'', JOptStr (pay_payment_hash p)),
                    (''address_user'', JStr (pay_address_user p)),
                    (''credit_pool'', JStr (pay_credit_pool p)),
                    (''amount_sats'', JU64 credited_sats),
                    (''feed_credit_sats'', JU64 feed_credit)]) db2) (\<lambda>(event_seq, db3).
           andthen (record_native_btc settlement_id ledger_id event_seq db3) (\<lambda>db4.
             Inr (Credited credited_sats (pay_address_user p) (pay_credit_pool p), db4)))))))))"

end
