(* ===== verification/Credit_Invariant.thy ===== *)
theory Credit_Invariant
  imports Ledger_Payment
begin

text \<open>
  What the credit tables mean and why it stays true. \<open>grant_inv\<close>: the allocation of each valuation is
  the sum of its granted receipts, and its credit is the floor of the eligible amount at the
  valuation's immutable terms, within the limit. \<open>link_inv\<close>: the receipts of the public ledger are
  the grants, one entry each. Both are kept by every operation of \<open>Ledger_Credit\<close> and
  \<open>Ledger_Payment\<close>; the properties at the end rest on them.
\<close>

section \<open>Statement\<close>

definition value_at :: "valuation \<Rightarrow> int \<Rightarrow> int" where
  "value_at v n = n * va_target_sats v div va_expected_atomic v"

definition allocation_ok :: "ledger_db \<Rightarrow> valuation \<Rightarrow> allocation_row \<Rightarrow> bool" where
  "allocation_ok db v a \<longleftrightarrow>
     al_eligible_atomic a = sum_list (granted_atomic (va_id v) db)
     \<and> al_credited_sats a = sum_list (granted_sats (va_id v) db)
     \<and> al_credited_sats a = value_at v (al_eligible_atomic a)
     \<and> al_credited_sats a \<le> va_max_credit_sats v
     \<and> 0 \<le> al_eligible_atomic a \<and> al_eligible_atomic a \<le> i64_max"

definition timely_receipt :: "valuation \<Rightarrow> receipt_row \<Rightarrow> bool" where
  "timely_receipt v r \<longleftrightarrow> (va_asset v = Xmr \<longrightarrow>
     (\<exists>t issued expires. ar_first_seen_at r = Some t \<and> va_issued_at v = Some issued
        \<and> va_expires_at v = Some expires \<and> issued \<le> t \<and> t < expires))"

definition grant_inv :: "ledger_db \<Rightarrow> bool" where
  "grant_inv db \<longleftrightarrow>
     distinct (map va_id (credit_valuations db))
     \<and> map al_valuation_id (credit_allocations db) = map va_id (credit_valuations db)
     \<and> distinct (map ar_id (asset_receipts db))
     \<and> distinct (map cg_receipt_id (credit_grants db))
     \<and> (\<forall>v \<in> set (credit_valuations db). valuation_check v \<and> va_max_credit_sats v \<le> i64_max
          \<and> va_expected_atomic v \<le> i64_max)
     \<and> (\<forall>r \<in> set (asset_receipts db). 0 < ar_amount_atomic r \<and> ar_amount_atomic r \<le> i64_max
          \<and> (\<exists>v \<in> set (credit_valuations db). va_id v = ar_valuation_id r
               \<and> (ar_eligible r \<longrightarrow> timely_receipt v r)))
     \<and> (\<forall>g \<in> set (credit_grants db). 0 \<le> cg_delta_sats g
          \<and> (\<exists>r \<in> set (asset_receipts db). ar_id r = cg_receipt_id g \<and> ar_eligible r \<and> ar_unlocked r))
     \<and> (\<forall>v \<in> set (credit_valuations db). \<forall>a \<in> set (credit_allocations db).
          al_valuation_id a = va_id v \<longrightarrow> allocation_ok db v a)"

lemma grant_inv_cong:
  assumes "credit_valuations db' = credit_valuations db"
    "credit_allocations db' = credit_allocations db"
    "asset_receipts db' = asset_receipts db" "credit_grants db' = credit_grants db"
  shows "grant_inv db' \<longleftrightarrow> grant_inv db"
  using assms by (simp add: grant_inv_def allocation_ok_def granted_atomic_def granted_sats_def
      joined_def)

lemma grant_inv_empty: "grant_inv empty_db"
  by (simp add: grant_inv_def empty_db_def)

section \<open>The join of grants and receipts\<close>

lemma joined_cong:
  assumes "asset_receipts db' = asset_receipts db" "credit_grants db' = credit_grants db"
  shows "joined vid db' = joined vid db"
  using assms by (simp add: joined_def)

lemma joined_new_receipt:
  assumes "\<forall>g \<in> set (credit_grants db). cg_receipt_id g \<noteq> ar_id r"
  shows "joined vid (db\<lparr>asset_receipts := asset_receipts db @ [r]\<rparr>) = joined vid db"
  unfolding joined_def
  by (rule arg_cong [where f = concat], rule map_cong) (use assms in auto)

lemma filter_key_unique:
  assumes "distinct (map k rs)" "r \<in> set rs"
  shows "filter (\<lambda>x. k x = k r \<and> P x) rs = (if P r then [r] else [])"
  using assms by (induction rs) (auto simp: filter_empty_conv rev_image_eqI)

lemma joined_new_grant:
  assumes "distinct (map ar_id (asset_receipts db))" "r \<in> set (asset_receipts db)"
    "cg_receipt_id g = ar_id r"
  shows "joined vid (db\<lparr>credit_grants := credit_grants db @ [g]\<rparr>)
    = joined vid db @ (if ar_valuation_id r = vid then [(r, g)] else [])"
  using filter_key_unique [OF assms(1,2), of "\<lambda>x. ar_valuation_id x = vid"] assms(3)
  by (simp add: joined_def)

lemma granted_new_grant:
  assumes "distinct (map ar_id (asset_receipts db))" "r \<in> set (asset_receipts db)"
    "cg_receipt_id g = ar_id r"
  shows "granted_atomic vid (db\<lparr>credit_grants := credit_grants db @ [g]\<rparr>)
      = granted_atomic vid db @ (if ar_valuation_id r = vid then [ar_amount_atomic r] else [])"
    and "granted_sats vid (db\<lparr>credit_grants := credit_grants db @ [g]\<rparr>)
      = granted_sats vid db @ (if ar_valuation_id r = vid then [cg_delta_sats g] else [])"
  by (simp_all add: granted_atomic_def granted_sats_def joined_new_grant [OF assms])

text \<open>Marking a receipt unlocked changes no joined amount.\<close>

lemma granted_unlock:
  assumes "\<And>r. ar_id (f r) = ar_id r" "\<And>r. ar_valuation_id (f r) = ar_valuation_id r"
    "\<And>r. ar_amount_atomic (f r) = ar_amount_atomic r"
  shows "granted_atomic vid (db\<lparr>asset_receipts := map f (asset_receipts db)\<rparr>) = granted_atomic vid db"
    and "granted_sats vid (db\<lparr>asset_receipts := map f (asset_receipts db)\<rparr>) = granted_sats vid db"
  using assms by (simp_all add: granted_atomic_def granted_sats_def joined_def map_concat comp_def
      filter_map)

lemma joined_in: "(r, g) \<in> set (joined vid db) \<Longrightarrow>
    r \<in> set (asset_receipts db) \<and> g \<in> set (credit_grants db) \<and> ar_valuation_id r = vid"
  by (auto simp: joined_def)

section \<open>Preservation by the primitive writes\<close>

lemma grant_inv_insert_valuation:
  assumes "insert_valuation v db = Inr db'" "grant_inv db" "va_max_credit_sats v \<le> i64_max"
    "va_expected_atomic v \<le> i64_max"
  shows "grant_inv db'"
proof -
  from assms(1) have new: "va_id v \<notin> va_id ` set (credit_valuations db)"
    "va_id v \<notin> al_valuation_id ` set (credit_allocations db)" "valuation_check v"
    and db': "db' = db\<lparr>credit_valuations := credit_valuations db @ [v],
                   credit_allocations := credit_allocations db
                     @ [\<lparr>al_valuation_id = va_id v, al_eligible_atomic = 0, al_credited_sats = 0,
                          al_hold_reason = None\<rparr>]\<rparr>"
    by (auto simp: insert_valuation_def split: if_splits)
  have j: "joined vid db' = joined vid db" for vid
    by (rule joined_cong) (simp_all add: db')
  have "ar_valuation_id r \<noteq> va_id v" if "r \<in> set (asset_receipts db)" for r
    using assms(2) new(1) that unfolding grant_inv_def by (metis imageI)
  then have "joined (va_id v) db = []"
    using joined_in [of _ _ "va_id v" db] by (cases "joined (va_id v) db") fastforce+
  then have ok: "allocation_ok db' v \<lparr>al_valuation_id = va_id v, al_eligible_atomic = 0,
      al_credited_sats = 0, al_hold_reason = None\<rparr>"
    using new(3) by (simp add: allocation_ok_def granted_atomic_def granted_sats_def j value_at_def
        valuation_check_def i64_max_def)
  have old: "allocation_ok db' w a \<longleftrightarrow> allocation_ok db w a" for w a
    by (simp add: allocation_ok_def granted_atomic_def granted_sats_def j)
  have "al_valuation_id a \<noteq> va_id v" if "a \<in> set (credit_allocations db)" for a
    using new(2) that by (metis imageI)
  moreover have "va_id w \<noteq> va_id v" if "w \<in> set (credit_valuations db)" for w
    using new(1) that by (metis imageI)
  ultimately show ?thesis
    using assms(2-4) new ok unfolding grant_inv_def old
    by (auto simp: db' old [unfolded db'])
qed

lemma insert_receipt_Inr:
  assumes "insert_receipt r db = Inr (i, db')"
  shows "i = next_id ar_id (asset_receipts db)" "0 < ar_amount_atomic r"
    "db' = db\<lparr>asset_receipts := asset_receipts db @ [r\<lparr>ar_id := i\<rparr>]\<rparr>"
    "\<not> (\<exists>q \<in> set (asset_receipts db). ar_valuation_id q = ar_valuation_id r
        \<and> ar_receipt_key q = ar_receipt_key r)"
  using assms by (auto simp: insert_receipt_def Let_def split: if_splits)

lemma grant_inv_insert_receipt:
  assumes "insert_receipt r db = Inr (i, db')" "grant_inv db" "ar_amount_atomic r \<le> i64_max"
    and v: "v \<in> set (credit_valuations db)" "va_id v = ar_valuation_id r"
      "ar_eligible r \<longrightarrow> timely_receipt v r"
  shows "grant_inv db'"
proof -
  note ins = insert_receipt_Inr [OF assms(1)]
  let ?r = "r\<lparr>ar_id := i\<rparr>"
  have fresh: "ar_id q \<noteq> i" if "q \<in> set (asset_receipts db)" for q
    using next_id_fresh [OF that, of ar_id] ins(1) by simp
  have "cg_receipt_id g \<noteq> ar_id ?r" if "g \<in> set (credit_grants db)" for g
  proof -
    from that assms(2) obtain q where "q \<in> set (asset_receipts db)" "ar_id q = cg_receipt_id g"
      unfolding grant_inv_def by blast
    with fresh show ?thesis by fastforce
  qed
  then have j: "joined vid db' = joined vid db" for vid
    unfolding ins(3) by (intro joined_new_receipt) auto
  have old: "allocation_ok db' w a \<longleftrightarrow> allocation_ok db w a" for w a
    by (simp add: allocation_ok_def granted_atomic_def granted_sats_def j)
  have t: "timely_receipt w ?r = timely_receipt w r" for w by (simp add: timely_receipt_def)
  have rs: "asset_receipts db' = asset_receipts db @ [?r]" "credit_valuations db' = credit_valuations db"
    "credit_allocations db' = credit_allocations db" "credit_grants db' = credit_grants db"
    by (simp_all add: ins(3))
  have "distinct (map ar_id (asset_receipts db @ [?r]))"
    using assms(2) fresh by (auto simp: grant_inv_def)
  moreover have "\<forall>q \<in> set (asset_receipts db @ [?r]). 0 < ar_amount_atomic q
      \<and> ar_amount_atomic q \<le> i64_max
      \<and> (\<exists>v \<in> set (credit_valuations db). va_id v = ar_valuation_id q
           \<and> (ar_eligible q \<longrightarrow> timely_receipt v q))"
    using assms(2,3) v ins(2) by (auto simp: grant_inv_def t)
  moreover have "\<forall>g \<in> set (credit_grants db). 0 \<le> cg_delta_sats g
      \<and> (\<exists>q \<in> set (asset_receipts db @ [?r]). ar_id q = cg_receipt_id g
           \<and> ar_eligible q \<and> ar_unlocked q)"
    using assms(2) by (auto simp: grant_inv_def)
  ultimately show ?thesis
    using assms(2) unfolding grant_inv_def old rs by blast
qed

lemma grant_inv_map_receipts:
  assumes inv: "grant_inv db"
    and f: "\<And>r. ar_id (f r) = ar_id r" "\<And>r. ar_valuation_id (f r) = ar_valuation_id r"
    "\<And>r. ar_amount_atomic (f r) = ar_amount_atomic r" "\<And>r. ar_eligible (f r) = ar_eligible r"
    "\<And>r. ar_unlocked r \<Longrightarrow> ar_unlocked (f r)"
    "\<And>r v. timely_receipt v (f r) = timely_receipt v r"
  shows "grant_inv (db\<lparr>asset_receipts := map f (asset_receipts db)\<rparr>)"
proof -
  let ?db = "db\<lparr>asset_receipts := map f (asset_receipts db)\<rparr>"
  have old: "allocation_ok ?db w a \<longleftrightarrow> allocation_ok db w a" for w a
    by (simp only: allocation_ok_def granted_unlock [of f, OF f(1-3)])
  have "map ar_id (map f (asset_receipts db)) = map ar_id (asset_receipts db)"
    by (simp add: f(1) comp_def)
  moreover have "\<forall>g \<in> set (credit_grants db). 0 \<le> cg_delta_sats g
      \<and> (\<exists>q \<in> set (map f (asset_receipts db)). ar_id q = cg_receipt_id g
           \<and> ar_eligible q \<and> ar_unlocked q)"
  proof
    fix g
    assume "g \<in> set (credit_grants db)"
    with inv obtain q where "q \<in> set (asset_receipts db)" "ar_id q = cg_receipt_id g"
      "ar_eligible q" "ar_unlocked q" "0 \<le> cg_delta_sats g"
      unfolding grant_inv_def by blast
    then show "0 \<le> cg_delta_sats g \<and> (\<exists>q \<in> set (map f (asset_receipts db)).
        ar_id q = cg_receipt_id g \<and> ar_eligible q \<and> ar_unlocked q)"
      using f(1,4,5) by (auto intro!: bexI [of _ q])
  qed
  ultimately show ?thesis
    using inv unfolding grant_inv_def old by (simp add: f(1-4,6) comp_def)
qed

lemma grant_inv_unlock:
  "grant_inv db \<Longrightarrow> grant_inv (db\<lparr>asset_receipts :=
    update_where p (\<lambda>r. r\<lparr>ar_unlocked := True\<rparr>) (asset_receipts db)\<rparr>)"
  unfolding update_where_def
  by (rule grant_inv_map_receipts) (auto simp: timely_receipt_def)

lemma grant_inv_alloc_hold:
  assumes "grant_inv db" "\<And>a. al_valuation_id (f a) = al_valuation_id a"
    "\<And>a. al_eligible_atomic (f a) = al_eligible_atomic a"
    "\<And>a. al_credited_sats (f a) = al_credited_sats a"
  shows "grant_inv (db\<lparr>credit_allocations := map f (credit_allocations db)\<rparr>)"
proof -
  have "allocation_ok (db\<lparr>credit_allocations := map f (credit_allocations db)\<rparr>) v (f a)
      \<longleftrightarrow> allocation_ok db v a" for v a
    by (simp add: allocation_ok_def granted_atomic_def granted_sats_def joined_def assms)
  moreover have "map al_valuation_id (map f (credit_allocations db))
      = map al_valuation_id (credit_allocations db)"
    by (simp add: assms comp_def)
  ultimately show ?thesis
    using assms(1) unfolding grant_inv_def by (auto simp: assms comp_def)
qed

lemma grant_inv_set_hold: "grant_inv db \<Longrightarrow> grant_inv (set_hold vid reason db)"
  unfolding set_hold_def update_where_def by (rule grant_inv_alloc_hold) auto

lemma grant_inv_hold_observation:
  assumes "hold_observation vid o' reason db = Inr db'" "grant_inv db"
  shows "grant_inv db'"
proof -
  from assms(1) obtain cs where "db' = set_hold vid reason (db\<lparr>credit_conflicts := cs\<rparr>)"
    by (auto simp: hold_observation_def res_simps Let_def split: if_splits)
      (metis ledger_db.surjective ledger_db.update_convs(10))
  moreover have "grant_inv (db\<lparr>credit_conflicts := cs\<rparr>)"
    using assms(2) by (simp add: grant_inv_cong [of "db\<lparr>credit_conflicts := cs\<rparr>" db])
  ultimately show ?thesis by (simp add: grant_inv_set_hold)
qed

lemma insert_grant_Inr:
  assumes "insert_grant g db = Inr db'"
  shows "cg_receipt_id g \<notin> cg_receipt_id ` set (credit_grants db)" "grant_check g"
    "db' = db\<lparr>credit_grants := credit_grants db @ [g]\<rparr>"
  using assms by (auto simp: insert_grant_def split: if_splits)

text \<open>A grant together with the new totals of its allocation.\<close>

lemma grant_inv_post:
  assumes inv: "grant_inv db" and ins: "insert_grant g db = Inr db1"
    and r: "r \<in> set (asset_receipts db)" "ar_id r = cg_receipt_id g" "ar_eligible r" "ar_unlocked r"
      "ar_valuation_id r = vid"
    and v: "v \<in> set (credit_valuations db)" "va_id v = vid"
    and a: "a \<in> set (credit_allocations db)" "al_valuation_id a = vid"
    and new: "eligible = al_eligible_atomic a + ar_amount_atomic r" "eligible \<le> i64_max"
      "credited = value_at v eligible" "credited \<le> va_max_credit_sats v"
      "cg_delta_sats g = credited - al_credited_sats a"
  shows "grant_inv (db1\<lparr>credit_allocations := update_where (\<lambda>a. al_valuation_id a = vid)
      (\<lambda>a. a\<lparr>al_eligible_atomic := eligible, al_credited_sats := credited\<rparr>)
      (credit_allocations db1)\<rparr>)" (is "grant_inv ?db")
proof -
  note g = insert_grant_Inr [OF ins]
  let ?f = "\<lambda>a. if al_valuation_id a = vid
    then a\<lparr>al_eligible_atomic := eligible, al_credited_sats := credited\<rparr> else a"
  define D where "D = ?db"
  have db: "credit_valuations D = credit_valuations db" "asset_receipts D = asset_receipts db"
    "credit_grants D = credit_grants db @ [g]"
    "credit_allocations D = map ?f (credit_allocations db)"
    by (simp_all add: D_def g(3) update_where_def)
  have rids: "distinct (map ar_id (asset_receipts db))" using inv by (simp add: grant_inv_def)
  have granted: "granted_atomic w D
        = granted_atomic w db @ (if vid = w then [ar_amount_atomic r] else [])"
      "granted_sats w D = granted_sats w db @ (if vid = w then [cg_delta_sats g] else [])" for w
  proof -
    have "joined w D = joined w (db\<lparr>credit_grants := credit_grants db @ [g]\<rparr>)"
      by (rule joined_cong) (simp_all add: D_def g(3))
    then show "granted_atomic w D
        = granted_atomic w db @ (if vid = w then [ar_amount_atomic r] else [])"
      "granted_sats w D = granted_sats w db @ (if vid = w then [cg_delta_sats g] else [])"
      using granted_new_grant [OF rids r(1), of g w] r(2,5)
      by (simp_all add: granted_atomic_def granted_sats_def)
  qed
  have alloc_ids: "distinct (map al_valuation_id (credit_allocations db))"
    using inv by (simp add: grant_inv_def)
  have val_ids: "distinct (map va_id (credit_valuations db))" using inv by (simp add: grant_inv_def)
  have old_ok: "allocation_ok db v a"
    using inv v a unfolding grant_inv_def by metis
  have pos: "0 < ar_amount_atomic r" using inv r(1) unfolding grant_inv_def by blast
  have "allocation_ok D w (?f b)"
    if w: "w \<in> set (credit_valuations db)" and b: "b \<in> set (credit_allocations db)"
      and id: "al_valuation_id (?f b) = va_id w" for w b
  proof (cases "va_id w = vid")
    case True
    have "w = v" using True v w val_ids by (metis distinct_map inj_onD)
    moreover have "al_valuation_id b = vid" using True id by (simp split: if_splits)
    with a b alloc_ids have "b = a" by (metis distinct_map inj_onD)
    ultimately show ?thesis
      using old_ok new a v pos True by (auto simp: allocation_ok_def granted)
  next
    case False
    have id': "al_valuation_id b = va_id w" using id by (simp split: if_splits)
    have "allocation_ok db w b" using inv w b id' unfolding grant_inv_def by metis
    with False id' show ?thesis by (auto simp: allocation_ok_def granted)
  qed
  then have "\<forall>w \<in> set (credit_valuations db). \<forall>b \<in> set (map ?f (credit_allocations db)).
      al_valuation_id b = va_id w \<longrightarrow> allocation_ok D w b"
    unfolding set_map by blast
  moreover have "map al_valuation_id (map ?f (credit_allocations db))
      = map va_id (credit_valuations db)"
  proof -
    have "map al_valuation_id (map ?f (credit_allocations db))
        = map al_valuation_id (credit_allocations db)" by simp
    with inv show ?thesis by (simp add: grant_inv_def)
  qed
  moreover have "distinct (map cg_receipt_id (credit_grants db @ [g]))"
    using inv g(1) by (auto simp: grant_inv_def)
  moreover have "\<forall>h \<in> set (credit_grants db @ [g]). 0 \<le> cg_delta_sats h
      \<and> (\<exists>q \<in> set (asset_receipts db). ar_id q = cg_receipt_id h \<and> ar_eligible q \<and> ar_unlocked q)"
    using inv g(2) r by (auto simp: grant_inv_def grant_check_def)
  ultimately have "grant_inv D"
    using inv unfolding grant_inv_def db by blast
  then show ?thesis by (simp only: D_def)
qed

section \<open>The operations as sequences of writes\<close>

text \<open>
  A receipt that is timely but was marked ineligible was seen double-spent: its intent is on hold.
  \<open>grant_receipt\<close> relies on this, because it does not read the \<open>eligible\<close> column again.
\<close>

definition hold_inv :: "ledger_db \<Rightarrow> bool" where
  "hold_inv db \<longleftrightarrow> (\<forall>r \<in> set (asset_receipts db). \<forall>v \<in> set (credit_valuations db).
     \<forall>a \<in> set (credit_allocations db).
       va_id v = ar_valuation_id r \<longrightarrow> al_valuation_id a = ar_valuation_id r \<longrightarrow>
       timely_receipt v r \<longrightarrow> \<not> ar_eligible r \<longrightarrow> al_hold_reason a \<noteq> None)"

definition unlock_receipt :: "i64 \<Rightarrow> ledger_db \<Rightarrow> ledger_db" where
  "unlock_receipt i db = db\<lparr>asset_receipts := update_where (\<lambda>r. ar_id r = i)
     (\<lambda>r. r\<lparr>ar_unlocked := True\<rparr>) (asset_receipts db)\<rparr>"

definition set_totals :: "string \<Rightarrow> i64 \<Rightarrow> i64 \<Rightarrow> ledger_db \<Rightarrow> ledger_db" where
  "set_totals vid eligible credited db =
     db\<lparr>credit_allocations := update_where (\<lambda>a. al_valuation_id a = vid)
       (\<lambda>a. a\<lparr>al_eligible_atomic := eligible, al_credited_sats := credited\<rparr>)
       (credit_allocations db)\<rparr>"

text \<open>What a grant of receipt \<open>r\<close> to valuation \<open>v\<close> must satisfy in the state it starts from.\<close>

definition grant_due :: "ledger_db \<Rightarrow> valuation \<Rightarrow> receipt_row \<Rightarrow> i64 \<Rightarrow> i64 \<Rightarrow> i64 \<Rightarrow> bool" where
  "grant_due db v r delta eligible credited \<longleftrightarrow>
     v \<in> set (credit_valuations db) \<and> va_asset v = Xmr \<and> (\<exists>u. va_id v = xmr_id u)
     \<and> r \<in> set (asset_receipts db) \<and> ar_valuation_id r = va_id v
     \<and> ar_eligible r \<and> ar_unlocked r
     \<and> (\<exists>a \<in> set (credit_allocations db). al_valuation_id a = va_id v
          \<and> eligible = al_eligible_atomic a + ar_amount_atomic r
          \<and> delta = credited - al_credited_sats a)
     \<and> eligible \<le> i64_max \<and> credited = value_at v eligible \<and> credited \<le> va_max_credit_sats v"

inductive credit_write :: "ledger_db \<Rightarrow> ledger_db \<Rightarrow> bool" where
  cw_valuation: "insert_valuation v db = Inr db' \<Longrightarrow> va_asset v = Xmr \<Longrightarrow> va_id v = xmr_id u \<Longrightarrow>
     va_max_credit_sats v \<le> i64_max \<Longrightarrow> va_expected_atomic v \<le> i64_max \<Longrightarrow> credit_write db db'"
| cw_receipt: "insert_receipt r db = Inr (i, db') \<Longrightarrow> v \<in> set (credit_valuations db) \<Longrightarrow>
     va_id v = ar_valuation_id r \<Longrightarrow> va_asset v = Xmr \<Longrightarrow> ar_amount_atomic r \<le> i64_max \<Longrightarrow>
     (ar_eligible r \<longleftrightarrow> timely_receipt v r) \<Longrightarrow> ar_btc_settlement_id r = None \<Longrightarrow>
     credit_write db db'"
| cw_double_spend: "insert_receipt r db = Inr (i, db1) \<Longrightarrow> v \<in> set (credit_valuations db) \<Longrightarrow>
     va_id v = ar_valuation_id r \<Longrightarrow> va_asset v = Xmr \<Longrightarrow> va_id v = xmr_id u \<Longrightarrow>
     ar_amount_atomic r \<le> i64_max \<Longrightarrow> \<not> ar_eligible r \<Longrightarrow> ar_btc_settlement_id r = None \<Longrightarrow>
     db2 = db1 \<or> db2 = unlock_receipt i db1 \<Longrightarrow>
     hold_observation (va_id v) o' DoubleSpend db2 = Inr db' \<Longrightarrow> credit_write db db'"
| cw_unlock: "credit_write db (unlock_receipt i db)"
| cw_hold: "credit_write db (set_hold (xmr_id u) reason (db\<lparr>credit_conflicts := cs\<rparr>))"
| cw_dust: "grant_due db v r 0 eligible credited \<Longrightarrow>
     cg_receipt_id g = ar_id r \<Longrightarrow> cg_delta_sats g = 0 \<Longrightarrow> cg_ledger_entry_id g = None \<Longrightarrow>
     cg_event_seq g = None \<Longrightarrow> insert_grant g db = Inr db1 \<Longrightarrow>
     credit_write db (set_totals (va_id v) eligible credited db1)"
| cw_grant: "grant_due db v r delta eligible credited \<Longrightarrow> 0 < delta \<Longrightarrow>
     feed_credit_in_transaction db = Inr before \<Longrightarrow> balance db + delta \<le> i64_max \<Longrightarrow>
     le_type e = HERD_RECEIPT \<Longrightarrow> le_source_key e = asset_receipt_key (ar_id r) \<Longrightarrow>
     le_delta_sats e = delta \<Longrightarrow> insert_ledger_entry e db = Inr (l, db1) \<Longrightarrow>
     append_event_in_transaction ty p db1 = Inr (s, db2) \<Longrightarrow>
     cg_receipt_id g = ar_id r \<Longrightarrow> cg_delta_sats g = delta \<Longrightarrow> cg_ledger_entry_id g = Some l \<Longrightarrow>
     cg_event_seq g = Some (uint s) \<Longrightarrow> insert_grant g db2 = Inr db3 \<Longrightarrow>
     credit_write db (set_totals (va_id v) eligible credited db3)"

lemma hold_observation_eq:
  "hold_observation vid o' reason db = Inr db' \<longleftrightarrow>
     uint (atomic_units (xo_amount o')) \<le> i64_max
     \<and> db' = set_hold vid reason (db\<lparr>credit_conflicts :=
         (let c = \<lparr>cc_valuation_id = vid, cc_receipt_key = xo_receipt_key o',
              cc_amount_atomic = uint (atomic_units (xo_amount o')),
              cc_first_seen_at = xo_first_seen_at o', cc_unlocked = xo_unlocked o',
              cc_reason = hold_str reason\<rparr>
          in if c \<in> set (credit_conflicts db) then credit_conflicts db
             else credit_conflicts db @ [c])\<rparr>)"
  by (auto simp: hold_observation_def res_simps Let_def to_i64_Inr)

lemma hold_observation_write:
  "hold_observation (xmr_id u) o' reason db = Inr db' \<Longrightarrow> credit_write db db'"
  by (auto simp: hold_observation_eq intro: cw_hold)

lemma register_write:
  assumes "register_xmr_intent_in_transaction intent db = Inr db'"
  shows "db' = db \<or> credit_write db db'"
proof -
  from assms obtain v where v: "intent_valuation intent = Inr v"
    and res: "(case find (\<lambda>w. va_id w = va_id v) (credit_valuations db) of
            Some existing \<Rightarrow>
              if existing \<noteq> v then Inl (Xmr_Credit DifferentImmutableTerms) else Inr db
          | None \<Rightarrow> insert_valuation v db) = Inr db'"
    by (auto simp: register_xmr_intent_in_transaction_def res_simps split: if_splits)
  from v have "va_asset v = Xmr" "va_id v = xmr_id (xi_id intent)" "va_max_credit_sats v \<le> i64_max"
    "va_expected_atomic v \<le> i64_max"
    by (auto simp: intent_valuation_def res_simps Let_def to_i64_Inr)
  with res show ?thesis by (auto intro: cw_valuation split: option.splits if_splits)
qed

lemma uint_floor_sats:
  assumes "cumulative_sats t am = Inr c"
  shows "uint c = uint (atomic_units am) * uint (target_sats t) div uint (expected_atomic t)"
proof -
  have "int (unat c) = int (floor_sats t (atomic_units am))"
    using cumulative_sats_unat [OF assms] by simp
  then show ?thesis by (simp only: floor_sats_def zdiv_int of_nat_mult uint_nat [symmetric])
qed

lemma uint_le_MAX: "w \<le> MAX_ACCOUNTING_UNITS \<longleftrightarrow> uint w \<le> i64_max"
  by (simp add: word_le_uint uint_MAX)

lemma cumulative_le_max: "cumulative_sats t am = Inr c \<Longrightarrow> uint c \<le> i64_max"
proof -
  assume "cumulative_sats t am = Inr c"
  then have "unat c \<le> 9223372036854775807"
    using cumulative_sats_unat [of t am c] by (auto simp: cumulative_sats_Inr)
  then have "int (unat c) \<le> 9223372036854775807" by linarith
  then show ?thesis by (simp add: i64_max_def)
qed

lemma xmr_update_Some:
  assumes q: "quoted_xmr e t = Inr terms"
    and u: "xmr_update terms al amount max_credit = Some u"
    and m: "0 \<le> max_credit" "max_credit \<le> i64_max"
  shows "uint (atomic_units (cumulative_eligible u)) = uint (ca_eligible_atomic al) + uint amount"
    and "uint (ca_eligible_atomic al) + uint amount \<le> i64_max"
    and "uint (cumulative_credit_sats u)
      = (uint (ca_eligible_atomic al) + uint amount) * uint t div uint e"
    and "uint (cumulative_credit_sats u) \<le> max_credit"
    and "uint (delta_sats u) = uint (cumulative_credit_sats u) - uint (ca_credited_sats al)"
proof -
  from u obtain current where add: "checked_add_u64 (ca_eligible_atomic al) amount = Some current"
    and cur: "current \<le> MAX_ACCOUNTING_UNITS"
    and el: "ca_eligible_atomic al \<le> MAX_ACCOUNTING_UNITS"
    and up: "assess_update terms \<lparr>am_asset = Xmr, atomic_units = ca_eligible_atomic al\<rparr>
        (ca_credited_sats al) \<lparr>am_asset = Xmr, atomic_units = current\<rparr> = Inr u"
    and lim: "cumulative_credit_sats u \<le> word_of_int max_credit"
    by (auto simp: xmr_update_def asset_amount_new_def not_less split: option.splits if_splits
        sum.splits)
  from checked_add_u64_unat [OF add]
  have "int (unat current) = int (unat (ca_eligible_atomic al)) + int (unat amount)" by simp
  then have cur': "uint current = uint (ca_eligible_atomic al) + uint amount" by simp
  have terms: "target_sats terms = t" "expected_atomic terms = e"
    using q by (auto simp: quoted_xmr_Inr)
  note d = assess_update_delta [OF up]
  from up have saved: "cumulative_sats terms
      \<lparr>am_asset = Xmr, atomic_units = ca_eligible_atomic al\<rparr> = Inr (ca_credited_sats al)"
    unfolding assess_update_Inr by blast
  show "uint (atomic_units (cumulative_eligible u)) = uint (ca_eligible_atomic al) + uint amount"
    using d(3) cur' by simp
  show "uint (ca_eligible_atomic al) + uint amount \<le> i64_max"
    using cur cur' by (simp add: uint_le_MAX)
  show "uint (cumulative_credit_sats u)
      = (uint (ca_eligible_atomic al) + uint amount) * uint t div uint e"
    using uint_floor_sats [OF d(2)] cur' terms by simp
  show "uint (cumulative_credit_sats u) \<le> max_credit"
    using lim m by (simp add: word_le_uint uint_word_of_int_i64)
  have "unat (ca_credited_sats al) \<le> unat (cumulative_credit_sats u)"
    using cumulative_sats_unat [OF saved] cumulative_sats_unat [OF d(2)]
      floor_sats_mono [of "ca_eligible_atomic al" current terms] d(4) by simp
  moreover have "unat (delta_sats u) = unat (cumulative_credit_sats u) - unat (ca_credited_sats al)"
    using d(1) cumulative_sats_unat [OF saved] cumulative_sats_unat [OF d(2)] by simp
  ultimately have "int (unat (delta_sats u))
      = int (unat (cumulative_credit_sats u)) - int (unat (ca_credited_sats al))" by simp
  then show "uint (delta_sats u) = uint (cumulative_credit_sats u) - uint (ca_credited_sats al)"
    by simp
qed

lemma allocation_in_tx_Inr:
  assumes "allocation_in_tx vid db = Inr al"
  obtains a where "a \<in> set (credit_allocations db)" "al_valuation_id a = vid"
    "0 \<le> al_eligible_atomic a" "0 \<le> al_credited_sats a"
    "ca_eligible_atomic al = word_of_int (al_eligible_atomic a)"
    "ca_credited_sats al = word_of_int (al_credited_sats a)"
    "ca_hold_reason al = al_hold_reason a"
  using assms by (auto simp: allocation_in_tx_def res_simps to_u64_Inr dest!: find_Some_in)

lemma allocation_words:
  assumes "grant_inv db" "v \<in> set (credit_valuations db)" "va_id v = vid"
    and "allocation_in_tx vid db = Inr al"
  obtains a where "a \<in> set (credit_allocations db)" "al_valuation_id a = vid"
    "allocation_ok db v a" "uint (ca_eligible_atomic al) = al_eligible_atomic a"
    "uint (ca_credited_sats al) = al_credited_sats a" "ca_hold_reason al = al_hold_reason a"
proof -
  from assms(4) obtain a where a: "a \<in> set (credit_allocations db)" "al_valuation_id a = vid"
    "0 \<le> al_eligible_atomic a" "0 \<le> al_credited_sats a"
    and w: "ca_eligible_atomic al = word_of_int (al_eligible_atomic a)"
    "ca_credited_sats al = word_of_int (al_credited_sats a)"
    "ca_hold_reason al = al_hold_reason a" by (rule allocation_in_tx_Inr)
  have ok: "allocation_ok db v a"
    using assms(1-3) a(1,2) unfolding grant_inv_def by metis
  have "va_max_credit_sats v \<le> i64_max" using assms(1,2) by (auto simp: grant_inv_def)
  with ok have "al_eligible_atomic a \<le> i64_max" "al_credited_sats a \<le> i64_max"
    by (auto simp: allocation_ok_def)
  with a ok w show thesis
    by (intro that) (simp_all add: uint_word_of_int_i64)
qed

lemma post_grant_write:
  assumes post: "post_grant (va_id v) v (ar_id r) o' u db = Inr (out, db')"
    and due: "grant_due db v r (uint (delta_sats u)) (uint (atomic_units (cumulative_eligible u)))
      (uint (cumulative_credit_sats u))"
  shows "credit_write db db'"
proof -
  from due obtain x where x: "va_id v = xmr_id x" by (auto simp: grant_due_def)
  from post obtain before where before: "feed_credit_in_transaction db = Inr before"
    by (auto simp: post_grant_def res_simps)
  let ?fits = "case checked_add_u64 before (delta_sats u) of
      Some w \<Rightarrow> if w \<le> MAX_ACCOUNTING_UNITS then Some w else None | None \<Rightarrow> None"
  show ?thesis
  proof (cases "?fits")
    case None
    with post before have "hold_observation (va_id v) o' CreditLimit db = Inr db'"
      by (auto simp: post_grant_def res_simps)
    then show ?thesis unfolding x by (rule hold_observation_write)
  next
    case (Some fc)
    then have add: "checked_add_u64 before (delta_sats u) = Some fc" "fc \<le> MAX_ACCOUNTING_UNITS"
      by (auto split: option.splits if_splits)
    from checked_add_u64_unat [OF add(1)]
    have "int (unat fc) = int (unat before) + int (unat (delta_sats u))" by simp
    then have bal: "balance db + uint (delta_sats u) \<le> i64_max"
      using feed_credit_uint [OF before] add(2) by (simp add: uint_le_MAX)
    show ?thesis
    proof (cases "0 < delta_sats u")
      case True
      define E where "E = \<lparr>le_id = 0, le_type = HERD_RECEIPT,
         le_source_key = asset_receipt_key (ar_id r), le_delta_sats = uint (delta_sats u),
         le_payment_hash = None, le_payment_source = None, le_payment_source_id = None,
         le_address_user = Some (va_address_user v), le_credit_pool = Some (va_credit_pool v),
         le_feed_attempt_id = None\<rparr>"
      define G where "G l ev = \<lparr>cg_receipt_id = ar_id r, cg_delta_sats = uint (delta_sats u),
         cg_cumulative_atomic = uint (atomic_units (cumulative_eligible u)),
         cg_cumulative_sats = uint (cumulative_credit_sats u), cg_ledger_entry_id = Some l,
         cg_event_seq = Some ev\<rparr>" for l ev
      from post before Some True obtain l db1 ty p s db2 db3 where w:
        "insert_ledger_entry E db = Inr (l, db1)"
        "append_event_in_transaction ty p db1 = Inr (s, db2)"
        "insert_grant (G l (uint s)) db2 = Inr db3"
        and db': "db' = set_totals (va_id v) (uint (atomic_units (cumulative_eligible u)))
          (uint (cumulative_credit_sats u)) db3"
        by (auto simp: post_grant_def res_simps to_i64_Inr set_totals_def E_def G_def)
      have "0 < uint (delta_sats u)" using True by (simp add: word_less_uint)
      with due before bal w show ?thesis
        unfolding db' by (intro cw_grant [where e = E and g = "G l (uint s)"]) (auto simp: E_def G_def)
    next
      case False
      then have d0: "uint (delta_sats u) = 0" "delta_sats u = 0"
        by (simp_all add: word_gt_0)
      define G where "G = \<lparr>cg_receipt_id = ar_id r, cg_delta_sats = 0,
         cg_cumulative_atomic = uint (atomic_units (cumulative_eligible u)),
         cg_cumulative_sats = uint (cumulative_credit_sats u), cg_ledger_entry_id = None,
         cg_event_seq = None\<rparr>"
      from post before Some False obtain db3 where "insert_grant G db = Inr db3"
        and db': "db' = set_totals (va_id v) (uint (atomic_units (cumulative_eligible u)))
          (uint (cumulative_credit_sats u)) db3"
        using d0 by (auto simp: post_grant_def res_simps to_i64_Inr set_totals_def G_def)
      then show ?thesis
        unfolding db' using due d0 by (intro cw_dust [where g = G]) (auto simp: G_def)
    qed
  qed
qed

lemma grant_receipt_write:
  assumes g: "grant_receipt (va_id v) v al (ar_id r) o' db = Inr (out, db')"
    and inv: "grant_inv db" and v: "v \<in> set (credit_valuations db)" "va_asset v = Xmr"
      "va_id v = xmr_id x"
    and al: "allocation_in_tx (va_id v) db = Inr al"
    and r: "r \<in> set (asset_receipts db)" "ar_valuation_id r = va_id v" "ar_eligible r"
      "ar_unlocked r" "ar_amount_atomic r = uint (atomic_units (xo_amount o'))"
  shows "db' = db \<or> credit_write db db'"
proof -
  from g obtain expected target terms where
    e: "to_u64 (va_expected_atomic v) = Inr expected" and t: "to_u64 (va_target_sats v) = Inr target"
    and q: "quoted_xmr expected target = Inr terms"
    and rest: "hold_observation (va_id v) o' AllocationMismatch db = Inr db' \<or> db' = db
      \<or> (case xmr_update terms al (atomic_units (xo_amount o')) (va_max_credit_sats v) of
           None \<Rightarrow> hold_observation (va_id v) o' CreditLimit db = Inr db'
         | Some update \<Rightarrow> \<exists>out. post_grant (va_id v) v (ar_id r) o' update db = Inr (out, db'))"
    by (auto simp: grant_receipt_def res_simps split: if_splits option.splits)
  obtain a where a: "a \<in> set (credit_allocations db)" "al_valuation_id a = va_id v"
    "allocation_ok db v a" "uint (ca_eligible_atomic al) = al_eligible_atomic a"
    "uint (ca_credited_sats al) = al_credited_sats a"
    by (rule allocation_words [OF inv v(1) refl al]) metis
  have vc: "0 < va_target_sats v" "va_target_sats v \<le> va_max_credit_sats v"
    "va_max_credit_sats v \<le> i64_max" "0 < va_expected_atomic v"
    using inv v(1) by (auto simp: grant_inv_def valuation_check_def)
  have bounds: "0 \<le> va_max_credit_sats v" "va_target_sats v \<le> i64_max"
    "va_expected_atomic v \<le> i64_max"
    using vc inv v(1) by (auto simp: grant_inv_def)
  have terms: "uint target = va_target_sats v" "uint expected = va_expected_atomic v"
    using e t vc bounds by (auto simp: to_u64_Inr uint_word_of_int_i64)
  from rest consider (hold) reason where "hold_observation (va_id v) o' reason db = Inr db'"
    | (same) "db' = db"
    | (post) u out where "xmr_update terms al (atomic_units (xo_amount o')) (va_max_credit_sats v)
          = Some u" "post_grant (va_id v) v (ar_id r) o' u db = Inr (out, db')"
    by (auto split: option.splits)
  then show ?thesis
  proof cases
    case hold
    then show ?thesis unfolding v(3) using hold_observation_write by blast
  next
    case same
    then show ?thesis ..
  next
    case post
    note up = xmr_update_Some [OF q post(1) bounds(1) vc(3)]
    have "grant_due db v r (uint (delta_sats u)) (uint (atomic_units (cumulative_eligible u)))
        (uint (cumulative_credit_sats u))"
      unfolding grant_due_def value_at_def using v r a(1,2) a(4,5) terms up by auto
    with post(2) show ?thesis by (blast intro: post_grant_write)
  qed
qed

section \<open>Preservation by every write\<close>

lemma insert_ledger_frame:
  "insert_ledger_entry e db = Inr (l, db') \<Longrightarrow> \<exists>es. db' = db\<lparr>ledger_entries := es\<rparr>"
  by (auto simp: insert_ledger_entry_Inr)

lemma grant_inv_frame [simp]:
  "grant_inv (db\<lparr>ledger_entries := es\<rparr>) = grant_inv db"
  "grant_inv (db\<lparr>event_log := ev\<rparr>) = grant_inv db"
  "grant_inv (db\<lparr>credit_conflicts := cs\<rparr>) = grant_inv db"
  "grant_inv (db\<lparr>settled_payments := sp\<rparr>) = grant_inv db"
  by (rule grant_inv_cong; simp)+

lemma grant_due_frame:
  assumes "credit_valuations db' = credit_valuations db"
    "credit_allocations db' = credit_allocations db" "asset_receipts db' = asset_receipts db"
  shows "grant_due db' v r d el c \<longleftrightarrow> grant_due db v r d el c"
  using assms by (simp add: grant_due_def)

lemma grant_inv_due:
  assumes "grant_inv db" "grant_due db v r delta eligible credited"
    "cg_receipt_id g = ar_id r" "cg_delta_sats g = delta" "insert_grant g db = Inr db1"
  shows "grant_inv (set_totals (va_id v) eligible credited db1)"
proof -
  from assms(2) obtain a where "a \<in> set (credit_allocations db)" "al_valuation_id a = va_id v"
    "eligible = al_eligible_atomic a + ar_amount_atomic r" "delta = credited - al_credited_sats a"
    by (auto simp: grant_due_def)
  with assms show ?thesis
    unfolding set_totals_def
    by (intro grant_inv_post [OF assms(1,5), of r "va_id v" v a]) (auto simp: grant_due_def)
qed

lemma credit_write_grant_inv: "credit_write db db' \<Longrightarrow> grant_inv db \<Longrightarrow> grant_inv db'"
proof (induction rule: credit_write.induct)
  case (cw_valuation v db db' u)
  then show ?case by (auto intro: grant_inv_insert_valuation)
next
  case (cw_receipt r db i db' v)
  then show ?case by (auto intro: grant_inv_insert_receipt)
next
  case (cw_double_spend r db i db1 v u db2 o' db')
  have "grant_inv db1"
    using cw_double_spend by (auto intro: grant_inv_insert_receipt)
  then have "grant_inv db2"
    using cw_double_spend.hyps(9) grant_inv_unlock unfolding unlock_receipt_def by auto
  with cw_double_spend.hyps(10) show ?case by (rule grant_inv_hold_observation)
next
  case (cw_unlock db i)
  then show ?case unfolding unlock_receipt_def by (rule grant_inv_unlock)
next
  case (cw_hold db u reason cs)
  then show ?case by (simp add: grant_inv_set_hold)
next
  case (cw_dust db v r eligible credited g db1)
  then show ?case by (intro grant_inv_due) auto
next
  case (cw_grant db v r delta eligible credited before e l db1 ty p s db2 g db3)
  then have "\<exists>es ev. db2 = db\<lparr>ledger_entries := es, event_log := ev\<rparr>"
    by (auto simp: insert_ledger_entry_Inr append_event_eq)
  then obtain es ev where db2: "db2 = db\<lparr>ledger_entries := es, event_log := ev\<rparr>" by blast
  have "grant_inv db2" using cw_grant.prems by (simp add: db2)
  moreover have "grant_due db2 v r delta eligible credited"
    using cw_grant.hyps(1) by (subst grant_due_frame [of db2 db]) (simp_all add: db2)
  ultimately show ?case using cw_grant.hyps by (intro grant_inv_due) auto
qed

lemma hold_inv_frame [simp]:
  "hold_inv (db\<lparr>ledger_entries := es\<rparr>) = hold_inv db"
  "hold_inv (db\<lparr>event_log := ev\<rparr>) = hold_inv db"
  "hold_inv (db\<lparr>credit_conflicts := cs\<rparr>) = hold_inv db"
  "hold_inv (db\<lparr>credit_grants := gs\<rparr>) = hold_inv db"
  "hold_inv (db\<lparr>settled_payments := sp\<rparr>) = hold_inv db"
  by (simp_all add: hold_inv_def)

lemma hold_inv_map_allocations:
  assumes "hold_inv db" "\<And>a. al_valuation_id (f a) = al_valuation_id a"
    "\<And>a. al_hold_reason a \<noteq> None \<Longrightarrow> al_hold_reason (f a) \<noteq> None"
  shows "hold_inv (db\<lparr>credit_allocations := map f (credit_allocations db)\<rparr>)"
  using assms unfolding hold_inv_def by (simp add: assms(2))

lemma hold_inv_set_hold: "hold_inv db \<Longrightarrow> hold_inv (set_hold vid reason db)"
  unfolding set_hold_def update_where_def
  by (rule hold_inv_map_allocations) (auto split: option.splits)

lemma hold_inv_set_totals: "hold_inv db \<Longrightarrow> hold_inv (set_totals vid e c db)"
  unfolding set_totals_def update_where_def by (rule hold_inv_map_allocations) auto

lemma hold_inv_unlock: "hold_inv db \<Longrightarrow> hold_inv (unlock_receipt i db)"
  unfolding unlock_receipt_def update_where_def hold_inv_def timely_receipt_def by auto

lemma hold_inv_insert_valuation:
  assumes "insert_valuation v db = Inr db'" "hold_inv db" "grant_inv db"
  shows "hold_inv db'"
proof -
  from assms(1) have new: "va_id v \<notin> va_id ` set (credit_valuations db)"
    and db': "db' = db\<lparr>credit_valuations := credit_valuations db @ [v],
                   credit_allocations := credit_allocations db
                     @ [\<lparr>al_valuation_id = va_id v, al_eligible_atomic = 0, al_credited_sats = 0,
                          al_hold_reason = None\<rparr>]\<rparr>"
    by (auto simp: insert_valuation_def split: if_splits)
  have "ar_valuation_id r \<noteq> va_id v" if "r \<in> set (asset_receipts db)" for r
    using assms(3) new(1) that unfolding grant_inv_def by (metis imageI)
  then show ?thesis using assms(2) unfolding hold_inv_def db' by fastforce
qed

lemma hold_inv_insert_receipt:
  assumes "insert_receipt r db = Inr (i, db')" "hold_inv db" "grant_inv db"
    and v: "v \<in> set (credit_valuations db)" "va_id v = ar_valuation_id r"
      "ar_eligible r \<longleftrightarrow> timely_receipt v r"
  shows "hold_inv db'"
proof -
  have "w = v" if "w \<in> set (credit_valuations db)" "va_id w = ar_valuation_id r" for w
    using assms(3) that v(1,2) unfolding grant_inv_def by (metis distinct_map inj_onD)
  moreover have "timely_receipt w (r\<lparr>ar_id := i\<rparr>) = timely_receipt w r" for w
    by (simp add: timely_receipt_def)
  ultimately show ?thesis
    using assms(2) v(3) unfolding hold_inv_def insert_receipt_Inr(3) [OF assms(1)] by auto
qed

lemma credit_write_hold_inv:
  "credit_write db db' \<Longrightarrow> grant_inv db \<Longrightarrow> hold_inv db \<Longrightarrow> hold_inv db'"
proof (induction rule: credit_write.induct)
  case (cw_valuation v db db' u)
  then show ?case by (auto intro: hold_inv_insert_valuation)
next
  case (cw_receipt r db i db' v)
  then show ?case by (auto intro: hold_inv_insert_receipt)
next
  case (cw_double_spend r db i db1 v u db2 o' db')
  have ins: "db1 = db\<lparr>asset_receipts := asset_receipts db @ [r\<lparr>ar_id := i\<rparr>]\<rparr>"
    by (rule insert_receipt_Inr(3) [OF cw_double_spend.hyps(1)])
  let ?ok = "\<lambda>d. (\<forall>q \<in> set (asset_receipts d). \<forall>w \<in> set (credit_valuations d).
     \<forall>a \<in> set (credit_allocations d). va_id w = ar_valuation_id q \<longrightarrow>
       al_valuation_id a = ar_valuation_id q \<longrightarrow> timely_receipt w q \<longrightarrow> \<not> ar_eligible q \<longrightarrow>
       ar_valuation_id q \<noteq> va_id v \<longrightarrow> al_hold_reason a \<noteq> None)"
  have "?ok db1"
    using cw_double_spend.prems(2) cw_double_spend.hyps(3) unfolding hold_inv_def ins by auto
  then have "?ok db2"
    using cw_double_spend.hyps(9)
    by (auto simp: unlock_receipt_def update_where_def timely_receipt_def)
  moreover from cw_double_spend.hyps(10) obtain cs where
    "db' = set_hold (va_id v) DoubleSpend (db2\<lparr>credit_conflicts := cs\<rparr>)"
    by (auto simp: hold_observation_eq)
  ultimately show ?case
    unfolding hold_inv_def by (auto simp: set_hold_def update_where_def split: option.splits)
next
  case (cw_unlock db i)
  then show ?case by (simp add: hold_inv_unlock)
next
  case (cw_hold db u reason cs)
  then show ?case by (simp add: hold_inv_set_hold)
next
  case (cw_dust db v r eligible credited g db1)
  have "hold_inv db1"
    using cw_dust.prems(2) by (simp add: insert_grant_Inr(3) [OF cw_dust.hyps(6)])
  then show ?case by (rule hold_inv_set_totals)
next
  case (cw_grant db v r delta eligible credited before e l db1 ty p s db2 g db3)
  have "hold_inv db1" using cw_grant.hyps(8) cw_grant.prems(2) by (auto simp: insert_ledger_entry_Inr)
  then have "hold_inv db2" using cw_grant.hyps(9) by (auto simp: append_event_eq)
  then have "hold_inv db3" by (simp add: insert_grant_Inr(3) [OF cw_grant.hyps(14)])
  then show ?case by (rule hold_inv_set_totals)
qed

section \<open>A receipt is a sequence of writes\<close>

text \<open>The row found for an observation and the row that a new observation inserts.\<close>

definition known_receipt :: "uuid \<Rightarrow> xmr_receipt_observation \<Rightarrow> ledger_db \<Rightarrow> receipt_row option" where
  "known_receipt u o' db = find (\<lambda>r. ar_valuation_id r = xmr_id u
     \<and> ar_receipt_key r = xo_receipt_key o') (asset_receipts db)"

definition observed_row :: "uuid \<Rightarrow> xmr_receipt_observation \<Rightarrow> bool \<Rightarrow> receipt_row" where
  "observed_row u o' timely =
     \<lparr>ar_id = 0, ar_valuation_id = xmr_id u, ar_receipt_key = xo_receipt_key o',
      ar_amount_atomic = uint (atomic_units (xo_amount o')),
      ar_first_seen_at = Some (xo_first_seen_at o'), ar_unlocked = xo_unlocked o',
      ar_eligible = (timely \<and> \<not> xo_double_spend_seen o'), ar_btc_settlement_id = None\<rparr>"

lemma record_xmr_receipt_cases:
  assumes rec: "record_xmr_receipt u o' db = Inr (out, db')"
  obtains v al where
    "find (\<lambda>v. va_id v = xmr_id u \<and> va_asset v = Xmr) (credit_valuations db) = Some v"
    "allocation_in_tx (xmr_id u) db = Inr al" "uint (atomic_units (xo_amount o')) \<le> i64_max"
    "(\<exists>reason. hold_observation (xmr_id u) o' reason db = Inr db' \<and> out = ReceiptHeld)
     \<or> (\<exists>issued expires timely rid db1 db3.
        receipt_conflict (known_receipt u o' db) o' (uint (atomic_units (xo_amount o'))) = None
        \<and> va_issued_at v = Some issued \<and> va_expires_at v = Some expires
        \<and> timely = (issued \<le> xo_first_seen_at o' \<and> xo_first_seen_at o' < expires)
        \<and> (case known_receipt u o' db of Some row \<Rightarrow> Inr (ar_id row, db)
           | None \<Rightarrow> insert_receipt (observed_row u o' timely) db) = Inr (rid, db1)
        \<and> (if xo_double_spend_seen o' then hold_observation (xmr_id u) o' DoubleSpend
              (if xo_unlocked o' then unlock_receipt rid db1 else db1)
            else Inr (if xo_unlocked o' then unlock_receipt rid db1 else db1)) = Inr db3
        \<and> (if ca_hold_reason al \<noteq> None \<or> xo_double_spend_seen o' then Inr (ReceiptHeld, db3)
            else if \<not> timely then Inr (ReceiptHeld, db3)
            else if \<not> xo_unlocked o' then Inr (ReceiptPending, db3)
            else grant_receipt (xmr_id u) v al rid o' db3) = Inr (out, db'))"
proof -
  define amount where "amount = uint (atomic_units (xo_amount o'))"
  define existing where "existing = known_receipt u o' db"
  from rec obtain v al where
    v0: "find (\<lambda>v. va_id v = xmr_id u \<and> va_asset v = Xmr) (credit_valuations db) = Some v"
    and al: "allocation_in_tx (xmr_id u) db = Inr al"
    and small: "amount \<le> i64_max"
    and res: "(case receipt_conflict existing o' amount of
       Some reason \<Rightarrow> andthen (hold_observation (xmr_id u) o' reason db)
         (\<lambda>db1. Inr (ReceiptHeld, db1))
     | None \<Rightarrow>
     andthen (ok_or (Db MissingColumn) (va_issued_at v)) (\<lambda>issued.
     andthen (ok_or (Db MissingColumn) (va_expires_at v)) (\<lambda>expires.
     let timely = (issued \<le> xo_first_seen_at o' \<and> xo_first_seen_at o' < expires) in
     andthen
       (case existing of
          Some row \<Rightarrow> Inr (ar_id row, db)
        | None \<Rightarrow> insert_receipt (observed_row u o' timely) db) (\<lambda>(receipt_id, db1).
     let db2 = (if xo_unlocked o' then unlock_receipt receipt_id db1 else db1) in
     andthen (if xo_double_spend_seen o' then hold_observation (xmr_id u) o' DoubleSpend db2
              else Inr db2) (\<lambda>db3.
     if ca_hold_reason al \<noteq> None \<or> xo_double_spend_seen o' then Inr (ReceiptHeld, db3)
     else if \<not> timely then Inr (ReceiptHeld, db3)
     else if \<not> xo_unlocked o' then Inr (ReceiptPending, db3)
     else grant_receipt (xmr_id u) v al receipt_id o' db3))))) = Inr (out, db')"
    unfolding record_xmr_receipt_def existing_def known_receipt_def amount_def unlock_receipt_def
      observed_row_def
    by (auto simp: res_simps to_i64_Inr Let_def split: if_splits)
  show thesis
  proof (cases "receipt_conflict existing o' amount")
    case (Some reason)
    with res have "hold_observation (xmr_id u) o' reason db = Inr db' \<and> out = ReceiptHeld"
      by (auto simp: res_simps)
    then show thesis using small by (intro that [OF v0 al]) (auto simp: amount_def)
  next
    case None
    with res obtain issued expires where times: "va_issued_at v = Some issued"
      "va_expires_at v = Some expires" by (auto simp: res_simps)
    define timely where "timely = (issued \<le> xo_first_seen_at o' \<and> xo_first_seen_at o' < expires)"
    define after where "after rid db1 =
      andthen (if xo_double_spend_seen o' then hold_observation (xmr_id u) o' DoubleSpend
          (if xo_unlocked o' then unlock_receipt rid db1 else db1)
        else Inr (if xo_unlocked o' then unlock_receipt rid db1 else db1)) (\<lambda>db3.
      if ca_hold_reason al \<noteq> None \<or> xo_double_spend_seen o' then Inr (ReceiptHeld, db3)
      else if \<not> timely then Inr (ReceiptHeld, db3)
      else if \<not> xo_unlocked o' then Inr (ReceiptPending, db3)
      else grant_receipt (xmr_id u) v al rid o' db3)" for rid db1
    have "andthen (case existing of Some row \<Rightarrow> Inr (ar_id row, db)
        | None \<Rightarrow> insert_receipt (observed_row u o' timely) db) (\<lambda>(rid, db1). after rid db1)
      = Inr (out, db')"
      using res
      by (simp only: None times option.case ok_or_simps andthen_simps Let_def after_def timely_def)
    then obtain rid db1 where
      first: "(case existing of Some row \<Rightarrow> Inr (ar_id row, db)
        | None \<Rightarrow> insert_receipt (observed_row u o' timely) db) = Inr (rid, db1)"
      and aft: "after rid db1 = Inr (out, db')"
      unfolding andthen_eq_Inr by auto
    from aft obtain db3 where
      db3: "(if xo_double_spend_seen o' then hold_observation (xmr_id u) o' DoubleSpend
          (if xo_unlocked o' then unlock_receipt rid db1 else db1)
        else Inr (if xo_unlocked o' then unlock_receipt rid db1 else db1)) = Inr db3"
      and tail: "(if ca_hold_reason al \<noteq> None \<or> xo_double_spend_seen o' then Inr (ReceiptHeld, db3)
      else if \<not> timely then Inr (ReceiptHeld, db3)
      else if \<not> xo_unlocked o' then Inr (ReceiptPending, db3)
      else grant_receipt (xmr_id u) v al rid o' db3) = Inr (out, db')"
      unfolding after_def andthen_eq_Inr by blast
    show thesis
      using None times timely_def first db3 tail small
      by (intro that [OF v0 al]) (unfold existing_def amount_def, assumption, blast)
  qed
qed

lemma record_xmr_receipt_writes:
  assumes rec: "record_xmr_receipt u o' db = Inr (out, db')" and inv: "grant_inv db" "hold_inv db"
  shows "credit_write\<^sup>*\<^sup>* db db'"
proof -
  define amount where "amount = uint (atomic_units (xo_amount o'))"
  define existing where "existing = known_receipt u o' db"
  obtain v al where
    v0: "find (\<lambda>v. va_id v = xmr_id u \<and> va_asset v = Xmr) (credit_valuations db) = Some v"
    and al: "allocation_in_tx (xmr_id u) db = Inr al"
    and small: "amount \<le> i64_max"
    and res: "(\<exists>reason. hold_observation (xmr_id u) o' reason db = Inr db' \<and> out = ReceiptHeld)
     \<or> (\<exists>issued expires timely rid db1 db3.
        receipt_conflict existing o' amount = None
        \<and> va_issued_at v = Some issued \<and> va_expires_at v = Some expires
        \<and> timely = (issued \<le> xo_first_seen_at o' \<and> xo_first_seen_at o' < expires)
        \<and> (case existing of Some row \<Rightarrow> Inr (ar_id row, db)
           | None \<Rightarrow> insert_receipt (observed_row u o' timely) db) = Inr (rid, db1)
        \<and> (if xo_double_spend_seen o' then hold_observation (xmr_id u) o' DoubleSpend
              (if xo_unlocked o' then unlock_receipt rid db1 else db1)
            else Inr (if xo_unlocked o' then unlock_receipt rid db1 else db1)) = Inr db3
        \<and> (if ca_hold_reason al \<noteq> None \<or> xo_double_spend_seen o' then Inr (ReceiptHeld, db3)
            else if \<not> timely then Inr (ReceiptHeld, db3)
            else if \<not> xo_unlocked o' then Inr (ReceiptPending, db3)
            else grant_receipt (xmr_id u) v al rid o' db3) = Inr (out, db'))"
    unfolding amount_def existing_def by (rule record_xmr_receipt_cases [OF rec])
  from find_Some_in [OF v0] have v: "v \<in> set (credit_valuations db)" "va_id v = xmr_id u"
    "va_asset v = Xmr" by auto
  from res show ?thesis
  proof (elim disjE exE conjE)
    fix reason assume "hold_observation (xmr_id u) o' reason db = Inr db'"
    then show ?thesis by (intro r_into_rtranclp hold_observation_write)
  next
    fix issued expires timely rid db1 db3
    assume None: "receipt_conflict existing o' amount = None"
      and times: "va_issued_at v = Some issued" "va_expires_at v = Some expires"
      and timely: "timely = (issued \<le> xo_first_seen_at o' \<and> xo_first_seen_at o' < expires)"
      and first: "(case existing of Some row \<Rightarrow> Inr (ar_id row, db)
           | None \<Rightarrow> insert_receipt (observed_row u o' timely) db) = Inr (rid, db1)"
      and db3: "(if xo_double_spend_seen o' then hold_observation (xmr_id u) o' DoubleSpend
              (if xo_unlocked o' then unlock_receipt rid db1 else db1)
            else Inr (if xo_unlocked o' then unlock_receipt rid db1 else db1)) = Inr db3"
      and tail: "(if ca_hold_reason al \<noteq> None \<or> xo_double_spend_seen o' then Inr (ReceiptHeld, db3)
            else if \<not> timely then Inr (ReceiptHeld, db3)
            else if \<not> xo_unlocked o' then Inr (ReceiptPending, db3)
            else grant_receipt (xmr_id u) v al rid o' db3) = Inr (out, db')"
    define fst_row where "fst_row = observed_row u o' timely"
    have tr: "timely_receipt v r \<longleftrightarrow> timely"
      if "ar_first_seen_at r = Some (xo_first_seen_at o')" for r
      using that v(3) times by (simp add: timely_receipt_def timely)
    note fst_row_simps = fst_row_def observed_row_def amount_def [symmetric]
    note first = first [folded fst_row_def]
    have last: "db' = db3 \<or> (\<not> xo_double_spend_seen o' \<and> ca_hold_reason al = None \<and> timely
        \<and> xo_unlocked o' \<and> grant_receipt (xmr_id u) v al rid o' db3 = Inr (out, db'))"
      using tail by (simp split: if_splits)
    have last_ds: "xo_double_spend_seen o' \<longrightarrow> db' = db3"
      using tail by (simp split: if_splits)
    show ?thesis
    proof (cases "xo_double_spend_seen o'")
      case True
      with None have new: "existing = None"
        by (auto simp: receipt_conflict_def Let_def split: option.splits)
      with first have "insert_receipt fst_row db = Inr (rid, db1)" by simp
      moreover have "hold_observation (va_id v) o' DoubleSpend
          (if xo_unlocked o' then unlock_receipt rid db1 else db1) = Inr db'"
        using db3 last_ds True v(2) by simp
      moreover have "va_id v = ar_valuation_id fst_row" "ar_amount_atomic fst_row \<le> i64_max"
        "\<not> ar_eligible fst_row" "ar_btc_settlement_id fst_row = None"
        using v(2) True small by (simp_all add: fst_row_simps)
      ultimately have "credit_write db db'"
        using v
        by (intro cw_double_spend [where v = v and u = u and r = fst_row and i = rid
            and ?db2.0 = "if xo_unlocked o' then unlock_receipt rid db1 else db1"]) auto
      then show ?thesis ..
    next
      case False
      define db2 where "db2 = (if xo_unlocked o' then unlock_receipt rid db1 else db1)"
      have db3: "db3 = db2" using db3 False by (simp add: db2_def)
      have s1: "db1 = db \<or> credit_write db db1"
      proof (cases existing)
        case new: None
        have "credit_write db db1"
          by (rule cw_receipt [of fst_row db rid db1 v])
            (use new first v small False tr in \<open>auto simp: fst_row_simps\<close>)
        then show ?thesis ..
      qed (use first in auto)
      have s2: "db2 = db1 \<or> credit_write db1 db2" by (auto simp: db2_def intro: cw_unlock)
      have inv1: "grant_inv db1" using s1 inv(1) credit_write_grant_inv by auto
      then have inv2: "grant_inv db2" using s2 credit_write_grant_inv by auto
      have same: "credit_valuations db1 = credit_valuations db"
        "credit_allocations db1 = credit_allocations db"
        using first by (auto simp: insert_receipt_def Let_def split: option.splits if_splits)
      have row: "\<exists>r \<in> set (asset_receipts db1). ar_id r = rid \<and> ar_valuation_id r = xmr_id u
          \<and> ar_amount_atomic r = amount \<and> (timely \<and> ca_hold_reason al = None \<longrightarrow> ar_eligible r)"
      proof (cases existing)
        case new: None
        with first have "insert_receipt fst_row db = Inr (rid, db1)" by simp
        from insert_receipt_Inr(3) [OF this] False show ?thesis
          by (intro bexI [of _ "fst_row\<lparr>ar_id := rid\<rparr>"]) (auto simp: fst_row_simps)
      next
        case (Some r)
        from find_Some_in [OF Some [unfolded existing_def known_receipt_def]] have r: "r \<in> set (asset_receipts db)"
          "ar_valuation_id r = xmr_id u" by auto
        from None Some have same_obs: "ar_amount_atomic r = amount"
          "ar_first_seen_at r = Some (xo_first_seen_at o')"
          by (auto simp: receipt_conflict_def Let_def split: if_splits)
        have "ar_eligible r" if t: timely "ca_hold_reason al = None"
        proof (rule ccontr)
          assume "\<not> ar_eligible r"
          moreover obtain a where "a \<in> set (credit_allocations db)" "al_valuation_id a = xmr_id u"
            "ca_hold_reason al = al_hold_reason a" by (rule allocation_in_tx_Inr [OF al]) metis
          moreover have "timely_receipt v r" using tr [OF same_obs(2)] t(1) by simp
          ultimately show False
            using inv(2) r v(1,2) t(2) unfolding hold_inv_def by metis
        qed
        with first Some r same_obs show ?thesis by auto
      qed
      have s3: "db' = db2 \<or> credit_write db2 db'"
      proof (cases "db' = db3")
        case True
        then show ?thesis by (simp add: db3)
      next
        case neq: False
        with last db3 have g: "grant_receipt (va_id v) v al rid o' db2 = Inr (out, db')"
          and c: "timely" "ca_hold_reason al = None" "xo_unlocked o'" by (auto simp: v(2))
        from row c obtain r where r: "r \<in> set (asset_receipts db1)" "ar_id r = rid"
          "ar_valuation_id r = xmr_id u" "ar_amount_atomic r = amount" "ar_eligible r" by blast
        let ?r = "r\<lparr>ar_unlocked := True\<rparr>"
        have r2: "?r \<in> set (asset_receipts db2)"
          using r(1,2) c(3) by (auto simp: db2_def unlock_receipt_def update_where_def)
        have alloc: "credit_allocations db2 = credit_allocations db"
          "credit_valuations db2 = credit_valuations db"
          using same by (simp_all add: db2_def unlock_receipt_def)
        then have al2: "allocation_in_tx (va_id v) db2 = Inr al"
          using al v(2) by (simp add: allocation_in_tx_def)
        show ?thesis
          by (rule grant_receipt_write [of v al ?r o' db2 out db' u])
            (use g inv2 v alloc al2 r2 r in \<open>simp_all add: amount_def\<close>)
      qed
      have "credit_write\<^sup>*\<^sup>* db db1" using s1 by auto
      moreover have "credit_write\<^sup>*\<^sup>* db1 db2" using s2 by auto
      moreover have "credit_write\<^sup>*\<^sup>* db2 db'" using s3 by auto
      ultimately show ?thesis by (meson rtranclp_trans)
    qed
  qed
qed

end
