(* ===== verification/Payment_Invariant.thy ===== *)
theory Payment_Invariant
  imports Credit_Invariant
begin

text \<open>
  Exactly-once crediting of native payments. \<open>link_inv\<close> ties the public ledger to the grants,
  \<open>pay_inv\<close> says that each settlement has its complete provenance and that keys are used only by
  their owners. Under these invariants \<open>record_payment\<close> has a closed form (\<open>record_payment_new\<close>): no
  UNIQUE or CHECK constraint can fail, so a valid new settlement is credited unless the ledger
  total would leave the 64-bit range, and a redelivered one is a duplicate.
\<close>

section \<open>Invariants\<close>

definition link_inv :: "ledger_db \<Rightarrow> bool" where
  "link_inv db \<longleftrightarrow>
     receipts db = sum_list (map cg_delta_sats (credit_grants db))
     \<and> (\<forall>e \<in> set (ledger_entries db). \<forall>i. le_source_key e = asset_receipt_key i \<longrightarrow>
          i \<in> cg_receipt_id ` set (credit_grants db))
     \<and> (\<forall>g \<in> set (credit_grants db). \<forall>l. cg_ledger_entry_id g = Some l \<longrightarrow>
          l \<in> le_id ` set (ledger_entries db))
     \<and> (\<forall>g \<in> set (credit_grants db). \<forall>s. cg_event_seq g = Some s \<longrightarrow>
          s \<le> int (length (event_log db)))"

definition identity_of :: "settled_row \<Rightarrow> string \<times> string" where
  "identity_of p = (sp_source p, sp_source_id p)"

text \<open>The settlement a BTC valuation belongs to.\<close>

definition btc_owned :: "ledger_db \<Rightarrow> valuation \<Rightarrow> bool" where
  "btc_owned db v \<longleftrightarrow> (\<exists>p \<in> set (settled_payments db). va_id v = btc_id (sp_id p)
     \<and> va_provider v = sp_source p \<and> va_receive_scope v = sp_source_id p)"

definition pay_inv :: "ledger_db \<Rightarrow> bool" where
  "pay_inv db \<longleftrightarrow>
     distinct (map sp_id (settled_payments db))
     \<and> distinct (map identity_of (settled_payments db))
     \<and> (\<forall>p \<in> set (settled_payments db). CHR '':'' \<notin> set (sp_source p)
          \<and> native_btc_valid_row (sp_id p) db)
     \<and> (\<forall>e \<in> set (ledger_entries db). \<forall>s x. CHR '':'' \<notin> set s \<longrightarrow>
          le_source_key e = payment_key s x \<longrightarrow> (s, x) \<in> identity_of ` set (settled_payments db))
     \<and> (\<forall>v \<in> set (credit_valuations db). va_asset v = Btc \<longrightarrow> btc_owned db v)
     \<and> (\<forall>v \<in> set (credit_valuations db). va_asset v = Xmr \<longrightarrow> (\<exists>u. va_id v = xmr_id u))
     \<and> (\<forall>r \<in> set (asset_receipts db). \<forall>i. ar_btc_settlement_id r = Some i \<longrightarrow>
          i \<in> sp_id ` set (settled_payments db))"

lemma link_inv_empty: "link_inv empty_db"
  by (simp add: link_inv_def empty_db_def receipts_def)

lemma pay_inv_empty: "pay_inv empty_db"
  by (simp add: pay_inv_def empty_db_def)

text \<open>The families of keys and ids are disjoint.\<close>

lemma key_families [simp]:
  "feed_key u \<noteq> payment_key s x" "payment_key s x \<noteq> feed_key u"
  "feed_key u \<noteq> asset_receipt_key i" "asset_receipt_key i \<noteq> feed_key u"
  "payment_key s x \<noteq> asset_receipt_key i" "asset_receipt_key i \<noteq> payment_key s x"
  "xmr_id u \<noteq> btc_id i" "btc_id i \<noteq> xmr_id u"
  by (simp_all add: feed_key_def payment_key_def asset_receipt_key_def xmr_id_def btc_id_def)

lemma btc_id_inject [simp]: "btc_id i = btc_id j \<longleftrightarrow> i = j"
  by (simp add: btc_id_def)

lemma asset_receipt_key_inject [simp]: "asset_receipt_key i = asset_receipt_key j \<longleftrightarrow> i = j"
  by (simp add: asset_receipt_key_def)

section \<open>The writes of XMR credit keep them\<close>

lemma native_valid_mono:
  assumes "native_btc_valid_row i db" "pay_inv db"
    and "set (settled_payments db) \<subseteq> set (settled_payments db')"
    and "set (ledger_entries db) \<subseteq> set (ledger_entries db')"
      "set (credit_grants db) \<subseteq> set (credit_grants db')"
      "set (credit_valuations db) \<subseteq> set (credit_valuations db')"
    and "\<And>r. r \<in> set (asset_receipts db) \<Longrightarrow> ar_unlocked r \<Longrightarrow> r \<in> set (asset_receipts db')"
    and "\<And>a j. a \<in> set (credit_allocations db) \<Longrightarrow> al_valuation_id a = btc_id j \<Longrightarrow>
      a \<in> set (credit_allocations db')"
  shows "native_btc_valid_row i db'"
proof -
  from assms(1) obtain p r v a g l where rows: "p \<in> set (settled_payments db)" "sp_id p = i"
    "r \<in> set (asset_receipts db)" "v \<in> set (credit_valuations db)"
    "a \<in> set (credit_allocations db)" "g \<in> set (credit_grants db)"
    "l \<in> set (ledger_entries db)" and np: "native_provenance p r v a g l"
    unfolding native_btc_valid_row_def by blast
  from np have "va_asset v = Btc" "ar_unlocked r" "al_valuation_id a = va_id v"
    by (auto simp: native_provenance_def)
  moreover from this(1) rows(4) assms(2) have "btc_owned db v" by (simp add: pay_inv_def)
  then obtain j where "va_id v = btc_id j" unfolding btc_owned_def by blast
  ultimately have "r \<in> set (asset_receipts db')" "a \<in> set (credit_allocations db')"
    using rows assms(7,8) by auto
  moreover have "p \<in> set (settled_payments db')" "v \<in> set (credit_valuations db')"
    "g \<in> set (credit_grants db')" "l \<in> set (ledger_entries db')"
    using rows assms(3-6) by auto
  ultimately show ?thesis
    using rows(2) np unfolding native_btc_valid_row_def by blast
qed

lemma insert_valuation_Inr:
  assumes "insert_valuation v db = Inr db'"
  shows "va_id v \<notin> va_id ` set (credit_valuations db)" "valuation_check v"
    "db' = db\<lparr>credit_valuations := credit_valuations db @ [v],
              credit_allocations := credit_allocations db
                @ [\<lparr>al_valuation_id = va_id v, al_eligible_atomic = 0, al_credited_sats = 0,
                     al_hold_reason = None\<rparr>]\<rparr>"
  using assms by (auto simp: insert_valuation_def split: if_splits)

lemma unlocked_stays:
  "r \<in> set (asset_receipts db) \<Longrightarrow> ar_unlocked r \<Longrightarrow> r \<in> set (asset_receipts (unlock_receipt i db))"
  by (force simp: unlock_receipt_def update_where_def image_iff)

lemma unlock_settlement:
  "r \<in> set (asset_receipts (unlock_receipt i db)) \<Longrightarrow>
     \<exists>q \<in> set (asset_receipts db). ar_btc_settlement_id q = ar_btc_settlement_id r"
  by (auto simp: unlock_receipt_def update_where_def)

lemma set_hold_other:
  "a \<in> set (credit_allocations db) \<Longrightarrow> al_valuation_id a \<noteq> vid \<Longrightarrow>
     a \<in> set (credit_allocations (set_hold vid reason db))"
  by (force simp: set_hold_def update_where_def image_iff)

lemma set_totals_other:
  "a \<in> set (credit_allocations db) \<Longrightarrow> al_valuation_id a \<noteq> vid \<Longrightarrow>
     a \<in> set (credit_allocations (set_totals vid e c db))"
  by (force simp: set_totals_def update_where_def image_iff)

lemma set_hold_frame [simp]:
  "ledger_entries (set_hold vid reason db) = ledger_entries db"
  "settled_payments (set_hold vid reason db) = settled_payments db"
  "credit_valuations (set_hold vid reason db) = credit_valuations db"
  "asset_receipts (set_hold vid reason db) = asset_receipts db"
  "credit_grants (set_hold vid reason db) = credit_grants db"
  "event_log (set_hold vid reason db) = event_log db"
  "feed_attempts (set_hold vid reason db) = feed_attempts db"
  by (simp_all add: set_hold_def)

lemma set_totals_frame [simp]:
  "ledger_entries (set_totals vid e c db) = ledger_entries db"
  "settled_payments (set_totals vid e c db) = settled_payments db"
  "credit_valuations (set_totals vid e c db) = credit_valuations db"
  "asset_receipts (set_totals vid e c db) = asset_receipts db"
  "credit_grants (set_totals vid e c db) = credit_grants db"
  "event_log (set_totals vid e c db) = event_log db"
  "feed_attempts (set_totals vid e c db) = feed_attempts db"
  by (simp_all add: set_totals_def)

lemma unlock_frame [simp]:
  "ledger_entries (unlock_receipt i db) = ledger_entries db"
  "settled_payments (unlock_receipt i db) = settled_payments db"
  "credit_valuations (unlock_receipt i db) = credit_valuations db"
  "credit_allocations (unlock_receipt i db) = credit_allocations db"
  "credit_grants (unlock_receipt i db) = credit_grants db"
  "event_log (unlock_receipt i db) = event_log db"
  "feed_attempts (unlock_receipt i db) = feed_attempts db"
  by (simp_all add: unlock_receipt_def)

text \<open>One description of what a write may do, from which all invariants follow.\<close>

definition log_posts :: "ledger_db \<Rightarrow> ledger_db \<Rightarrow> bool" where
  "log_posts db db' \<longleftrightarrow>
     (ledger_entries db' = ledger_entries db \<and> event_log db' = event_log db
        \<and> (credit_grants db' = credit_grants db
           \<or> (\<exists>g. credit_grants db' = credit_grants db @ [g] \<and> cg_delta_sats g = 0
                \<and> cg_ledger_entry_id g = None \<and> cg_event_seq g = None)))
     \<or> (\<exists>e g ev. ledger_entries db' = ledger_entries db @ [e]
          \<and> event_log db' = event_log db @ [ev] \<and> credit_grants db' = credit_grants db @ [g]
          \<and> ev_seq ev = next_id ev_seq (event_log db)
          \<and> le_type e = HERD_RECEIPT \<and> le_source_key e = asset_receipt_key (cg_receipt_id g)
          \<and> le_delta_sats e = cg_delta_sats g \<and> cg_ledger_entry_id g = Some (le_id e)
          \<and> cg_event_seq g = Some (uint (word_of_int (next_id ev_seq (event_log db)) :: u64))
          \<and> 0 < cg_delta_sats g \<and> balance db + cg_delta_sats g \<le> i64_max)"

lemma credit_write_posts: "credit_write db db' \<Longrightarrow> log_posts db db'"
proof (induction rule: credit_write.induct)
  case (cw_valuation v db db' u)
  from insert_valuation_Inr(3) [OF this(1)] show ?case by (simp add: log_posts_def)
next
  case (cw_receipt r db i db' v)
  from insert_receipt_Inr(3) [OF this(1)] show ?case by (simp add: log_posts_def)
next
  case (cw_double_spend r db i db1 v u db2 o' db')
  have "db1 = db\<lparr>asset_receipts := asset_receipts db @ [r\<lparr>ar_id := i\<rparr>]\<rparr>"
    by (rule insert_receipt_Inr(3) [OF cw_double_spend.hyps(1)])
  with cw_double_spend.hyps(9,10) show ?case
    by (auto simp: log_posts_def hold_observation_eq)
next
  case (cw_dust db v r eligible credited g db1)
  then show ?case
    by (auto simp: log_posts_def insert_grant_Inr(3) [OF cw_dust.hyps(6)])
next
  case (cw_grant db v r delta eligible credited before e l db1 ty p s db2 g db3)
  have db1: "db1 = db\<lparr>ledger_entries := ledger_entries db @ [e\<lparr>le_id := l\<rparr>]\<rparr>"
    using cw_grant.hyps(8) by (simp add: insert_ledger_entry_Inr)
  have db2: "db2 = db1\<lparr>event_log := event_log db @ [\<lparr>ev_seq = next_id ev_seq (event_log db),
      ev_type = ty, ev_payload = p\<rparr>]\<rparr>" "s = word_of_int (next_id ev_seq (event_log db))"
    using cw_grant.hyps(9) by (simp_all add: append_event_eq db1)
  have db3: "db3 = db2\<lparr>credit_grants := credit_grants db @ [g]\<rparr>"
    using insert_grant_Inr(3) [OF cw_grant.hyps(14)] by (simp add: db2 db1)
  show ?case
    unfolding log_posts_def
    by (rule disjI2, rule exI [of _ "e\<lparr>le_id := l\<rparr>"], rule exI [of _ g])
      (use cw_grant.hyps db1 db2 db3 in simp)
qed (simp_all add: log_posts_def)

lemma credit_write_tables:
  assumes "credit_write db db'"
  shows "settled_payments db' = settled_payments db \<and> feed_attempts db' = feed_attempts db
    \<and> set (credit_valuations db) \<subseteq> set (credit_valuations db')
    \<and> (\<forall>v \<in> set (credit_valuations db'). v \<in> set (credit_valuations db)
         \<or> (va_asset v = Xmr \<and> (\<exists>u. va_id v = xmr_id u)))
    \<and> (\<forall>r \<in> set (asset_receipts db). ar_unlocked r \<longrightarrow> r \<in> set (asset_receipts db'))
    \<and> (\<forall>r \<in> set (asset_receipts db'). ar_btc_settlement_id r \<noteq> None \<longrightarrow>
         (\<exists>q \<in> set (asset_receipts db). ar_btc_settlement_id q = ar_btc_settlement_id r))
    \<and> (\<forall>a \<in> set (credit_allocations db). \<forall>j. al_valuation_id a = btc_id j \<longrightarrow>
         a \<in> set (credit_allocations db'))"
  using assms
proof (induction rule: credit_write.induct)
  case (cw_valuation v db db' u)
  with insert_valuation_Inr(3) [OF this(1)] show ?case by auto
next
  case (cw_receipt r db i db' v)
  with insert_receipt_Inr(3) [OF this(1)] show ?case by auto
next
  case (cw_double_spend r db i db1 v u db2 o' db')
  have db1: "db1 = db\<lparr>asset_receipts := asset_receipts db @ [r\<lparr>ar_id := i\<rparr>]\<rparr>"
    by (rule insert_receipt_Inr(3) [OF cw_double_spend.hyps(1)])
  have in1: "q \<in> set (asset_receipts db) \<Longrightarrow> q \<in> set (asset_receipts db1)" for q
    by (simp add: db1)
  have rs1: "\<forall>q \<in> set (asset_receipts db). ar_unlocked q \<longrightarrow> q \<in> set (asset_receipts db2)"
    using cw_double_spend.hyps(9) unlocked_stays [of _ db1 i] in1 by metis
  have "\<exists>p \<in> set (asset_receipts db1). ar_btc_settlement_id p = ar_btc_settlement_id q"
    if "q \<in> set (asset_receipts db2)" for q
    using that cw_double_spend.hyps(9) unlock_settlement by metis
  moreover have "p \<in> set (asset_receipts db)"
    if "p \<in> set (asset_receipts db1)" "ar_btc_settlement_id p \<noteq> None" for p
    using that cw_double_spend.hyps(8) by (auto simp: db1)
  ultimately have rs2: "\<forall>q \<in> set (asset_receipts db2). ar_btc_settlement_id q \<noteq> None \<longrightarrow>
       (\<exists>p \<in> set (asset_receipts db). ar_btc_settlement_id p = ar_btc_settlement_id q)"
    by metis
  from cw_double_spend.hyps(10) obtain cs where
    db': "db' = set_hold (va_id v) DoubleSpend (db2\<lparr>credit_conflicts := cs\<rparr>)"
    by (auto simp: hold_observation_eq)
  have "a \<in> set (credit_allocations db')"
    if "a \<in> set (credit_allocations db)" "al_valuation_id a = btc_id j" for a j
    unfolding db' using that cw_double_spend.hyps(5,9)
    by (intro set_hold_other) (auto simp: db1)
  moreover have "settled_payments db2 = settled_payments db" "feed_attempts db2 = feed_attempts db"
    "credit_valuations db2 = credit_valuations db"
    using cw_double_spend.hyps(9) by (auto simp: db1)
  ultimately show ?case using rs1 rs2 by (simp add: db')
next
  case (cw_unlock db i)
  show ?case using unlock_settlement by (auto simp: unlocked_stays)
next
  case (cw_hold db u reason cs)
  then show ?case by (auto intro!: set_hold_other)
next
  case (cw_dust db v r eligible credited g db1)
  from cw_dust.hyps(1) obtain u where "va_id v = xmr_id u" by (auto simp: grant_due_def)
  then show ?case
    by (auto simp: insert_grant_Inr(3) [OF cw_dust.hyps(6)] intro!: set_totals_other)
next
  case (cw_grant db v r delta eligible credited before e l db1 ty p s db2 g db3)
  from cw_grant.hyps(1) obtain u where "va_id v = xmr_id u" by (auto simp: grant_due_def)
  then show ?case
    using cw_grant.hyps(8,9)
    by (auto simp: insert_grant_Inr(3) [OF cw_grant.hyps(14)] insert_ledger_entry_Inr append_event_eq
        intro!: set_totals_other)
qed

lemma wrapped_seq_le: "0 \<le> n \<Longrightarrow> uint (word_of_int n :: u64) \<le> n"
  unfolding uint_word_of_int by (rule zmod_le_nonneg_dividend)

lemma contiguous_snoc:
  assumes "events_contiguous db" "event_log db' = event_log db @ [ev]"
    "ev_seq ev = next_id ev_seq (event_log db)"
  shows "events_contiguous db'"
proof -
  let ?n = "int (length (event_log db))"
  have "map ev_seq (event_log db') = [1..?n] @ [?n + 1]"
    using assms(1,2) assms(3) [unfolded next_event_seq [OF assms(1)]]
    by (simp add: events_contiguous_def)
  also have "\<dots> = [1..?n + 1]" using upto_rec2 [of 1 "?n + 1"] by simp
  finally show ?thesis using assms(2) by (simp add: events_contiguous_def add.commute)
qed

lemma log_posts_cases:
  assumes "log_posts db db'"
  obtains (same) "ledger_entries db' = ledger_entries db" "event_log db' = event_log db"
      "credit_grants db' = credit_grants db"
  | (dust) g where "ledger_entries db' = ledger_entries db" "event_log db' = event_log db"
      "credit_grants db' = credit_grants db @ [g]" "cg_delta_sats g = 0"
      "cg_ledger_entry_id g = None" "cg_event_seq g = None"
  | (post) e g ev where "ledger_entries db' = ledger_entries db @ [e]"
      "event_log db' = event_log db @ [ev]" "credit_grants db' = credit_grants db @ [g]"
      "ev_seq ev = next_id ev_seq (event_log db)"
      "le_type e = HERD_RECEIPT" "le_source_key e = asset_receipt_key (cg_receipt_id g)"
      "le_delta_sats e = cg_delta_sats g" "cg_ledger_entry_id g = Some (le_id e)"
      "cg_event_seq g = Some (uint (word_of_int (next_id ev_seq (event_log db)) :: u64))"
      "0 < cg_delta_sats g" "balance db + cg_delta_sats g \<le> i64_max"
  using assms unfolding log_posts_def
  by (elim disjE conjE exE)
    ((rule same; assumption) | (rule dust; assumption) | (rule post; assumption))+

lemma log_posts_contiguous:
  assumes "log_posts db db'" "events_contiguous db"
  shows "events_contiguous db'"
  using assms(1)
proof (cases rule: log_posts_cases)
  case (post e g ev)
  then show ?thesis by (intro contiguous_snoc [OF assms(2)])
qed (use assms(2) in \<open>simp_all add: events_contiguous_def\<close>)

lemma log_posts_link_inv:
  assumes "log_posts db db'" "link_inv db" "events_contiguous db"
  shows "link_inv db'"
  using assms(1)
proof (cases rule: log_posts_cases)
  case same
  then show ?thesis using assms(2) by (simp add: link_inv_def receipts_def)
next
  case (dust g)
  then show ?thesis using assms(2) unfolding link_inv_def by (auto simp: receipts_def)
next
  case (post e g ev)
  have "int (length (event_log db)) + 1 = next_id ev_seq (event_log db)"
    using next_event_seq [OF assms(3)] by simp
  with wrapped_seq_le [of "next_id ev_seq (event_log db)"]
  have "uint (word_of_int (next_id ev_seq (event_log db)) :: u64)
      \<le> int (length (event_log db)) + 1" by simp
  with post(9) have seq: "cg_event_seq g = Some n \<longrightarrow> n \<le> int (length (event_log db)) + 1" for n
    by auto
  show ?thesis
    unfolding link_inv_def
  proof (intro conjI)
    show "receipts db' = sum_list (map cg_delta_sats (credit_grants db'))"
      using assms(2) post(1,3,5,7) by (simp add: link_inv_def receipts_def)
    show "\<forall>e \<in> set (ledger_entries db'). \<forall>i. le_source_key e = asset_receipt_key i \<longrightarrow>
        i \<in> cg_receipt_id ` set (credit_grants db')"
      using assms(2) post(1,3,6) by (auto simp: link_inv_def)
    show "\<forall>g \<in> set (credit_grants db'). \<forall>l. cg_ledger_entry_id g = Some l \<longrightarrow>
        l \<in> le_id ` set (ledger_entries db')"
      using assms(2) post(1,3,8) by (auto simp: link_inv_def)
    show "\<forall>g \<in> set (credit_grants db'). \<forall>s. cg_event_seq g = Some s \<longrightarrow>
        s \<le> int (length (event_log db'))"
      using assms(2) post(2,3) seq unfolding link_inv_def by fastforce
  qed
qed

lemma log_posts_feed_inv:
  assumes "log_posts db db'" "feed_attempts db' = feed_attempts db" "feed_inv db"
  shows "feed_inv db'"
proof (cases "ledger_entries db' = ledger_entries db")
  case True
  from feed_inv_cong [OF this assms(2)] assms(3) show ?thesis by simp
next
  case False
  with assms(1) obtain e where e: "ledger_entries db' = ledger_entries db @ [e]"
    "le_type e = HERD_RECEIPT" "\<exists>i. le_source_key e = asset_receipt_key i"
    "0 < le_delta_sats e" "balance db + le_delta_sats e \<le> i64_max"
    by (auto simp: log_posts_def)
  have "sql_sum (map le_delta_sats (ledger_entries db) @ [le_delta_sats e])
      = Some (balance db + le_delta_sats e)"
    using assms(3) e(4,5) feed_inv_credit(3) [OF assms(3)]
    by (intro sql_sum_snoc_fits) (auto simp: feed_inv_def in_i64_def i64_min_def)
  moreover have "debits_confirmed db'"
    using assms(2,3) e(1,3) by (auto simp: feed_inv_def debits_confirmed_def)
  ultimately show ?thesis
    using assms(2,3) e(1,2,4) unfolding feed_inv_def
    by (auto simp: balance_def receipts_def confirmed_sats_def)
qed

lemma credit_write_pay_inv:
  assumes "credit_write db db'" "pay_inv db"
  shows "pay_inv db'"
proof -
  note t = credit_write_tables [OF assms(1)] and p = credit_write_posts [OF assms(1)]
  have keep: "native_btc_valid_row i db'" if "native_btc_valid_row i db" for i
    by (rule native_valid_mono [OF that assms(2)]) (use t p in \<open>auto simp: log_posts_def\<close>)
  have keys: "\<forall>e \<in> set (ledger_entries db'). e \<in> set (ledger_entries db)
      \<or> (\<exists>i. le_source_key e = asset_receipt_key i)"
    using p by (auto simp: log_posts_def)
  have owned: "btc_owned db' v \<longleftrightarrow> btc_owned db v" for v using t by (simp add: btc_owned_def)
  have sett: "settled_payments db' = settled_payments db" using t by simp
  show ?thesis
    unfolding pay_inv_def owned sett
  proof (intro conjI)
    show "distinct (map sp_id (settled_payments db))"
      "distinct (map identity_of (settled_payments db))"
      using assms(2) by (simp_all add: pay_inv_def)
    show "\<forall>p \<in> set (settled_payments db). CHR '':'' \<notin> set (sp_source p)
        \<and> native_btc_valid_row (sp_id p) db'"
      using assms(2) keep by (simp add: pay_inv_def)
    show "\<forall>e \<in> set (ledger_entries db'). \<forall>s x. CHR '':'' \<notin> set s \<longrightarrow>
        le_source_key e = payment_key s x \<longrightarrow> (s, x) \<in> identity_of ` set (settled_payments db)"
    proof (intro ballI allI impI)
      fix e s x
      assume e: "e \<in> set (ledger_entries db')" "CHR '':'' \<notin> set s"
        "le_source_key e = payment_key s x"
      with keys have "e \<in> set (ledger_entries db)" by auto
      with e assms(2) show "(s, x) \<in> identity_of ` set (settled_payments db)"
        by (simp add: pay_inv_def)
    qed
    show "\<forall>v \<in> set (credit_valuations db'). va_asset v = Btc \<longrightarrow> btc_owned db v"
      "\<forall>v \<in> set (credit_valuations db'). va_asset v = Xmr \<longrightarrow> (\<exists>u. va_id v = xmr_id u)"
      using assms(2) t unfolding pay_inv_def by (metis asset.distinct(1))+
    show "\<forall>r \<in> set (asset_receipts db'). \<forall>i. ar_btc_settlement_id r = Some i \<longrightarrow>
        i \<in> sp_id ` set (settled_payments db)"
    proof (intro ballI allI impI)
      fix r i
      assume r: "r \<in> set (asset_receipts db')" "ar_btc_settlement_id r = Some i"
      with t obtain q where "q \<in> set (asset_receipts db)" "ar_btc_settlement_id q = Some i" by auto
      with assms(2) show "i \<in> sp_id ` set (settled_payments db)" by (simp add: pay_inv_def)
    qed
  qed
qed

text \<open>All of it, for one write and for a run of writes.\<close>

definition ledger_inv_all :: "ledger_db \<Rightarrow> bool" where
  "ledger_inv_all db \<longleftrightarrow> feed_inv db \<and> events_contiguous db \<and> grant_inv db \<and> hold_inv db
     \<and> link_inv db \<and> pay_inv db"

lemma ledger_inv_all_empty: "ledger_inv_all empty_db"
  by (simp add: ledger_inv_all_def feed_inv_empty grant_inv_empty link_inv_empty pay_inv_empty
      hold_inv_def events_contiguous_def) (simp add: empty_db_def)

lemma credit_write_all:
  assumes "credit_write db db'" "ledger_inv_all db"
  shows "ledger_inv_all db'"
  using assms(2) credit_write_posts [OF assms(1)] credit_write_tables [OF assms(1)]
  unfolding ledger_inv_all_def
  by (blast intro: credit_write_grant_inv [OF assms(1)] credit_write_hold_inv [OF assms(1)]
      credit_write_pay_inv [OF assms(1)] log_posts_link_inv log_posts_feed_inv
      log_posts_contiguous)

lemma credit_writes_all:
  "credit_write\<^sup>*\<^sup>* db db' \<Longrightarrow> ledger_inv_all db \<Longrightarrow> ledger_inv_all db'"
  by (induction rule: rtranclp_induct) (auto intro: credit_write_all)

lemma record_xmr_receipt_all:
  "record_xmr_receipt u o' db = Inr (out, db') \<Longrightarrow> ledger_inv_all db \<Longrightarrow> ledger_inv_all db'"
  by (rule credit_writes_all) (auto intro: record_xmr_receipt_writes simp: ledger_inv_all_def)

lemma register_all:
  "register_xmr_intent_in_transaction intent db = Inr db' \<Longrightarrow> ledger_inv_all db \<Longrightarrow>
     ledger_inv_all db'"
  using register_write credit_write_all by blast

lemma hold_intent_all:
  assumes "hold_xmr_credit_intent u db = Inr (x, db')" "ledger_inv_all db"
  shows "ledger_inv_all db'"
proof -
  have "db' = set_hold (xmr_id u) ProviderInconsistency (db\<lparr>credit_conflicts := credit_conflicts db\<rparr>)"
    using assms(1) by (simp add: hold_xmr_credit_intent_def split: if_splits)
  then show ?thesis using assms(2) cw_hold credit_write_all by metis
qed

section \<open>A new payment in closed form\<close>

definition settled_of :: "settled_payment \<Rightarrow> i64 \<Rightarrow> settled_row" where
  "settled_of p n =
     \<lparr>sp_id = n, sp_source = pay_source p, sp_source_id = pay_source_id p,
      sp_payment_hash = pay_payment_hash p, sp_address_user = pay_address_user p,
      sp_credit_pool = pay_credit_pool p, sp_amount_msat = uint (pay_amount_msat p),
      sp_settled_at = pay_settled_at p, sp_context_json = pay_context_json p\<rparr>"

definition entry_of :: "settled_payment \<Rightarrow> i64 \<Rightarrow> ledger_entry" where
  "entry_of p l =
     \<lparr>le_id = l, le_type = HERD_RECEIPT,
      le_source_key = payment_key (pay_source p) (pay_source_id p),
      le_delta_sats = uint (pay_amount_msat p div 1000), le_payment_hash = pay_payment_hash p,
      le_payment_source = Some (pay_source p), le_payment_source_id = Some (pay_source_id p),
      le_address_user = Some (pay_address_user p), le_credit_pool = Some (pay_credit_pool p),
      le_feed_attempt_id = None\<rparr>"

definition native_valuation :: "settled_row \<Rightarrow> valuation" where
  "native_valuation row =
     \<lparr>va_id = btc_id (sp_id row), va_asset = Btc, va_network = ''legacy-unspecified'',
      va_provider = sp_source row, va_account_scope = ''legacy-settled-payment'',
      va_receive_scope = sp_source_id row, va_address_user = sp_address_user row,
      va_credit_pool = sp_credit_pool row, va_expected_atomic = 1, va_target_sats = 1,
      va_max_credit_sats = i64_max, va_rate_numerator = None, va_rate_denominator = None,
      va_rate_source = None, va_rate_observed_at = None, va_issued_at = None,
      va_expires_at = None, va_policy_version = ''btc-identity-v1''\<rparr>"

definition native_receipt :: "settled_row \<Rightarrow> i64 \<Rightarrow> receipt_row" where
  "native_receipt row i =
     \<lparr>ar_id = i, ar_valuation_id = btc_id (sp_id row), ar_receipt_key = sp_source_id row,
      ar_amount_atomic = sp_amount_msat row div 1000, ar_first_seen_at = None,
      ar_unlocked = True, ar_eligible = True, ar_btc_settlement_id = Some (sp_id row)\<rparr>"

definition native_grant :: "settled_row \<Rightarrow> i64 \<Rightarrow> i64 \<Rightarrow> i64 \<Rightarrow> grant_row" where
  "native_grant row i l s =
     \<lparr>cg_receipt_id = i, cg_delta_sats = sp_amount_msat row div 1000,
      cg_cumulative_atomic = sp_amount_msat row div 1000,
      cg_cumulative_sats = sp_amount_msat row div 1000, cg_ledger_entry_id = Some l,
      cg_event_seq = Some s\<rparr>"

lemma native_assess:
  assumes "uint w \<le> i64_max"
  shows "assess_update native_btc \<lparr>am_asset = Btc, atomic_units = 0\<rparr> 0
      \<lparr>am_asset = Btc, atomic_units = w\<rparr>
    = Inr \<lparr>cumulative_eligible = \<lparr>am_asset = Btc, atomic_units = w\<rparr>,
          cumulative_credit_sats = w, delta_sats = w\<rparr>"
proof -
  have "w \<le> MAX_ACCOUNTING_UNITS" using assms by (simp add: uint_le_MAX)
  then have "unat w \<le> 9223372036854775807" by (simp add: word_le_nat_alt unat_MAX)
  moreover have "floor_sats native_btc u = unat u" for u
    by (simp add: floor_sats_def native_btc_def)
  ultimately have c: "cumulative_sats native_btc \<lparr>am_asset = Btc, atomic_units = w\<rparr> = Inr w"
      "cumulative_sats native_btc \<lparr>am_asset = Btc, atomic_units = 0\<rparr> = Inr 0"
    by (auto simp: cumulative_sats_eq native_btc_def)
  show ?thesis unfolding assess_update_Inr by (simp add: c)
qed

lemma record_native_btc_steps:
  assumes row: "find (\<lambda>p. sp_id p = n) (settled_payments db) = Some row"
    and m: "0 < sp_amount_msat row" "sp_amount_msat row mod 1000 = 0" "sp_amount_msat row \<le> i64_max"
  shows "record_native_btc n l s db =
    andthen (insert_valuation (native_valuation row) db) (\<lambda>db1.
    andthen (insert_receipt (native_receipt row 0) db1) (\<lambda>(i, db2).
    andthen (to_i64 s) (\<lambda>s_i64.
    andthen (insert_grant (native_grant row i l s_i64) db2) (\<lambda>db3.
      Inr (set_totals (btc_id n) (sp_amount_msat row div 1000) (sp_amount_msat row div 1000) db3)))))"
proof -
  have id: "sp_id row = n" using find_Some_in [OF row] by simp
  let ?w = "word_of_int (sp_amount_msat row div 1000) :: u64"
  have b: "0 \<le> sp_amount_msat row div 1000" "sp_amount_msat row div 1000 \<le> i64_max"
    using m by (auto simp: i64_max_def)
  then have w: "uint ?w = sp_amount_msat row div 1000" by (rule uint_word_of_int_i64)
  have am: "amount_of Btc ?w = Inr \<lparr>am_asset = Btc, atomic_units = ?w\<rparr>"
    "amount_of Btc 0 = Inr \<lparr>am_asset = Btc, atomic_units = 0\<rparr>"
    using w b by (simp_all add: amount_of_def asset_amount_new_def uint_le_MAX not_less [symmetric])
      (simp_all add: not_less uint_le_MAX)
  have fits: "uint ?w \<le> i64_max" using w b by simp
  show ?thesis
    unfolding record_native_btc_def row ok_or_simps andthen_simps Let_def
    using m(1,2) am native_assess [OF fits] w b(2) id
    by (simp add: native_sats_def native_valuation_def native_receipt_def native_grant_def
        set_totals_def cong: if_cong)
qed

end
