(* ===== verification/Payment_Posting.thy ===== *)
theory Payment_Posting
  imports Payment_Invariant
begin

text \<open>
  \<open>record_payment\<close> under the ledger invariant. For a valid settlement that is not stored yet every
  insert succeeds, so the call is one closed form: it credits the payment, or reports that the
  ledger total would leave the 64-bit range. For a stored one it is a duplicate. The invariant
  is kept either way.
\<close>

section \<open>The posted state\<close>

definition received_event :: "settled_payment \<Rightarrow> ledger_db \<Rightarrow> event_row" where
  "received_event p db =
     \<lparr>ev_seq = next_id ev_seq (event_log db), ev_type = ''payment_received'',
      ev_payload = JObj [(''source'', JStr (pay_source p)), (''source_id'', JStr (pay_source_id p)),
                    (''payment_hash'', JOptStr (pay_payment_hash p)),
                    (''address_user'', JStr (pay_address_user p)),
                    (''credit_pool'', JStr (pay_credit_pool p)),
                    (''amount_sats'', JU64 (pay_amount_msat p div 1000)),
                    (''feed_credit_sats'',
                       JU64 (word_of_int (balance db + uint (pay_amount_msat p div 1000))))]\<rparr>"

definition logged :: "settled_payment \<Rightarrow> ledger_db \<Rightarrow> ledger_db" where
  "logged p db = db\<lparr>
     settled_payments := settled_payments db
       @ [settled_of p (next_id sp_id (settled_payments db))],
     ledger_entries := ledger_entries db @ [entry_of p (next_id le_id (ledger_entries db))],
     event_log := event_log db @ [received_event p db]\<rparr>"

definition posted :: "settled_payment \<Rightarrow> ledger_db \<Rightarrow> ledger_db" where
  "posted p db =
     (let row = settled_of p (next_id sp_id (settled_payments db));
          i = next_id ar_id (asset_receipts db);
          sats = uint (pay_amount_msat p div 1000) in
      (logged p db)\<lparr>
        credit_valuations := credit_valuations db @ [native_valuation row],
        credit_allocations := credit_allocations db
          @ [\<lparr>al_valuation_id = va_id (native_valuation row), al_eligible_atomic = sats,
               al_credited_sats = sats, al_hold_reason = None\<rparr>],
        asset_receipts := asset_receipts db @ [native_receipt row i],
        credit_grants := credit_grants db
          @ [native_grant row i (next_id le_id (ledger_entries db))
               (next_id ev_seq (event_log db))]\<rparr>)"

text \<open>The settlement is new to the ledger.\<close>

definition unseen :: "settled_payment \<Rightarrow> ledger_db \<Rightarrow> bool" where
  "unseen p db \<longleftrightarrow>
     find (\<lambda>r. sp_source r = pay_source p \<and> sp_source_id r = pay_source_id p)
       (settled_payments db) = None
     \<and> (pay_payment_hash p \<noteq> None \<longrightarrow>
          \<not> (\<exists>r \<in> set (settled_payments db). sp_payment_hash r = pay_payment_hash p))"

lemma unseen_identity: "unseen p db \<Longrightarrow>
    (pay_source p, pay_source_id p) \<notin> identity_of ` set (settled_payments db)"
  by (auto simp: unseen_def find_None identity_of_def)

lemma validate_payment_Inr:
  assumes "validate_payment parse_json p = Inr u"
  shows "CHR '':'' \<notin> set (pay_source p)" "pay_amount_msat p \<noteq> 0"
    "pay_amount_msat p mod 1000 = 0"
  using assms source_no_colon
  by (auto simp: validate_payment_def res_simps split: if_splits)

lemma aligned_sats:
  assumes "w \<noteq> 0" "w mod 1000 = 0" "uint w \<le> i64_max"
  shows "0 < uint w" "uint w mod 1000 = 0" "uint (w div 1000 :: u64) = uint w div 1000"
    "0 < uint w div 1000" "uint (w div 1000) \<le> i64_max"
proof -
  show pos: "0 < uint w" using assms(1) word_eq_0_uint [of w] by (simp add: order_less_le)
  show div: "uint (w div 1000) = uint w div 1000" by (simp add: uint_div)
  have "uint (w mod 1000) = uint w mod 1000" by (simp add: uint_mod)
  with assms(2) show mod: "uint w mod 1000 = 0" by simp
  with pos show "0 < uint w div 1000" by auto
  show "uint (w div 1000) \<le> i64_max" using assms(3) pos by (simp add: div)
qed

section \<open>Posting succeeds\<close>

lemma find_last_new:
  assumes "\<forall>q \<in> set qs. sp_id q \<noteq> sp_id row"
  shows "find (\<lambda>p. sp_id p = sp_id row) (qs @ [row]) = Some row"
  using assms by (auto simp: find_append find_None [THEN iffD2])

lemma grant_inv_ids:
  assumes "grant_inv db"
  shows "al_valuation_id ` set (credit_allocations db) = va_id ` set (credit_valuations db)"
    "cg_receipt_id ` set (credit_grants db) \<subseteq> ar_id ` set (asset_receipts db)"
    "ar_valuation_id ` set (asset_receipts db) \<subseteq> va_id ` set (credit_valuations db)"
proof -
  have "set (map al_valuation_id (credit_allocations db)) = set (map va_id (credit_valuations db))"
    using assms by (simp add: grant_inv_def)
  then show "al_valuation_id ` set (credit_allocations db) = va_id ` set (credit_valuations db)"
    by simp
  show "cg_receipt_id ` set (credit_grants db) \<subseteq> ar_id ` set (asset_receipts db)"
  proof (rule image_subsetI)
    fix g assume "g \<in> set (credit_grants db)"
    with assms obtain r where "r \<in> set (asset_receipts db)" "ar_id r = cg_receipt_id g"
      unfolding grant_inv_def by blast
    then show "cg_receipt_id g \<in> ar_id ` set (asset_receipts db)" by (metis imageI)
  qed
  show "ar_valuation_id ` set (asset_receipts db) \<subseteq> va_id ` set (credit_valuations db)"
  proof (rule image_subsetI)
    fix r assume "r \<in> set (asset_receipts db)"
    with assms obtain v where "v \<in> set (credit_valuations db)" "va_id v = ar_valuation_id r"
      unfolding grant_inv_def by blast
    then show "ar_valuation_id r \<in> va_id ` set (credit_valuations db)" by (metis imageI)
  qed
qed

lemma receipt_settled:
  "pay_inv db \<Longrightarrow> r \<in> set (asset_receipts db) \<Longrightarrow> ar_btc_settlement_id r = Some i \<Longrightarrow>
     i \<in> sp_id ` set (settled_payments db)"
  unfolding pay_inv_def by blast

lemma grant_entry:
  "link_inv db \<Longrightarrow> g \<in> set (credit_grants db) \<Longrightarrow> cg_ledger_entry_id g = Some l \<Longrightarrow>
     l \<in> le_id ` set (ledger_entries db)"
  unfolding link_inv_def by blast

lemma grant_event:
  "link_inv db \<Longrightarrow> g \<in> set (credit_grants db) \<Longrightarrow> cg_event_seq g = Some s \<Longrightarrow>
     s \<le> int (length (event_log db))"
  unfolding link_inv_def by blast

lemma entry_settled:
  "pay_inv db \<Longrightarrow> e \<in> set (ledger_entries db) \<Longrightarrow> CHR '':'' \<notin> set s \<Longrightarrow>
     le_source_key e = payment_key s x \<Longrightarrow> (s, x) \<in> identity_of ` set (settled_payments db)"
  unfolding pay_inv_def by blast

text \<open>The ids of a new settlement are free in every table.\<close>

lemma native_keys_fresh:
  assumes inv: "grant_inv db" "pay_inv db" "link_inv db" and new: "unseen p db"
    and row: "row = settled_of p (next_id sp_id (settled_payments db))"
  shows "va_id (native_valuation row) \<notin> va_id ` set (credit_valuations db)"
    "receive_binding (native_valuation row) \<notin> receive_binding ` set (credit_valuations db)"
    "va_id (native_valuation row) \<notin> ar_valuation_id ` set (asset_receipts db)"
    "Some (sp_id row) \<notin> ar_btc_settlement_id ` set (asset_receipts db)"
    "next_id ar_id (asset_receipts db) \<notin> cg_receipt_id ` set (credit_grants db)"
    "Some (next_id le_id (ledger_entries db)) \<notin> cg_ledger_entry_id ` set (credit_grants db)"
proof -
  have fresh: "sp_id row \<notin> sp_id ` set (settled_payments db)"
    using next_id_not_in by (simp add: row settled_of_def)
  have owned: "btc_owned db v" if "v \<in> set (credit_valuations db)" "va_asset v = Btc" for v
    using inv(2) that by (simp add: pay_inv_def)
  have asset: "va_asset v = Btc \<or> (\<exists>u. va_id v = xmr_id u)" if "v \<in> set (credit_valuations db)" for v
    using inv(2) that by (cases "va_asset v") (auto simp: pay_inv_def)
  show vid: "va_id (native_valuation row) \<notin> va_id ` set (credit_valuations db)"
  proof
    assume "va_id (native_valuation row) \<in> va_id ` set (credit_valuations db)"
    then obtain v where v: "v \<in> set (credit_valuations db)" "va_id v = btc_id (sp_id row)"
      by (auto simp: native_valuation_def)
    from asset [OF v(1)] v(2) have "va_asset v = Btc" by auto
    from owned [OF v(1) this] v(2) fresh show False by (auto simp: btc_owned_def)
  qed
  show "receive_binding (native_valuation row) \<notin> receive_binding ` set (credit_valuations db)"
  proof
    assume "receive_binding (native_valuation row) \<in> receive_binding ` set (credit_valuations db)"
    then obtain v where v: "v \<in> set (credit_valuations db)" "va_asset v = Btc"
        "va_provider v = pay_source p" "va_receive_scope v = pay_source_id p"
      by (auto simp: native_valuation_def receive_binding_def row settled_of_def)
    from owned [OF v(1,2)] v(3,4) unseen_identity [OF new] show False
      by (auto simp: btc_owned_def identity_of_def)
  qed
  show "va_id (native_valuation row) \<notin> ar_valuation_id ` set (asset_receipts db)"
    using vid grant_inv_ids(3) [OF inv(1)] by blast
  show "Some (sp_id row) \<notin> ar_btc_settlement_id ` set (asset_receipts db)"
  proof
    assume "Some (sp_id row) \<in> ar_btc_settlement_id ` set (asset_receipts db)"
    then obtain r where "r \<in> set (asset_receipts db)" "ar_btc_settlement_id r = Some (sp_id row)"
      by auto
    from receipt_settled [OF inv(2) this] fresh show False by contradiction
  qed
  show "next_id ar_id (asset_receipts db) \<notin> cg_receipt_id ` set (credit_grants db)"
    using contra_subsetD [OF grant_inv_ids(2) [OF inv(1)] next_id_not_in] .
  show "Some (next_id le_id (ledger_entries db)) \<notin> cg_ledger_entry_id ` set (credit_grants db)"
  proof
    assume "Some (next_id le_id (ledger_entries db)) \<in> cg_ledger_entry_id ` set (credit_grants db)"
    then obtain g where "g \<in> set (credit_grants db)"
      "cg_ledger_entry_id g = Some (next_id le_id (ledger_entries db))" by auto
    with grant_entry [OF inv(3)] next_id_not_in [of le_id "ledger_entries db"] show False by blast
  qed
qed


lemma native_inserts:
  assumes inv: "ledger_inv_all db" and new: "unseen p db"
    and ok: "pay_amount_msat p \<noteq> 0" "pay_amount_msat p mod 1000 = 0"
      "uint (pay_amount_msat p) \<le> i64_max"
    and row_def: "row = settled_of p (next_id sp_id (settled_payments db))"
  obtains db1 db2 db3 where "insert_valuation (native_valuation row) (logged p db) = Inr db1"
    "insert_receipt (native_receipt row 0) db1 = Inr (next_id ar_id (asset_receipts db), db2)"
    "insert_grant (native_grant row (next_id ar_id (asset_receipts db))
       (next_id le_id (ledger_entries db)) (next_id ev_seq (event_log db))) db2 = Inr db3"
    "set_totals (btc_id (sp_id row)) (uint (pay_amount_msat p) div 1000)
       (uint (pay_amount_msat p) div 1000) db3 = posted p db"
proof -
  let ?n = "next_id sp_id (settled_payments db)" and ?l = "next_id le_id (ledger_entries db)"
    and ?s = "next_id ev_seq (event_log db)" and ?i = "next_id ar_id (asset_receipts db)"
    and ?sats = "uint (pay_amount_msat p) div 1000"
  have parts: "grant_inv db" "pay_inv db" "link_inv db" "events_contiguous db"
    using inv by (simp_all add: ledger_inv_all_def)
  note fresh = native_keys_fresh [OF parts(1-3) new row_def]
  note sats = aligned_sats [OF ok]
  have row: "sp_id row = ?n" "sp_amount_msat row = uint (pay_amount_msat p)"
    "sp_source_id row = pay_source_id p"
    by (simp_all add: row_def settled_of_def)
  have seq: "?s = int (length (event_log db)) + 1" by (rule next_event_seq [OF parts(4)])
  define db0 where "db0 = logged p db"
  have tabs: "credit_valuations db0 = credit_valuations db"
    "credit_allocations db0 = credit_allocations db" "asset_receipts db0 = asset_receipts db"
    "credit_grants db0 = credit_grants db"
    by (simp_all add: db0_def logged_def)
  define db1 where "db1 = db0\<lparr>credit_valuations := credit_valuations db @ [native_valuation row],
     credit_allocations := credit_allocations db @ [\<lparr>al_valuation_id = va_id (native_valuation row),
       al_eligible_atomic = 0, al_credited_sats = 0, al_hold_reason = None\<rparr>]\<rparr>"
  define db2 where "db2 = db1\<lparr>asset_receipts := asset_receipts db @ [native_receipt row ?i]\<rparr>"
  define db3 where "db3 = db2\<lparr>credit_grants := credit_grants db @ [native_grant row ?i ?l ?s]\<rparr>"
  have "valuation_check (native_valuation row)"
    by (simp add: valuation_check_def native_valuation_def i64_max_def)
  then have 1: "insert_valuation (native_valuation row) db0 = Inr db1"
    using fresh(1,2) grant_inv_ids(1) [OF parts(1)]
    by (simp add: insert_valuation_def tabs db1_def)
  have "ar_valuation_id q \<noteq> va_id (native_valuation row)" if "q \<in> set (asset_receipts db)" for q
    using fresh(3) that by (metis imageI)
  then have 2: "insert_receipt (native_receipt row 0) db1 = Inr (?i, db2)"
    using fresh(4) sats(4) row
    by (auto simp: insert_receipt_def Let_def db1_def db2_def tabs native_receipt_def
        native_valuation_def)
  have "Some ?s \<noteq> cg_event_seq g" if "g \<in> set (credit_grants db)" for g
    using grant_event [OF parts(3) that, of ?s] seq by auto
  then have 3: "insert_grant (native_grant row ?i ?l ?s) db2 = Inr db3"
    using fresh(5,6) sats(4) row
    by (auto simp: insert_grant_def grant_check_def db1_def db2_def db3_def tabs native_grant_def
        image_iff)
  have "al_valuation_id a \<noteq> btc_id ?n" if "a \<in> set (credit_allocations db)" for a
    using fresh(1) that grant_inv_ids(1) [OF parts(1)] row(1)
    by (metis imageI native_valuation_def valuation.select_convs(1))
  then have "update_where (\<lambda>a. al_valuation_id a = btc_id ?n) f (credit_allocations db)
      = credit_allocations db" for f
    by (intro update_where_unused) blast
  then have 4: "set_totals (btc_id ?n) ?sats ?sats db3 = posted p db"
    using row sats(3)
    by (simp add: set_totals_def db3_def db2_def db1_def db0_def posted_def Let_def
        row_def [symmetric] update_where_append update_where_Cons native_valuation_def)
      (simp add: update_where_def logged_def)
  show ?thesis
    by (rule that [of db1 db2 db3]) (use 1 2 3 4 row(1) in \<open>simp_all add: db0_def\<close>)
qed

lemma posting_steps:
  assumes inv: "ledger_inv_all db" and new: "unseen p db"
    and ok: "pay_amount_msat p \<noteq> 0" "pay_amount_msat p mod 1000 = 0"
      "uint (pay_amount_msat p) \<le> i64_max"
    and room: "int (length (event_log db)) < i64_max"
  shows "record_native_btc (next_id sp_id (settled_payments db))
      (next_id le_id (ledger_entries db)) (word_of_int (next_id ev_seq (event_log db)))
      (logged p db) = Inr (posted p db)"
proof -
  let ?n = "next_id sp_id (settled_payments db)" and ?s = "next_id ev_seq (event_log db)"
  define row where "row = settled_of p ?n"
  obtain db1 db2 db3 where steps: "insert_valuation (native_valuation row) (logged p db) = Inr db1"
    "insert_receipt (native_receipt row 0) db1 = Inr (next_id ar_id (asset_receipts db), db2)"
    "insert_grant (native_grant row (next_id ar_id (asset_receipts db))
       (next_id le_id (ledger_entries db)) ?s) db2 = Inr db3"
    "set_totals (btc_id (sp_id row)) (uint (pay_amount_msat p) div 1000)
       (uint (pay_amount_msat p) div 1000) db3 = posted p db"
    by (rule native_inserts [OF inv new ok row_def])
  have row: "sp_id row = ?n" "sp_amount_msat row = uint (pay_amount_msat p)"
    by (simp_all add: row_def settled_of_def)
  have "sp_id q \<noteq> ?n" if "q \<in> set (settled_payments db)" for q
    using next_id_fresh [OF that, of sp_id] by simp
  then have found: "find (\<lambda>q. sp_id q = ?n) (settled_payments (logged p db)) = Some row"
    using find_last_new [of "settled_payments db" row] row(1) by (simp add: logged_def row_def)
  have "?s = int (length (event_log db)) + 1"
    by (rule next_event_seq) (use inv in \<open>simp add: ledger_inv_all_def\<close>)
  then have "to_i64 (word_of_int ?s :: u64) = Inr ?s"
    using room uint_word_of_int_i64 [of ?s] by (simp add: to_i64_Inr)
  then show ?thesis
    using record_native_btc_steps [OF found, of "next_id le_id (ledger_entries db)" "word_of_int ?s"]
      aligned_sats [OF ok] ok(3) row steps by simp
qed

lemma payment_key_fresh:
  assumes "pay_inv db" "unseen p db" "CHR '':'' \<notin> set (pay_source p)"
  shows "payment_key (pay_source p) (pay_source_id p) \<notin> le_source_key ` set (ledger_entries db)"
proof
  assume "payment_key (pay_source p) (pay_source_id p) \<in> le_source_key ` set (ledger_entries db)"
  then obtain e where "e \<in> set (ledger_entries db)"
    "le_source_key e = payment_key (pay_source p) (pay_source_id p)" by auto
  from entry_settled [OF assms(1) this(1) assms(3) this(2)] unseen_identity [OF assms(2)]
  show False by contradiction
qed

lemma record_payment_new:
  assumes inv: "ledger_inv_all db" and new: "unseen p db"
    and valid: "validate_payment parse_json p = Inr ()" and fits: "uint (pay_amount_msat p) \<le> i64_max"
    and room: "int (length (event_log db)) < i64_max"
  shows "record_payment parse_json p db =
    (if balance db + uint (pay_amount_msat p div 1000) \<le> i64_max
     then Inr (Credited (pay_amount_msat p div 1000) (pay_address_user p) (pay_credit_pool p),
               posted p db)
     else Inl (Db SumOverflow))"
proof -
  let ?n = "next_id sp_id (settled_payments db)" and ?l = "next_id le_id (ledger_entries db)"
    and ?sats = "pay_amount_msat p div 1000"
  note ok = validate_payment_Inr [OF valid]
  note sats = aligned_sats [OF ok(2,3) fits]
  have parts: "feed_inv db" "pay_inv db" using inv by (simp_all add: ledger_inv_all_def)
  define db1 where "db1 = db\<lparr>settled_payments := settled_payments db @ [settled_of p ?n]\<rparr>"
  define db2 where "db2 = db1\<lparr>ledger_entries := ledger_entries db @ [entry_of p ?l]\<rparr>"
  have "\<not> (\<exists>q \<in> set (settled_payments db). sp_source q = pay_source p
      \<and> sp_source_id q = pay_source_id p)"
    using unseen_identity [OF new] by (auto simp: identity_of_def image_iff)
  moreover have "pay_payment_hash p \<noteq> None \<longrightarrow>
      pay_payment_hash p \<notin> sp_payment_hash ` set (settled_payments db)"
    using new by (auto simp: unseen_def image_iff)
  ultimately have 1: "insert_settled ((settled_of p 0)) db = Inr (?n, db1)"
    by (auto simp: insert_settled_def settled_of_def db1_def Let_def)
  have "payment_key (pay_source p) (pay_source_id p) \<notin> le_source_key ` set (ledger_entries db1)"
    using payment_key_fresh [OF parts(2) new ok(1)] by (simp add: db1_def)
  then have 2: "insert_ledger_entry (entry_of p 0) db1 = Inr (?l, db2)"
    unfolding insert_ledger_entry_Inr by (simp add: entry_of_def db2_def db1_def)
  have total: "sql_sum (map le_delta_sats (ledger_entries db2))
      = (if balance db + uint ?sats \<le> i64_max then Some (balance db + uint ?sats) else None)"
    using parts(1) sats by (simp add: sql_sum_snoc db2_def db1_def feed_inv_def entry_of_def in_i64_def
        i64_min_def)
  then have 3: "feed_credit_in_transaction db2 =
      (if balance db + uint ?sats \<le> i64_max then Inr (word_of_int (balance db + uint ?sats))
       else Inl (Db SumOverflow))"
    using parts(1) sats by (simp add: feed_credit_in_transaction_def feed_inv_def to_u64_def
        u64_of_i64_Some u64_of_i64_def)
  have 4: "append_event_in_transaction ''payment_received'' (ev_payload (received_event p db)) db2
      = Inr (word_of_int (next_id ev_seq (event_log db)), logged p db)"
    by (simp add: append_event_eq db2_def db1_def logged_def received_event_def)
  have 5: "record_native_btc ?n ?l (word_of_int (next_id ev_seq (event_log db))) (logged p db)
      = Inr (posted p db)"
    by (rule posting_steps [OF inv new ok(2,3) fits room])
  have i64: "to_i64 (pay_amount_msat p) = Inr (uint (pay_amount_msat p))"
    "to_i64 ?sats = Inr (uint ?sats)"
    using fits sats by (simp_all add: to_i64_Inr)
  show ?thesis
    unfolding record_payment_def valid andthen_simps i64 Let_def
    using new 1 2 3 4 5
    by (auto simp: unseen_def settled_of_def entry_of_def received_event_def)
qed


section \<open>Posting keeps the invariant\<close>

lemma posted_tables:
  "settled_payments (posted p db)
     = settled_payments db @ [settled_of p (next_id sp_id (settled_payments db))]"
  "ledger_entries (posted p db) = ledger_entries db @ [entry_of p (next_id le_id (ledger_entries db))]"
  "event_log (posted p db) = event_log db @ [received_event p db]"
  "feed_attempts (posted p db) = feed_attempts db"
  by (simp_all add: posted_def logged_def Let_def)

lemma posted_grant_inv:
  assumes inv: "ledger_inv_all db" and new: "unseen p db"
    and ok: "pay_amount_msat p \<noteq> 0" "pay_amount_msat p mod 1000 = 0"
      "uint (pay_amount_msat p) \<le> i64_max"
  shows "grant_inv (posted p db)" "hold_inv (posted p db)"
proof -
  let ?i = "next_id ar_id (asset_receipts db)" and ?sats = "uint (pay_amount_msat p) div 1000"
  define row where "row = settled_of p (next_id sp_id (settled_payments db))"
  define v where "v = native_valuation row"
  define g where "g = native_grant row ?i (next_id le_id (ledger_entries db))
     (next_id ev_seq (event_log db))"
  obtain db1 db2 db3 where steps: "insert_valuation v (logged p db) = Inr db1"
    "insert_receipt (native_receipt row 0) db1 = Inr (?i, db2)"
    "insert_grant g db2 = Inr db3"
    "set_totals (btc_id (sp_id row)) ?sats ?sats db3 = posted p db"
    unfolding v_def g_def by (rule native_inserts [OF inv new ok row_def])
  note sats = aligned_sats [OF ok]
  have amt: "sp_amount_msat row div 1000 = ?sats" by (simp add: row_def settled_of_def)
  have v: "va_id v = btc_id (sp_id row)" "va_expected_atomic v = 1" "va_target_sats v = 1"
    "va_max_credit_sats v = i64_max" "va_asset v = Btc"
    by (simp_all add: v_def native_valuation_def)
  have r: "ar_valuation_id (native_receipt row 0) = va_id v" "ar_eligible (native_receipt row 0)"
    "ar_unlocked (native_receipt row 0)" "ar_amount_atomic (native_receipt row 0) = ?sats"
    by (simp_all add: native_receipt_def v(1) amt)
  have g: "cg_receipt_id g = ?i" "cg_delta_sats g = ?sats"
    by (simp_all add: g_def native_grant_def amt)
  have t: "timely_receipt v q" for q by (simp add: timely_receipt_def v)
  have "grant_inv (logged p db)" "hold_inv (logged p db)"
    using inv grant_inv_cong [of "logged p db" db]
    by (simp_all add: ledger_inv_all_def logged_def hold_inv_def)
  with steps(1) have 1: "grant_inv db1" "hold_inv db1"
    by (auto intro: grant_inv_insert_valuation hold_inv_insert_valuation simp: v i64_max_def)
  note db1 = insert_valuation_Inr(3) [OF steps(1)] and db2 = insert_receipt_Inr(3) [OF steps(2)]
  have vin: "v \<in> set (credit_valuations db1)" by (simp add: db1)
  have 2: "grant_inv db2" "hold_inv db2"
    using r t sats by (auto intro!: grant_inv_insert_receipt [OF steps(2) 1(1) _ vin]
        hold_inv_insert_receipt [OF steps(2) 1(2,1) vin])
  have "v \<in> set (credit_valuations db2)"
    "native_receipt row 0\<lparr>ar_id := ?i\<rparr> \<in> set (asset_receipts db2)"
    "\<lparr>al_valuation_id = va_id v, al_eligible_atomic = 0, al_credited_sats = 0,
       al_hold_reason = None\<rparr> \<in> set (credit_allocations db2)"
    by (simp_all add: db2 db1)
  from grant_inv_post [OF 2(1) steps(3) this(2) _ _ _ _ this(1) _ this(3),
      where eligible = "?sats" and credited = "?sats" and vid = "va_id v"]
  show "grant_inv (posted p db)"
    using r g v sats by (simp add: steps(4) [symmetric] set_totals_def value_at_def)
  have "hold_inv db3"
    using 2(2) insert_grant_Inr(3) [OF steps(3)] by simp
  then show "hold_inv (posted p db)"
    using hold_inv_set_totals steps(4) by metis
qed

lemma posted_provenance:
  assumes "grant_inv db" "unseen p db"
    and ok: "pay_amount_msat p \<noteq> 0" "pay_amount_msat p mod 1000 = 0"
      "uint (pay_amount_msat p) \<le> i64_max"
  shows "native_btc_valid_row (next_id sp_id (settled_payments db)) (posted p db)"
proof -
  let ?row = "settled_of p (next_id sp_id (settled_payments db))"
    and ?i = "next_id ar_id (asset_receipts db)" and ?l = "next_id le_id (ledger_entries db)"
    and ?a = "\<lparr>al_valuation_id = btc_id (next_id sp_id (settled_payments db)),
       al_eligible_atomic = uint (pay_amount_msat p) div 1000,
       al_credited_sats = uint (pay_amount_msat p) div 1000, al_hold_reason = None\<rparr>"
  note sats = aligned_sats [OF ok]
  have "native_provenance ?row (native_receipt ?row ?i) (native_valuation ?row) ?a
      (native_grant ?row ?i ?l (next_id ev_seq (event_log db))) (entry_of p ?l)"
    using sats by (simp add: native_provenance_def native_receipt_def native_valuation_def
        native_grant_def entry_of_def settled_of_def)
  moreover have "?row \<in> set (settled_payments (posted p db))"
    "native_receipt ?row ?i \<in> set (asset_receipts (posted p db))"
    "native_valuation ?row \<in> set (credit_valuations (posted p db))"
    "?a \<in> set (credit_allocations (posted p db))"
    "native_grant ?row ?i ?l (next_id ev_seq (event_log db)) \<in> set (credit_grants (posted p db))"
    "entry_of p ?l \<in> set (ledger_entries (posted p db))"
    using sats by (simp_all add: posted_def logged_def Let_def native_valuation_def settled_of_def)
  moreover have "sp_id ?row = next_id sp_id (settled_payments db)" by (simp add: settled_of_def)
  ultimately show ?thesis unfolding native_btc_valid_row_def by blast
qed


lemma posted_credit_tables:
  "set (credit_valuations (posted p db)) = insert (native_valuation
     (settled_of p (next_id sp_id (settled_payments db)))) (set (credit_valuations db))"
  "set (credit_grants (posted p db)) = insert (native_grant
     (settled_of p (next_id sp_id (settled_payments db))) (next_id ar_id (asset_receipts db))
     (next_id le_id (ledger_entries db)) (next_id ev_seq (event_log db))) (set (credit_grants db))"
  "set (asset_receipts (posted p db)) = insert (native_receipt
     (settled_of p (next_id sp_id (settled_payments db))) (next_id ar_id (asset_receipts db)))
     (set (asset_receipts db))"
  "set (credit_allocations db) \<subseteq> set (credit_allocations (posted p db))"
  by (auto simp: posted_def Let_def)

lemma posted_feed_inv:
  assumes inv: "feed_inv db" and fits: "balance db + uint (pay_amount_msat p div 1000) \<le> i64_max"
  shows "feed_inv (posted p db)"
proof -
  let ?e = "entry_of p (next_id le_id (ledger_entries db))"
  have e: "le_delta_sats ?e = uint (pay_amount_msat p div 1000)" "le_type ?e = HERD_RECEIPT"
    "\<And>u. le_source_key ?e \<noteq> feed_key u" by (simp_all add: entry_of_def)
  have "0 \<le> balance db" using inv by (simp add: feed_inv_def)
  with fits uint_ge_0 [of "pay_amount_msat p div 1000"] have "in_i64 (balance db + le_delta_sats ?e)"
    unfolding in_i64_def i64_min_def e(1) by linarith
  then have "sql_sum (map le_delta_sats (ledger_entries db) @ [le_delta_sats ?e])
      = Some (balance db + le_delta_sats ?e)"
    using inv by (intro sql_sum_snoc_fits) (simp_all add: feed_inv_def)
  moreover have "debits_confirmed (posted p db)"
    using inv e(3) by (auto simp: feed_inv_def debits_confirmed_def posted_tables)
  moreover have "0 \<le> le_delta_sats ?e" by (simp add: e)
  ultimately show ?thesis
    using inv e(2) unfolding feed_inv_def
    by (auto simp: balance_def receipts_def confirmed_sats_def posted_tables)
qed

lemma posted_link_inv:
  assumes inv: "link_inv db" "events_contiguous db" and ok: "pay_amount_msat p \<noteq> 0"
    "pay_amount_msat p mod 1000 = 0" "uint (pay_amount_msat p) \<le> i64_max"
  shows "link_inv (posted p db)"
proof -
  let ?row = "settled_of p (next_id sp_id (settled_payments db))"
  let ?e = "entry_of p (next_id le_id (ledger_entries db))"
  let ?g = "native_grant ?row (next_id ar_id (asset_receipts db))
     (next_id le_id (ledger_entries db)) (next_id ev_seq (event_log db))"
  have seq: "next_id ev_seq (event_log db) = int (length (event_log db)) + 1"
    by (rule next_event_seq [OF inv(2)])
  have grants: "credit_grants (posted p db) = credit_grants db @ [?g]"
    by (simp add: posted_def Let_def)
  have same: "le_delta_sats ?e = cg_delta_sats ?g"
    using aligned_sats(3) [OF ok] by (simp add: entry_of_def native_grant_def settled_of_def)
  have e: "le_type ?e = HERD_RECEIPT" "\<And>i. le_source_key ?e \<noteq> asset_receipt_key i"
    "le_id ?e = next_id le_id (ledger_entries db)" by (simp_all add: entry_of_def)
  have g: "cg_ledger_entry_id ?g = Some (next_id le_id (ledger_entries db))"
    "cg_event_seq ?g = Some (int (length (event_log db)) + 1)"
    by (simp_all add: native_grant_def seq)
  show ?thesis
    unfolding link_inv_def
  proof (intro conjI)
    show "receipts (posted p db) = sum_list (map cg_delta_sats (credit_grants (posted p db)))"
      using inv(1) same e(1) by (simp add: link_inv_def receipts_def posted_tables grants)
    show "\<forall>e \<in> set (ledger_entries (posted p db)). \<forall>i. le_source_key e = asset_receipt_key i \<longrightarrow>
        i \<in> cg_receipt_id ` set (credit_grants (posted p db))"
      using inv(1) e(2) by (auto simp: link_inv_def posted_tables grants)
    show "\<forall>g \<in> set (credit_grants (posted p db)). \<forall>l. cg_ledger_entry_id g = Some l \<longrightarrow>
        l \<in> le_id ` set (ledger_entries (posted p db))"
      using inv(1) g(1) e(3) by (auto simp: link_inv_def posted_tables grants)
    show "\<forall>g \<in> set (credit_grants (posted p db)). \<forall>s. cg_event_seq g = Some s \<longrightarrow>
        s \<le> int (length (event_log (posted p db)))"
      using inv(1) g(2) unfolding link_inv_def posted_tables grants by fastforce
  qed
qed

lemma posted_pay_inv:
  assumes inv: "pay_inv db" "grant_inv db" and new: "unseen p db"
    and ok: "CHR '':'' \<notin> set (pay_source p)" "pay_amount_msat p \<noteq> 0"
      "pay_amount_msat p mod 1000 = 0" "uint (pay_amount_msat p) \<le> i64_max"
  shows "pay_inv (posted p db)"
proof -
  let ?row = "settled_of p (next_id sp_id (settled_payments db))"
  have keep: "native_btc_valid_row i (posted p db)" if "native_btc_valid_row i db" for i
    by (rule native_valid_mono [OF that inv(1)])
      (auto simp: posted_tables posted_credit_tables posted_credit_tables(4) [THEN subsetD])
  have row: "sp_id ?row = next_id sp_id (settled_payments db)"
    "identity_of ?row = (pay_source p, pay_source_id p)" "sp_source ?row = pay_source p"
    by (simp_all add: settled_of_def identity_of_def)
  have owned: "btc_owned (posted p db) v" if "btc_owned db v" for v
    using that by (auto simp: btc_owned_def posted_tables)
  have own_new: "btc_owned (posted p db) (native_valuation ?row)"
    by (simp add: btc_owned_def posted_tables native_valuation_def)
  have va: "va_asset (native_valuation ?row) = Btc" by (simp add: native_valuation_def)
  have ar: "ar_btc_settlement_id (native_receipt ?row i) = Some (sp_id ?row)" for i
    by (simp add: native_receipt_def)
  show ?thesis
    unfolding pay_inv_def
  proof (intro conjI)
    show "distinct (map sp_id (settled_payments (posted p db)))"
      using inv(1) row(1) next_id_not_in [of sp_id "settled_payments db"]
      by (simp add: pay_inv_def posted_tables)
    show "distinct (map identity_of (settled_payments (posted p db)))"
      using inv(1) unseen_identity [OF new] by (simp add: pay_inv_def posted_tables row(2))
    show "\<forall>q \<in> set (settled_payments (posted p db)). CHR '':'' \<notin> set (sp_source q)
        \<and> native_btc_valid_row (sp_id q) (posted p db)"
      using inv(1) keep ok(1) row(3) posted_provenance [OF inv(2) new ok(2-4)]
      by (auto simp: pay_inv_def posted_tables row(1))
    show "\<forall>e \<in> set (ledger_entries (posted p db)). \<forall>s x. CHR '':'' \<notin> set s \<longrightarrow>
        le_source_key e = payment_key s x \<longrightarrow>
        (s, x) \<in> identity_of ` set (settled_payments (posted p db))"
    proof (intro ballI allI impI)
      fix e s x
      assume e: "e \<in> set (ledger_entries (posted p db))" "CHR '':'' \<notin> set s"
        "le_source_key e = payment_key s x"
      show "(s, x) \<in> identity_of ` set (settled_payments (posted p db))"
      proof (cases "e \<in> set (ledger_entries db)")
        case True
        from entry_settled [OF inv(1) this e(2,3)] show ?thesis by (auto simp: posted_tables)
      next
        case False
        with e(1,3) have "payment_key (pay_source p) (pay_source_id p) = payment_key s x"
          by (simp add: posted_tables entry_of_def)
        from payment_key_inject [OF this ok(1) e(2)] row(2) show ?thesis
          by (simp add: posted_tables)
      qed
    qed
    show "\<forall>v \<in> set (credit_valuations (posted p db)). va_asset v = Btc \<longrightarrow>
        btc_owned (posted p db) v"
      using inv(1) owned own_new by (auto simp: pay_inv_def posted_credit_tables)
    show "\<forall>v \<in> set (credit_valuations (posted p db)). va_asset v = Xmr \<longrightarrow>
        (\<exists>u. va_id v = xmr_id u)"
      using inv(1) va by (auto simp: pay_inv_def posted_credit_tables)
    show "\<forall>r \<in> set (asset_receipts (posted p db)). \<forall>i. ar_btc_settlement_id r = Some i \<longrightarrow>
        i \<in> sp_id ` set (settled_payments (posted p db))"
      using inv(1) ar by (auto simp: pay_inv_def posted_credit_tables posted_tables)
  qed
qed


lemma posted_all:
  assumes "ledger_inv_all db" "unseen p db" "CHR '':'' \<notin> set (pay_source p)"
    "pay_amount_msat p \<noteq> 0" "pay_amount_msat p mod 1000 = 0" "uint (pay_amount_msat p) \<le> i64_max"
    "balance db + uint (pay_amount_msat p div 1000) \<le> i64_max"
  shows "ledger_inv_all (posted p db)"
proof -
  have parts: "feed_inv db" "events_contiguous db" "grant_inv db" "link_inv db" "pay_inv db"
    using assms(1) by (simp_all add: ledger_inv_all_def)
  have "events_contiguous (posted p db)"
    by (rule contiguous_snoc [OF parts(2) posted_tables(3)]) (simp add: received_event_def)
  then show ?thesis
    unfolding ledger_inv_all_def
    by (intro conjI posted_feed_inv posted_link_inv posted_pay_inv posted_grant_inv parts assms)
qed

text \<open>A call that returns either found the settlement stored or posted it.\<close>

lemma record_payment_cases:
  assumes "record_payment parse_json p db = Inr (out, db')" "ledger_inv_all db"
    and room: "int (length (event_log db)) < i64_max"
  obtains (duplicate) row where "out = Duplicate" "db' = db" "row \<in> set (settled_payments db)"
      "sp_source row = pay_source p" "sp_source_id row = pay_source_id p"
      "settlement_matches row p (uint (pay_amount_msat p))"
  | (credited) "out = Credited (pay_amount_msat p div 1000) (pay_address_user p) (pay_credit_pool p)"
      "db' = posted p db" "unseen p db" "validate_payment parse_json p = Inr ()"
      "uint (pay_amount_msat p) \<le> i64_max"
      "balance db + uint (pay_amount_msat p div 1000) \<le> i64_max"
proof -
  from assms(1) have valid: "validate_payment parse_json p = Inr ()"
    by (auto simp: record_payment_def andthen_eq_Inr)
  with assms(1) have fits: "uint (pay_amount_msat p) \<le> i64_max"
    by (auto simp: record_payment_def andthen_eq_Inr to_i64_Inr)
  then have i: "to_i64 (pay_amount_msat p) = Inr (uint (pay_amount_msat p))"
    by (simp add: to_i64_Inr)
  from valid fits have j: "to_i64 (pay_amount_msat p div 1000) = Inr (uint (pay_amount_msat p div 1000))"
    using aligned_sats [OF validate_payment_Inr(2,3) [OF valid] fits] by (simp add: to_i64_Inr)
  show ?thesis
  proof (cases "find (\<lambda>r. sp_source r = pay_source p \<and> sp_source_id r = pay_source_id p)
      (settled_payments db)")
    case (Some row)
    with assms(1) have "settlement_matches row p (uint (pay_amount_msat p))" "out = Duplicate" "db' = db"
      by (auto simp: record_payment_def valid i j Let_def andthen_eq_Inr split: if_splits)
    with find_Some_in [OF Some] duplicate show ?thesis by blast
  next
    case None
    have "unseen p db"
    proof (rule ccontr)
      assume "\<not> unseen p db"
      with None have "pay_payment_hash p \<noteq> None"
        "\<exists>r \<in> set (settled_payments db). sp_payment_hash r = pay_payment_hash p"
        by (auto simp: unseen_def)
      with assms(1) None show False by (auto simp: record_payment_def valid i j Let_def)
    qed
    with record_payment_new [OF assms(2) this valid fits room] assms(1) show ?thesis
      by (intro credited) (auto simp: valid fits split: if_splits)
  qed
qed

lemma record_payment_all:
  assumes "record_payment parse_json p db = Inr (out, db')" "ledger_inv_all db"
    "int (length (event_log db)) < i64_max"
  shows "ledger_inv_all db'"
  using assms
proof (cases rule: record_payment_cases)
  case credited
  note ok = validate_payment_Inr [OF credited(4)]
  show ?thesis unfolding credited(2)
    by (rule posted_all [OF assms(2) credited(3) ok credited(5,6)])
qed (use assms in simp)

text \<open>A stored settlement makes every redelivery a duplicate.\<close>

lemma record_payment_stored:
  assumes "ledger_inv_all db" "validate_payment parse_json p = Inr ()"
    "uint (pay_amount_msat p) \<le> i64_max"
    and row: "row \<in> set (settled_payments db)" "sp_source row = pay_source p"
      "sp_source_id row = pay_source_id p"
  shows "record_payment parse_json p db =
    (if settlement_matches row p (uint (pay_amount_msat p)) then Inr (Duplicate, db)
     else Inl (Payment ConflictingSettlement))"
proof -
  have inv: "pay_inv db" using assms(1) by (simp add: ledger_inv_all_def)
  have "r = row" if "r \<in> set (settled_payments db)" "sp_source r = pay_source p"
    "sp_source_id r = pay_source_id p" for r
  proof -
    have "distinct (map identity_of (settled_payments db))" using inv by (simp add: pay_inv_def)
    moreover have "identity_of r = identity_of row" using that row by (simp add: identity_of_def)
    ultimately show ?thesis using that(1) row(1) by (simp add: distinct_map inj_on_def)
  qed
  then have found: "find (\<lambda>r. sp_source r = pay_source p \<and> sp_source_id r = pay_source_id p)
      (settled_payments db) = Some row"
    using row find_None [of _ "settled_payments db"] find_Some_in
    by (metis (mono_tags, lifting) not_None_eq)
  have "verify_native_btc (sp_id row) db = Inr ()"
    using inv row(1) by (simp add: verify_native_btc_def pay_inv_def)
  moreover have "uint (pay_amount_msat p div 1000) \<le> i64_max"
    using aligned_sats [OF validate_payment_Inr(2,3) [OF assms(2)] assms(3)] by simp
  ultimately show ?thesis
    using assms(2,3) found by (simp add: record_payment_def to_i64_Inr [THEN iffD2] Let_def)
qed

end
