(* ===== verification/Ledger_Outbox.thy ===== *)
theory Ledger_Outbox
  imports Ledger_Feed "HOL-Library.Multiset"
begin

text \<open>
  The message outbox: \<open>src/src/ledger/outbox.rs\<close> over \<open>message_cursor\<close> and \<open>message_outbox\<close> of
  migrations 0001 and 0002. A signed message is stored together with the cursor move, so an event is
  never enqueued twice; publication takes the stored messages in event order. \<open>now\<close> stands for
  SQLite's \<open>unixepoch()\<close>.
\<close>

section \<open>Operations\<close>

record outbox_entry =
  oe_event_id :: string
  oe_signed_event_json :: string
  oe_source_event_seq :: u64
  oe_attempts :: u64

definition read_message_cursor :: "ledger_db \<Rightarrow> ledger_error + u64" where
  "read_message_cursor db = to_u64 (message_cursor db)"

definition advance_message_cursor :: "u64 \<Rightarrow> ledger_db \<Rightarrow> unit ledger_result" where
  "advance_message_cursor event_seq db =
     andthen (to_i64 event_seq) (\<lambda>event_seq.
       let current = message_cursor db in
       if event_seq < current then Inl (Queue CursorBackward)
       else if current < event_seq then Inr ((), db\<lparr>message_cursor := event_seq\<rparr>)
       else Inr ((), db))"

text \<open>INSERT INTO \<open>message_outbox\<close>: \<open>event_id\<close> is the primary key, \<open>source_event_seq\<close> is UNIQUE.\<close>

definition insert_outbox :: "outbox_row \<Rightarrow> ledger_db \<Rightarrow> ledger_error + ledger_db" where
  "insert_outbox r db =
     (if ob_event_id r \<in> ob_event_id ` set (message_outbox db)
      then Inl (Db (UniqueViolation ''message_outbox.event_id''))
      else if ob_source_event_seq r \<in> ob_source_event_seq ` set (message_outbox db)
      then Inl (Db (UniqueViolation ''message_outbox.source_event_seq''))
      else Inr (db\<lparr>message_outbox := message_outbox db @ [r]\<rparr>))"

definition enqueue_signed_message ::
  "i64 \<Rightarrow> u64 \<Rightarrow> string \<Rightarrow> string \<Rightarrow> ledger_db \<Rightarrow> unit ledger_result" where
  "enqueue_signed_message now source_event_seq event_id signed_event_json db =
     andthen (to_i64 source_event_seq) (\<lambda>source_seq.
       let current = message_cursor db in
       if source_seq \<le> current then Inl (Queue NotAheadOfCursor)
       else andthen (insert_outbox
         \<lparr>ob_event_id = event_id, ob_signed_event_json = signed_event_json,
          ob_status = Ob_pending, ob_attempts = 0, ob_last_error = None, ob_created_at = now,
          ob_source_event_seq = source_seq\<rparr> db) (\<lambda>db1.
           Inr ((), db1\<lparr>message_cursor := source_seq\<rparr>)))"

definition publishable :: "outbox_row \<Rightarrow> bool" where
  "publishable r \<longleftrightarrow> ob_status r \<in> {Ob_pending, Ob_failed}"

definition outbox_entry_of :: "outbox_row \<Rightarrow> ledger_error + outbox_entry" where
  "outbox_entry_of r =
     andthen (to_u64 (ob_source_event_seq r)) (\<lambda>seq.
     andthen (to_u64 (ob_attempts r)) (\<lambda>attempts.
       Inr \<lparr>oe_event_id = ob_event_id r, oe_signed_event_json = ob_signed_event_json r,
            oe_source_event_seq = seq, oe_attempts = attempts\<rparr>))"

text \<open>ORDER BY \<open>source_event_seq\<close>, \<open>created_at\<close> LIMIT 1: a stable sort by the second key, then by the
  first, and the head of the result.\<close>

definition next_outbox_entry :: "ledger_db \<Rightarrow> ledger_error + outbox_entry option" where
  "next_outbox_entry db =
     (case sort_key ob_source_event_seq (sort_key ob_created_at
             (filter publishable (message_outbox db))) of
        [] \<Rightarrow> Inr None
      | r # _ \<Rightarrow> andthen (outbox_entry_of r) (\<lambda>entry. Inr (Some entry)))"

definition mark_outbox ::
  "string \<Rightarrow> (outbox_row \<Rightarrow> outbox_row) \<Rightarrow> ledger_db \<Rightarrow> unit ledger_result" where
  "mark_outbox event_id f db =
     (let p = (\<lambda>r. ob_event_id r = event_id \<and> publishable r) in
      if count_where p (message_outbox db) \<noteq> 1 then Inl (Queue NotPendingPublication)
      else Inr ((), db\<lparr>message_outbox := update_where p f (message_outbox db)\<rparr>))"

definition mark_outbox_published :: "string \<Rightarrow> ledger_db \<Rightarrow> unit ledger_result" where
  "mark_outbox_published event_id = mark_outbox event_id
     (\<lambda>r. r\<lparr>ob_status := Ob_published, ob_attempts := ob_attempts r + 1, ob_last_error := None\<rparr>)"

definition mark_outbox_failed :: "string \<Rightarrow> string \<Rightarrow> ledger_db \<Rightarrow> unit ledger_result" where
  "mark_outbox_failed event_id error = mark_outbox event_id
     (\<lambda>r. r\<lparr>ob_status := Ob_failed, ob_attempts := ob_attempts r + 1,
            ob_last_error := Some (truncate_error error)\<rparr>)"

section \<open>Invariant\<close>

text \<open>The stored messages are in strictly increasing event order, none beyond the cursor.\<close>

definition outbox_inv :: "ledger_db \<Rightarrow> bool" where
  "outbox_inv db \<longleftrightarrow>
     0 \<le> message_cursor db \<and> message_cursor db \<le> i64_max
     \<and> distinct (map ob_event_id (message_outbox db))
     \<and> sorted_wrt (<) (map ob_source_event_seq (message_outbox db))
     \<and> (\<forall>r \<in> set (message_outbox db). 0 < ob_source_event_seq r
          \<and> ob_source_event_seq r \<le> message_cursor db \<and> 0 \<le> ob_attempts r)"

lemma outbox_inv_empty: "outbox_inv empty_db"
  by (simp add: outbox_inv_def empty_db_def i64_max_def)

lemma outbox_inv_cong:
  assumes "message_outbox db' = message_outbox db" "message_cursor db' = message_cursor db"
  shows "outbox_inv db' \<longleftrightarrow> outbox_inv db"
  using assms by (simp add: outbox_inv_def)

lemma strict_sorted_snoc:
  "sorted_wrt (<) xs \<Longrightarrow> \<forall>x \<in> set xs. x < (y :: int) \<Longrightarrow> sorted_wrt (<) (xs @ [y])"
  by (simp add: sorted_wrt_append)

lemma advance_outbox_inv:
  "advance_message_cursor s db = Inr ((), db') \<Longrightarrow> outbox_inv db \<Longrightarrow> outbox_inv db'"
  by (fastforce simp: advance_message_cursor_def res_simps to_i64_Inr Let_def outbox_inv_def
      split: if_splits)

lemma enqueue_Inr:
  "enqueue_signed_message now s eid json db = Inr (u, db') \<longleftrightarrow>
     uint s \<le> i64_max \<and> message_cursor db < uint s
     \<and> eid \<notin> ob_event_id ` set (message_outbox db)
     \<and> uint s \<notin> ob_source_event_seq ` set (message_outbox db)
     \<and> db' = db\<lparr>message_outbox := message_outbox db @
           [\<lparr>ob_event_id = eid, ob_signed_event_json = json, ob_status = Ob_pending,
             ob_attempts = 0, ob_last_error = None, ob_created_at = now,
             ob_source_event_seq = uint s\<rparr>], message_cursor := uint s\<rparr>"
  by (auto simp: enqueue_signed_message_def insert_outbox_def res_simps to_i64_Inr Let_def
      split: if_splits)

lemma enqueue_outbox_inv:
  assumes "enqueue_signed_message now s eid json db = Inr (u, db')" "outbox_inv db"
  shows "outbox_inv db'"
proof -
  from assms have "\<forall>x \<in> set (map ob_source_event_seq (message_outbox db)). x < uint s"
    by (auto simp: enqueue_Inr outbox_inv_def)
  from strict_sorted_snoc [OF _ this] assms show ?thesis
    by (auto simp: enqueue_Inr outbox_inv_def)
qed

lemma mark_outbox_inv:
  assumes "mark_outbox eid f db = Inr (u, db')" "outbox_inv db"
    and "\<And>r. ob_event_id (f r) = ob_event_id r" "\<And>r. ob_source_event_seq (f r) = ob_source_event_seq r"
      "\<And>r. 0 \<le> ob_attempts r \<Longrightarrow> 0 \<le> ob_attempts (f r)"
  shows "outbox_inv db'"
proof -
  from assms(1) have db': "db' = db\<lparr>message_outbox :=
      update_where (\<lambda>r. ob_event_id r = eid \<and> publishable r) f (message_outbox db)\<rparr>"
    by (auto simp: mark_outbox_def Let_def split: if_splits)
  have "map ob_event_id (message_outbox db') = map ob_event_id (message_outbox db)"
    "map ob_source_event_seq (message_outbox db') = map ob_source_event_seq (message_outbox db)"
    by (simp_all add: db' update_where_def assms(3,4))
  moreover have "\<forall>r \<in> set (message_outbox db'). 0 < ob_source_event_seq r
      \<and> ob_source_event_seq r \<le> message_cursor db \<and> 0 \<le> ob_attempts r"
    using assms(2) by (auto simp: db' update_where_def outbox_inv_def assms(3-5))
  moreover have "message_cursor db' = message_cursor db" by (simp add: db')
  ultimately show ?thesis using assms(2) by (simp add: outbox_inv_def)
qed

lemma mark_published_inv:
  "mark_outbox_published eid db = Inr (u, db') \<Longrightarrow> outbox_inv db \<Longrightarrow> outbox_inv db'"
  unfolding mark_outbox_published_def by (erule mark_outbox_inv) simp_all

lemma mark_failed_inv:
  "mark_outbox_failed eid e db = Inr (u, db') \<Longrightarrow> outbox_inv db \<Longrightarrow> outbox_inv db'"
  unfolding mark_outbox_failed_def by (erule mark_outbox_inv) simp_all

lemma find_filter: "find p xs = (case filter p xs of [] \<Rightarrow> None | x # _ \<Rightarrow> Some x)"
  by (induction xs) auto

text \<open>Under the invariant the next entry is the oldest unpublished one.\<close>

lemma next_outbox_eq:
  assumes "outbox_inv db"
  shows "next_outbox_entry db =
    (case find publishable (message_outbox db) of
       None \<Rightarrow> Inr None
     | Some r \<Rightarrow> Inr (Some \<lparr>oe_event_id = ob_event_id r,
         oe_signed_event_json = ob_signed_event_json r,
         oe_source_event_seq = word_of_int (ob_source_event_seq r),
         oe_attempts = word_of_int (ob_attempts r)\<rparr>))"
proof -
  let ?k = ob_source_event_seq and ?rs = "filter publishable (message_outbox db)"
  have "sorted_wrt (<) (map ?k (message_outbox db))" using assms by (simp add: outbox_inv_def)
  then have s: "sorted (map ?k ?rs)" "distinct (map ?k ?rs)"
    using sorted_filter [of ?k "message_outbox db" publishable]
    by (auto simp: strict_sorted_iff distinct_map_filter)
  have "sort_key ?k (sort_key ob_created_at ?rs) = ?rs"
    by (rule sort_key_inj_key_eq) (use s in \<open>simp_all add: distinct_map\<close>)
  moreover have "find publishable (message_outbox db)
      = (case ?rs of [] \<Rightarrow> None | r # _ \<Rightarrow> Some r)"
    by (rule find_filter)
  moreover have "outbox_entry_of r = Inr \<lparr>oe_event_id = ob_event_id r,
      oe_signed_event_json = ob_signed_event_json r,
      oe_source_event_seq = word_of_int (ob_source_event_seq r),
      oe_attempts = word_of_int (ob_attempts r)\<rparr>" if "r \<in> set ?rs" for r
    using that assms by (auto simp: outbox_entry_of_def outbox_inv_def)
  ultimately show ?thesis
    by (cases ?rs) (simp_all add: next_outbox_entry_def)
qed

end
