(* ===== verification/Quote_Domain.thy ===== *)
theory Quote_Domain
  imports Ledger_Credit
begin

text \<open>
  The XMR quote documents of \<open>src/src/quotes.rs\<close>: operator policy, trusted request and context, rate
  evidence, and the stored document that is decoded and checked again whenever it is read.
  \<open>serde_json\<close> and SHA-256 are arguments: \<open>parse_identity\<close>, \<open>parse_document\<close> and \<open>parse_value\<close> for
  \<open>serde_json::from_str\<close> at the three types, \<open>sha256_hex\<close> for the hex digest.
\<close>

section \<open>Errors\<close>

datatype service_error =
    Ledger_Err ledger_error
  | Rate_Err credit_error
  | InvalidPolicy
  | InvalidQuoteRequest
  | InvalidEvidence
  | EvidenceNotJson
  | DocumentUnparsable
  | DocumentMismatch
  | RateOutOfBounds
  | InvalidQuoteNetwork
  | QuoteServiceBusy
  | ClockUnavailable
  | SourceUnavailable
  | SourceChronology
  | ExpiryOverflow
  | AmountLimit

section \<open>Policy\<close>

record quote_policy =
  min_target_sats :: u64
  max_target_sats :: u64
  max_credit_sats :: u64
  max_piconero :: u64
  lifetime_seconds :: u64
  max_rate_age_seconds :: u64
  min_sats_per_xmr :: u64
  max_sats_per_xmr :: u64
  admission_window_seconds :: u64
  max_requests_per_window :: u32
  max_requests_per_client_window :: u32
  max_pending_requests :: u32
  max_retained_requests :: u32

definition policy_validate :: "quote_policy \<Rightarrow> service_error + unit" where
  "policy_validate p =
     (if min_target_sats p = 0
         \<or> max_target_sats p < min_target_sats p
         \<or> max_credit_sats p < max_target_sats p
         \<or> MAX_ACCOUNTING_UNITS < max_credit_sats p
         \<or> max_piconero p = 0
         \<or> MAX_ACCOUNTING_UNITS < max_piconero p
         \<or> min_sats_per_xmr p = 0
         \<or> max_sats_per_xmr p < min_sats_per_xmr p
         \<or> MAX_ACCOUNTING_UNITS < max_sats_per_xmr p
         \<or> lifetime_seconds p = 0
         \<or> 86400 < lifetime_seconds p
         \<or> max_rate_age_seconds p = 0
         \<or> 86400 < max_rate_age_seconds p
         \<or> admission_window_seconds p = 0
         \<or> 86400 < admission_window_seconds p
         \<or> max_requests_per_client_window p = 0
         \<or> max_requests_per_window p < max_requests_per_client_window p
         \<or> max_pending_requests p = 0
         \<or> max_requests_per_window p < max_pending_requests p
         \<or> max_retained_requests p < max_requests_per_window p
      then Inl InvalidPolicy else Inr ())"

section \<open>Requests and identities\<close>

record quote_request =
  qq_id :: uuid
  qq_client_bucket :: string
  qq_address_user :: string
  qq_target_sats :: u64

record quote_context =
  qc_provider :: string
  qc_account_scope :: string
  qc_network :: xmr_network

record identity =
  idn_id :: uuid
  idn_client_bucket :: string
  idn_address_user :: string
  idn_target_sats :: u64
  idn_provider :: string
  idn_account_scope :: string
  idn_network :: string

definition bucket_byte :: "char \<Rightarrow> bool" where
  "bucket_byte c \<longleftrightarrow> is_ascii_digit c \<or> (97 \<le> byte c \<and> byte c \<le> 102)"

definition identity_new :: "quote_request \<Rightarrow> quote_context \<Rightarrow> service_error + identity" where
  "identity_new request context =
     (if qq_id request = nil_uuid
         \<or> length (qq_client_bucket request) \<noteq> 64
         \<or> \<not> list_all bucket_byte (qq_client_bucket request)
         \<or> qq_address_user request
             \<notin> set [''herd'', ''dexter'', ''rowan'', ''cosmo'', ''newton'', ''nova'']
         \<or> qq_target_sats request = 0
         \<or> MAX_ACCOUNTING_UNITS < qq_target_sats request
         \<or> qc_provider context = []
         \<or> 32 < length (qc_provider context)
         \<or> \<not> list_all source_byte (qc_provider context)
         \<or> qc_account_scope context = []
         \<or> 256 < length (qc_account_scope context)
         \<or> has_control (qc_account_scope context)
      then Inl InvalidQuoteRequest
      else Inr
        \<lparr>idn_id = qq_id request, idn_client_bucket = qq_client_bucket request,
         idn_address_user = qq_address_user request, idn_target_sats = qq_target_sats request,
         idn_provider = qc_provider context, idn_account_scope = qc_account_scope context,
         idn_network = network_str (qc_network context)\<rparr>)"

section \<open>Evidence\<close>

definition MAX_RATE_EVIDENCE_BYTES :: nat where
  "MAX_RATE_EVIDENCE_BYTES = 256 * 1024"

definition RESERVATION_SECONDS :: i64 where
  "RESERVATION_SECONDS = 30"

record rate_evidence =
  re_rate :: xmr_btc_rate
  re_fetched_at :: i64
  re_raw_json :: string

definition rate_evidence_new ::
  "(string \<Rightarrow> 'j option) \<Rightarrow> xmr_btc_rate \<Rightarrow> i64 \<Rightarrow> string \<Rightarrow> service_error + rate_evidence" where
  "rate_evidence_new parse_value rate fetched_at raw_json =
     (if fetched_at < observed_at rate \<or> raw_json = [] \<or> MAX_RATE_EVIDENCE_BYTES < length raw_json
      then Inl InvalidEvidence
      else case parse_value raw_json of
        None \<Rightarrow> Inl EvidenceNotJson
      | Some _ \<Rightarrow> Inr \<lparr>re_rate = rate, re_fetched_at = fetched_at, re_raw_json = raw_json\<rparr>)"

definition widen :: "u64 \<Rightarrow> u128" where
  "widen w = ucast w"

definition validate_rate :: "xmr_btc_rate \<Rightarrow> quote_policy \<Rightarrow> service_error + unit" where
  "validate_rate rate policy =
     (let n = sats_per_xmr_numerator rate; d = sats_per_xmr_denominator rate in
      if widen n < widen (min_sats_per_xmr policy) * widen d
         \<or> widen (max_sats_per_xmr policy) * widen d < widen n
      then Inl RateOutOfBounds else Inr ())"

section \<open>Stored quotes\<close>

record document =
  doc_version :: nat
  doc_identity :: string
  doc_policy :: quote_policy
  doc_numerator :: string
  doc_denominator :: string
  doc_source :: string
  doc_observed_at :: i64
  doc_fetched_at :: i64
  doc_issued_at :: i64
  doc_expires_at :: i64
  doc_expected_atomic :: u64
  doc_evidence :: string
  doc_evidence_sha256 :: string

record stored_xmr_quote =
  sq_document_json :: string
  sq_document :: document
  sq_identity :: identity
  sq_quote :: xmr_quote

text \<open>\<open>i64::checked_sub\<close>, and \<open>x as i64\<close>, which reinterprets the bits.\<close>

definition checked_sub_i64 :: "i64 \<Rightarrow> i64 \<Rightarrow> i64 option" where
  "checked_sub_i64 a b = (if in_i64 (a - b) then Some (a - b) else None)"

definition as_i64 :: "u64 \<Rightarrow> i64" where
  "as_i64 w = sint w"

text \<open>The last conditions of \<open>decode\<close>: the document agrees with the quote computed from it.\<close>

definition document_consistent ::
  "(string \<Rightarrow> string) \<Rightarrow> document \<Rightarrow> identity \<Rightarrow> xmr_quote \<Rightarrow> bool" where
  "document_consistent sha256_hex d i q \<longleftrightarrow>
     \<not> (idn_target_sats i < min_target_sats (doc_policy d)
        \<or> max_target_sats (doc_policy d) < idn_target_sats i
        \<or> checked_sub_i64 (doc_expires_at d) (doc_issued_at d)
            \<noteq> Some (as_i64 (lifetime_seconds (doc_policy d)))
        \<or> doc_fetched_at d < doc_observed_at d
        \<or> doc_issued_at d < doc_fetched_at d
        \<or> doc_expected_atomic d \<noteq> expected_atomic (xq_terms q)
        \<or> max_piconero (doc_policy d) < doc_expected_atomic d
        \<or> MAX_RATE_EVIDENCE_BYTES < length (doc_evidence d)
        \<or> doc_evidence d = []
        \<or> doc_evidence_sha256 d \<noteq> sha256_hex (doc_evidence d))"

definition decode ::
  "(string \<Rightarrow> document option) \<Rightarrow> (string \<Rightarrow> identity option) \<Rightarrow> (string \<Rightarrow> string)
     \<Rightarrow> string \<Rightarrow> string \<Rightarrow> service_error + stored_xmr_quote" where
  "decode parse_document parse_identity sha256_hex document_json identity_json =
     andthen (ok_or DocumentUnparsable (parse_document document_json)) (\<lambda>d.
     if doc_version d \<noteq> 1 \<or> doc_identity d \<noteq> identity_json then Inl DocumentMismatch
     else andthen (ok_or DocumentUnparsable (parse_identity identity_json)) (\<lambda>i.
     andthen (policy_validate (doc_policy d)) (\<lambda>_.
     andthen (ok_or DocumentUnparsable (parse_u64 (doc_numerator d))) (\<lambda>num.
     andthen (ok_or DocumentUnparsable (parse_u64 (doc_denominator d))) (\<lambda>den.
     andthen (map_err Rate_Err (xmr_btc_rate_new num den (doc_source d) (doc_observed_at d))) (\<lambda>rate.
     andthen (validate_rate rate (doc_policy d)) (\<lambda>_.
     andthen (map_err Rate_Err (quote_at rate (idn_target_sats i) (doc_issued_at d)
       (doc_expires_at d) (max_rate_age_seconds (doc_policy d)))) (\<lambda>q.
     if \<not> document_consistent sha256_hex d i q then Inl DocumentMismatch
     else Inr \<lparr>sq_document_json = document_json, sq_document = d, sq_identity = i,
               sq_quote = q\<rparr>))))))))"

definition sq_id :: "stored_xmr_quote \<Rightarrow> uuid" where
  "sq_id q = idn_id (sq_identity q)"

definition expired_at :: "stored_xmr_quote \<Rightarrow> i64 \<Rightarrow> bool" where
  "expired_at q now \<longleftrightarrow> xq_expires_at (sq_quote q) \<le> now"

definition credit_intent :: "stored_xmr_quote \<Rightarrow> string \<Rightarrow> service_error + xmr_credit_intent" where
  "credit_intent q receive_scope =
     andthen
       (if idn_network (sq_identity q) = ''mainnet'' then Inr Mainnet
        else if idn_network (sq_identity q) = ''testnet'' then Inr Testnet
        else if idn_network (sq_identity q) = ''stagenet'' then Inr Stagenet
        else Inl InvalidQuoteNetwork) (\<lambda>network.
     Inr \<lparr>xi_id = sq_id q, xi_provider = idn_provider (sq_identity q), xi_network = network,
          xi_account_scope = idn_account_scope (sq_identity q), xi_receive_scope = receive_scope,
          xi_address_user = idn_address_user (sq_identity q), xi_credit_pool = ''herd'',
          xi_quote = sq_quote q, xi_max_credit_sats = max_credit_sats (doc_policy (sq_document q))\<rparr>)"

section \<open>Printing an amount\<close>

text \<open>\<open>{fractional:012}\<close> pads with zeros on the left, \<open>trim_end_matches('0')\<close> drops zeros on the
  right.\<close>

definition pad_zeros :: "nat \<Rightarrow> string \<Rightarrow> string" where
  "pad_zeros n s = replicate (n - length s) CHR ''0'' @ s"

definition trim_end_zeros :: "string \<Rightarrow> string" where
  "trim_end_zeros s = rev (dropWhile (\<lambda>c. c = CHR ''0'') (rev s))"

definition format_xmr :: "u64 \<Rightarrow> string" where
  "format_xmr atomic =
     (let whole = atomic div PICONERO_PER_XMR; fractional = atomic mod PICONERO_PER_XMR in
      if fractional = 0 then show_u64 whole
      else show_u64 whole @ ''.'' @ trim_end_zeros (pad_zeros 12 (show_u64 fractional)))"

end
