(* ===== verification/Ledger_Inbox.thy ===== *)
theory Ledger_Inbox
  imports Domain_Payment "HOL-Library.Product_Lexorder" "HOL-Library.List_Lexorder"
    "HOL-Library.Char_ord"
begin

text \<open>
  The Strike side of the ledger: receive requests (\<open>src/src/ledger/strike.rs\<close>), the durable inbox of
  webhook notifications with its retry schedule and the recovery scan (\<open>src/src/ledger/inbox.rs\<close>), and
  the admission of public invoice creation (\<open>src/src/ledger/admission.rs\<close>). \<open>now\<close> stands for SQLite's
  \<open>unixepoch()\<close>. Text columns are compared bytewise, as SQLite's BINARY collation does.
\<close>

section \<open>Strike receive requests\<close>

record stored_strike_receive_request =
  srr_receive_request_id :: uuid
  srr_address_user :: string
  srr_credit_pool :: string
  srr_amount_msat :: u64
  srr_description_hash :: string
  srr_payment_hash :: string
  srr_invoice :: string
  srr_created_provider :: "string option"

definition validate_hex32 :: "string \<Rightarrow> ledger_error + unit" where
  "validate_hex32 v =
     (if length v \<noteq> 64 \<or> \<not> list_all is_ascii_hexdigit v then Inl (Payment InvalidPaymentHash)
      else Inr ())"

text \<open>SQLite's \<open>length\<close> of a text: the characters before the first NUL.\<close>

definition sql_length :: "string \<Rightarrow> nat" where
  "sql_length s = length (filter (\<lambda>c. \<not> is_continuation c) (takeWhile (\<lambda>c. byte c \<noteq> 0) s))"

definition request_check :: "strike_request_row \<Rightarrow> bool" where
  "request_check r \<longleftrightarrow>
     sql_length (sr_address_user r) \<in> {1..64} \<and> sql_length (sr_credit_pool r) \<in> {1..64}
     \<and> 0 < sr_amount_msat r \<and> sql_length (sr_description_hash r) = 64
     \<and> sql_length (sr_payment_hash r) = 64 \<and> sql_length (sr_invoice r) \<in> {1..8192}"

definition insert_strike_request :: "strike_request_row \<Rightarrow> ledger_db \<Rightarrow> ledger_error + ledger_db" where
  "insert_strike_request r db =
     (if sr_receive_request_id r \<in> sr_receive_request_id ` set (strike_receive_requests db)
      then Inl (Db (UniqueViolation ''strike_receive_requests.receive_request_id''))
      else if sr_payment_hash r \<in> sr_payment_hash ` set (strike_receive_requests db)
      then Inl (Db (UniqueViolation ''strike_receive_requests.payment_hash''))
      else if \<not> request_check r then Inl (Db (CheckViolation ''strike_receive_requests''))
      else Inr (db\<lparr>strike_receive_requests := strike_receive_requests db @ [r]\<rparr>))"

definition request_matches :: "strike_request_row \<Rightarrow> stored_strike_receive_request \<Rightarrow> i64 \<Rightarrow> bool" where
  "request_matches row request amount_msat \<longleftrightarrow>
     sr_address_user row = srr_address_user request
     \<and> sr_credit_pool row = srr_credit_pool request
     \<and> sr_amount_msat row = amount_msat
     \<and> sr_description_hash row = srr_description_hash request
     \<and> sr_payment_hash row = srr_payment_hash request
     \<and> sr_invoice row = srr_invoice request
     \<and> sr_created_provider row = srr_created_provider request"

definition record_strike_receive_request ::
  "i64 \<Rightarrow> stored_strike_receive_request \<Rightarrow> ledger_db \<Rightarrow> unit ledger_result" where
  "record_strike_receive_request now request db =
     andthen (validate_hex32 (srr_description_hash request)) (\<lambda>_.
     andthen (validate_hex32 (srr_payment_hash request)) (\<lambda>_.
     andthen (validate_user (srr_address_user request)) (\<lambda>_.
     andthen (validate_user (srr_credit_pool request)) (\<lambda>_.
     if srr_amount_msat request = 0 then Inl (Payment ZeroAmount)
     else if srr_invoice request = [] \<or> 8192 < length (srr_invoice request)
     then Inl (Queue InvoiceLength)
     else andthen (to_i64 (srr_amount_msat request)) (\<lambda>amount_msat.
       case find (\<lambda>r. sr_receive_request_id r = srr_receive_request_id request)
              (strike_receive_requests db) of
         Some row \<Rightarrow>
           if request_matches row request amount_msat then Inr ((), db)
           else Inl (Queue RequestConflict)
       | None \<Rightarrow>
           andthen (insert_strike_request
             \<lparr>sr_receive_request_id = srr_receive_request_id request,
              sr_address_user = srr_address_user request,
              sr_credit_pool = srr_credit_pool request, sr_amount_msat = amount_msat,
              sr_description_hash = to_ascii_lowercase (srr_description_hash request),
              sr_payment_hash = to_ascii_lowercase (srr_payment_hash request),
              sr_invoice = srr_invoice request,
              sr_created_provider = srr_created_provider request, sr_created_at = now\<rparr> db)
             (\<lambda>db1. Inr ((), db1)))))))"

definition stored_request_of :: "strike_request_row \<Rightarrow> ledger_error + stored_strike_receive_request" where
  "stored_request_of row =
     andthen (to_u64 (sr_amount_msat row)) (\<lambda>amount_msat.
       Inr \<lparr>srr_receive_request_id = sr_receive_request_id row,
            srr_address_user = sr_address_user row, srr_credit_pool = sr_credit_pool row,
            srr_amount_msat = amount_msat, srr_description_hash = sr_description_hash row,
            srr_payment_hash = sr_payment_hash row, srr_invoice = sr_invoice row,
            srr_created_provider = sr_created_provider row\<rparr>)"

definition strike_receive_request ::
  "uuid \<Rightarrow> ledger_db \<Rightarrow> ledger_error + stored_strike_receive_request option" where
  "strike_receive_request request_id db =
     (case find (\<lambda>r. sr_receive_request_id r = request_id) (strike_receive_requests db) of
        None \<Rightarrow> Inr None
      | Some row \<Rightarrow> andthen (stored_request_of row) (\<lambda>request. Inr (Some request)))"

section \<open>The inbox\<close>

record strike_completed_receive_event =
  sce_event_id :: uuid
  sce_receive_request_id :: uuid
  sce_receive_id :: uuid

record strike_inbox_work =
  siw_key :: string
  siw_event :: strike_completed_receive_event
  siw_attempts :: u32

definition INBOX_CAPACITY :: nat where
  "INBOX_CAPACITY = 10000"

definition in_pending :: "inbox_row \<Rightarrow> bool" where
  "in_pending r \<longleftrightarrow> in_status r = In_pending"

definition enqueue_strike_work ::
  "i64 \<Rightarrow> string \<Rightarrow> strike_completed_receive_event \<Rightarrow> ledger_db \<Rightarrow> unit ledger_result" where
  "enqueue_strike_work now key event db =
     (case find (\<lambda>r. in_work_key r = key) (strike_inbox db) of
        Some row \<Rightarrow>
          if in_receive_request_id row \<noteq> sce_receive_request_id event
             \<or> in_receive_id row \<noteq> sce_receive_id event
          then Inl (Queue InboxConflict)
          else Inr ((), db)
      | None \<Rightarrow>
          if INBOX_CAPACITY \<le> count_where in_pending (strike_inbox db)
          then Inl (Queue InboxFull)
          else Inr ((), db\<lparr>strike_inbox := strike_inbox db
            @ [\<lparr>in_work_key = key, in_event_id = sce_event_id event,
                 in_receive_request_id = sce_receive_request_id event,
                 in_receive_id = sce_receive_id event, in_status = In_pending, in_attempts = 0,
                 in_next_attempt = now, in_created_at = now, in_completed_at = None\<rparr>]\<rparr>))"

definition enqueue_strike_event ::
  "i64 \<Rightarrow> strike_completed_receive_event \<Rightarrow> ledger_db \<Rightarrow> unit ledger_result" where
  "enqueue_strike_event now event db =
     enqueue_strike_work now (''webhook:'' @ sce_event_id event) event db"

definition to_u32 :: "i64 \<Rightarrow> ledger_error + u32" where
  "to_u32 i = (if 0 \<le> i \<and> i < 2 ^ 32 then Inr (word_of_int i) else Inl (Db UnexpectedlyNegative))"

definition strike_work_due :: "i64 \<Rightarrow> inbox_row \<Rightarrow> bool" where
  "strike_work_due now r \<longleftrightarrow> in_status r \<in> {In_pending, In_quarantined} \<and> in_next_attempt r \<le> now"

definition work_order :: "inbox_row \<Rightarrow> int \<times> int \<times> string" where
  "work_order r = (in_next_attempt r, in_created_at r, in_work_key r)"

definition due_strike_work :: "i64 \<Rightarrow> ledger_db \<Rightarrow> ledger_error + strike_inbox_work option" where
  "due_strike_work now db =
     (case sort_key work_order (filter (strike_work_due now) (strike_inbox db)) of
        [] \<Rightarrow> Inr None
      | r # _ \<Rightarrow> andthen (to_u32 (in_attempts r)) (\<lambda>attempts.
          Inr (Some \<lparr>siw_key = in_work_key r,
            siw_event = \<lparr>sce_event_id = in_event_id r,
              sce_receive_request_id = in_receive_request_id r, sce_receive_id = in_receive_id r\<rparr>,
            siw_attempts = attempts\<rparr>)))"

definition finish_strike_work :: "i64 \<Rightarrow> string \<Rightarrow> ledger_db \<Rightarrow> unit ledger_result" where
  "finish_strike_work now key db =
     Inr ((), db\<lparr>strike_inbox := update_where (\<lambda>r. in_work_key r = key)
       (\<lambda>r. r\<lparr>in_status := In_done, in_completed_at := Some now\<rparr>) (strike_inbox db)\<rparr>)"

definition retry_delay :: "u32 \<Rightarrow> i64" where
  "retry_delay attempts = min (2 ^ unat (min attempts 8)) 300"

definition retry_strike_work :: "i64 \<Rightarrow> string \<Rightarrow> u32 \<Rightarrow> ledger_db \<Rightarrow> unit ledger_result" where
  "retry_strike_work now key attempts db =
     (let quarantined = (7 \<le> attempts) in
      Inr ((), db\<lparr>strike_inbox := update_where
        (\<lambda>r. in_work_key r = key \<and> in_status r \<in> {In_pending, In_quarantined})
        (\<lambda>r. r\<lparr>in_attempts := min (in_attempts r + 1) 30,
               in_status := (if quarantined then In_quarantined else In_pending),
               in_next_attempt := now + (if quarantined then 3600 else retry_delay attempts)\<rparr>)
        (strike_inbox db)\<rparr>))"

section \<open>The recovery scan\<close>

text \<open>The LEFT JOIN of the requests with their scan state.\<close>

definition scan_of :: "strike_request_row \<Rightarrow> ledger_db \<Rightarrow> scan_row option" where
  "scan_of r db = find (\<lambda>s. sc_receive_request_id s = sr_receive_request_id r) (strike_recovery_scan db)"

definition scan_next_attempt :: "ledger_db \<Rightarrow> strike_request_row \<Rightarrow> i64" where
  "scan_next_attempt db r =
     (case scan_of r db of None \<Rightarrow> sr_created_at r | Some s \<Rightarrow> sc_next_attempt s)"

definition due_strike_scan ::
  "i64 \<Rightarrow> ledger_db \<Rightarrow> ledger_error + (stored_strike_receive_request \<times> u32 \<times> u32) option" where
  "due_strike_scan now db =
     (case sort_key (\<lambda>r. (scan_next_attempt db r, sr_created_at r, sr_receive_request_id r))
             (filter (\<lambda>r. scan_next_attempt db r \<le> now) (strike_receive_requests db)) of
        [] \<Rightarrow> Inr None
      | r # _ \<Rightarrow>
          andthen (strike_receive_request (sr_receive_request_id r) db) (\<lambda>found.
          andthen (ok_or (Queue RequestDisappeared) found) (\<lambda>request.
          andthen (to_u32 (case scan_of r db of None \<Rightarrow> 0 | Some s \<Rightarrow> sc_page_offset s)) (\<lambda>offset.
          andthen (to_u32 (case scan_of r db of None \<Rightarrow> 0 | Some s \<Rightarrow> sc_attempts s)) (\<lambda>attempts.
            Inr (Some (request, offset, attempts)))))))"

text \<open>The upsert; the foreign key to the request is enforced by the connection.\<close>

definition record_strike_scan ::
  "i64 \<Rightarrow> uuid \<Rightarrow> u32 \<Rightarrow> u32 \<Rightarrow> i64 \<Rightarrow> ledger_db \<Rightarrow> unit ledger_result" where
  "record_strike_scan now request_id offset attempts delay db =
     (let row = \<lparr>sc_receive_request_id = request_id, sc_page_offset = uint offset,
                 sc_attempts = uint attempts, sc_next_attempt = now + delay\<rparr> in
      if request_id \<notin> sr_receive_request_id ` set (strike_receive_requests db)
      then Inl (Db (CheckViolation ''strike_recovery_scan.receive_request_id''))
      else if \<exists>s \<in> set (strike_recovery_scan db). sc_receive_request_id s = request_id
      then Inr ((), db\<lparr>strike_recovery_scan :=
        update_where (\<lambda>s. sc_receive_request_id s = request_id) (\<lambda>_. row)
          (strike_recovery_scan db)\<rparr>)
      else Inr ((), db\<lparr>strike_recovery_scan := strike_recovery_scan db @ [row]\<rparr>))"

section \<open>Invoice admission\<close>

definition admission_stale :: "i64 \<Rightarrow> admission_row \<Rightarrow> bool" where
  "admission_stale now r \<longleftrightarrow> ad_created_at r \<le> now - 60 \<and> (ad_finished r \<or> ad_expires_at r \<le> now)"

definition admission_recent :: "i64 \<Rightarrow> admission_row \<Rightarrow> bool" where
  "admission_recent now r \<longleftrightarrow> now - 60 < ad_created_at r"

definition admission_active :: "i64 \<Rightarrow> admission_row \<Rightarrow> bool" where
  "admission_active now r \<longleftrightarrow> \<not> ad_finished r \<and> now < ad_expires_at r"

text \<open>\<open>new_id\<close> is the fresh \<open>Uuid::new_v4()\<close>.\<close>

definition reserve_invoice :: "i64 \<Rightarrow> uuid \<Rightarrow> ledger_db \<Rightarrow> uuid option ledger_result" where
  "reserve_invoice now new_id db =
     (let rows = filter (\<lambda>r. \<not> admission_stale now r) (invoice_admissions db);
          recent = count_where (admission_recent now) rows;
          active = count_where (admission_active now) rows;
          recently_issued =
            count_where (\<lambda>r. now - 86400 < sr_created_at r) (strike_receive_requests db)
      in if 30 \<le> recent \<or> 4 \<le> active \<or> 10000 \<le> recently_issued + active
         then Inr (None, db\<lparr>invoice_admissions := rows\<rparr>)
         else if new_id \<in> ad_id ` set rows
         then Inl (Db (UniqueViolation ''invoice_admissions.id''))
         else Inr (Some new_id, db\<lparr>invoice_admissions := rows
           @ [\<lparr>ad_id = new_id, ad_created_at = now, ad_expires_at = now + 30,
                ad_finished = False\<rparr>]\<rparr>))"

definition finish_invoice_admission :: "uuid \<Rightarrow> ledger_db \<Rightarrow> unit ledger_result" where
  "finish_invoice_admission admission_id db =
     Inr ((), db\<lparr>invoice_admissions := update_where (\<lambda>r. ad_id r = admission_id)
       (\<lambda>r. r\<lparr>ad_finished := True\<rparr>) (invoice_admissions db)\<rparr>)"

section \<open>The inbox invariant\<close>

text \<open>
  Only rows that have failed at least eight times are quarantined, so a quarantined row never
  returns to \<open>pending\<close> and the capacity bound on pending rows is an invariant.
\<close>

definition inbox_inv :: "ledger_db \<Rightarrow> bool" where
  "inbox_inv db \<longleftrightarrow>
     distinct (map in_work_key (strike_inbox db))
     \<and> count_where in_pending (strike_inbox db) \<le> INBOX_CAPACITY
     \<and> (\<forall>r \<in> set (strike_inbox db). 0 \<le> in_attempts r \<and> in_attempts r \<le> 30
          \<and> (in_status r = In_quarantined \<longrightarrow> 8 \<le> in_attempts r))"

lemma inbox_inv_empty: "inbox_inv empty_db"
  by (simp add: inbox_inv_def empty_db_def count_where_def)

lemma inbox_inv_cong: "strike_inbox db' = strike_inbox db \<Longrightarrow> inbox_inv db' \<longleftrightarrow> inbox_inv db"
  by (simp add: inbox_inv_def)

text \<open>The steps of the inbox: notifications arrive, and the worker finishes or retries a row with
  the attempt count it read from it.\<close>

inductive inbox_step :: "ledger_db \<Rightarrow> ledger_db \<Rightarrow> bool" where
  enqueue: "enqueue_strike_work now key event db = Inr ((), db') \<Longrightarrow> inbox_step db db'"
| finish: "finish_strike_work now key db = Inr ((), db') \<Longrightarrow> inbox_step db db'"
| retry: "r \<in> set (strike_inbox db) \<Longrightarrow> to_u32 (in_attempts r) = Inr attempts \<Longrightarrow>
     retry_strike_work now (in_work_key r) attempts db = Inr ((), db') \<Longrightarrow> inbox_step db db'"

lemma count_where_map_le:
  "(\<And>r. r \<in> set rs \<Longrightarrow> p (f r) \<Longrightarrow> p r) \<Longrightarrow> count_where p (map f rs) \<le> count_where p rs"
  by (induction rs) (auto simp: table_simps intro: le_SucI)

lemma to_u32_Inr: "to_u32 i = Inr w \<longleftrightarrow> 0 \<le> i \<and> i < 2 ^ 32 \<and> w = word_of_int i"
  by (auto simp: to_u32_def)

lemma u32_le_small: "0 \<le> i \<Longrightarrow> i < 2 ^ 32 \<Longrightarrow> (7 \<le> (word_of_int i :: u32)) \<longleftrightarrow> 7 \<le> i"
  by (simp add: word_le_def uint_word_of_int)

lemma inbox_step_inv:
  assumes "inbox_step db db'" "inbox_inv db"
  shows "inbox_inv db'"
  using assms
proof (induction rule: inbox_step.induct)
  case (enqueue now key event db db')
  then show ?case
    by (auto simp: enqueue_strike_work_def inbox_inv_def find_None table_simps in_pending_def
        split: option.splits if_splits)
next
  case (finish now key db db')
  let ?f = "\<lambda>r. if in_work_key r = key
     then r\<lparr>in_status := In_done, in_completed_at := Some now\<rparr> else r"
  have db': "strike_inbox db' = map ?f (strike_inbox db)"
    using finish.hyps by (auto simp: finish_strike_work_def update_where_def)
  have "map in_work_key (strike_inbox db') = map in_work_key (strike_inbox db)"
    by (simp add: db')
  moreover have "count_where in_pending (strike_inbox db') \<le> count_where in_pending (strike_inbox db)"
    unfolding db' by (rule count_where_map_le) (simp add: in_pending_def split: if_splits)
  moreover have "\<forall>x \<in> set (strike_inbox db'). 0 \<le> in_attempts x \<and> in_attempts x \<le> 30
      \<and> (in_status x = In_quarantined \<longrightarrow> 8 \<le> in_attempts x)"
    using finish.prems by (auto simp: inbox_inv_def db')
  ultimately show ?case
    using finish.prems by (simp add: inbox_inv_def)
next
  case (retry r db attempts now db')
  let ?q = "7 \<le> attempts"
  let ?hit = "\<lambda>x. in_work_key x = in_work_key r \<and> in_status x \<in> {In_pending, In_quarantined}"
  let ?f = "\<lambda>x. if ?hit x then x\<lparr>in_attempts := min (in_attempts x + 1) 30,
       in_status := (if ?q then In_quarantined else In_pending),
       in_next_attempt := now + (if ?q then 3600 else retry_delay attempts)\<rparr> else x"
  have db': "strike_inbox db' = map ?f (strike_inbox db)"
    using retry.hyps(3) by (auto simp: retry_strike_work_def update_where_def Let_def)
  have same: "x = r" if "x \<in> set (strike_inbox db)" "in_work_key x = in_work_key r" for x
    using that retry.hyps(1) retry.prems by (auto simp: inbox_inv_def distinct_map dest: inj_onD)
  have q: "?q \<longleftrightarrow> 7 \<le> in_attempts r"
    using retry.hyps(2) by (auto simp: to_u32_Inr u32_le_small)
  have row: "0 \<le> in_attempts x \<and> in_attempts x \<le> 30
      \<and> (in_status x = In_quarantined \<longrightarrow> 8 \<le> in_attempts x)" if "x \<in> set (strike_inbox db)" for x
    using retry.prems that by (simp add: inbox_inv_def)
  have "map in_work_key (strike_inbox db') = map in_work_key (strike_inbox db)"
    by (simp add: db')
  moreover have "count_where in_pending (strike_inbox db') \<le> count_where in_pending (strike_inbox db)"
    unfolding db'
  proof (rule count_where_map_le)
    fix x assume x: "x \<in> set (strike_inbox db)" "in_pending (?f x)"
    show "in_pending x"
    proof (cases "?hit x")
      case True
      with x(2) q have "in_attempts r < 7" by (auto simp: in_pending_def split: if_splits)
      with row [OF x(1)] same [OF x(1)] True show ?thesis by (auto simp: in_pending_def)
    next
      case False
      then have "?f x = x" by (rule if_not_P)
      with x(2) show ?thesis by simp
    qed
  qed
  moreover have bound: "0 \<le> in_attempts (?f x) \<and> in_attempts (?f x) \<le> 30
      \<and> (in_status (?f x) = In_quarantined \<longrightarrow> 8 \<le> in_attempts (?f x))"
    if "x \<in> set (strike_inbox db)" for x
    using row [OF that] same [OF that] q by (cases "?hit x") auto
  moreover have "\<forall>x \<in> set (strike_inbox db'). 0 \<le> in_attempts x \<and> in_attempts x \<le> 30
      \<and> (in_status x = In_quarantined \<longrightarrow> 8 \<le> in_attempts x)"
    unfolding db' set_map
  proof (rule ballI)
    fix y assume "y \<in> ?f ` set (strike_inbox db)"
    then obtain x where x: "y = ?f x" "x \<in> set (strike_inbox db)" by (rule imageE)
    show "0 \<le> in_attempts y \<and> in_attempts y \<le> 30
        \<and> (in_status y = In_quarantined \<longrightarrow> 8 \<le> in_attempts y)"
      unfolding x(1) by (rule bound [OF x(2)])
  qed
  ultimately show ?case
    using retry.prems by (simp add: inbox_inv_def)
qed

text \<open>The row the worker takes is due and no due row was due before it.\<close>

lemma due_strike_work_Some:
  assumes "due_strike_work now db = Inr (Some w)"
  obtains r where "r \<in> set (strike_inbox db)" "strike_work_due now r" "in_work_key r = siw_key w"
    "\<forall>x \<in> set (strike_inbox db). strike_work_due now x \<longrightarrow> in_next_attempt r \<le> in_next_attempt x"
proof -
  let ?rs = "sort_key work_order (filter (strike_work_due now) (strike_inbox db))"
  from assms obtain r rs where rs: "?rs = r # rs" and w: "siw_key w = in_work_key r"
    by (auto simp: due_strike_work_def res_simps split: list.splits)
  have "set (r # rs) = {x \<in> set (strike_inbox db). strike_work_due now x}"
    unfolding rs [symmetric] by simp
  moreover have "\<forall>x \<in> set rs. work_order r \<le> work_order x"
    using sorted_sort_key [of work_order "filter (strike_work_due now) (strike_inbox db)"]
    unfolding rs by simp
  then have "\<forall>x \<in> set (r # rs). in_next_attempt r \<le> in_next_attempt x"
    by (auto simp: work_order_def less_eq_prod_def)
  ultimately show ?thesis using that [of r] w by auto
qed

lemma due_strike_work_None:
  "due_strike_work now db = Inr None \<Longrightarrow> r \<in> set (strike_inbox db) \<Longrightarrow> \<not> strike_work_due now r"
  by (auto simp: due_strike_work_def res_simps filter_empty_conv split: list.splits
      dest: arg_cong [where f = set])

section \<open>The admission window\<close>

text \<open>
  A run of the admission: invoices are reserved and finished while the other operations leave the
  table alone. \<open>granted\<close> collects the times of the successful reservations, \<open>t\<close> is the clock.
\<close>

inductive admission_run :: "i64 list \<Rightarrow> i64 \<Rightarrow> ledger_db \<Rightarrow> bool" where
  start: "invoice_admissions db = [] \<Longrightarrow> admission_run [] t db"
| reserved: "admission_run granted t db \<Longrightarrow> t \<le> now \<Longrightarrow>
     reserve_invoice now new_id db = Inr (Some x, db') \<Longrightarrow> admission_run (granted @ [now]) now db'"
| refused: "admission_run granted t db \<Longrightarrow> t \<le> now \<Longrightarrow>
     reserve_invoice now new_id db = Inr (None, db') \<Longrightarrow> admission_run granted now db'"
| finished: "admission_run granted t db \<Longrightarrow>
     finish_invoice_admission x db = Inr ((), db') \<Longrightarrow> admission_run granted t db'"
| other: "admission_run granted t db \<Longrightarrow>
     invoice_admissions db' = invoice_admissions db \<Longrightarrow> admission_run granted t db'"

text \<open>The rows younger than a minute are exactly the grants of the last minute.\<close>

definition window_inv :: "i64 list \<Rightarrow> i64 \<Rightarrow> ledger_db \<Rightarrow> bool" where
  "window_inv granted t db \<longleftrightarrow>
     (\<forall>x \<in> set granted. x \<le> t)
     \<and> (\<forall>u \<ge> t. filter (\<lambda>x. u - 60 < x) granted
          = map ad_created_at (filter (admission_recent u) (invoice_admissions db)))
     \<and> count_where (admission_active t) (invoice_admissions db) \<le> 4
     \<and> (\<forall>u. length (filter (\<lambda>x. u - 60 < x \<and> x \<le> u) granted) \<le> 30)"

lemma recent_not_stale:
  "now \<le> u \<Longrightarrow> filter (admission_recent u) (filter (\<lambda>r. \<not> admission_stale now r) rs)
     = filter (admission_recent u) rs"
  unfolding filter_filter
  by (rule filter_cong) (auto simp: admission_recent_def admission_stale_def)

lemma active_mono:
  "t \<le> now \<Longrightarrow> count_where (admission_active now) (filter p rs) \<le> count_where (admission_active t) rs"
  by (induction rs) (auto simp: table_simps admission_active_def)

lemma reserve_invoice_None:
  "reserve_invoice now i db = Inr (None, db') \<Longrightarrow> db' = db\<lparr>invoice_admissions :=
     filter (\<lambda>r. \<not> admission_stale now r) (invoice_admissions db)\<rparr>"
  by (simp add: reserve_invoice_def Let_def split: if_splits)

lemma reserve_invoice_Some:
  assumes "reserve_invoice now i db = Inr (Some x, db')"
  shows "x = i" "db' = db\<lparr>invoice_admissions :=
      filter (\<lambda>r. \<not> admission_stale now r) (invoice_admissions db)
        @ [\<lparr>ad_id = i, ad_created_at = now, ad_expires_at = now + 30, ad_finished = False\<rparr>]\<rparr>"
    "length (filter (admission_recent now) (invoice_admissions db)) < 30"
    "count_where (admission_active now)
       (filter (\<lambda>r. \<not> admission_stale now r) (invoice_admissions db)) < 4"
  using assms recent_not_stale [of now now "invoice_admissions db"]
  by (auto simp: reserve_invoice_def Let_def count_where_def split: if_splits)

lemma window_granted:
  assumes inv: "window_inv granted t db" and t: "t \<le> now"
    and ok: "reserve_invoice now i db = Inr (Some x, db')"
  shows "window_inv (granted @ [now]) now db'"
proof -
  note some = reserve_invoice_Some [OF ok]
  have old: "filter (\<lambda>x. u - 60 < x) granted
      = map ad_created_at (filter (admission_recent u) (invoice_admissions db))" if "now \<le> u" for u
    using inv t that unfolding window_inv_def by (meson order_trans)
  have le: "\<forall>x \<in> set granted. x \<le> t" using inv by (simp add: window_inv_def)
  have bound: "length (filter (\<lambda>x. u - 60 < x \<and> x \<le> u) (granted @ [now])) \<le> 30" for u
  proof (cases "now \<le> u")
    case True
    have "length (filter (\<lambda>x. u - 60 < x \<and> x \<le> u) granted)
        \<le> length (filter (\<lambda>x. now - 60 < x) granted)"
      using True by (induction granted) auto
    also have "\<dots> < 30" using old [of now] some(3) by simp
    finally show ?thesis by simp
  next
    case False
    then show ?thesis using inv by (simp add: window_inv_def)
  qed
  have "filter (\<lambda>x. u - 60 < x) (granted @ [now])
      = map ad_created_at (filter (admission_recent u) (invoice_admissions db'))" if "now \<le> u" for u
    using old [OF that] recent_not_stale [OF that] by (simp add: some(2) admission_recent_def)
  moreover have "count_where (admission_active now) (invoice_admissions db') \<le> 4"
    using some(4) by (simp add: some(2) table_simps)
  moreover have "\<forall>x \<in> set (granted @ [now]). x \<le> now" using le t by auto
  ultimately show ?thesis using bound unfolding window_inv_def by blast
qed

lemma window_refused:
  assumes inv: "window_inv granted t db" and t: "t \<le> now"
    and ok: "reserve_invoice now i db = Inr (None, db')"
  shows "window_inv granted now db'"
proof -
  note none = reserve_invoice_None [OF ok]
  have "filter (\<lambda>x. u - 60 < x) granted
      = map ad_created_at (filter (admission_recent u) (invoice_admissions db'))" if "now \<le> u" for u
  proof -
    from t that have "t \<le> u" by simp
    with inv recent_not_stale [OF that] show ?thesis by (simp add: window_inv_def none)
  qed
  moreover have "count_where (admission_active now) (invoice_admissions db') \<le> 4"
    using inv active_mono [OF t, of "\<lambda>r. \<not> admission_stale now r" "invoice_admissions db"]
    by (simp add: none window_inv_def)
  moreover have "\<forall>x \<in> set granted. x \<le> now" using inv t by (auto simp: window_inv_def)
  moreover have "\<forall>u. length (filter (\<lambda>x. u - 60 < x \<and> x \<le> u) granted) \<le> 30"
    using inv by (simp add: window_inv_def)
  ultimately show ?thesis unfolding window_inv_def by blast
qed

lemma window_finished:
  assumes inv: "window_inv granted t db" and ok: "finish_invoice_admission x db = Inr ((), db')"
  shows "window_inv granted t db'"
proof -
  let ?f = "\<lambda>r. if ad_id r = x then r\<lparr>ad_finished := True\<rparr> else r"
  have db': "invoice_admissions db' = map ?f (invoice_admissions db)"
    using ok by (auto simp: finish_invoice_admission_def update_where_def)
  have "map ad_created_at (filter (admission_recent u) (map ?f rs))
      = map ad_created_at (filter (admission_recent u) rs)" for u rs
    by (induction rs) (auto simp: admission_recent_def)
  moreover have "count_where (admission_active t) (map ?f (invoice_admissions db))
      \<le> count_where (admission_active t) (invoice_admissions db)"
    by (rule count_where_map_le) (auto simp: admission_active_def split: if_splits)
  ultimately show ?thesis using inv unfolding window_inv_def db' by auto
qed

lemma admission_run_inv: "admission_run granted t db \<Longrightarrow> window_inv granted t db"
proof (induction rule: admission_run.induct)
  case (start db t)
  then show ?case by (simp add: window_inv_def count_where_def)
next
  case (other granted t db db')
  then show ?case by (simp add: window_inv_def)
qed (auto intro: window_granted window_refused window_finished)

section \<open>Properties\<close>

text \<open>C39: However reservations, completions and the other operations of the ledger interleave, at
  most 30 public invoices are admitted in any window of 60 seconds, and at most 4 admissions are
  unfinished and unexpired at a time, as long as the clock does not run backwards.\<close>

theorem invoice_admission_is_rate_limited:
  assumes "admission_run granted t db"
  shows "(\<forall>u. length (filter (\<lambda>x. u - 60 < x \<and> x \<le> u) granted) \<le> 30)
    \<and> count_where (admission_active t) (invoice_admissions db) \<le> 4"
  using admission_run_inv [OF assms] by (simp add: window_inv_def)

definition sample_admission :: admission_row where
  "sample_admission = \<lparr>ad_id = ''a'', ad_created_at = 100, ad_expires_at = 130, ad_finished = False\<rparr>"

theorem invoice_admission_is_rate_limited_witness:
  "\<exists>db :: ledger_db. invoice_admissions db = [sample_admission\<lparr>ad_finished := True\<rparr>,
        \<lparr>ad_id = ''b'', ad_created_at = 130, ad_expires_at = 160, ad_finished = False\<rparr>]
     \<and> length (filter (\<lambda>x. 150 - 60 < x \<and> x \<le> 150) [100, 130 :: int]) \<le> 30
     \<and> count_where (admission_active 130) (invoice_admissions db) \<le> 4"
proof -
  let ?a = "sample_admission"
  let ?b = "\<lparr>ad_id = ''b'', ad_created_at = 130, ad_expires_at = 160, ad_finished = False\<rparr>"
  have 1: "admission_run [] 0 empty_db" by (rule admission_run.start) (simp add: empty_db_def)
  have "reserve_invoice 100 ''a'' empty_db = Inr (Some ''a'', empty_db\<lparr>invoice_admissions := [?a]\<rparr>)"
    by (simp add: reserve_invoice_def empty_db_def count_where_def sample_admission_def)
  from admission_run.reserved [OF 1 _ this]
  have 2: "admission_run [100] 100 (empty_db\<lparr>invoice_admissions := [?a]\<rparr>)" by simp
  have "finish_invoice_admission ''a'' (empty_db\<lparr>invoice_admissions := [?a]\<rparr>)
      = Inr ((), empty_db\<lparr>invoice_admissions := [?a\<lparr>ad_finished := True\<rparr>]\<rparr>)"
    by (simp add: finish_invoice_admission_def update_where_def sample_admission_def)
  from admission_run.finished [OF 2 this]
  have 3: "admission_run [100] 100 (empty_db\<lparr>invoice_admissions := [?a\<lparr>ad_finished := True\<rparr>]\<rparr>)" .
  have "reserve_invoice 130 ''b'' (empty_db\<lparr>invoice_admissions := [?a\<lparr>ad_finished := True\<rparr>]\<rparr>)
      = Inr (Some ''b'', empty_db\<lparr>invoice_admissions := [?a\<lparr>ad_finished := True\<rparr>, ?b]\<rparr>)"
    by (simp add: reserve_invoice_def empty_db_def count_where_def sample_admission_def
        admission_stale_def admission_active_def admission_recent_def)
  from admission_run.reserved [OF 3 _ this]
  have "admission_run [100, 130] 130 (empty_db\<lparr>invoice_admissions := [?a\<lparr>ad_finished := True\<rparr>, ?b]\<rparr>)"
    by simp
  from invoice_admission_is_rate_limited [OF this] show ?thesis
    by (intro exI [of _ "empty_db\<lparr>invoice_admissions := [?a\<lparr>ad_finished := True\<rparr>, ?b]\<rparr>"]) simp
qed

text \<open>Whatever notifications arrive and however often their processing fails, the Strike inbox
  holds at most 10,000 pending rows, one row per key, with attempt counts between 0 and 30; a
  notification that failed eight times stays quarantined, outside that capacity.\<close>

theorem strike_inbox_is_bounded:
  assumes "inbox_step\<^sup>*\<^sup>* empty_db db"
  shows "count_where in_pending (strike_inbox db) \<le> INBOX_CAPACITY
    \<and> distinct (map in_work_key (strike_inbox db))
    \<and> list_all (\<lambda>r. in_attempts r \<in> {0..30} \<and> \<not> (in_status r = In_quarantined \<and> in_attempts r < 8))
        (strike_inbox db)"
proof -
  have "inbox_inv db"
    using assms by (induction rule: rtranclp_induct) (auto intro: inbox_inv_empty inbox_step_inv)
  then show ?thesis by (auto simp: inbox_inv_def list_all_iff)
qed

definition sample_event :: strike_completed_receive_event where
  "sample_event = \<lparr>sce_event_id = ''e'', sce_receive_request_id = ''q'', sce_receive_id = ''r''\<rparr>"

definition sample_inbox :: ledger_db where
  "sample_inbox = empty_db\<lparr>strike_inbox :=
     [\<lparr>in_work_key = ''webhook:e'', in_event_id = ''e'', in_receive_request_id = ''q'',
       in_receive_id = ''r'', in_status = In_pending, in_attempts = 0, in_next_attempt = 5,
       in_created_at = 5, in_completed_at = None\<rparr>]\<rparr>"

lemma sample_inbox_step: "inbox_step empty_db sample_inbox"
  by (rule inbox_step.enqueue [of 5 "''webhook:e''" sample_event])
    (simp add: enqueue_strike_work_def sample_event_def sample_inbox_def empty_db_def
      count_where_def INBOX_CAPACITY_def)

theorem strike_inbox_is_bounded_witness:
  "count_where in_pending (strike_inbox sample_inbox) = 1
    \<and> count_where in_pending (strike_inbox sample_inbox) \<le> INBOX_CAPACITY"
  using strike_inbox_is_bounded [OF r_into_rtranclp [where r = inbox_step, OF sample_inbox_step]]
  by (simp add: sample_inbox_def count_where_def in_pending_def)



end
