(* ===== verification/Ledger_Quotes.thy ===== *)
theory Ledger_Quotes
  imports Quote_Domain Ledger_Inbox
begin

text \<open>
  Durable quote issuance: \<open>src/src/ledger/quotes.rs\<close> over the four tables of migration 0011. The
  triggers of that migration only repeat what the code guarantees (\<open>quote_write\<close> below): requests
  change only from \<open>reserved\<close>, bindings never change, the clock and the rate watermarks never go back.
\<close>

section \<open>Clock and lookup\<close>

definition check_clock :: "i64 \<Rightarrow> ledger_db \<Rightarrow> ledger_error + ledger_db" where
  "check_clock now db =
     (if now < xmr_quote_clock db \<or> now < 0 then Inl (Quote ClockRegressed)
      else Inr (db\<lparr>xmr_quote_clock := now\<rparr>))"

definition stored_result :: "quote_row \<Rightarrow> string \<Rightarrow> i64 \<Rightarrow> ledger_error + string" where
  "stored_result row identity_json now =
     (if qr_identity_json row \<noteq> identity_json then Inl (Quote QuoteInputsDiffer)
      else if now < qr_requested_at row then Inl (Quote ClockRegressed)
      else case qr_status row of
        Qs_ready \<Rightarrow> ok_or (Db MissingColumn) (qr_document_json row)
      | Qs_reserved \<Rightarrow>
          if now < qr_reservation_until row then Inl (Quote QuoteInProgress)
          else Inl (Quote QuoteRequestFailed)
      | Qs_failed \<Rightarrow> Inl (Quote QuoteRequestFailed))"

definition find_quote :: "uuid \<Rightarrow> ledger_db \<Rightarrow> quote_row option" where
  "find_quote request_id db = find (\<lambda>r. qr_id r = request_id) (xmr_quote_requests db)"

definition read_xmr_quote :: "uuid \<Rightarrow> string \<Rightarrow> i64 \<Rightarrow> ledger_db \<Rightarrow> ledger_error + string" where
  "read_xmr_quote request_id identity_json now db =
     andthen (ok_or (Quote UnknownQuote) (find_quote request_id db)) (\<lambda>row.
       stored_result row identity_json now)"

section \<open>Reservation\<close>

text \<open>\<open>i64::saturating_sub\<close>.\<close>

definition saturating_sub_i64 :: "i64 \<Rightarrow> i64 \<Rightarrow> i64" where
  "saturating_sub_i64 a b = max i64_min (min i64_max (a - b))"

definition quote_row_check :: "quote_row \<Rightarrow> bool" where
  "quote_row_check r \<longleftrightarrow>
     sql_length (qr_client_bucket r) = 64 \<and> 0 \<le> qr_requested_at r
     \<and> qr_requested_at r < qr_reservation_until r
     \<and> (qr_status r = Qs_ready \<longleftrightarrow> qr_document_json r \<noteq> None)"

definition quotes_since :: "i64 \<Rightarrow> ledger_db \<Rightarrow> nat" where
  "quotes_since since db = count_where (\<lambda>r. since < qr_requested_at r) (xmr_quote_requests db)"

definition client_quotes_since :: "string \<Rightarrow> i64 \<Rightarrow> ledger_db \<Rightarrow> nat" where
  "client_quotes_since bucket since db =
     count_where (\<lambda>r. qr_client_bucket r = bucket \<and> since < qr_requested_at r)
       (xmr_quote_requests db)"

definition pending_quotes :: "i64 \<Rightarrow> ledger_db \<Rightarrow> nat" where
  "pending_quotes now db =
     count_where (\<lambda>r. qr_status r = Qs_reserved \<and> now < qr_reservation_until r)
       (xmr_quote_requests db)"

definition reserve_xmr_quote ::
  "quote_request \<Rightarrow> string \<Rightarrow> quote_policy \<Rightarrow> i64 \<Rightarrow> ledger_db \<Rightarrow> string option ledger_result" where
  "reserve_xmr_quote request identity_json policy now db0 =
     andthen (check_clock now db0) (\<lambda>db.
     case find_quote (qq_id request) db of
       Some row \<Rightarrow> andthen (stored_result row identity_json now) (\<lambda>existing. Inr (Some existing, db))
     | None \<Rightarrow>
         if qq_target_sats request < min_target_sats policy
            \<or> max_target_sats policy < qq_target_sats request
         then Inl (Quote QuoteOutsideBounds)
         else let since = saturating_sub_i64 now (as_i64 (admission_window_seconds policy)) in
         if uint (max_retained_requests policy) \<le> int (length (xmr_quote_requests db))
            \<or> uint (max_requests_per_window policy) \<le> int (quotes_since since db)
            \<or> uint (max_requests_per_client_window policy)
                \<le> int (client_quotes_since (qq_client_bucket request) since db)
            \<or> uint (max_pending_requests policy) \<le> int (pending_quotes now db)
         then Inl (Quote QuoteCapacity)
         else andthen (ok_or (Quote ReservationOverflow) (checked_add_i64 now RESERVATION_SECONDS))
           (\<lambda>until.
           let row = \<lparr>qr_id = qq_id request, qr_identity_json = identity_json,
                      qr_client_bucket = qq_client_bucket request, qr_requested_at = now,
                      qr_reservation_until = until, qr_status = Qs_reserved,
                      qr_document_json = None\<rparr> in
           if \<not> quote_row_check row then Inl (Db (CheckViolation ''xmr_quote_requests''))
           else Inr (None, db\<lparr>xmr_quote_requests := xmr_quote_requests db @ [row]\<rparr>)))"

section \<open>Completion\<close>

text \<open>The rate watermark of the quote's source: never older, never a different rate at one time.\<close>

definition advance_watermark :: "xmr_btc_rate \<Rightarrow> ledger_db \<Rightarrow> ledger_error + ledger_db" where
  "advance_watermark rate db =
     (let n = sats_per_xmr_numerator rate; d = sats_per_xmr_denominator rate;
          row = \<lparr>rw_source = rate_source rate, rw_observed_at = observed_at rate,
                 rw_numerator = show_u64 n, rw_denominator = show_u64 d\<rparr> in
      case find (\<lambda>w. rw_source w = rate_source rate) (xmr_rate_watermarks db) of
        Some prior \<Rightarrow>
          andthen (ok_or (Xmr_Credit RateUnparsable) (parse_u64 (rw_numerator prior))) (\<lambda>pn.
          andthen (ok_or (Xmr_Credit RateUnparsable) (parse_u64 (rw_denominator prior))) (\<lambda>pd.
          if observed_at rate < rw_observed_at prior
             \<or> (rw_observed_at prior = observed_at rate \<and> widen n * widen pd \<noteq> widen pn * widen d)
          then Inl (Quote RateRegressed)
          else if rw_observed_at prior < observed_at rate
          then Inr (db\<lparr>xmr_rate_watermarks :=
            update_where (\<lambda>w. rw_source w = rate_source rate) (\<lambda>_. row) (xmr_rate_watermarks db)\<rparr>)
          else Inr db))
      | None \<Rightarrow> Inr (db\<lparr>xmr_rate_watermarks := xmr_rate_watermarks db @ [row]\<rparr>))"

definition complete_xmr_quote ::
  "uuid \<Rightarrow> string \<Rightarrow> stored_xmr_quote \<Rightarrow> i64 \<Rightarrow> ledger_db \<Rightarrow> unit ledger_result" where
  "complete_xmr_quote request_id identity_json q now db0 =
     andthen (check_clock now db0) (\<lambda>db.
     andthen (ok_or (Db RowNotFound) (find_quote request_id db)) (\<lambda>row.
     if qr_status row \<noteq> Qs_reserved \<or> qr_identity_json row \<noteq> identity_json
        \<or> qr_reservation_until row \<le> now \<or> sq_id q \<noteq> request_id
        \<or> xq_issued_at (sq_quote q) \<noteq> now
     then Inl (Quote ReservationInvalid)
     else andthen (advance_watermark (xq_rate (sq_quote q)) db) (\<lambda>db1.
       Inr ((), db1\<lparr>xmr_quote_requests :=
         update_where (\<lambda>r. qr_id r = request_id \<and> qr_status r = Qs_reserved)
           (\<lambda>r. r\<lparr>qr_status := Qs_ready, qr_document_json := Some (sq_document_json q)\<rparr>)
           (xmr_quote_requests db1)\<rparr>))))"

definition fail_xmr_quote :: "uuid \<Rightarrow> ledger_db \<Rightarrow> unit ledger_result" where
  "fail_xmr_quote request_id db =
     Inr ((), db\<lparr>xmr_quote_requests :=
       update_where (\<lambda>r. qr_id r = request_id \<and> qr_status r = Qs_reserved)
         (\<lambda>r. r\<lparr>qr_status := Qs_failed\<rparr>) (xmr_quote_requests db)\<rparr>)"

section \<open>Binding\<close>

definition insert_binding :: "binding_row \<Rightarrow> ledger_db \<Rightarrow> ledger_error + ledger_db" where
  "insert_binding b db =
     (if qb_quote_id b \<in> qb_quote_id ` set (xmr_quote_bindings db)
      then Inl (Db (UniqueViolation ''xmr_quote_bindings.quote_id''))
      else if qb_valuation_id b \<in> qb_valuation_id ` set (xmr_quote_bindings db)
      then Inl (Db (UniqueViolation ''xmr_quote_bindings.valuation_id''))
      else Inr (db\<lparr>xmr_quote_bindings := xmr_quote_bindings db @ [b]\<rparr>))"

definition bind_xmr_quote ::
  "stored_xmr_quote \<Rightarrow> xmr_credit_intent \<Rightarrow> i64 \<Rightarrow> ledger_db \<Rightarrow> unit ledger_result" where
  "bind_xmr_quote q intent now db0 =
     andthen (check_clock now db0) (\<lambda>db.
     andthen (ok_or (Db RowNotFound)
       (find (\<lambda>r. qr_id r = sq_id q \<and> qr_status r = Qs_ready) (xmr_quote_requests db))) (\<lambda>saved.
     if qr_document_json saved \<noteq> Some (sq_document_json q) then Inl (Quote QuoteChanged)
     else andthen
       (case find (\<lambda>b. qb_quote_id b = sq_id q) (xmr_quote_bindings db) of
          Some row \<Rightarrow>
            if qb_receive_scope row \<noteq> xi_receive_scope intent
               \<or> qb_valuation_id row \<noteq> xmr_id (xi_id intent)
            then Inl (Quote BindingDiffers) else Inr db
        | None \<Rightarrow>
            if now < xq_issued_at (sq_quote q) \<or> xq_expires_at (sq_quote q) \<le> now
            then Inl (Quote CannotBind)
            else andthen (register_xmr_intent_in_transaction intent db) (\<lambda>db1.
              insert_binding \<lparr>qb_quote_id = sq_id q, qb_valuation_id = xmr_id (xi_id intent),
                qb_receive_scope = xi_receive_scope intent, qb_bound_at = now\<rparr> db1)) (\<lambda>db2.
     andthen (register_xmr_intent_in_transaction intent db2) (\<lambda>db3. Inr ((), db3)))))"

end
