(* ===== verification/Ledger_System.thy ===== *)
theory Ledger_System
  imports Payment_Posting Ledger_Outbox Ledger_Quotes
begin

text \<open>
  The ledger as a whole: \<open>ledger_step\<close> is one committed call of any operation of \<open>LedgerStore\<close> that
  writes, over all its tables. Every theorem here is about what all reachable states share, whatever
  the order in which the HTTP handlers, the feeder worker, the recovery worker, the message
  processor and the quote service interleave their transactions.
\<close>

section \<open>Steps\<close>

text \<open>\<open>record_payment\<close> is only considered while the event log is below the 64-bit key range, beyond
  which SQLite itself refuses every insert.\<close>

inductive ledger_step :: "ledger_db \<Rightarrow> ledger_db \<Rightarrow> bool" where
  payment: "record_payment parse_json p db = Inr (out, db') \<Longrightarrow>
     int (length (event_log db)) < i64_max \<Longrightarrow> ledger_step db db'"
| register: "register_xmr_credit_intent intent db = Inr (u, db') \<Longrightarrow> ledger_step db db'"
| hold: "hold_xmr_credit_intent i db = Inr (u, db') \<Longrightarrow> ledger_step db db'"
| receipt: "record_xmr_receipt i ob db = Inr (res, db') \<Longrightarrow> ledger_step db db'"
| interrupted: "mark_interrupted_feed_intents_unknown db = Inr (n, db') \<Longrightarrow> ledger_step db db'"
| begin_feed: "begin_feed_attempt threshold now fresh db = Inr (started, db') \<Longrightarrow> ledger_step db db'"
| confirm: "confirm_feed_attempt aid now db = Inr (u, db') \<Longrightarrow> ledger_step db db'"
| unknown: "db_mark_feed_unknown aid err db = Inr (u, db') \<Longrightarrow> ledger_step db db'"
| reconcile_fed: "db_reconcile_unknown_as_fed aid now db = Inr (u, db') \<Longrightarrow> ledger_step db db'"
| reconcile_not_fed: "db_reconcile_unknown_as_not_fed aid now db = Inr (u, db') \<Longrightarrow> ledger_step db db'"
| not_dispatched: "resolve_feed_not_dispatched aid retry now db = Inr (u, db') \<Longrightarrow> ledger_step db db'"
| event: "append_event ty payload db = Inr (s, db') \<Longrightarrow> ledger_step db db'"
| overlay_reset: "reset_overlay_stream fresh db = Inr (id', db') \<Longrightarrow> ledger_step db db'"
| overlay_id: "overlay_stream_id fresh db = Inr (id', db') \<Longrightarrow> ledger_step db db'"
| cursor: "advance_message_cursor s db = Inr (u, db') \<Longrightarrow> ledger_step db db'"
| enqueue_message: "enqueue_signed_message now s eid text db = Inr (u, db') \<Longrightarrow> ledger_step db db'"
| published: "mark_outbox_published eid db = Inr (u, db') \<Longrightarrow> ledger_step db db'"
| failed: "mark_outbox_failed eid err db = Inr (u, db') \<Longrightarrow> ledger_step db db'"
| strike_request: "record_strike_receive_request now request db = Inr (u, db') \<Longrightarrow> ledger_step db db'"
| inbox_enqueue: "enqueue_strike_work now key e db = Inr (u, db') \<Longrightarrow> ledger_step db db'"
| inbox_finish: "finish_strike_work now key db = Inr (u, db') \<Longrightarrow> ledger_step db db'"
| inbox_retry: "retry_strike_work now key attempts db = Inr (u, db') \<Longrightarrow> ledger_step db db'"
| scan: "record_strike_scan now rid offset attempts delay db = Inr (u, db') \<Longrightarrow> ledger_step db db'"
| admit: "reserve_invoice now fresh db = Inr (slot, db') \<Longrightarrow> ledger_step db db'"
| admit_done: "finish_invoice_admission fresh db = Inr (u, db') \<Longrightarrow> ledger_step db db'"
| quote_reserve: "reserve_xmr_quote request ident policy now db = Inr (found, db') \<Longrightarrow> ledger_step db db'"
| quote_complete: "complete_xmr_quote i ident q now db = Inr (u, db') \<Longrightarrow> ledger_step db db'"
| quote_fail: "fail_xmr_quote i db = Inr (u, db') \<Longrightarrow> ledger_step db db'"
| quote_bind: "bind_xmr_quote q intent now db = Inr (u, db') \<Longrightarrow> ledger_step db db'"

abbreviation ledger_steps :: "ledger_db \<Rightarrow> ledger_db \<Rightarrow> bool" where
  "ledger_steps \<equiv> ledger_step\<^sup>*\<^sup>*"

section \<open>Operations that leave the money alone\<close>

text \<open>The tables \<open>ledger_inv_all\<close> reads.\<close>

definition money_tables where
  "money_tables db = (ledger_entries db, feed_attempts db, event_log db, settled_payments db,
     credit_valuations db, credit_allocations db, asset_receipts db, credit_grants db)"

lemma ledger_inv_all_cong:
  assumes "money_tables db' = money_tables db"
  shows "ledger_inv_all db' \<longleftrightarrow> ledger_inv_all db"
proof -
  have t: "ledger_entries db' = ledger_entries db" "feed_attempts db' = feed_attempts db"
    "event_log db' = event_log db" "settled_payments db' = settled_payments db"
    "credit_valuations db' = credit_valuations db" "credit_allocations db' = credit_allocations db"
    "asset_receipts db' = asset_receipts db" "credit_grants db' = credit_grants db"
    using assms by (simp_all add: money_tables_def)
  have "native_btc_valid_row i db' = native_btc_valid_row i db" for i
    by (simp add: native_btc_valid_row_def t)
  moreover have "btc_owned db' v = btc_owned db v" for v by (simp add: btc_owned_def t)
  ultimately have "pay_inv db' = pay_inv db" by (simp add: pay_inv_def t)
  moreover have "feed_inv db' = feed_inv db" by (rule feed_inv_cong) (simp_all add: t)
  moreover have "grant_inv db' = grant_inv db" by (rule grant_inv_cong) (simp_all add: t)
  ultimately show ?thesis
    by (simp add: ledger_inv_all_def events_contiguous_def hold_inv_def link_inv_def receipts_def t)
qed

lemma inv_same: "money_tables db' = money_tables db \<Longrightarrow> ledger_inv_all db \<Longrightarrow> ledger_inv_all db'"
  using ledger_inv_all_cong by blast

lemma advance_money: "advance_message_cursor s db = Inr (u, db') \<Longrightarrow> money_tables db' = money_tables db"
  by (auto simp: advance_message_cursor_def res_simps Let_def money_tables_def split: if_splits)

lemma enqueue_money:
  "enqueue_signed_message now s eid text db = Inr (u, db') \<Longrightarrow> money_tables db' = money_tables db"
  by (auto simp: enqueue_Inr money_tables_def)

lemma mark_money:
  "mark_outbox_published eid db = Inr (u, db') \<Longrightarrow> money_tables db' = money_tables db"
  "mark_outbox_failed eid err db = Inr (u, db') \<Longrightarrow> money_tables db' = money_tables db"
  by (auto simp: mark_outbox_published_def mark_outbox_failed_def mark_outbox_def Let_def
      money_tables_def split: if_splits)

lemma strike_request_money:
  "record_strike_receive_request now request db = Inr (u, db') \<Longrightarrow> money_tables db' = money_tables db"
  by (auto simp: record_strike_receive_request_def insert_strike_request_def res_simps
      money_tables_def split: if_splits option.splits)

lemma inbox_money:
  "enqueue_strike_work now key e db = Inr (u, db') \<Longrightarrow> money_tables db' = money_tables db"
  "finish_strike_work now key db = Inr (u, db') \<Longrightarrow> money_tables db' = money_tables db"
  "retry_strike_work now key attempts db = Inr (u, db') \<Longrightarrow> money_tables db' = money_tables db"
  "record_strike_scan now rid offset attempts delay db = Inr (u, db') \<Longrightarrow>
     money_tables db' = money_tables db"
  by (auto simp: enqueue_strike_work_def finish_strike_work_def retry_strike_work_def Let_def
      record_strike_scan_def money_tables_def split: if_splits option.splits)

lemma admission_money:
  "reserve_invoice now fresh db = Inr (slot, db') \<Longrightarrow> money_tables db' = money_tables db"
  "finish_invoice_admission fresh db = Inr (u, db') \<Longrightarrow> money_tables db' = money_tables db"
  by (auto simp: reserve_invoice_def finish_invoice_admission_def Let_def money_tables_def
      split: if_splits)

lemma check_clock_Inr:
  "check_clock now db = Inr db' \<longleftrightarrow>
     xmr_quote_clock db \<le> now \<and> 0 \<le> now \<and> db' = db\<lparr>xmr_quote_clock := now\<rparr>"
  by (auto simp: check_clock_def)

lemma watermark_money: "advance_watermark rate db = Inr db' \<Longrightarrow> money_tables db' = money_tables db"
  by (auto simp: advance_watermark_def Let_def res_simps money_tables_def
      split: option.splits if_splits)

lemma quote_money:
  "reserve_xmr_quote request ident policy now db = Inr (found, db') \<Longrightarrow>
     money_tables db' = money_tables db"
  "complete_xmr_quote i ident q now db = Inr (u, db') \<Longrightarrow> money_tables db' = money_tables db"
  "fail_xmr_quote i db = Inr (u, db') \<Longrightarrow> money_tables db' = money_tables db"
proof -
  show "reserve_xmr_quote request ident policy now db = Inr (found, db') \<Longrightarrow>
     money_tables db' = money_tables db"
    by (auto simp: reserve_xmr_quote_def res_simps Let_def check_clock_Inr money_tables_def
        split: option.splits if_splits)
  assume "complete_xmr_quote i ident q now db = Inr (u, db')"
  then obtain db1 db2 where "check_clock now db = Inr db1"
    "advance_watermark (xq_rate (sq_quote q)) db1 = Inr db2"
    "\<exists>rs. db' = db2\<lparr>xmr_quote_requests := rs\<rparr>"
    by (auto simp: complete_xmr_quote_def res_simps split: if_splits)
  then show "money_tables db' = money_tables db"
    using watermark_money [of _ db1 db2] by (auto simp: check_clock_Inr money_tables_def)
next
  show "fail_xmr_quote i db = Inr (u, db') \<Longrightarrow> money_tables db' = money_tables db"
    by (auto simp: fail_xmr_quote_def money_tables_def)
qed

section \<open>The feed operations\<close>

text \<open>What a feed operation may do besides changing the attempts: post one debit and one event.\<close>

definition feed_write :: "ledger_db \<Rightarrow> ledger_db \<Rightarrow> bool" where
  "feed_write db db' \<longleftrightarrow>
     settled_payments db' = settled_payments db \<and> credit_valuations db' = credit_valuations db
     \<and> credit_allocations db' = credit_allocations db \<and> asset_receipts db' = asset_receipts db
     \<and> credit_grants db' = credit_grants db
     \<and> (ledger_entries db' = ledger_entries db
        \<or> (\<exists>e. ledger_entries db' = ledger_entries db @ [e] \<and> le_type e = FEED_DEBIT
             \<and> (\<exists>aid. le_source_key e = feed_key aid)))
     \<and> (event_log db' = event_log db
        \<or> (\<exists>ev. event_log db' = event_log db @ [ev] \<and> ev_seq ev = next_id ev_seq (event_log db)))"

lemma update_attempt_shape:
  "update_attempt aid ok f e db = Inr db' \<Longrightarrow> \<exists>rs. db' = db\<lparr>feed_attempts := rs\<rparr>"
  by (auto simp: update_attempt_def Let_def split: if_splits)

lemma feed_writes:
  "mark_interrupted_feed_intents_unknown db = Inr (n, db') \<Longrightarrow> feed_write db db'"
  "begin_feed_attempt threshold now fresh db = Inr (started, db') \<Longrightarrow> feed_write db db'"
  "db_mark_feed_unknown aid err db = Inr (u, db') \<Longrightarrow> feed_write db db'"
  "db_reconcile_unknown_as_not_fed aid now db = Inr (u, db') \<Longrightarrow> feed_write db db'"
  "resolve_feed_not_dispatched aid retry now db = Inr (u, db') \<Longrightarrow> feed_write db db'"
  "append_event ty payload db = Inr (s, db') \<Longrightarrow> feed_write db db'"
proof -
  show "mark_interrupted_feed_intents_unknown db = Inr (n, db') \<Longrightarrow> feed_write db db'"
    by (auto simp: mark_interrupted_feed_intents_unknown_def Let_def append_event_eq feed_write_def
        split: if_splits)
  show "begin_feed_attempt threshold now fresh db = Inr (started, db') \<Longrightarrow> feed_write db db'"
    by (auto simp: begin_feed_attempt_def res_simps insert_feed_attempt_def feed_write_def
        split: if_splits option.splits)
  show "db_mark_feed_unknown aid err db = Inr (u, db') \<Longrightarrow> feed_write db db'"
    by (auto simp: db_mark_feed_unknown_def res_simps append_event_eq feed_write_def
        dest!: update_attempt_shape)
  show "db_reconcile_unknown_as_not_fed aid now db = Inr (u, db') \<Longrightarrow> feed_write db db'"
    by (auto simp: db_reconcile_unknown_as_not_fed_def res_simps append_event_eq feed_write_def
        dest!: update_attempt_shape)
  show "resolve_feed_not_dispatched aid retry now db = Inr (u, db') \<Longrightarrow> feed_write db db'"
    by (auto simp: resolve_feed_not_dispatched_def res_simps Let_def append_event_eq feed_write_def
        dest!: update_attempt_shape split: if_splits)
  show "append_event ty payload db = Inr (s, db') \<Longrightarrow> feed_write db db'"
    by (auto simp: append_event_def append_event_eq feed_write_def)
qed

lemma resolve_as_fed_write:
  assumes "resolve_as_fed aid st now db = Inr (u, db')" "feed_inv db"
    and "st = St_intent_committed \<or> st = St_unknown"
  shows "feed_write db db'"
  by (rule resolve_as_fed_Inr [OF assms]) (auto simp: fed_db_def feed_write_def)

lemma feed_write_all:
  assumes w: "feed_write db db'" and inv: "ledger_inv_all db" and "feed_inv db'"
  shows "ledger_inv_all db'"
proof -
  have t: "settled_payments db' = settled_payments db" "credit_valuations db' = credit_valuations db"
    "credit_allocations db' = credit_allocations db" "asset_receipts db' = asset_receipts db"
    "credit_grants db' = credit_grants db"
    using w by (simp_all add: feed_write_def)
  have entries: "set (ledger_entries db) \<subseteq> set (ledger_entries db')"
    using w by (auto simp: feed_write_def)
  have new: "e \<in> set (ledger_entries db) \<or> (\<exists>aid. le_source_key e = feed_key aid)"
    if "e \<in> set (ledger_entries db')" for e
    using w that by (auto simp: feed_write_def)
  have parts: "events_contiguous db" "grant_inv db" "hold_inv db" "link_inv db" "pay_inv db"
    using inv by (simp_all add: ledger_inv_all_def)
  have "events_contiguous db'"
    using w parts(1) contiguous_snoc [OF parts(1)]
    by (auto simp: feed_write_def events_contiguous_def)
  moreover have "grant_inv db'" using grant_inv_cong [of db' db] parts(2) by (simp add: t)
  moreover have "hold_inv db'" using parts(3) by (simp add: hold_inv_def t)
  moreover have "link_inv db'"
    unfolding link_inv_def t
  proof (intro conjI)
    have "receipts db' = receipts db"
      using w by (auto simp: feed_write_def receipts_def)
    then show "receipts db' = sum_list (map cg_delta_sats (credit_grants db))"
      using parts(4) by (simp add: link_inv_def)
    show "\<forall>e \<in> set (ledger_entries db'). \<forall>i. le_source_key e = asset_receipt_key i \<longrightarrow>
        i \<in> cg_receipt_id ` set (credit_grants db)"
    proof (intro ballI allI impI)
      fix e i assume "e \<in> set (ledger_entries db')" "le_source_key e = asset_receipt_key i"
      with new [of e] have "e \<in> set (ledger_entries db)" by auto
      with parts(4) \<open>le_source_key e = _\<close> show "i \<in> cg_receipt_id ` set (credit_grants db)"
        unfolding link_inv_def by blast
    qed
    show "\<forall>g \<in> set (credit_grants db). \<forall>l. cg_ledger_entry_id g = Some l \<longrightarrow>
        l \<in> le_id ` set (ledger_entries db')"
      using parts(4) entries unfolding link_inv_def by blast
    have "length (event_log db) \<le> length (event_log db')"
      using w by (auto simp: feed_write_def)
    then show "\<forall>g \<in> set (credit_grants db). \<forall>s. cg_event_seq g = Some s \<longrightarrow>
        s \<le> int (length (event_log db'))"
      using grant_event [OF parts(4)] by fastforce
  qed
  moreover have "pay_inv db'"
  proof -
    have keep: "native_btc_valid_row i db'" if "native_btc_valid_row i db" for i
      by (rule native_valid_mono [OF that parts(5)]) (use t entries in auto)
    have owned: "btc_owned db' v \<longleftrightarrow> btc_owned db v" for v by (simp add: btc_owned_def t)
    show ?thesis
      unfolding pay_inv_def owned t
    proof (intro conjI)
      show "\<forall>p \<in> set (settled_payments db). CHR '':'' \<notin> set (sp_source p)
          \<and> native_btc_valid_row (sp_id p) db'"
        using parts(5) keep by (simp add: pay_inv_def)
      show "\<forall>e \<in> set (ledger_entries db'). \<forall>s x. CHR '':'' \<notin> set s \<longrightarrow>
          le_source_key e = payment_key s x \<longrightarrow> (s, x) \<in> identity_of ` set (settled_payments db)"
      proof (intro ballI allI impI)
        fix e s x
        assume e: "e \<in> set (ledger_entries db')" "CHR '':'' \<notin> set s"
          "le_source_key e = payment_key s x"
        with new [of e] have "e \<in> set (ledger_entries db)" by auto
        from entry_settled [OF parts(5) this e(2,3)]
        show "(s, x) \<in> identity_of ` set (settled_payments db)" .
      qed
    qed (use parts(5) in \<open>simp_all add: pay_inv_def\<close>)
  qed
  ultimately show ?thesis using assms(3) by (simp add: ledger_inv_all_def)
qed

lemma feed_ops_all:
  "mark_interrupted_feed_intents_unknown db = Inr (n, db') \<Longrightarrow> ledger_inv_all db \<Longrightarrow> ledger_inv_all db'"
  "begin_feed_attempt threshold now fresh db = Inr (started, db') \<Longrightarrow> ledger_inv_all db \<Longrightarrow>
     ledger_inv_all db'"
  "confirm_feed_attempt aid now db = Inr (u, db') \<Longrightarrow> ledger_inv_all db \<Longrightarrow> ledger_inv_all db'"
  "db_mark_feed_unknown aid err db = Inr (u, db') \<Longrightarrow> ledger_inv_all db \<Longrightarrow> ledger_inv_all db'"
  "db_reconcile_unknown_as_fed aid now db = Inr (u, db') \<Longrightarrow> ledger_inv_all db \<Longrightarrow> ledger_inv_all db'"
  "db_reconcile_unknown_as_not_fed aid now db = Inr (u, db') \<Longrightarrow> ledger_inv_all db \<Longrightarrow>
     ledger_inv_all db'"
  "resolve_feed_not_dispatched aid retry now db = Inr (u, db') \<Longrightarrow> ledger_inv_all db \<Longrightarrow>
     ledger_inv_all db'"
  "append_event ty payload db = Inr (s, db') \<Longrightarrow> ledger_inv_all db \<Longrightarrow> ledger_inv_all db'"
proof -
  have f: "feed_inv db" if "ledger_inv_all db" using that by (simp add: ledger_inv_all_def)
  note mono = feed_write_all
  show "mark_interrupted_feed_intents_unknown db = Inr (n, db') \<Longrightarrow> ledger_inv_all db \<Longrightarrow>
      ledger_inv_all db'"
    using mono feed_writes(1) interrupted_inv f by blast
  show "begin_feed_attempt threshold now fresh db = Inr (started, db') \<Longrightarrow> ledger_inv_all db \<Longrightarrow>
      ledger_inv_all db'"
    using mono feed_writes(2) begin_feed_attempt_inv f by blast
  show "confirm_feed_attempt aid now db = Inr (u, db') \<Longrightarrow> ledger_inv_all db \<Longrightarrow> ledger_inv_all db'"
    unfolding confirm_feed_attempt_def
    using mono resolve_as_fed_write resolve_as_fed_inv f by blast
  show "db_mark_feed_unknown aid err db = Inr (u, db') \<Longrightarrow> ledger_inv_all db \<Longrightarrow> ledger_inv_all db'"
    using mono feed_writes(3) mark_unknown_inv f by blast
  show "db_reconcile_unknown_as_fed aid now db = Inr (u, db') \<Longrightarrow> ledger_inv_all db \<Longrightarrow>
      ledger_inv_all db'"
    unfolding db_reconcile_unknown_as_fed_def
    using mono resolve_as_fed_write resolve_as_fed_inv f by blast
  show "db_reconcile_unknown_as_not_fed aid now db = Inr (u, db') \<Longrightarrow> ledger_inv_all db \<Longrightarrow>
      ledger_inv_all db'"
    using mono feed_writes(4) reconcile_not_fed_inv f by blast
  show "resolve_feed_not_dispatched aid retry now db = Inr (u, db') \<Longrightarrow> ledger_inv_all db \<Longrightarrow>
      ledger_inv_all db'"
    using mono feed_writes(5) not_dispatched_inv f by blast
  assume a: "append_event ty payload db = Inr (s, db')" and i: "ledger_inv_all db"
  have "feed_inv db'" using a f [OF i] by (auto simp: append_event_def append_event_eq)
  with mono feed_writes(6) a i show "ledger_inv_all db'" by blast
qed

section \<open>Every step keeps the invariant\<close>

lemma bind_xmr_quote_cases:
  assumes "bind_xmr_quote q intent now db = Inr (u, db')"
  obtains db1 db2 where "check_clock now db = Inr db1"
    "db2 = db1 \<or> (\<exists>db3 bs. register_xmr_intent_in_transaction intent db1 = Inr db3
       \<and> db2 = db3\<lparr>xmr_quote_bindings := bs\<rparr>)"
    "register_xmr_intent_in_transaction intent db2 = Inr db'"
proof -
  from assms obtain db1 where 1: "check_clock now db = Inr db1"
    unfolding bind_xmr_quote_def andthen_eq_Inr by blast
  show thesis
  proof (cases "find (\<lambda>b. qb_quote_id b = sq_id q) (xmr_quote_bindings db1)")
    case (Some row)
    with assms 1 have "register_xmr_intent_in_transaction intent db1 = Inr db'"
      by (auto simp: bind_xmr_quote_def andthen_eq_Inr split: if_splits)
    with 1 show thesis by (intro that [of db1 db1]) simp_all
  next
    case None
    with assms 1 obtain db3 where 2: "register_xmr_intent_in_transaction intent db1 = Inr db3"
      and 3: "\<exists>bs. register_xmr_intent_in_transaction intent (db3\<lparr>xmr_quote_bindings := bs\<rparr>) = Inr db'"
      by (auto simp: bind_xmr_quote_def andthen_eq_Inr insert_binding_def split: if_splits)
    from 3 obtain bs where
      "register_xmr_intent_in_transaction intent (db3\<lparr>xmr_quote_bindings := bs\<rparr>) = Inr db'" ..
    with 1 2 show thesis by (intro that [of db1 "db3\<lparr>xmr_quote_bindings := bs\<rparr>"]) blast+
  qed
qed

lemma bind_all:
  assumes "bind_xmr_quote q intent now db = Inr (u, db')" "ledger_inv_all db"
  shows "ledger_inv_all db'"
proof (rule bind_xmr_quote_cases [OF assms(1)])
  fix db1 db2
  assume 1: "check_clock now db = Inr db1"
    and 2: "db2 = db1 \<or> (\<exists>db3 bs. register_xmr_intent_in_transaction intent db1 = Inr db3
       \<and> db2 = db3\<lparr>xmr_quote_bindings := bs\<rparr>)"
    and 3: "register_xmr_intent_in_transaction intent db2 = Inr db'"
  have inv1: "ledger_inv_all db1"
    by (rule inv_same [OF _ assms(2)]) (use 1 in \<open>simp add: check_clock_Inr money_tables_def\<close>)
  have bindings: "ledger_inv_all (d\<lparr>xmr_quote_bindings := bs\<rparr>)" if "ledger_inv_all d" for d bs
    by (rule inv_same [OF _ that]) (simp add: money_tables_def)
  from 2 have "ledger_inv_all db2"
    using inv1 register_all bindings by metis
  with 3 show ?thesis by (rule register_all)
qed

lemmas step_keeps =
  feed_ops_all bind_all advance_money [THEN inv_same] enqueue_money [THEN inv_same]
  mark_money [THEN inv_same] strike_request_money [THEN inv_same] inbox_money [THEN inv_same]
  admission_money [THEN inv_same] quote_money [THEN inv_same]

lemma ledger_step_all: "ledger_step db db' \<Longrightarrow> ledger_inv_all db \<Longrightarrow> ledger_inv_all db'"
proof (induction rule: ledger_step.induct)
  case (payment parse_json p db out db')
  then show ?case using record_payment_all by blast
next
  case (register intent db u db')
  then show ?case using register_all by (auto simp: register_xmr_credit_intent_def res_simps)
next
  case (hold i db u db')
  then show ?case using hold_intent_all by blast
next
  case (receipt i ob db res db')
  then show ?case using record_xmr_receipt_all by blast
next
  case (overlay_reset fresh db id' db')
  then show ?case using ledger_inv_all_cong [of db' db]
    by (auto simp: reset_overlay_stream_def money_tables_def)
next
  case (overlay_id fresh db id' db')
  then show ?case using ledger_inv_all_cong [of db' db]
    by (auto simp: overlay_stream_id_def money_tables_def split: option.splits)
qed (rule step_keeps, assumption, assumption)+

lemma ledger_steps_all: "ledger_steps db db' \<Longrightarrow> ledger_inv_all db \<Longrightarrow> ledger_inv_all db'"
  by (induction rule: rtranclp_induct) (auto intro: ledger_step_all)

end
