(* ===== verification/Gateway_Client.thy ===== *)
theory Gateway_Client
  imports Prelude
begin

text \<open>
  The wire types of the integration gateway and the daemon's client for it,
  \<open>src/src/gateway/client.rs\<close>, with the bounded body reader of \<open>src/src/http.rs\<close>.

  The network is a parameter: \<open>send\<close> maps a request to what reqwest returns for it, and a
  response carries its body as the chunks that arrive. serde_json is the parameter \<open>parse\<close> (the
  bytes of a body to the value, \<open>None\<close> for malformed JSON), and the url crate's parser is
  \<open>parse_url\<close>. The temperature and weather calls are in \<open>Weather\<close>.
\<close>

section \<open>Wire types\<close>

record feeder_safety =
  override_enabled :: bool
  remote_enabled :: bool

datatype feed_outcome = Outcome_NotDispatched | Outcome_Pending | Outcome_Confirmed
  | Outcome_Ambiguous

datatype refusal_reason = Reason_Safety | Reason_Unresolved | Reason_Capacity

record feed_refusal =
  fr_reason :: refusal_reason
  fr_retry_after_seconds :: u64

record feed_request_status =
  frs_request_id :: uuid
  frs_status :: feed_outcome
  frs_refusal :: "feed_refusal option"

datatype gateway_error =
    UuidMismatch
  | ContradictoryOutcome
  | UnexpectedHttpStatus nat
  | BodyTooLarge
  | BodyFailed
  | MalformedJson
  | ConfirmationStatusMismatch
  | RefusalStatusMismatch
  | TransportFailed
  | InvalidGatewayUrl
  | CredentialsInUrl
  | MissingHost
  | NotPrivateAddress
  | NotLiteralAddress
  | UnsupportedScheme
  | QueryOrFragment
  | NotRootOrigin

definition validate_status :: "uuid \<Rightarrow> feed_request_status \<Rightarrow> gateway_error + unit" where
  "validate_status expected s =
     (if frs_request_id s \<noteq> expected then Inl UuidMismatch
      else case (frs_status s, frs_refusal s) of
        (Outcome_NotDispatched, Some refusal) \<Rightarrow>
          if 1 \<le> fr_retry_after_seconds refusal \<and> fr_retry_after_seconds refusal \<le> 86400
          then Inr () else Inl ContradictoryOutcome
      | (Outcome_Pending, None) \<Rightarrow> Inr ()
      | (Outcome_Confirmed, None) \<Rightarrow> Inr ()
      | (Outcome_Ambiguous, None) \<Rightarrow> Inr ()
      | _ \<Rightarrow> Inl ContradictoryOutcome)"

section \<open>Bounded bodies\<close>

text \<open>A response: status code, advertised length, and the chunks of the body as \<open>chunk().await\<close>
  yields them, \<open>Inl ()\<close> where the connection fails.\<close>

record http_response =
  hr_status :: nat
  hr_content_length :: "nat option"
  hr_chunks :: "(unit + string) list"

fun read_chunks :: "nat \<Rightarrow> string \<Rightarrow> (unit + string) list \<Rightarrow> gateway_error + string" where
  "read_chunks limit body [] = Inr body"
| "read_chunks limit body (Inl _ # _) = Inl BodyFailed"
| "read_chunks limit body (Inr chunk # rest) =
     (if length chunk > limit - length body then Inl BodyTooLarge
      else read_chunks limit (body @ chunk) rest)"

definition bounded_body :: "nat \<Rightarrow> http_response \<Rightarrow> gateway_error + string" where
  "bounded_body limit response =
     (case hr_content_length response of
        Some n \<Rightarrow> if n > limit then Inl BodyTooLarge else read_chunks limit [] (hr_chunks response)
      | None \<Rightarrow> read_chunks limit [] (hr_chunks response))"

text \<open>\<open>StatusCode::is_success\<close>.\<close>

definition is_success :: "nat \<Rightarrow> bool" where
  "is_success code \<longleftrightarrow> 200 \<le> code \<and> code < 300"

section \<open>Reading a feed status\<close>

type_synonym 'a json_reader = "string \<Rightarrow> 'a option"

definition read_feed_status ::
  "feed_request_status json_reader \<Rightarrow> http_response \<Rightarrow> uuid
     \<Rightarrow> gateway_error + feed_request_status" where
  "read_feed_status parse response request_id =
     (let status = hr_status response in
      if status \<notin> {200, 202, 409, 423, 429, 504} then Inl (UnexpectedHttpStatus status)
      else andthen (bounded_body 4096 response) (\<lambda>bytes.
           andthen (ok_or MalformedJson (parse bytes)) (\<lambda>result.
           andthen (validate_status request_id result) (\<lambda>_.
             if frs_status result = Outcome_Confirmed \<and> status \<noteq> 200
             then Inl ConfirmationStatusMismatch
             else if frs_status result = Outcome_NotDispatched \<and> status \<notin> {200, 423, 429}
             then Inl RefusalStatusMismatch
             else Inr result))))"

section \<open>The gateway's address\<close>

text \<open>
  A parsed URL of the url crate: \<open>url_host\<close> is \<open>host_str()\<close>, in which an IPv4 host is in dotted
  decimal and an IPv6 host is bracketed.
\<close>

record url =
  url_scheme :: string
  url_username :: string
  url_password :: "string option"
  url_host :: "string option"
  url_path :: string
  url_query :: "string option"
  url_fragment :: "string option"

datatype ip_addr = V4 nat nat nat nat | V6 "16 word list"

text \<open>\<open>Ipv4Addr::is_loopback\<close>, \<open>is_private\<close>, \<open>is_unspecified\<close> and \<open>Ipv6Addr::is_loopback\<close>,
  \<open>is_unique_local\<close>, \<open>is_unspecified\<close>.\<close>

fun is_loopback :: "ip_addr \<Rightarrow> bool" where
  "is_loopback (V4 a b c d) \<longleftrightarrow> a = 127"
| "is_loopback (V6 s) \<longleftrightarrow> s = [0, 0, 0, 0, 0, 0, 0, 1]"

fun is_private_ip :: "ip_addr \<Rightarrow> bool" where
  "is_private_ip (V4 a b c d) \<longleftrightarrow>
     a = 10 \<or> (a = 172 \<and> 16 \<le> b \<and> b \<le> 31) \<or> (a = 192 \<and> b = 168)"
| "is_private_ip (V6 s) \<longleftrightarrow> s \<noteq> [] \<and> and (hd s) 0xfe00 = 0xfc00"

fun is_unspecified :: "ip_addr \<Rightarrow> bool" where
  "is_unspecified (V4 a b c d) \<longleftrightarrow> a = 0 \<and> b = 0 \<and> c = 0 \<and> d = 0"
| "is_unspecified (V6 s) \<longleftrightarrow> s = replicate 8 0"

text \<open>\<open>IpAddr::from_str\<close> on a \<open>host_str()\<close>: dotted decimal with four octets of one to three digits,
  no leading zero and no value above 255. A host with brackets is not an address for
  \<open>IpAddr::from_str\<close>, and no host that is not bracketed has a colon.\<close>

fun split_dots :: "string \<Rightarrow> string list" where
  "split_dots [] = [[]]"
| "split_dots (c # cs) =
     (if byte c = 46 then [] # split_dots cs
      else case split_dots cs of [] \<Rightarrow> [[c]] | w # ws \<Rightarrow> (c # w) # ws)"

definition octet :: "string \<Rightarrow> nat option" where
  "octet w =
     (if w = [] \<or> length w > 3 \<or> \<not> list_all is_ascii_digit w
         \<or> (length w > 1 \<and> byte (hd w) = 48) then None
      else let v = foldl (\<lambda>acc c. 10 * acc + (byte c - 48)) 0 w in
        if v \<le> 255 then Some v else None)"

definition ip_from_str :: "string \<Rightarrow> ip_addr option" where
  "ip_from_str s =
     (case map octet (split_dots s) of
        [Some a, Some b, Some c, Some d] \<Rightarrow> Some (V4 a b c d)
      | _ \<Rightarrow> None)"

definition validate_gateway_url :: "url \<Rightarrow> gateway_error + unit" where
  "validate_gateway_url u =
     (if url_username u \<noteq> [] \<or> url_password u \<noteq> None then Inl CredentialsInUrl
      else andthen (ok_or MissingHost (url_host u)) (\<lambda>host.
        if url_scheme u = ''https'' then Inr ()
        else if url_scheme u = ''http'' then
          (if eq_ignore_ascii_case host ''localhost'' then Inr ()
           else andthen (ok_or NotLiteralAddress (ip_from_str host)) (\<lambda>ip.
             if is_loopback ip \<or> is_private_ip ip then Inr () else Inl NotPrivateAddress))
        else Inl UnsupportedScheme))"

definition gateway_client_new :: "(string \<Rightarrow> url option) \<Rightarrow> string \<Rightarrow> gateway_error + url" where
  "gateway_client_new parse_url base_url =
     andthen (ok_or InvalidGatewayUrl (parse_url base_url)) (\<lambda>u.
     andthen (validate_gateway_url u) (\<lambda>_.
       if url_query u \<noteq> None \<or> url_fragment u \<noteq> None then Inl QueryOrFragment
       else if url_path u \<noteq> ''/'' \<and> url_path u \<noteq> [] then Inl NotRootOrigin
       else Inr (u\<lparr>url_path := ''/''\<rparr>)))"

section \<open>The calls\<close>

datatype http_method = GET | POST

record http_request =
  rq_method :: http_method
  rq_url :: url
  rq_timeout_seconds :: nat

type_synonym network = "http_request \<Rightarrow> unit + http_response"

text \<open>\<open>base_url.join(path)\<close> for a relative path without dots, on a base whose path is \<open>/\<close>.\<close>

definition join_path :: "url \<Rightarrow> string \<Rightarrow> url" where
  "join_path base path = base\<lparr>url_path := ''/'' @ path\<rparr>"

definition get_json :: "network \<Rightarrow> 'a json_reader \<Rightarrow> url \<Rightarrow> gateway_error + 'a" where
  "get_json send parse endpoint =
     andthen (map_err (\<lambda>_. TransportFailed)
       (send \<lparr>rq_method = GET, rq_url = endpoint, rq_timeout_seconds = 15\<rparr>)) (\<lambda>response.
     if \<not> is_success (hr_status response) then Inl (UnexpectedHttpStatus (hr_status response))
     else andthen (bounded_body 65536 response) (\<lambda>bytes. ok_or MalformedJson (parse bytes)))"

definition client_health :: "network \<Rightarrow> url \<Rightarrow> gateway_error + unit" where
  "client_health send base =
     andthen (map_err (\<lambda>_. TransportFailed)
       (send \<lparr>rq_method = GET, rq_url = join_path base ''healthz'',
              rq_timeout_seconds = 15\<rparr>)) (\<lambda>response.
     if \<not> is_success (hr_status response) then Inl (UnexpectedHttpStatus (hr_status response))
     else Inr ())"

definition client_feeder_safety ::
  "network \<Rightarrow> feeder_safety json_reader \<Rightarrow> url \<Rightarrow> gateway_error + feeder_safety" where
  "client_feeder_safety send parse base =
     get_json send parse (join_path base ''v1/feeder/override'')"

definition request_feed ::
  "network \<Rightarrow> feed_request_status json_reader \<Rightarrow> url \<Rightarrow> uuid
     \<Rightarrow> gateway_error + feed_request_status" where
  "request_feed send parse base request_id =
     andthen (map_err (\<lambda>_. TransportFailed)
       (send \<lparr>rq_method = POST, rq_url = join_path base (''v1/feeder/request/'' @ request_id),
              rq_timeout_seconds = 150\<rparr>)) (\<lambda>response.
     read_feed_status parse response request_id)"

definition client_feed_request_status ::
  "network \<Rightarrow> feed_request_status json_reader \<Rightarrow> url \<Rightarrow> uuid
     \<Rightarrow> gateway_error + feed_request_status" where
  "client_feed_request_status send parse base request_id =
     andthen (map_err (\<lambda>_. TransportFailed)
       (send \<lparr>rq_method = GET, rq_url = join_path base (''v1/feeder/request/'' @ request_id),
              rq_timeout_seconds = 15\<rparr>)) (\<lambda>response.
     read_feed_status parse response request_id)"

section \<open>Lemmas\<close>

lemma validate_status_Inr:
  "validate_status e s = Inr () \<longleftrightarrow> frs_request_id s = e \<and>
     (case frs_refusal s of
        Some r \<Rightarrow> frs_status s = Outcome_NotDispatched
          \<and> 1 \<le> fr_retry_after_seconds r \<and> fr_retry_after_seconds r \<le> 86400
      | None \<Rightarrow> frs_status s \<noteq> Outcome_NotDispatched)"
  by (auto simp: validate_status_def split: feed_outcome.splits option.splits)

text \<open>What arrives is at most \<open>limit\<close> bytes, whole and in order.\<close>

lemma read_chunks_Inr:
  "length body \<le> limit \<Longrightarrow> read_chunks limit body chunks = Inr b \<longleftrightarrow>
     (\<exists>cs. chunks = map Inr cs \<and> b = body @ concat cs \<and> length b \<le> limit)"
proof (induction limit body chunks rule: read_chunks.induct)
  case (1 limit body)
  then show ?case by auto
next
  case (2 limit body u rest)
  then show ?case by auto
next
  case (3 limit body chunk rest)
  show ?case
  proof (cases "length chunk > limit - length body")
    case True
    then show ?thesis using 3(2) by (auto simp: Cons_eq_map_conv)
  next
    case False
    with 3(2) have "length (body @ chunk) \<le> limit" by simp
    with 3(1) False show ?thesis by (auto simp: Cons_eq_map_conv)
  qed
qed

lemma bounded_body_Inr:
  "bounded_body limit r = Inr b \<longleftrightarrow>
     (\<exists>cs. hr_chunks r = map Inr cs \<and> b = concat cs \<and> length b \<le> limit)
     \<and> (\<forall>n. hr_content_length r = Some n \<longrightarrow> n \<le> limit)"
  by (auto simp: bounded_body_def read_chunks_Inr split: option.splits)

lemma read_feed_status_Inr:
  "read_feed_status parse r i = Inr s \<longleftrightarrow>
     hr_status r \<in> {200, 202, 409, 423, 429, 504}
     \<and> (\<exists>b. bounded_body 4096 r = Inr b \<and> parse b = Some s)
     \<and> validate_status i s = Inr ()
     \<and> (frs_status s = Outcome_Confirmed \<longrightarrow> hr_status r = 200)
     \<and> (frs_status s = Outcome_NotDispatched \<longrightarrow> hr_status r \<in> {200, 423, 429})"
  by (auto simp: read_feed_status_def Let_def andthen_eq_Inr)

end
