(* ===== verification/Runs.thy ===== *)
theory Runs
  imports Prelude
begin

text \<open>
  Runs of a component: \<open>run step s es t\<close> says that the events \<open>es\<close>, each one step of the component,
  lead from \<open>s\<close> to \<open>t\<close>. The locale \<open>once_only\<close> is the contract of a component that remembers the
  keys it has acted on: an event that acts on a key finds it unknown and leaves it known, and
  nothing makes a key unknown again. The gateway's store and its server are instances.
\<close>

inductive run :: "('e \<Rightarrow> 's \<Rightarrow> 's \<Rightarrow> bool) \<Rightarrow> 's \<Rightarrow> 'e list \<Rightarrow> 's \<Rightarrow> bool" for step where
  run_Nil: "run step s [] s"
| run_snoc: "run step s es t \<Longrightarrow> step e t u \<Longrightarrow> run step s (es @ [e]) u"

lemma run_invariant:
  assumes "run step s es t" "I s"
    and "\<And>e t u. step e t u \<Longrightarrow> I t \<Longrightarrow> I u"
  shows "I t"
  using assms(1,2) by (induction rule: run.induct) (auto intro: assms(3))

lemma run_one: "step e s t \<Longrightarrow> run step s [e] t"
  using run_snoc [OF run_Nil] by fastforce

lemma map_filter_snoc [simp]:
  "List.map_filter f (xs @ [x]) = List.map_filter f xs @ (case f x of None \<Rightarrow> [] | Some y \<Rightarrow> [y])"
  by (simp add: List.map_filter_def split: option.splits)

lemma map_filter_Nil [simp]: "List.map_filter f [] = []"
  by (simp add: List.map_filter_def)

locale once_only =
  fixes step :: "'e \<Rightarrow> 's \<Rightarrow> 's \<Rightarrow> bool"
    and seen :: "'s \<Rightarrow> 'k \<Rightarrow> bool"
    and acts :: "'e \<Rightarrow> 'k option"
    and good :: "'s \<Rightarrow> bool"
  assumes good_step: "step e s t \<Longrightarrow> good s \<Longrightarrow> good t"
    and seen_step: "step e s t \<Longrightarrow> good s \<Longrightarrow> seen s k \<Longrightarrow> seen t k"
    and acts_unseen: "step e s t \<Longrightarrow> good s \<Longrightarrow> acts e = Some k \<Longrightarrow> \<not> seen s k"
    and acts_seen: "step e s t \<Longrightarrow> good s \<Longrightarrow> acts e = Some k \<Longrightarrow> seen t k"
begin

definition acted :: "'e list \<Rightarrow> 'k list" where
  "acted es = List.map_filter acts es"

lemma run_good: "run step s es t \<Longrightarrow> good s \<Longrightarrow> good t"
  by (rule run_invariant [where I = good and step = step]) (auto intro: good_step)

lemma acted_once:
  assumes "run step s es t" "good s"
  shows "distinct (acted es)" and "\<forall>k \<in> set (acted es). \<not> seen s k \<and> seen t k"
    and "seen s k \<Longrightarrow> seen t k"
proof -
  from assms have "good t \<and> distinct (acted es) \<and> (\<forall>k \<in> set (acted es). \<not> seen s k \<and> seen t k)
      \<and> (\<forall>k. seen s k \<longrightarrow> seen t k)"
  proof (induction rule: run.induct)
    case (run_Nil s)
    then show ?case by (simp add: acted_def)
  next
    case (run_snoc s es t e u)
    then have IH: "good t" "distinct (acted es)"
      "\<forall>k \<in> set (acted es). \<not> seen s k \<and> seen t k" "\<forall>k. seen s k \<longrightarrow> seen t k" by auto
    note s = run_snoc.hyps(2)
    have keep: "seen t k \<Longrightarrow> seen u k" for k by (rule seen_step [OF s IH(1)])
    show ?case
    proof (cases "acts e")
      case None
      then show ?thesis using IH keep good_step [OF s IH(1)] by (auto simp: acted_def)
    next
      case (Some k)
      then show ?thesis
        using IH keep good_step [OF s IH(1)] acts_unseen [OF s IH(1) Some] acts_seen [OF s IH(1) Some]
        by (auto simp: acted_def)
    qed
  qed
  then show "distinct (acted es)" "\<forall>k \<in> set (acted es). \<not> seen s k \<and> seen t k"
    "seen s k \<Longrightarrow> seen t k" by auto
qed

end

end
