(* ===== verification/Gateway_Store.thy ===== *)
theory Gateway_Store
  imports Gateway_Client Runs
begin

text \<open>
  The gateway's own database, \<open>src/src/gateway/store.rs\<close>: admission of a feed request under the
  minimum interval and the hourly cap, its acknowledgement, refusal tombstones and the weather
  high-water mark. Each operation is one \<open>BEGIN IMMEDIATE\<close> transaction, so operations of concurrent
  callers are a sequence (\<open>store_steps\<close>); \<open>now\<close> is \<open>unixepoch()\<close> in that transaction. The column
  \<open>refusal_json\<close> holds the refusal it is the serde_json text of. \<open>store_inv\<close> is the invariant of
  the tables, and \<open>store_spaced\<close> that of the timestamps under a clock that does not go back.
\<close>

section \<open>Tables and results\<close>

datatype request_state = Req_pending | Req_acknowledged

record feeder_request =
  gr_request_id :: uuid
  gr_status :: request_state
  gr_created_at :: i64
  gr_updated_at :: i64

record feeder_request_event =
  ge_seq :: i64
  ge_request_id :: uuid
  ge_event :: string

record gateway_store =
  feeder_requests :: "feeder_request list"
  feeder_request_events :: "feeder_request_event list"
  feeder_refusals :: "(uuid \<times> feed_refusal) list"
  weather_high_water :: "i64 option"

definition empty_store :: gateway_store where
  "empty_store = \<lparr>feeder_requests = [], feeder_request_events = [], feeder_refusals = [],
     weather_high_water = None\<rparr>"

datatype begin_outcome = Begin_New | Begin_Pending | Begin_Acknowledged
  | Begin_NotDispatched feed_refusal

datatype stored_status = Stored_Pending | Stored_Acknowledged | Stored_NotDispatched feed_refusal

datatype store_error =
    WeatherRegressed
  | InvalidSafetyLimits
  | ValueOutOfRange
  | StoreUnique
  | CouldNotAcknowledge

section \<open>Operations\<close>

definition accept_weather_time :: "i64 \<Rightarrow> gateway_store \<Rightarrow> store_error + gateway_store" where
  "accept_weather_time epoch db =
     (case weather_high_water db of
        Some value \<Rightarrow> if epoch < value then Inl WeatherRegressed
          else Inr (db\<lparr>weather_high_water := Some epoch\<rparr>)
      | None \<Rightarrow> Inr (db\<lparr>weather_high_water := Some epoch\<rparr>))"

definition find_request :: "uuid \<Rightarrow> gateway_store \<Rightarrow> feeder_request option" where
  "find_request i db = find (\<lambda>r. gr_request_id r = i) (feeder_requests db)"

definition find_refusal :: "uuid \<Rightarrow> gateway_store \<Rightarrow> feed_refusal option" where
  "find_refusal i db = map_option snd (find (\<lambda>r. fst r = i) (feeder_refusals db))"

text \<open>\<open>MAX\<close> and \<open>MIN\<close> of a column, NULL on no rows.\<close>

definition sql_max :: "i64 list \<Rightarrow> i64 option" where
  "sql_max xs = (case xs of [] \<Rightarrow> None | y # ys \<Rightarrow> Some (fold max ys y))"

definition sql_min :: "i64 list \<Rightarrow> i64 option" where
  "sql_min xs = (case xs of [] \<Rightarrow> None | y # ys \<Rightarrow> Some (fold min ys y))"

text \<open>\<open>COALESCE(m + d - now, 0)\<close>. An integer expression of SQLite that leaves 64 bits becomes a
  REAL, which sqlx does not read as an \<open>i64\<close>.\<close>

definition until :: "i64 option \<Rightarrow> i64 \<Rightarrow> i64 \<Rightarrow> store_error + i64" where
  "until m d now = (case m of None \<Rightarrow> Inr 0
     | Some t \<Rightarrow> ok_or ValueOutOfRange
         (case checked_add_i64 t d of None \<Rightarrow> None | Some s \<Rightarrow> checked_add_i64 s (- now)))"

definition in_window :: "i64 \<Rightarrow> feeder_request \<Rightarrow> bool" where
  "in_window now r \<longleftrightarrow> now - 3600 \<le> gr_updated_at r"

definition admission_delay ::
  "i64 \<Rightarrow> i64 \<Rightarrow> i64 \<Rightarrow> gateway_store \<Rightarrow> store_error + i64" where
  "admission_delay now interval cap db =
     (let window = filter (in_window now) (feeder_requests db) in
      andthen (until (sql_max (map gr_updated_at (feeder_requests db))) interval now) (\<lambda>spacing.
      andthen (if cap \<le> int (length window)
               then until (sql_min (map gr_updated_at window)) 3601 now else Inr 0) (\<lambda>hourly.
        Inr (max 0 (max spacing hourly)))))"

definition insert_refusal ::
  "uuid \<Rightarrow> feed_refusal \<Rightarrow> gateway_store \<Rightarrow> store_error + gateway_store" where
  "insert_refusal i refusal db =
     (if i \<in> set (map fst (feeder_refusals db)) then Inl StoreUnique
      else Inr (db\<lparr>feeder_refusals := feeder_refusals db @ [(i, refusal)]\<rparr>))"

definition insert_request_event :: "uuid \<Rightarrow> string \<Rightarrow> gateway_store \<Rightarrow> gateway_store" where
  "insert_request_event i event db = db\<lparr>feeder_request_events := feeder_request_events db
     @ [\<lparr>ge_seq = next_id ge_seq (feeder_request_events db), ge_request_id = i,
         ge_event = event\<rparr>]\<rparr>"

definition insert_request :: "uuid \<Rightarrow> i64 \<Rightarrow> gateway_store \<Rightarrow> store_error + gateway_store" where
  "insert_request i now db =
     (if i \<in> set (map gr_request_id (feeder_requests db)) then Inl StoreUnique
      else Inr (insert_request_event i ''reserved'' (db\<lparr>feeder_requests := feeder_requests db
        @ [\<lparr>gr_request_id = i, gr_status = Req_pending, gr_created_at = now,
            gr_updated_at = now\<rparr>]\<rparr>)))"

definition refusal_for :: "bool \<Rightarrow> bool \<Rightarrow> i64 \<Rightarrow> feed_refusal option" where
  "refusal_for safety_refusal pending delay =
     (if safety_refusal
      then Some \<lparr>fr_reason = Reason_Safety, fr_retry_after_seconds = 5\<rparr>
      else if pending then Some \<lparr>fr_reason = Reason_Unresolved, fr_retry_after_seconds = 5\<rparr>
      else if delay > 0 then Some \<lparr>fr_reason = Reason_Capacity,
        fr_retry_after_seconds = min (word_of_int delay) 86400\<rparr>
      else None)"

definition begin_request ::
  "uuid \<Rightarrow> u64 \<Rightarrow> u64 \<Rightarrow> bool \<Rightarrow> i64 \<Rightarrow> gateway_store
     \<Rightarrow> store_error + begin_outcome \<times> gateway_store" where
  "begin_request request_id min_interval max_per_hour safety_refusal now db =
     andthen (ok_or ValueOutOfRange (i64_of_u64 min_interval)) (\<lambda>interval.
     andthen (ok_or ValueOutOfRange (i64_of_u64 max_per_hour)) (\<lambda>cap.
     if interval < 5 \<or> cap < 1 then Inl InvalidSafetyLimits
     else case (map_option gr_status (find_request request_id db), find_refusal request_id db) of
       (Some Req_pending, _) \<Rightarrow> Inr (Begin_Pending, db)
     | (Some Req_acknowledged, _) \<Rightarrow> Inr (Begin_Acknowledged, db)
     | (None, Some refusal) \<Rightarrow> Inr (Begin_NotDispatched refusal, db)
     | (None, None) \<Rightarrow>
         let pending = (\<exists>r \<in> set (feeder_requests db). gr_status r = Req_pending) in
         andthen (admission_delay now interval cap db) (\<lambda>delay.
           case refusal_for safety_refusal pending delay of
             Some refusal \<Rightarrow> andthen (insert_refusal request_id refusal db) (\<lambda>db1.
               Inr (Begin_NotDispatched refusal, db1))
           | None \<Rightarrow> andthen (insert_request request_id now db) (\<lambda>db1.
               Inr (Begin_New, db1)))))"

definition request_status :: "uuid \<Rightarrow> gateway_store \<Rightarrow> stored_status option" where
  "request_status i db =
     (case map_option gr_status (find_request i db) of
        None \<Rightarrow> map_option Stored_NotDispatched (find_refusal i db)
      | Some Req_pending \<Rightarrow> Some Stored_Pending
      | Some Req_acknowledged \<Rightarrow> Some Stored_Acknowledged)"

definition mark_acknowledged ::
  "uuid \<Rightarrow> i64 \<Rightarrow> gateway_store \<Rightarrow> store_error + gateway_store" where
  "mark_acknowledged i now db =
     (let p = (\<lambda>r. gr_request_id r = i \<and> gr_status r = Req_pending);
          affected = count_where p (feeder_requests db);
          db1 = db\<lparr>feeder_requests := update_where p
            (\<lambda>r. r\<lparr>gr_status := Req_acknowledged, gr_updated_at := now\<rparr>) (feeder_requests db)\<rparr>
      in if affected = 1 then Inr (insert_request_event i ''acknowledged'' db1)
         else if request_status i db1 = Some Stored_Acknowledged then Inr db1
         else Inl CouldNotAcknowledge)"

section \<open>The invariant\<close>

definition store_inv :: "gateway_store \<Rightarrow> bool" where
  "store_inv db \<longleftrightarrow>
     distinct (map gr_request_id (feeder_requests db))
     \<and> distinct (map fst (feeder_refusals db))
     \<and> gr_request_id ` set (feeder_requests db) \<inter> fst ` set (feeder_refusals db) = {}
     \<and> count_where (\<lambda>r. gr_status r = Req_pending) (feeder_requests db) \<le> 1
     \<and> (\<forall>r \<in> snd ` set (feeder_refusals db). 1 \<le> fr_retry_after_seconds r
          \<and> fr_retry_after_seconds r \<le> 86400)"

definition known :: "uuid \<Rightarrow> gateway_store \<Rightarrow> bool" where
  "known i db \<longleftrightarrow> i \<in> gr_request_id ` set (feeder_requests db)
     \<or> i \<in> fst ` set (feeder_refusals db)"

lemma store_inv_empty [simp]: "store_inv empty_store"
  by (simp add: store_inv_def empty_store_def count_where_def)

lemma find_request_None:
  "find_request i db = None \<longleftrightarrow> i \<notin> gr_request_id ` set (feeder_requests db)"
  by (auto simp: find_request_def find_None)

lemma find_refusal_None: "find_refusal i db = None \<longleftrightarrow> i \<notin> fst ` set (feeder_refusals db)"
  by (force simp: find_refusal_def find_None)

lemma find_refusal_Some: "find_refusal i db = Some f \<Longrightarrow> (i, f) \<in> set (feeder_refusals db)"
  by (auto simp: find_refusal_def dest!: find_Some_in)

lemma insert_request_event_frame [simp]:
  "feeder_requests (insert_request_event i e db) = feeder_requests db"
  "feeder_refusals (insert_request_event i e db) = feeder_refusals db"
  "weather_high_water (insert_request_event i e db) = weather_high_water db"
  by (simp_all add: insert_request_event_def)

lemma store_inv_event [simp]: "store_inv (insert_request_event i e db) = store_inv db"
  by (simp add: store_inv_def)


lemma in_i64_uint_u64: "0 \<le> d \<Longrightarrow> in_i64 d \<Longrightarrow> uint (word_of_int d :: u64) = d"
  by (simp add: uint_word_of_int_i64 in_i64_def)

lemma refusal_for_bounds:
  assumes "refusal_for s p d = Some r" "in_i64 d"
  shows "1 \<le> fr_retry_after_seconds r \<and> fr_retry_after_seconds r \<le> 86400"
proof -
  have "(1 :: u64) \<le> word_of_int d" if "0 < d"
    using that assms(2) by (simp add: word_le_uint in_i64_uint_u64)
  then show ?thesis
    using assms(1) by (auto simp: refusal_for_def split: if_splits)
qed

lemma refusal_for_None: "refusal_for s p d = None \<longleftrightarrow> \<not> s \<and> \<not> p \<and> d \<le> 0"
  by (auto simp: refusal_for_def)

section \<open>The delay\<close>

lemma fold_max_le: "fold max ys (y :: int) \<le> b \<longleftrightarrow> y \<le> b \<and> (\<forall>x \<in> set ys. x \<le> b)"
  by (induction ys arbitrary: y) auto

lemma fold_min_le: "b < fold min ys (y :: int) \<longleftrightarrow> b < y \<and> (\<forall>x \<in> set ys. b < x)"
  by (induction ys arbitrary: y) auto

lemma sql_max_None [simp]: "sql_max xs = None \<longleftrightarrow> xs = []"
  by (simp add: sql_max_def split: list.splits)

lemma sql_min_None [simp]: "sql_min xs = None \<longleftrightarrow> xs = []"
  by (simp add: sql_min_def split: list.splits)

lemma sql_max_Nil [simp]: "sql_max [] = None"
  by simp

lemma sql_min_Nil [simp]: "sql_min [] = None"
  by simp

lemma sql_max_le: "sql_max xs = Some m \<Longrightarrow> m \<le> b \<longleftrightarrow> (\<forall>x \<in> set xs. x \<le> b)"
  by (auto simp: sql_max_def fold_max_le split: list.splits)

lemma sql_min_gt: "sql_min xs = Some m \<Longrightarrow> b < m \<longleftrightarrow> (\<forall>x \<in> set xs. b < x)"
  by (auto simp: sql_min_def fold_min_le split: list.splits)

lemma until_Inr:
  "until m d now = Inr v \<Longrightarrow> (m = None \<and> v = 0) \<or> (\<exists>t. m = Some t \<and> v = t + d - now \<and> in_i64 v)"
  by (auto simp: until_def checked_add_i64_def split: option.splits if_splits)

lemma admission_delay_in_i64: "admission_delay now interval cap db = Inr d \<Longrightarrow> 0 \<le> d \<and> in_i64 d"
  by (auto simp: admission_delay_def Let_def andthen_eq_Inr max_def split: if_splits dest!: until_Inr)

text \<open>The delay is 0 exactly when the interval has passed since every row and the last hour holds
  fewer rows than the cap.\<close>

lemma admission_delay_0:
  assumes "admission_delay now interval cap db = Inr d" "1 \<le> cap"
  shows "d \<le> 0 \<longleftrightarrow> (\<forall>r \<in> set (feeder_requests db). gr_updated_at r + interval \<le> now)
    \<and> int (count_where (in_window now) (feeder_requests db)) < cap"
proof -
  let ?rows = "feeder_requests db" and ?w = "filter (in_window now) (feeder_requests db)"
  from assms(1) obtain s h where s: "until (sql_max (map gr_updated_at ?rows)) interval now = Inr s"
    and h: "(if cap \<le> int (length ?w) then until (sql_min (map gr_updated_at ?w)) 3601 now
      else Inr 0) = Inr h" and d: "d = max 0 (max s h)"
    by (auto simp: admission_delay_def Let_def andthen_eq_Inr)
  have "s \<le> 0 \<longleftrightarrow> (\<forall>r \<in> set ?rows. gr_updated_at r + interval \<le> now)"
  proof (cases "sql_max (map gr_updated_at ?rows)")
    case None
    then show ?thesis using until_Inr [OF s] by simp
  next
    case (Some m)
    then have "s = m + interval - now" using until_Inr [OF s] by simp
    then show ?thesis using sql_max_le [OF Some, of "now - interval"] by auto
  qed
  moreover have "h \<le> 0 \<longleftrightarrow> int (length ?w) < cap"
  proof (cases "cap \<le> int (length ?w)")
    case True
    with assms(2) have "?w \<noteq> []" by auto
    then obtain m where m: "sql_min (map gr_updated_at ?w) = Some m" by fastforce
    with True h have "h = m + 3601 - now" using until_Inr by fastforce
    moreover have "now - 3601 < m"
      using sql_min_gt [OF m, of "now - 3601"] by (force simp: in_window_def)
    ultimately show ?thesis using True by simp
  qed (use h in simp)
  ultimately show ?thesis by (auto simp: d count_where_def)
qed

section \<open>What admission does\<close>

lemma begin_request_cases:
  assumes "begin_request i interval cap unsafe now db = Inr (out, db')"
  obtains (pending) "out = Begin_Pending" "db' = db" "request_status i db = Some Stored_Pending"
  | (acknowledged) "out = Begin_Acknowledged" "db' = db"
      "request_status i db = Some Stored_Acknowledged"
  | (tombstone) f where "out = Begin_NotDispatched f" "db' = db" "find_refusal i db = Some f"
      "find_request i db = None"
  | (refused) f d where "out = Begin_NotDispatched f" "find_request i db = None"
      "find_refusal i db = None" "admission_delay now (uint interval) (uint cap) db = Inr d"
      "refusal_for unsafe (\<exists>r \<in> set (feeder_requests db). gr_status r = Req_pending) d = Some f"
      "db' = db\<lparr>feeder_refusals := feeder_refusals db @ [(i, f)]\<rparr>"
  | (new) d where "out = Begin_New" "find_request i db = None" "find_refusal i db = None"
      "admission_delay now (uint interval) (uint cap) db = Inr d" "d \<le> 0" "\<not> unsafe"
      "\<forall>r \<in> set (feeder_requests db). gr_status r \<noteq> Req_pending" "5 \<le> uint interval" "1 \<le> uint cap"
      "insert_request i now db = Inr db'"
proof -
  let ?p = "\<exists>r \<in> set (feeder_requests db). gr_status r = Req_pending"
  from assms have lim: "5 \<le> uint interval" "1 \<le> uint cap"
    by (auto simp: begin_request_def andthen_eq_Inr i64_of_u64_Some split: if_splits)
  show thesis
  proof (cases "find_request i db")
    case (Some r)
    then show thesis
      using assms pending acknowledged
      by (cases "gr_status r")
        (auto simp: begin_request_def andthen_eq_Inr request_status_def split: if_splits)
  next
    case None
    note r = this
    show thesis
    proof (cases "find_refusal i db")
      case (Some f)
      then show thesis
        using assms r tombstone by (auto simp: begin_request_def andthen_eq_Inr split: if_splits)
    next
      case None
      from assms r None obtain d where d: "admission_delay now (uint interval) (uint cap) db = Inr d"
        and rest: "(case refusal_for unsafe ?p d of
             Some refusal \<Rightarrow> andthen (insert_refusal i refusal db) (\<lambda>db1.
               Inr (Begin_NotDispatched refusal, db1))
           | None \<Rightarrow> andthen (insert_request i now db) (\<lambda>db1. Inr (Begin_New, db1)))
          = Inr (out, db')"
        by (auto simp: begin_request_def andthen_eq_Inr i64_of_u64_Some Let_def split: if_splits)
      show thesis
      proof (cases "refusal_for unsafe ?p d")
        case n: None
        with rest have "out = Begin_New" "insert_request i now db = Inr db'"
          by (auto simp: andthen_eq_Inr)
        then show thesis using new [OF _ r None d] n lim by (auto simp: refusal_for_None)
      next
        case (Some f)
        with rest have "out = Begin_NotDispatched f"
          "db' = db\<lparr>feeder_refusals := feeder_refusals db @ [(i, f)]\<rparr>"
          by (auto simp: andthen_eq_Inr insert_refusal_def split: if_splits)
        then show thesis using refused [OF _ r None d Some] by auto
      qed
    qed
  qed
qed

section \<open>The invariant is kept\<close>

lemma insert_request_Inr:
  "insert_request i now db = Inr db' \<longleftrightarrow> i \<notin> gr_request_id ` set (feeder_requests db)
     \<and> db' = insert_request_event i ''reserved'' (db\<lparr>feeder_requests := feeder_requests db
        @ [\<lparr>gr_request_id = i, gr_status = Req_pending, gr_created_at = now,
            gr_updated_at = now\<rparr>]\<rparr>)"
  by (auto simp: insert_request_def)

lemma begin_request_inv:
  assumes "begin_request i interval cap unsafe now db = Inr (out, db')" "store_inv db"
  shows "store_inv db'"
  using assms(1)
proof (cases rule: begin_request_cases)
  case (refused f d)
  have "1 \<le> fr_retry_after_seconds f \<and> fr_retry_after_seconds f \<le> 86400"
    by (rule refusal_for_bounds [OF refused(5)]) (use admission_delay_in_i64 [OF refused(4)] in simp)
  then show ?thesis
    using assms(2) refused by (auto simp: store_inv_def find_request_None find_refusal_None)
next
  case (new d)
  then have "i \<notin> gr_request_id ` set (feeder_requests db)" "i \<notin> fst ` set (feeder_refusals db)"
    "count_where (\<lambda>r. gr_status r = Req_pending) (feeder_requests db) = 0"
    by (auto simp: find_request_None find_refusal_None count_where_0)
  with new(10) show ?thesis
    using assms(2) by (auto simp: store_inv_def insert_request_Inr count_where_append count_where_Cons
        count_where_Nil)
qed (use assms(2) in auto)

lemma mark_acknowledged_cases:
  assumes "mark_acknowledged i now db = Inr db'" "store_inv db"
  obtains (now) r xs ys where "feeder_requests db = xs @ r # ys" "gr_request_id r = i"
      "gr_status r = Req_pending" "feeder_requests db' =
        xs @ r\<lparr>gr_status := Req_acknowledged, gr_updated_at := now\<rparr> # ys"
      "feeder_refusals db' = feeder_refusals db"
      "request_status i db' = Some Stored_Acknowledged"
  | (already) "db' = db" "request_status i db = Some Stored_Acknowledged"
proof -
  let ?p = "\<lambda>r. gr_request_id r = i \<and> gr_status r = Req_pending"
  let ?f = "\<lambda>r. r\<lparr>gr_status := Req_acknowledged, gr_updated_at := now\<rparr>"
  have dist: "distinct (map gr_request_id (feeder_requests db))"
    using assms(2) by (simp add: store_inv_def)
  show thesis
  proof (cases "\<exists>r \<in> set (feeder_requests db). ?p r")
    case True
    then obtain r where r: "r \<in> set (feeder_requests db)" "gr_request_id r = i"
      "gr_status r = Req_pending" by blast
    have "\<exists>xs ys. feeder_requests db = xs @ r # ys \<and> i \<notin> gr_request_id ` set xs
      \<and> update_where ?p ?f (feeder_requests db) = xs @ ?f r # ys
      \<and> count_where ?p (feeder_requests db) = 1"
    proof (rule update_one [of gr_request_id "feeder_requests db" r
          "\<lambda>x. gr_status x = Req_pending", OF dist r(1,3)], goal_cases)
      case (1 xs ys)
      then show ?case using r(2) by (intro exI [of _ xs] exI [of _ ys]) simp
    qed
    then obtain xs ys where s: "feeder_requests db = xs @ r # ys" "i \<notin> gr_request_id ` set xs"
      "update_where ?p ?f (feeder_requests db) = xs @ ?f r # ys"
      "count_where ?p (feeder_requests db) = 1" by blast
    then have db': "db' = insert_request_event i ''acknowledged'' (db\<lparr>feeder_requests :=
        xs @ ?f r # ys\<rparr>)"
      using assms(1) by (simp add: mark_acknowledged_def Let_def)
    moreover have "find (\<lambda>r. gr_request_id r = i) xs = None"
      using s(2) by (auto simp: find_None)
    ultimately show thesis
      using s(1) r
      by (intro now [of xs r ys]) (simp_all add: request_status_def find_request_def find_append)
  next
    case False
    then have "update_where ?p ?f (feeder_requests db) = feeder_requests db"
      "count_where ?p (feeder_requests db) = 0"
      by (auto intro!: update_where_unused simp: count_where_0)
    then show thesis
      using assms(1) by (intro already) (auto simp: mark_acknowledged_def Let_def split: if_splits)
  qed
qed

lemma mark_acknowledged_inv:
  assumes "mark_acknowledged i now db = Inr db'" "store_inv db"
  shows "store_inv db'"
  using assms
proof (cases rule: mark_acknowledged_cases)
  case (now r xs ys)
  then show ?thesis
    using assms(2) by (auto simp: store_inv_def count_where_append count_where_Cons)
qed (use assms(2) in simp)

lemma accept_weather_frame:
  assumes "accept_weather_time e db = Inr db'"
  shows "feeder_requests db' = feeder_requests db" "feeder_refusals db' = feeder_refusals db"
    and "store_inv db' = store_inv db" "known k db' = known k db"
    "request_status i db' = request_status i db"
proof -
  from assms obtain x where "db' = db\<lparr>weather_high_water := x\<rparr>"
    by (auto simp: accept_weather_time_def split: option.splits if_splits)
  moreover have "find_refusal i (db\<lparr>weather_high_water := x\<rparr>) = find_refusal i db"
    "find_request i (db\<lparr>weather_high_water := x\<rparr>) = find_request i db"
    by (simp_all add: find_refusal_def find_request_def)
  ultimately show "feeder_requests db' = feeder_requests db" "feeder_refusals db' = feeder_refusals db"
    "store_inv db' = store_inv db" "known k db' = known k db"
    "request_status i db' = request_status i db"
    by (simp_all add: store_inv_def known_def request_status_def split: option.splits)
qed

section \<open>Runs of the store\<close>

text \<open>One event of the store: the time of its transaction and the call with its result.\<close>

datatype store_call = Call_begin uuid bool begin_outcome | Call_acknowledge uuid | Call_weather i64

inductive store_step ::
  "u64 \<Rightarrow> u64 \<Rightarrow> i64 \<times> store_call \<Rightarrow> gateway_store \<Rightarrow> gateway_store \<Rightarrow> bool"
  for interval cap where
  st_begin: "begin_request i interval cap unsafe now db = Inr (out, db') \<Longrightarrow>
     store_step interval cap (now, Call_begin i unsafe out) db db'"
| st_acknowledge: "mark_acknowledged i now db = Inr db' \<Longrightarrow>
     store_step interval cap (now, Call_acknowledge i) db db'"
| st_weather: "accept_weather_time e db = Inr db' \<Longrightarrow>
     store_step interval cap (now, Call_weather e) db db'"

fun admitted :: "i64 \<times> store_call \<Rightarrow> uuid option" where
  "admitted (_, Call_begin i _ Begin_New) = Some i"
| "admitted _ = None"

lemma store_step_inv: "store_step interval cap e db db' \<Longrightarrow> store_inv db \<Longrightarrow> store_inv db'"
  by (induction rule: store_step.induct)
    (auto intro: begin_request_inv mark_acknowledged_inv simp: accept_weather_frame(3))

lemma begin_request_known:
  assumes "begin_request i interval cap unsafe now db = Inr (out, db')"
  shows "known k db' \<longleftrightarrow> known k db \<or> k = i" and "out = Begin_New \<Longrightarrow> \<not> known i db"
proof -
  show "known k db' \<longleftrightarrow> known k db \<or> k = i"
    using assms
  proof (cases rule: begin_request_cases)
    case pending
    then show ?thesis
      by (auto simp: known_def request_status_def find_request_def find_refusal_def
          dest!: find_Some_in split: option.splits)
  next
    case acknowledged
    then show ?thesis
      by (auto simp: known_def request_status_def find_request_def find_refusal_def
          dest!: find_Some_in split: option.splits)
  next
    case (tombstone f)
    then show ?thesis using find_refusal_Some [of i db f] by (force simp: known_def)
  next
    case (refused f d)
    then show ?thesis by (auto simp: known_def)
  next
    case (new d)
    then show ?thesis by (auto simp: known_def insert_request_Inr)
  qed
  show "out = Begin_New \<Longrightarrow> \<not> known i db"
    using assms by (cases rule: begin_request_cases) (auto simp: known_def find_request_None find_refusal_None)
qed

lemma mark_acknowledged_known:
  assumes "mark_acknowledged i now db = Inr db'" "store_inv db"
  shows "known k db' \<longleftrightarrow> known k db"
  using assms by (cases rule: mark_acknowledged_cases) (auto simp: known_def)

lemma store_step_known:
  assumes "store_step interval cap e db db'" "store_inv db"
  shows "known k db \<Longrightarrow> known k db'"
    and "admitted e = Some k \<Longrightarrow> \<not> known k db \<and> known k db'"
proof -
  from assms have "(known k db \<longrightarrow> known k db')
    \<and> (admitted e = Some k \<longrightarrow> \<not> known k db \<and> known k db')"
  proof (cases rule: store_step.cases)
    case (st_begin i unsafe now out)
    note b = begin_request_known [OF st_begin(2)]
    then show ?thesis using st_begin(1) by (cases out) auto
  next
    case (st_acknowledge i now)
    then show ?thesis using mark_acknowledged_known [OF st_acknowledge(2) assms(2)] by simp
  next
    case (st_weather t now)
    then show ?thesis by (simp add: accept_weather_frame(4))
  qed
  then show "known k db \<Longrightarrow> known k db'"
    "admitted e = Some k \<Longrightarrow> \<not> known k db \<and> known k db'" by auto
qed

interpretation store: once_only "store_step interval cap" "\<lambda>db k. known k db" admitted store_inv
  for interval cap
  by unfold_locales (auto dest: store_step_inv store_step_known)

lemma run_store_inv: "run (store_step interval cap) db tr db' \<Longrightarrow> store_inv db \<Longrightarrow> store_inv db'"
  by (rule store.run_good)

text \<open>The rows of \<open>feeder_requests\<close> are the admissions of the run, in order.\<close>

definition admission_times :: "(i64 \<times> store_call) list \<Rightarrow> i64 list" where
  "admission_times tr = map fst (filter (\<lambda>e. admitted e \<noteq> None) tr)"

lemma begin_request_rows:
  assumes "begin_request i interval cap unsafe now db = Inr (out, db')"
  shows "map gr_request_id (feeder_requests db') = map gr_request_id (feeder_requests db)
      @ (if out = Begin_New then [i] else [])"
    and "map gr_created_at (feeder_requests db') = map gr_created_at (feeder_requests db)
      @ (if out = Begin_New then [now] else [])"
    and "fst ` set (feeder_refusals db) \<subseteq> fst ` set (feeder_refusals db')"
    and "out = Begin_NotDispatched f \<Longrightarrow> i \<in> fst ` set (feeder_refusals db')"
  using assms
  by (cases rule: begin_request_cases;
      force simp: insert_request_Inr dest: find_refusal_Some)+

lemma mark_acknowledged_rows:
  assumes "mark_acknowledged i now db = Inr db'" "store_inv db"
  shows "map gr_request_id (feeder_requests db') = map gr_request_id (feeder_requests db)"
    and "map gr_created_at (feeder_requests db') = map gr_created_at (feeder_requests db)"
    and "feeder_refusals db' = feeder_refusals db"
  using assms by (cases rule: mark_acknowledged_cases; simp)+

lemma store_step_rows:
  assumes "store_step interval cap e db db'" "store_inv db"
  shows "map gr_request_id (feeder_requests db') = map gr_request_id (feeder_requests db)
      @ (case admitted e of None \<Rightarrow> [] | Some i \<Rightarrow> [i])"
    and "map gr_created_at (feeder_requests db') = map gr_created_at (feeder_requests db)
      @ (case admitted e of None \<Rightarrow> [] | Some i \<Rightarrow> [fst e])"
    and "fst ` set (feeder_refusals db) \<subseteq> fst ` set (feeder_refusals db')"
    and "snd e = Call_begin i u (Begin_NotDispatched f) \<Longrightarrow> i \<in> fst ` set (feeder_refusals db')"
proof -
  have "map gr_request_id (feeder_requests db') = map gr_request_id (feeder_requests db)
      @ (case admitted e of None \<Rightarrow> [] | Some i \<Rightarrow> [i])
    \<and> map gr_created_at (feeder_requests db') = map gr_created_at (feeder_requests db)
      @ (case admitted e of None \<Rightarrow> [] | Some i \<Rightarrow> [fst e])
    \<and> fst ` set (feeder_refusals db) \<subseteq> fst ` set (feeder_refusals db')
    \<and> (snd e = Call_begin i u (Begin_NotDispatched f) \<longrightarrow> i \<in> fst ` set (feeder_refusals db'))"
    using assms(1)
  proof (cases rule: store_step.cases)
    case (st_begin j unsafe now out)
    then show ?thesis using begin_request_rows [OF st_begin(2)] by (cases out) auto
  next
    case (st_acknowledge j now)
    then show ?thesis using mark_acknowledged_rows [OF st_acknowledge(2) assms(2)] by simp
  next
    case (st_weather t now)
    then show ?thesis using accept_weather_frame [OF st_weather(2)] by simp
  qed
  then show "map gr_request_id (feeder_requests db') = map gr_request_id (feeder_requests db)
      @ (case admitted e of None \<Rightarrow> [] | Some i \<Rightarrow> [i])"
    "map gr_created_at (feeder_requests db') = map gr_created_at (feeder_requests db)
      @ (case admitted e of None \<Rightarrow> [] | Some i \<Rightarrow> [fst e])"
    "fst ` set (feeder_refusals db) \<subseteq> fst ` set (feeder_refusals db')"
    "snd e = Call_begin i u (Begin_NotDispatched f) \<Longrightarrow> i \<in> fst ` set (feeder_refusals db')"
    by auto
qed

lemma run_store_rows:
  assumes "run (store_step interval cap) db tr db'" "db = empty_store"
  shows "map gr_request_id (feeder_requests db') = List.map_filter admitted tr
    \<and> map gr_created_at (feeder_requests db') = admission_times tr
    \<and> (\<forall>t i u f. (t, Call_begin i u (Begin_NotDispatched f)) \<in> set tr \<longrightarrow>
          i \<in> fst ` set (feeder_refusals db'))"
  using assms
proof (induction rule: run.induct)
  case (run_Nil s)
  then show ?case by (simp add: empty_store_def admission_times_def)
next
  case (run_snoc s tr db e db')
  then have inv: "store_inv db" using run_store_inv store_inv_empty by blast
  note r = store_step_rows [OF run_snoc.hyps(2) inv]
  have "i \<in> fst ` set (feeder_refusals db')"
    if "(t, Call_begin i u (Begin_NotDispatched f)) \<in> set (tr @ [e])" for t i u f
  proof (cases "(t, Call_begin i u (Begin_NotDispatched f)) \<in> set tr")
    case True
    then have "i \<in> fst ` set (feeder_refusals db)" using run_snoc.IH [OF run_snoc.prems] by blast
    then show ?thesis using r(3) by blast
  next
    case False
    with that have "snd e = Call_begin i u (Begin_NotDispatched f)" by auto
    then show ?thesis by (rule r(4))
  qed
  then show ?case
    using run_snoc.IH [OF run_snoc.prems] r(1,2)
    by (simp add: admission_times_def split: option.splits)
qed

section \<open>The interval and the hourly cap\<close>

text \<open>Timestamps of the rows under a clock that does not go back: a row is created before it is
  updated and not updated in the future, and the admissions respect both limits.\<close>

definition clocked :: "i64 \<Rightarrow> gateway_store \<Rightarrow> bool" where
  "clocked now db \<longleftrightarrow>
     (\<forall>r \<in> set (feeder_requests db). gr_created_at r \<le> gr_updated_at r \<and> gr_updated_at r \<le> now)"

definition spaced :: "int \<Rightarrow> int \<Rightarrow> i64 list \<Rightarrow> bool" where
  "spaced interval cap ts \<longleftrightarrow> sorted_wrt (\<lambda>s t. s + interval \<le> t) ts
     \<and> (\<forall>a. int (count_where (\<lambda>t. a \<le> t \<and> t \<le> a + 3600) ts) \<le> cap)"

lemma count_where_map: "count_where p (map f xs) = count_where (\<lambda>x. p (f x)) xs"
  by (simp add: count_where_def filter_map o_def)

lemma count_where_mono: "(\<And>x. x \<in> set xs \<Longrightarrow> p x \<Longrightarrow> q x) \<Longrightarrow> count_where p xs \<le> count_where q xs"
  by (induction xs) (auto simp: count_where_def)

lemma begin_new_spaced:
  assumes "begin_request i interval cap unsafe now db = Inr (Begin_New, db')"
    and "clocked now db" "spaced (uint interval) (uint cap) (map gr_created_at (feeder_requests db))"
  shows "spaced (uint interval) (uint cap) (map gr_created_at (feeder_requests db) @ [now])"
  using assms(1)
proof (cases rule: begin_request_cases)
  case (new d)
  let ?rows = "feeder_requests db"
  from admission_delay_0 [OF new(4,9)] new(5)
  have gap: "\<forall>r \<in> set ?rows. gr_updated_at r + uint interval \<le> now"
    and hour: "int (count_where (in_window now) ?rows) < uint cap" by auto
  have c: "gr_created_at r \<le> gr_updated_at r" if "r \<in> set ?rows" for r
    using assms(2) that by (simp add: clocked_def)
  have "\<forall>r \<in> set ?rows. gr_created_at r + uint interval \<le> now"
    using gap c by fastforce
  moreover have "int (count_where (\<lambda>t. a \<le> t \<and> t \<le> a + 3600) (map gr_created_at ?rows @ [now]))
    \<le> uint cap" for a
  proof (cases "a \<le> now \<and> now \<le> a + 3600")
    case True
    have "in_window now r" if "r \<in> set ?rows" "a \<le> gr_created_at r" for r
      using c [OF that(1)] that(2) True by (simp add: in_window_def)
    then have "count_where (\<lambda>r. a \<le> gr_created_at r \<and> gr_created_at r \<le> a + 3600) ?rows
        \<le> count_where (in_window now) ?rows"
      by (intro count_where_mono) auto
    then show ?thesis
      using hour True by (simp add: count_where_append count_where_Cons count_where_Nil count_where_map)
  next
    case False
    then show ?thesis
      using assms(3) by (auto simp: spaced_def count_where_append count_where_Cons count_where_Nil)
  qed
  ultimately show ?thesis
    using assms(3) by (auto simp: spaced_def sorted_wrt_append)
qed auto

lemma store_step_clocked:
  assumes "store_step interval cap e db db'" "store_inv db" "clocked (fst e) db"
  shows "clocked (fst e) db'"
  using assms(1)
proof (cases rule: store_step.cases)
  case (st_begin i unsafe now out)
  from st_begin(2) show ?thesis
    by (cases rule: begin_request_cases)
      (use assms(3) st_begin(1) in \<open>auto simp: clocked_def insert_request_Inr\<close>)
next
  case (st_acknowledge i now)
  from st_acknowledge(2) assms(2) show ?thesis
    by (cases rule: mark_acknowledged_cases)
      (use assms(3) st_acknowledge(1) in \<open>auto simp: clocked_def\<close>)
next
  case (st_weather t now)
  then show ?thesis using assms(3) by (simp add: clocked_def accept_weather_frame(1))
qed

lemma clocked_mono: "clocked now db \<Longrightarrow> now \<le> later \<Longrightarrow> clocked later db"
  by (fastforce simp: clocked_def)

lemma run_store_spaced:
  assumes "run (store_step interval cap) db tr db'" "db = empty_store" "sorted (map fst tr)"
  shows "(\<forall>now. (\<forall>e \<in> set tr. fst e \<le> now) \<longrightarrow> clocked now db')
    \<and> spaced (uint interval) (uint cap) (map gr_created_at (feeder_requests db'))"
  using assms
proof (induction rule: run.induct)
  case (run_Nil s)
  then show ?case by (simp add: clocked_def spaced_def empty_store_def count_where_def)
next
  case (run_snoc s tr db e db')
  then have inv: "store_inv db" using run_store_inv store_inv_empty by blast
  note step = run_snoc.hyps(2)
  from run_snoc.prems have srt: "sorted (map fst tr)" "\<forall>f \<in> set tr. fst f \<le> fst e"
    by (auto simp: sorted_append)
  then have IH: "clocked (fst e) db"
    "spaced (uint interval) (uint cap) (map gr_created_at (feeder_requests db))"
    using run_snoc.IH run_snoc.prems(1) by auto
  have "clocked now db'" if "\<forall>f \<in> set (tr @ [e]). fst f \<le> now" for now
    using clocked_mono [OF store_step_clocked [OF step inv IH(1)]] that by simp
  moreover have "spaced (uint interval) (uint cap) (map gr_created_at (feeder_requests db'))"
  proof (cases "admitted e")
    case None
    then show ?thesis using store_step_rows(2) [OF step inv] IH(2) by simp
  next
    case (Some i)
    then obtain u where "snd e = Call_begin i u Begin_New"
      by (cases e rule: admitted.cases) auto
    with step obtain u where
      "begin_request i interval cap u (fst e) db = Inr (Begin_New, db')"
      by (auto elim: store_step.cases)
    then show ?thesis
      using begin_new_spaced IH store_step_rows(2) [OF step inv] Some by auto
  qed
  ultimately show ?case by blast
qed

section \<open>The advertised delay\<close>

text \<open>Within these bounds on the timestamps no expression leaves 64 bits.\<close>

definition times_fit :: "i64 \<Rightarrow> gateway_store \<Rightarrow> bool" where
  "times_fit now db \<longleftrightarrow> now + 86400 \<le> i64_max
     \<and> (\<forall>r \<in> set (feeder_requests db). 0 \<le> gr_updated_at r \<and> gr_updated_at r \<le> now)"

lemma sql_max_in: "sql_max xs = Some m \<Longrightarrow> m \<in> set xs"
proof -
  have "fold max ys y \<in> set (y # ys)" for y :: i64 and ys
    by (induction ys arbitrary: y) (auto simp: max_def)
  then show "sql_max xs = Some m \<Longrightarrow> m \<in> set xs" by (auto simp: sql_max_def split: list.splits)
qed

lemma sql_min_in: "sql_min xs = Some m \<Longrightarrow> m \<in> set xs"
proof -
  have "fold min ys y \<in> set (y # ys)" for y :: i64 and ys
    by (induction ys arbitrary: y) (auto simp: min_def)
  then show "sql_min xs = Some m \<Longrightarrow> m \<in> set xs" by (auto simp: sql_min_def split: list.splits)
qed

lemma until_fits:
  assumes "now + 86400 \<le> i64_max" "0 \<le> d" "d \<le> 86400"
    and "\<And>t. m = Some t \<Longrightarrow> 0 \<le> t \<and> t \<le> now"
  shows "until m d now = Inr (case m of None \<Rightarrow> 0 | Some t \<Rightarrow> t + d - now)"
  using assms by (auto simp: until_def checked_add_i64_def in_i64_def i64_min_def i64_max_def
      split: option.splits)

lemma admission_delay_fits:
  assumes "times_fit now db" "0 \<le> interval" "interval \<le> 86400"
  obtains d where "admission_delay now interval cap db = Inr d" "0 \<le> d" "d \<le> 86400"
proof -
  let ?all = "sql_max (map gr_updated_at (feeder_requests db))"
  let ?win = "sql_min (map gr_updated_at (filter (in_window now) (feeder_requests db)))"
  have now: "now + 86400 \<le> i64_max" using assms(1) by (simp add: times_fit_def)
  have a: "0 \<le> t \<and> t \<le> now" if "?all = Some t" for t
    using sql_max_in [OF that] assms(1) by (auto simp: times_fit_def)
  have w: "0 \<le> t \<and> t \<le> now" if "?win = Some t" for t
    using sql_min_in [OF that] assms(1) by (auto simp: times_fit_def)
  have "until ?all interval now = Inr (case ?all of None \<Rightarrow> 0 | Some t \<Rightarrow> t + interval - now)"
    by (rule until_fits [OF now assms(2,3)]) (rule a)
  then have "\<exists>s. until ?all interval now = Inr s \<and> s \<le> 86400"
    using a assms(3) by (cases ?all) auto
  moreover have "until ?win 3601 now = Inr (case ?win of None \<Rightarrow> 0 | Some t \<Rightarrow> t + 3601 - now)"
    by (rule until_fits [OF now]) (simp_all add: w)
  then have "\<exists>h. until ?win 3601 now = Inr h \<and> h \<le> 86400"
    using w by (cases ?win) auto
  ultimately have "\<exists>d. admission_delay now interval cap db = Inr d \<and> 0 \<le> d \<and> d \<le> 86400"
    by (auto simp: admission_delay_def Let_def)
  then show thesis using that by blast
qed

text \<open>A delay of \<open>d\<close> says when: \<open>s\<close> seconds later both limits are met exactly when \<open>d \<le> s\<close>.\<close>

lemma admission_delay_le:
  assumes "admission_delay now interval cap db = Inr d" "1 \<le> cap" "0 \<le> s"
    and "int (count_where (in_window now) (feeder_requests db)) \<le> cap"
  shows "d \<le> s \<longleftrightarrow> (\<forall>r \<in> set (feeder_requests db). gr_updated_at r + interval \<le> now + s)
    \<and> int (count_where (in_window (now + s)) (feeder_requests db)) < cap"
proof -
  let ?rows = "feeder_requests db" and ?w = "filter (in_window now) (feeder_requests db)"
  from assms(1) obtain p h where p: "until (sql_max (map gr_updated_at ?rows)) interval now = Inr p"
    and h: "(if cap \<le> int (length ?w) then until (sql_min (map gr_updated_at ?w)) 3601 now
      else Inr 0) = Inr h" and d: "d = max 0 (max p h)"
    by (auto simp: admission_delay_def Let_def andthen_eq_Inr)
  have "p \<le> s \<longleftrightarrow> (\<forall>r \<in> set ?rows. gr_updated_at r + interval \<le> now + s)"
  proof (cases "sql_max (map gr_updated_at ?rows)")
    case None
    then show ?thesis using until_Inr [OF p] assms(3) by simp
  next
    case (Some m)
    then have "p = m + interval - now" using until_Inr [OF p] by simp
    then show ?thesis using sql_max_le [OF Some, of "now + s - interval"] by auto
  qed
  moreover have "h \<le> s \<longleftrightarrow> int (count_where (in_window (now + s)) ?rows) < cap"
  proof (cases "cap \<le> int (length ?w)")
    case True
    with assms(2) have "?w \<noteq> []" by auto
    then obtain m where m: "sql_min (map gr_updated_at ?w) = Some m" by fastforce
    with True h have hm: "h = m + 3601 - now" using until_Inr by fastforce
    have later: "filter (in_window (now + s)) ?rows = filter (in_window (now + s)) ?w"
      using assms(3) by (auto simp: in_window_def intro: filter_cong)
    show ?thesis
    proof (cases "h \<le> s")
      case True
      obtain r where "r \<in> set ?w" "m = gr_updated_at r" using sql_min_in [OF m] by auto
      then have "length (filter (in_window (now + s)) ?w) < length ?w"
        using True hm by (intro length_filter_less [of r]) (auto simp: in_window_def)
      then show ?thesis using True later assms(4) by (simp add: count_where_def)
    next
      case False
      have "in_window (now + s) r" if "r \<in> set ?w" for r
        using sql_min_gt [OF m, of "m - 1"] that False hm by (fastforce simp: in_window_def)
      then have "\<forall>r \<in> set ?w. in_window (now + s) r" by blast
      then have "filter (in_window (now + s)) ?w = ?w" by (rule filter_True)
      then show ?thesis using False later \<open>cap \<le> int (length ?w)\<close> by (simp add: count_where_def)
    qed
  next
    case False
    moreover have "count_where (in_window (now + s)) ?rows \<le> length ?w"
      using assms(3) by (auto simp: in_window_def count_where_def [symmetric] intro: count_where_mono)
    ultimately show ?thesis using h assms(3) by simp
  qed
  ultimately show ?thesis using assms(3) by (auto simp: d)
qed

text \<open>Admission of an unknown UUID decides exactly by the three conditions.\<close>

lemma begin_request_fresh:
  assumes "\<not> known i db" "times_fit now db" "uint interval \<le> 86400" "5 \<le> uint interval"
    and "1 \<le> uint cap" "uint cap \<le> i64_max"
  obtains d where "admission_delay now (uint interval) (uint cap) db = Inr d" "0 \<le> d" "d \<le> 86400"
    and "(\<exists>db'. begin_request i interval cap unsafe now db = Inr (Begin_New, db')) \<longleftrightarrow>
      \<not> unsafe \<and> (\<forall>r \<in> set (feeder_requests db). gr_status r \<noteq> Req_pending) \<and> d \<le> 0"
proof -
  obtain d where d: "admission_delay now (uint interval) (uint cap) db = Inr d" "0 \<le> d" "d \<le> 86400"
    using admission_delay_fits [OF assms(2), of "uint interval" "uint cap"] assms(3) by auto
  have u: "find_request i db = None" "find_refusal i db = None"
    "i \<notin> gr_request_id ` set (feeder_requests db)" "i \<notin> fst ` set (feeder_refusals db)"
    using assms(1) by (auto simp: known_def find_request_None find_refusal_None)
  have lim: "i64_of_u64 interval = Some (uint interval)" "i64_of_u64 cap = Some (uint cap)"
    using assms(3,6) by (auto simp: i64_of_u64_def i64_max_def)
  let ?p = "\<exists>r \<in> set (feeder_requests db). gr_status r = Req_pending"
  have eq: "begin_request i interval cap unsafe now db =
      (case refusal_for unsafe ?p d of
             Some refusal \<Rightarrow> andthen (insert_refusal i refusal db) (\<lambda>db1.
               Inr (Begin_NotDispatched refusal, db1))
           | None \<Rightarrow> andthen (insert_request i now db) (\<lambda>db1. Inr (Begin_New, db1)))"
    using assms(4,5) by (simp add: begin_request_def lim u(1,2) d(1))
  have "(\<exists>db'. begin_request i interval cap unsafe now db = Inr (Begin_New, db'))
    \<longleftrightarrow> refusal_for unsafe ?p d = None"
    using u(3,4) unfolding eq
    by (cases "refusal_for unsafe ?p d") (simp_all add: insert_refusal_def insert_request_def)
  then show thesis using that [OF d] by (simp add: refusal_for_None)
qed

section \<open>A sample run\<close>

definition sample_row :: "string \<Rightarrow> request_state \<Rightarrow> i64 \<Rightarrow> i64 \<Rightarrow> feeder_request" where
  "sample_row i s c u = \<lparr>gr_request_id = i, gr_status = s, gr_created_at = c, gr_updated_at = u\<rparr>"

definition sample_refusal :: feed_refusal where
  "sample_refusal = \<lparr>fr_reason = Reason_Capacity, fr_retry_after_seconds = 3599\<rparr>"

definition sample_acked :: gateway_store where
  "sample_acked = \<lparr>feeder_requests = [sample_row ''a'' Req_acknowledged 1000 1010],
     feeder_request_events =
       [\<lparr>ge_seq = 1, ge_request_id = ''a'', ge_event = ''reserved''\<rparr>,
        \<lparr>ge_seq = 2, ge_request_id = ''a'', ge_event = ''acknowledged''\<rparr>],
     feeder_refusals = [], weather_high_water = None\<rparr>"

definition sample_refused :: gateway_store where
  "sample_refused = sample_acked\<lparr>feeder_refusals := [(''b'', sample_refusal)]\<rparr>"

definition sample_trace :: "(i64 \<times> store_call) list" where
  "sample_trace = [(1000, Call_begin ''a'' False Begin_New), (1010, Call_acknowledge ''a''),
     (1012, Call_begin ''b'' False (Begin_NotDispatched sample_refusal)),
     (4611, Call_begin ''c'' False Begin_New)]"

lemmas store_eval = begin_request_def mark_acknowledged_def find_request_def find_refusal_def
  admission_delay_def until_def sql_max_def sql_min_def in_window_def refusal_for_def
  insert_refusal_def insert_request_def insert_request_event_def i64_of_u64_def
  checked_add_i64_def in_i64_def i64_max_def i64_min_def sample_row_def sample_acked_def
  sample_refused_def sample_refusal_def empty_store_def next_id_def count_where_def
  update_where_def

lemma sample_run_steps:
  shows "\<exists>db. begin_request ''a'' 5 1 False 1000 empty_store = Inr (Begin_New, db)
      \<and> mark_acknowledged ''a'' 1010 db = Inr sample_acked"
    and "begin_request ''b'' 5 1 False 1012 sample_acked
      = Inr (Begin_NotDispatched sample_refusal, sample_refused)"
    and "\<exists>db. begin_request ''c'' 5 1 False 4611 sample_refused = Inr (Begin_New, db)
      \<and> feeder_requests db = [sample_row ''a'' Req_acknowledged 1000 1010,
           sample_row ''c'' Req_pending 4611 4611]"
  by (simp_all add: store_eval)

lemma sample_run: "\<exists>db. run (store_step 5 1) empty_store sample_trace db"
proof -
  from sample_run_steps(1) obtain db1 where
    1: "begin_request ''a'' 5 1 False 1000 empty_store = Inr (Begin_New, db1)"
    "mark_acknowledged ''a'' 1010 db1 = Inr sample_acked" by blast
  from sample_run_steps(3) obtain db4 where
    4: "begin_request ''c'' 5 1 False 4611 sample_refused = Inr (Begin_New, db4)" by blast
  note step = run_snoc [where step = "store_step 5 1"]
  note r1 = step [OF run_Nil st_begin [OF 1(1)]]
  note r2 = step [OF r1 st_acknowledge [OF 1(2)]]
  note r3 = step [OF r2 st_begin [OF sample_run_steps(2)]]
  from step [OF r3 st_begin [OF 4]]
  show ?thesis by (auto simp: sample_trace_def)
qed

section \<open>Properties\<close>

text \<open>
  C16: Over any sequence of transactions of the gateway's store, starting from an empty database, a
  request UUID is admitted for dispatch at most once, however often and by however many callers it
  is replayed; a UUID that was ever refused is never admitted, before or after (its tombstone is
  terminal); and at most one request is pending at the end.
\<close>
theorem feed_is_admitted_once:
  assumes "run (store_step interval cap) empty_store tr db"
  shows "distinct (List.map_filter admitted tr)
    \<and> (\<forall>t i u f. (t, Call_begin i u (Begin_NotDispatched f)) \<in> set tr \<longrightarrow>
          i \<notin> set (List.map_filter admitted tr))
    \<and> count_where (\<lambda>r. gr_status r = Req_pending) (feeder_requests db) \<le> 1"
proof (intro conjI allI impI)
  have inv: "store_inv db" by (rule run_store_inv [OF assms store_inv_empty])
  note rows = run_store_rows [OF assms refl]
  show "distinct (List.map_filter admitted tr)"
    using store.acted_once(1) [OF assms store_inv_empty] by (simp add: store.acted_def)
  show "count_where (\<lambda>r. gr_status r = Req_pending) (feeder_requests db) \<le> 1"
    using inv by (simp add: store_inv_def)
  fix t i u f
  assume "(t, Call_begin i u (Begin_NotDispatched f)) \<in> set tr"
  then have "i \<in> fst ` set (feeder_refusals db)" using rows by blast
  then have "i \<notin> set (map gr_request_id (feeder_requests db))"
    using inv by (auto simp: store_inv_def)
  then show "i \<notin> set (List.map_filter admitted tr)" using rows by simp
qed

theorem feed_is_admitted_once_witness:
  "distinct (List.map_filter admitted sample_trace)
   \<and> ''b'' \<notin> set (List.map_filter admitted sample_trace)"
proof -
  from sample_run obtain db where r: "run (store_step 5 1) empty_store sample_trace db" by blast
  have "(1012, Call_begin ''b'' False (Begin_NotDispatched sample_refusal)) \<in> set sample_trace"
    by (simp add: sample_trace_def)
  with feed_is_admitted_once [OF r] show ?thesis by blast
qed

text \<open>
  C19: Under a clock that does not go back, the admissions of any run of the store keep the
  configured minimum interval between each other, and no 3601 consecutive seconds hold more
  admissions than the hourly cap. The counters are read and the row written in one transaction, so
  this holds for any interleaving of callers.
\<close>
theorem admissions_are_spaced:
  assumes "run (store_step interval cap) empty_store tr db" "sorted (map fst tr)"
  shows "sorted_wrt (\<lambda>s t. s + uint interval \<le> t) (admission_times tr)
    \<and> (\<forall>a. int (count_where (\<lambda>t. a \<le> t \<and> t \<le> a + 3600) (admission_times tr)) \<le> uint cap)"
  using run_store_spaced [OF assms(1) refl assms(2)] run_store_rows [OF assms(1) refl]
  by (simp_all add: spaced_def)

theorem admissions_are_spaced_witness:
  "sorted_wrt (\<lambda>s t. s + 5 \<le> t) [1000, 4611 :: i64]
   \<and> int (count_where (\<lambda>t. 1000 \<le> t \<and> t \<le> 4600) [1000, 4611 :: i64]) \<le> 1"
proof -
  from sample_run obtain db where r: "run (store_step 5 1) empty_store sample_trace db" by blast
  have t: "admission_times sample_trace = [1000, 4611]" "sorted (map fst sample_trace)"
    by (simp_all add: admission_times_def sample_trace_def)
  have "int (count_where (\<lambda>t. 1000 \<le> t \<and> t \<le> 1000 + 3600) (admission_times sample_trace))
      \<le> uint (1 :: u64)"
    using admissions_are_spaced [OF r t(2)] by blast
  with admissions_are_spaced [OF r t(2)] t(1) show ?thesis by simp
qed



end
