(* ===== verification/Gateway_Server.thy ===== *)
theory Gateway_Server
  imports Gateway_Store
begin

text \<open>
  The gateway's HTTP handlers, \<open>src/src/gateway/server.rs\<close>. OpenHAB is the environment of a request:
  the answers its calls get are fields of \<open>request_env\<close>, and \<open>gw_commands\<close> records every
  \<open>command_feeder_request\<close> that was sent. A reply keeps its JSON body as the value it is made of.
  Handlers that time out are cancelled at an \<open>await\<close>: \<open>ev_timeout\<close> says at which one. The
  temperature and weather handlers are in \<open>Weather\<close>, the construction of the server in \<open>Startup\<close>.
\<close>

section \<open>Configuration\<close>

record gateway_server_config =
  gc_listen_ip :: ip_addr
  gc_database_url :: string
  gc_max_stale_seconds :: u64
  gc_ack_timeout_seconds :: u64
  gc_ack_poll_milliseconds :: u64
  gc_min_feed_interval_seconds :: u64
  gc_max_feeds_per_hour :: u64

datatype config_error =
    PublicListenAddress
  | InvalidDatabaseUrl
  | InvalidMaxStale
  | InvalidAckTimeout
  | InvalidAckPoll
  | InvalidMinInterval
  | InvalidMaxPerHour

text \<open>\<open>durable_ok\<close> is \<open>sqlite::durable_options\<close>, which rests on sqlx's URL parser.\<close>

definition validate_server_config ::
  "(string \<Rightarrow> bool) \<Rightarrow> gateway_server_config \<Rightarrow> config_error + unit" where
  "validate_server_config durable_ok c =
     (let ip = gc_listen_ip c in
      if is_unspecified ip \<or> (\<not> is_loopback ip \<and> \<not> is_private_ip ip) then Inl PublicListenAddress
      else if \<not> durable_ok (gc_database_url c) then Inl InvalidDatabaseUrl
      else if gc_max_stale_seconds c = 0 \<or> gc_max_stale_seconds c > 86400 then Inl InvalidMaxStale
      else if gc_ack_timeout_seconds c = 0 \<or> gc_ack_timeout_seconds c > 120
      then Inl InvalidAckTimeout
      else if gc_ack_poll_milliseconds c < 50 \<or> gc_ack_poll_milliseconds c > 5000
      then Inl InvalidAckPoll
      else if gc_min_feed_interval_seconds c < 5 \<or> gc_min_feed_interval_seconds c > 86400
      then Inl InvalidMinInterval
      else if gc_max_feeds_per_hour c = 0 \<or> gc_max_feeds_per_hour c > 60 then Inl InvalidMaxPerHour
      else Inr ())"

section \<open>State and environment\<close>

datatype owner_outcome = Owner_Absent | Owner_Pending | Owner_Complete | Owner_Rejected
  | Owner_Ambiguous

text \<open>\<open>Inl ()\<close> is an error of the OpenHAB client.\<close>

type_synonym owner_answer = "unit + owner_outcome"

record gateway_state =
  gw_store :: gateway_store
  gw_commands :: "uuid list"

definition gateway_init :: gateway_state where
  "gateway_init = \<lparr>gw_store = empty_store, gw_commands = []\<rparr>"

text \<open>Where a timed-out handler is dropped: before its transaction, between its admission and its
  command, after the command, or when it is about to reply.\<close>

datatype cancel_point = Cancel_Early | Cancel_Admitted | Cancel_Commanded | Cancel_Late

text \<open>
  The environment of one request: \<open>unixepoch()\<close>, the safety switches, whether the command was
  accepted, the answer to a single \<open>feeder_result\<close>, and for the polling loop the answer to the
  \<open>n\<close>-th poll with the milliseconds it took and the milliseconds by which the sleep after it
  overran.
\<close>

record request_env =
  ev_now :: i64
  ev_safety :: "unit + bool \<times> bool"
  ev_command_ok :: bool
  ev_result :: owner_answer
  ev_polls :: "nat \<Rightarrow> owner_answer \<times> nat \<times> nat"
  ev_timeout :: "cancel_point option"

datatype reply_body = Body_Feed feed_request_status | Body_Error string
  | Body_Safety feeder_safety | Body_Health string

record reply =
  rp_code :: nat
  rp_body :: reply_body

section \<open>Replies\<close>

definition public_error :: "nat \<Rightarrow> string \<Rightarrow> reply" where
  "public_error code reason = \<lparr>rp_code = code, rp_body = Body_Error reason\<rparr>"

definition internal_failure :: "string \<Rightarrow> reply" where
  "internal_failure reason = public_error 502 reason"

definition outcome_response :: "nat \<Rightarrow> uuid \<Rightarrow> feed_outcome \<Rightarrow> reply" where
  "outcome_response code request_id status = \<lparr>rp_code = code, rp_body = Body_Feed
     \<lparr>frs_request_id = request_id, frs_status = status, frs_refusal = None\<rparr>\<rparr>"

definition refusal_response :: "uuid \<Rightarrow> feed_refusal \<Rightarrow> reply" where
  "refusal_response request_id refusal =
     \<lparr>rp_code = (if fr_reason refusal = Reason_Capacity then 429 else 423), rp_body = Body_Feed
     \<lparr>frs_request_id = request_id, frs_status = Outcome_NotDispatched,
      frs_refusal = Some refusal\<rparr>\<rparr>"

definition healthz :: reply where
  "healthz = \<lparr>rp_code = 200, rp_body = Body_Health ''ok''\<rparr>"

definition server_feeder_safety :: "unit + bool \<times> bool \<Rightarrow> reply" where
  "server_feeder_safety answer =
     (case answer of
        Inr (override, remote) \<Rightarrow> \<lparr>rp_code = 200,
          rp_body = Body_Safety \<lparr>override_enabled = override, remote_enabled = remote\<rparr>\<rparr>
      | Inl _ \<Rightarrow> internal_failure ''OpenHAB feeder safety unavailable'')"

section \<open>Handlers\<close>

text \<open>\<open>store.mark_acknowledged\<close> and the reply that depends on it.\<close>

definition acknowledge :: "uuid \<Rightarrow> i64 \<Rightarrow> gateway_state \<Rightarrow> reply \<times> gateway_state" where
  "acknowledge i now g =
     (case mark_acknowledged i now (gw_store g) of
        Inl _ \<Rightarrow> (internal_failure ''Unable to persist feeder acknowledgement'', g)
      | Inr db \<Rightarrow> (outcome_response 200 i Outcome_Confirmed, g\<lparr>gw_store := db\<rparr>))"

definition handle_existing_pending ::
  "request_env \<Rightarrow> uuid \<Rightarrow> gateway_state \<Rightarrow> reply \<times> gateway_state" where
  "handle_existing_pending ev i g =
     (case ev_result ev of
        Inr Owner_Complete \<Rightarrow> acknowledge i (ev_now ev) g
      | Inr Owner_Absent \<Rightarrow> (outcome_response 202 i Outcome_Pending, g)
      | Inr Owner_Pending \<Rightarrow> (outcome_response 202 i Outcome_Pending, g)
      | Inr Owner_Rejected \<Rightarrow> (outcome_response 409 i Outcome_Ambiguous, g)
      | Inr Owner_Ambiguous \<Rightarrow> (outcome_response 409 i Outcome_Ambiguous, g)
      | Inl _ \<Rightarrow> (internal_failure ''OpenHAB feeder acknowledgement unavailable'', g))"

definition existing_response ::
  "request_env \<Rightarrow> uuid \<Rightarrow> stored_status \<Rightarrow> gateway_state \<Rightarrow> reply \<times> gateway_state" where
  "existing_response ev i status g =
     (case status of
        Stored_Acknowledged \<Rightarrow> (outcome_response 200 i Outcome_Confirmed, g)
      | Stored_Pending \<Rightarrow> handle_existing_pending ev i g
      | Stored_NotDispatched refusal \<Rightarrow> (refusal_response i refusal, g))"

text \<open>
  The polling loop. \<open>t\<close> is the time since the loop began and \<open>n\<close> the polls made; \<open>timeout\<close> and \<open>poll\<close>
  are \<open>ack_timeout\<close> and \<open>ack_poll\<close>, all in milliseconds. \<open>timeout_at\<close> cuts a poll that is not
  answered by the deadline. A loop with no polling interval need not end, so not returning is
  \<open>None\<close>.
\<close>

datatype wait_result = Wait_Complete | Wait_Conflict | Wait_Timeout

partial_function (option) wait_loop ::
  "(nat \<Rightarrow> owner_answer \<times> nat \<times> nat) \<Rightarrow> nat \<Rightarrow> nat \<Rightarrow> nat \<Rightarrow> nat
     \<Rightarrow> (wait_result \<times> nat) option" where
  "wait_loop polls timeout poll n t =
     (let (answer, took, late) = polls n;
          t1 = min timeout (t + took);
          in_time = t + took \<le> timeout in
      if in_time \<and> answer = Inr Owner_Complete then Some (Wait_Complete, Suc n)
      else if in_time \<and> (answer = Inr Owner_Absent \<or> answer = Inr Owner_Pending) then
        (if timeout \<le> t1 then Some (Wait_Timeout, Suc n)
         else wait_loop polls timeout poll (Suc n) (t1 + min poll (timeout - t1) + late))
      else Some (Wait_Conflict, Suc n))"

definition wait_for_ack ::
  "gateway_server_config \<Rightarrow> request_env \<Rightarrow> uuid \<Rightarrow> gateway_state
     \<Rightarrow> (reply \<times> gateway_state) option" where
  "wait_for_ack c ev i g =
     (case wait_loop (ev_polls ev) (1000 * unat (gc_ack_timeout_seconds c))
             (unat (gc_ack_poll_milliseconds c)) 0 0 of
        None \<Rightarrow> None
      | Some (Wait_Complete, _) \<Rightarrow> Some (acknowledge i (ev_now ev) g)
      | Some (Wait_Conflict, _) \<Rightarrow> Some (outcome_response 409 i Outcome_Ambiguous, g)
      | Some (Wait_Timeout, _) \<Rightarrow> Some (outcome_response 504 i Outcome_Ambiguous, g))"

definition send_command :: "uuid \<Rightarrow> gateway_state \<Rightarrow> gateway_state" where
  "send_command i g = g\<lparr>gw_commands := gw_commands g @ [i]\<rparr>"

definition submit_feed_request ::
  "gateway_server_config \<Rightarrow> request_env \<Rightarrow> uuid \<Rightarrow> gateway_state
     \<Rightarrow> (reply \<times> gateway_state) option" where
  "submit_feed_request c ev i g =
     (case request_status i (gw_store g) of
        Some status \<Rightarrow> Some (existing_response ev i status g)
      | None \<Rightarrow>
          let safety_refusal = (ev_safety ev \<noteq> Inr (False, True)) in
          case begin_request i (gc_min_feed_interval_seconds c) (gc_max_feeds_per_hour c)
                 safety_refusal (ev_now ev) (gw_store g) of
            Inr (Begin_New, db) \<Rightarrow>
              let g1 = send_command i (g\<lparr>gw_store := db\<rparr>) in
              if \<not> ev_command_ok ev then Some (outcome_response 409 i Outcome_Ambiguous, g1)
              else wait_for_ack c ev i g1
          | Inr (Begin_NotDispatched refusal, db) \<Rightarrow>
              Some (refusal_response i refusal, g\<lparr>gw_store := db\<rparr>)
          | Inr (Begin_Acknowledged, db) \<Rightarrow>
              Some (outcome_response 200 i Outcome_Confirmed, g\<lparr>gw_store := db\<rparr>)
          | Inr (Begin_Pending, db) \<Rightarrow>
              Some (handle_existing_pending ev i (g\<lparr>gw_store := db\<rparr>))
          | Inl _ \<Rightarrow> Some (internal_failure ''Unable to persist feeder admission'', g))"

text \<open>What a handler that is cancelled has done by then.\<close>

definition cancelled_submit ::
  "cancel_point \<Rightarrow> gateway_server_config \<Rightarrow> request_env \<Rightarrow> uuid \<Rightarrow> gateway_state
     \<Rightarrow> gateway_state option" where
  "cancelled_submit p c ev i g =
     (if p = Cancel_Early then Some g
      else if p = Cancel_Late \<or> request_status i (gw_store g) \<noteq> None
      then map_option snd (submit_feed_request c ev i g)
      else case begin_request i (gc_min_feed_interval_seconds c) (gc_max_feeds_per_hour c)
                  (ev_safety ev \<noteq> Inr (False, True)) (ev_now ev) (gw_store g) of
             Inr (Begin_New, db) \<Rightarrow>
               Some (if p = Cancel_Admitted then g\<lparr>gw_store := db\<rparr>
                     else send_command i (g\<lparr>gw_store := db\<rparr>))
           | Inr (_, db) \<Rightarrow> Some (g\<lparr>gw_store := db\<rparr>)
           | Inl _ \<Rightarrow> Some g)"

definition feed_request ::
  "gateway_server_config \<Rightarrow> request_env \<Rightarrow> uuid \<Rightarrow> gateway_state
     \<Rightarrow> (reply \<times> gateway_state) option" where
  "feed_request c ev i g =
     (case ev_timeout ev of
        None \<Rightarrow> submit_feed_request c ev i g
      | Some p \<Rightarrow> map_option (\<lambda>g1. (outcome_response 504 i Outcome_Ambiguous, g1))
          (cancelled_submit p c ev i g))"

definition lookup_feed_request ::
  "request_env \<Rightarrow> uuid \<Rightarrow> gateway_state \<Rightarrow> reply \<times> gateway_state" where
  "lookup_feed_request ev i g =
     (case request_status i (gw_store g) of
        Some status \<Rightarrow> existing_response ev i status g
      | None \<Rightarrow> (public_error 404 ''Unknown feeder request UUID'', g))"

definition server_feed_request_status ::
  "request_env \<Rightarrow> uuid \<Rightarrow> gateway_state \<Rightarrow> reply \<times> gateway_state" where
  "server_feed_request_status ev i g =
     (case ev_timeout ev of
        None \<Rightarrow> lookup_feed_request ev i g
      | Some p \<Rightarrow> (outcome_response 504 i Outcome_Ambiguous,
          if p = Cancel_Late then snd (lookup_feed_request ev i g) else g))"

section \<open>The polling loop ends\<close>

text \<open>With a polling interval the loop returns, after at most the deadline over the interval and
  two more polls: each round sleeps the interval or up to the deadline, whatever OpenHAB answers and
  however late the sleeps are.\<close>

lemma wait_loop_done:
  assumes "timeout \<le> t"
  shows "\<exists>r. wait_loop polls timeout poll n t = Some (r, Suc n)"
  using assms by (subst wait_loop.simps) (auto simp: Let_def split: prod.splits)

lemma wait_loop_returns:
  assumes "0 < poll"
  shows "\<exists>r m. wait_loop polls timeout poll n t = Some (r, m)
    \<and> m \<le> n + (timeout - t) div poll + 2"
proof (induction "timeout - t" arbitrary: n t rule: less_induct)
  case less
  obtain answer took late where p: "polls n = (answer, took, late)" by (cases "polls n")
  let ?t1 = "min timeout (t + took)"
  let ?t2 = "?t1 + min poll (timeout - ?t1) + late"
  show ?case
  proof (cases "t + took \<le> timeout \<and> (answer = Inr Owner_Absent \<or> answer = Inr Owner_Pending)
      \<and> ?t1 < timeout")
    case True
    then have eq: "wait_loop polls timeout poll n t = wait_loop polls timeout poll (Suc n) ?t2"
      by (subst wait_loop.simps) (auto simp: p Let_def)
    have "timeout - ?t2 < timeout - t" using True assms by auto
    from less [OF this, of "Suc n"] obtain r m where
      m: "wait_loop polls timeout poll (Suc n) ?t2 = Some (r, m)"
      "m \<le> Suc n + (timeout - ?t2) div poll + 2" by blast
    show ?thesis
    proof (cases "timeout \<le> ?t2")
      case True
      then show ?thesis using eq wait_loop_done [of timeout ?t2 polls poll "Suc n"] by auto
    next
      case False
      with True have "poll \<le> timeout - ?t1" by (cases "poll \<le> timeout - ?t1") auto
      with False True have "?t2 = t + took + poll + late" "t + poll \<le> timeout"
        by (auto simp: min_absorb1 min_absorb2)
      then have "(timeout - ?t2) div poll \<le> (timeout - t - poll) div poll"
        by (intro div_le_mono) simp
      then have "Suc ((timeout - ?t2) div poll) \<le> (timeout - t) div poll"
        using \<open>t + poll \<le> timeout\<close> assms by (simp add: le_div_geq)
      then have "m \<le> n + (timeout - t) div poll + 2" using m(2) by simp
      then show ?thesis using eq m(1) by auto
    qed
  next
    case False
    then have "\<exists>r. wait_loop polls timeout poll n t = Some (r, Suc n)"
      by (subst wait_loop.simps) (auto simp: p Let_def)
    then show ?thesis by force
  qed
qed

section \<open>Statuses persist\<close>

lemma request_status_simps:
  "request_status i db = Some Stored_Acknowledged \<longleftrightarrow>
     (\<exists>r. find_request i db = Some r \<and> gr_status r = Req_acknowledged)"
  "request_status i db = Some Stored_Pending \<longleftrightarrow>
     (\<exists>r. find_request i db = Some r \<and> gr_status r = Req_pending)"
  "request_status i db = Some (Stored_NotDispatched f) \<longleftrightarrow>
     find_request i db = None \<and> find_refusal i db = Some f"
  "request_status i db = None \<longleftrightarrow> find_request i db = None \<and> find_refusal i db = None"
  by (auto simp: request_status_def split: option.splits request_state.splits)

lemma request_status_known: "request_status i db \<noteq> None \<longleftrightarrow> known i db"
  by (simp add: request_status_simps find_request_None find_refusal_None known_def)

definition settled :: "stored_status \<Rightarrow> bool" where
  "settled s \<longleftrightarrow> s \<noteq> Stored_Pending"

lemma insert_request_status:
  assumes "insert_request k now db = Inr db'" "find_refusal k db = None"
  shows "request_status i db' = (if i = k then Some Stored_Pending else request_status i db)"
proof -
  from assms(1) have k: "find_request k db = None"
    by (auto simp: insert_request_Inr find_request_None)
  from assms(1) have "find_request i db' = (case find_request i db of Some r \<Rightarrow> Some r
      | None \<Rightarrow> if i = k then Some \<lparr>gr_request_id = k, gr_status = Req_pending,
          gr_created_at = now, gr_updated_at = now\<rparr> else None)" "find_refusal i db' = find_refusal i db"
    by (auto simp: insert_request_Inr find_request_def find_refusal_def find_append
        split: option.splits)
  then show ?thesis using k by (auto simp: request_status_def split: option.splits)
qed

lemma insert_refusal_status:
  assumes "find_refusal k db = None" "find_request k db = None"
  shows "request_status i (db\<lparr>feeder_refusals := feeder_refusals db @ [(k, f)]\<rparr>)
    = (if i = k then Some (Stored_NotDispatched f) else request_status i db)"
proof -
  have "find_request i (db\<lparr>feeder_refusals := feeder_refusals db @ [(k, f)]\<rparr>) = find_request i db"
    "find_refusal i (db\<lparr>feeder_refusals := feeder_refusals db @ [(k, f)]\<rparr>) =
      (case find_refusal i db of Some g \<Rightarrow> Some g | None \<Rightarrow> if i = k then Some f else None)"
    by (auto simp: find_request_def find_refusal_def find_append split: option.splits)
  then show ?thesis using assms by (auto simp: request_status_def split: option.splits)
qed

lemma begin_request_status:
  assumes "begin_request k interval cap unsafe now db = Inr (out, db')"
  shows "request_status i db' = (if i = k then Some (case out of
      Begin_New \<Rightarrow> Stored_Pending | Begin_Pending \<Rightarrow> Stored_Pending
    | Begin_Acknowledged \<Rightarrow> Stored_Acknowledged
    | Begin_NotDispatched f \<Rightarrow> Stored_NotDispatched f) else request_status i db)"
  using assms
proof (cases rule: begin_request_cases)
  case (tombstone f)
  then show ?thesis by (auto simp: request_status_simps)
next
  case (refused f d)
  then show ?thesis using insert_refusal_status [of k db i f] by simp
next
  case (new d)
  then show ?thesis using insert_request_status [OF new(10,3), of i] by simp
qed auto

lemma mark_acknowledged_status:
  assumes "mark_acknowledged k now db = Inr db'" "store_inv db"
  shows "request_status i db' = (if i = k then Some Stored_Acknowledged else request_status i db)"
  using assms
proof (cases rule: mark_acknowledged_cases)
  case (now r xs ys)
  have "find_request i db' = find_request i db" if "i \<noteq> k"
    using that now by (simp add: find_request_def find_append split: option.splits)
  moreover have "find_refusal i db' = find_refusal i db"
    using now(5) by (simp add: find_refusal_def)
  ultimately show ?thesis using now(6) by (auto simp: request_status_def split: option.splits)
qed auto

lemma store_step_settled:
  assumes "store_step interval cap e db db'" "store_inv db"
    and "request_status i db = Some s" "settled s"
  shows "request_status i db' = Some s"
  using assms(1)
proof (cases rule: store_step.cases)
  case (st_begin k unsafe now out)
  show ?thesis
  proof (cases "i = k")
    case True
    from st_begin(2) show ?thesis
      by (cases rule: begin_request_cases)
        (use assms(3,4) True in \<open>auto simp: settled_def request_status_simps request_status_def\<close>)
  next
    case False
    then show ?thesis using begin_request_status [OF st_begin(2), of i] assms(3) by simp
  qed
next
  case (st_acknowledge k now)
  show ?thesis
  proof (cases "i = k")
    case True
    from st_acknowledge(2) assms(2) show ?thesis
    proof (cases rule: mark_acknowledged_cases)
      case (now r xs ys)
      have "find_request i db = Some r"
        using now(1,2) True assms(2) find_unique [of gr_request_id "feeder_requests db" r]
        by (simp add: find_request_def store_inv_def)
      then show ?thesis using assms(3,4) now(3) by (auto simp: request_status_def settled_def)
    qed (use assms(3) in auto)
  next
    case False
    then show ?thesis
      using mark_acknowledged_status [OF st_acknowledge(2) assms(2), of i] assms(3) by simp
  qed
next
  case (st_weather t now)
  then show ?thesis using assms(3) by (simp add: accept_weather_frame(5))
qed

lemma run_store_settled:
  assumes "run (store_step interval cap) db tr db'" "store_inv db"
    and "request_status i db = Some s" "settled s"
  shows "request_status i db' = Some s"
proof -
  have "store_inv db' \<and> request_status i db' = Some s"
    by (rule run_invariant [where step = "store_step interval cap"
          and I = "\<lambda>db. store_inv db \<and> request_status i db = Some s", OF assms(1)])
      (use assms(2-4) in \<open>auto intro: store_step_inv store_step_settled\<close>)
  then show ?thesis by blast
qed

section \<open>What the handlers do\<close>

text \<open>The effect of a handler for request \<open>i\<close>: transactions of the store, and at most one command,
  for \<open>i\<close> itself, right after its admission as an unknown UUID.\<close>

definition effect :: "gateway_server_config \<Rightarrow> uuid \<Rightarrow> gateway_state \<Rightarrow> gateway_state \<Rightarrow> bool" where
  "effect c i g g1 \<longleftrightarrow>
     (\<exists>tr. run (store_step (gc_min_feed_interval_seconds c) (gc_max_feeds_per_hour c))
        (gw_store g) tr (gw_store g1))
     \<and> (gw_commands g1 = gw_commands g
        \<or> gw_commands g1 = gw_commands g @ [i] \<and> \<not> known i (gw_store g)
          \<and> i \<in> gr_request_id ` set (feeder_requests (gw_store g1)))"

definition good_reply :: "uuid \<Rightarrow> gateway_state \<Rightarrow> reply \<Rightarrow> bool" where
  "good_reply i g1 rp \<longleftrightarrow>
     (case rp_body rp of
        Body_Feed s \<Rightarrow> validate_status i s = Inr () \<and> rp_code rp \<in> {200, 202, 409, 423, 429, 504}
          \<and> (frs_status s = Outcome_Confirmed \<longrightarrow> rp_code rp = 200
               \<and> request_status i (gw_store g1) = Some Stored_Acknowledged)
          \<and> (\<forall>f. frs_refusal s = Some f \<longrightarrow> rp_code rp \<in> {423, 429}
               \<and> request_status i (gw_store g1) = Some (Stored_NotDispatched f))
      | Body_Error _ \<Rightarrow> rp_code rp \<in> {404, 502}
      | _ \<Rightarrow> False)"

lemma effect_refl [simp]: "effect c i g g"
  by (auto simp: effect_def intro: run_Nil)

lemma good_internal_failure [simp]: "good_reply i g (internal_failure m)"
  by (simp add: good_reply_def internal_failure_def public_error_def)

lemma good_outcome_response:
  assumes "code \<in> {200, 202, 409, 504}" "status \<noteq> Outcome_NotDispatched"
    and "status = Outcome_Confirmed \<Longrightarrow> code = 200
      \<and> request_status i (gw_store g) = Some Stored_Acknowledged"
  shows "good_reply i g (outcome_response code i status)"
  using assms by (auto simp: good_reply_def outcome_response_def validate_status_Inr)

lemma good_refusal_response:
  assumes "store_inv (gw_store g)" "request_status i (gw_store g) = Some (Stored_NotDispatched f)"
  shows "good_reply i g (refusal_response i f)"
proof -
  have "(i, f) \<in> set (feeder_refusals (gw_store g))"
    using assms(2) by (simp add: request_status_simps find_refusal_Some)
  then have "f \<in> snd ` set (feeder_refusals (gw_store g))" by force
  then have "1 \<le> fr_retry_after_seconds f \<and> fr_retry_after_seconds f \<le> 86400"
    using assms(1) unfolding store_inv_def by blast
  then show ?thesis
    using assms(2) by (auto simp: good_reply_def refusal_response_def validate_status_Inr)
qed

lemma acknowledge_ok:
  assumes "acknowledge i now g = (rp, g1)" "store_inv (gw_store g)"
  shows "effect c i g g1 \<and> good_reply i g1 rp"
proof (cases "mark_acknowledged i now (gw_store g)")
  case (Inl e)
  then show ?thesis using assms(1) by (auto simp: acknowledge_def)
next
  case (Inr db)
  have "request_status i db = Some Stored_Acknowledged"
    using mark_acknowledged_status [OF Inr assms(2), of i] by simp
  then show ?thesis
    using assms(1) Inr run_one [where step = "store_step (gc_min_feed_interval_seconds c)
      (gc_max_feeds_per_hour c)", OF st_acknowledge [OF Inr]]
    by (auto simp: acknowledge_def effect_def intro!: good_outcome_response)
qed

lemma handle_existing_pending_ok:
  assumes "handle_existing_pending ev i g = (rp, g1)" "store_inv (gw_store g)"
  shows "effect c i g g1 \<and> good_reply i g1 rp"
  using assms acknowledge_ok [of i "ev_now ev" g rp g1 c]
  by (auto simp: handle_existing_pending_def split: sum.splits owner_outcome.splits
      intro!: good_outcome_response)

lemma existing_response_ok:
  assumes "existing_response ev i st g = (rp, g1)" "store_inv (gw_store g)"
    and "request_status i (gw_store g) = Some st"
  shows "effect c i g g1 \<and> good_reply i g1 rp"
  using assms handle_existing_pending_ok [of ev i g rp g1 c]
  by (auto simp: existing_response_def split: stored_status.splits
      intro!: good_outcome_response good_refusal_response)

lemma wait_for_ack_ok:
  assumes "wait_for_ack c ev i g = Some (rp, g1)" "store_inv (gw_store g)"
  shows "gw_commands g1 = gw_commands g \<and> good_reply i g1 rp
    \<and> (g1 = g \<or> (\<exists>now. mark_acknowledged i now (gw_store g) = Inr (gw_store g1)))"
proof -
  have "gw_commands g1 = gw_commands g \<and> good_reply i g1 rp
    \<and> (g1 = g \<or> (\<exists>now. mark_acknowledged i now (gw_store g) = Inr (gw_store g1)))"
    if "acknowledge i now g = (rp, g1)" for now
    using acknowledge_ok [OF that assms(2)] that
    by (auto simp: acknowledge_def split: sum.splits)
  then show ?thesis
    using assms(1)
    by (auto simp: wait_for_ack_def split: option.splits wait_result.splits prod.splits
        intro!: good_outcome_response)
qed

abbreviation steps_of :: "gateway_server_config \<Rightarrow> i64 \<times> store_call \<Rightarrow> gateway_store \<Rightarrow> gateway_store \<Rightarrow> bool"
  where "steps_of c \<equiv> store_step (gc_min_feed_interval_seconds c) (gc_max_feeds_per_hour c)"

text \<open>Admission and command, and the states in which a cancelled handler can stop.\<close>

lemma admit_effect:
  assumes "begin_request i (gc_min_feed_interval_seconds c) (gc_max_feeds_per_hour c) unsafe now
      (gw_store g) = Inr (out, db)" "store_inv (gw_store g)"
  shows "store_inv db" and "effect c i g (g\<lparr>gw_store := db\<rparr>)"
    and "out = Begin_New \<Longrightarrow> effect c i g (send_command i (g\<lparr>gw_store := db\<rparr>))"
    and "out = Begin_New \<Longrightarrow> mark_acknowledged i later db = Inr db2 \<Longrightarrow>
      effect c i g (send_command i (g\<lparr>gw_store := db2\<rparr>))"
proof -
  show inv: "store_inv db" by (rule begin_request_inv [OF assms])
  note r = run_one [where step = "steps_of c", OF st_begin [OF assms(1)]]
  show "effect c i g (g\<lparr>gw_store := db\<rparr>)" using r by (auto simp: effect_def)
  assume n: "out = Begin_New"
  have new: "\<not> known i (gw_store g)" using begin_request_known(2) [OF assms(1)] n by simp
  have row: "i \<in> gr_request_id ` set (feeder_requests db)"
    using arg_cong [where f = set, OF begin_request_rows(1) [OF assms(1)]] n by simp
  show "effect c i g (send_command i (g\<lparr>gw_store := db\<rparr>))"
    using r new row by (auto simp: effect_def send_command_def)
  assume a: "mark_acknowledged i later db = Inr db2"
  have row2: "i \<in> gr_request_id ` set (feeder_requests db2)"
    using arg_cong [where f = set, OF mark_acknowledged_rows(1) [OF a inv]] row by simp
  show "effect c i g (send_command i (g\<lparr>gw_store := db2\<rparr>))"
    using run_snoc [where step = "steps_of c", OF r st_acknowledge [OF a]] new row2
    by (auto simp: effect_def send_command_def)
qed

lemma submit_ok:
  assumes "submit_feed_request c ev i g = Some (rp, g1)" "store_inv (gw_store g)"
  shows "effect c i g g1 \<and> good_reply i g1 rp"
proof (cases "request_status i (gw_store g)")
  case (Some st)
  then show ?thesis
    using assms(1) existing_response_ok [of ev i st g rp g1 c, OF _ assms(2)]
    by (simp add: submit_feed_request_def)
next
  case None
  let ?admit = "begin_request i (gc_min_feed_interval_seconds c) (gc_max_feeds_per_hour c)
    (ev_safety ev \<noteq> Inr (False, True)) (ev_now ev) (gw_store g)"
  show ?thesis
  proof (cases ?admit)
    case (Inl e)
    then show ?thesis using assms(1) None by (auto simp: submit_feed_request_def)
  next
    case (Inr p)
    obtain out db where b: "?admit = Inr (out, db)" using Inr by (cases p) auto
    note eff = admit_effect [OF b assms(2)]
    note st = begin_request_status [OF b, of i]
    have unknown: "out \<noteq> Begin_Pending \<and> out \<noteq> Begin_Acknowledged"
      using b by (cases rule: begin_request_cases) (use None in auto)
    show ?thesis
    proof (cases out)
      case Begin_New
      let ?g = "send_command i (g\<lparr>gw_store := db\<rparr>)"
      show ?thesis
      proof (cases "ev_command_ok ev")
        case False
        then show ?thesis
          using assms(1) None b Begin_New eff(3)
          by (auto simp: submit_feed_request_def intro!: good_outcome_response)
      next
        case True
        then have w: "wait_for_ack c ev i ?g = Some (rp, g1)"
          using assms(1) None b Begin_New by (simp add: submit_feed_request_def)
        have "store_inv (gw_store ?g)" using eff(1) by (simp add: send_command_def)
        note ok = wait_for_ack_ok [OF w this]
        then have "g1 = ?g \<or> (\<exists>later. mark_acknowledged i later db = Inr (gw_store g1)
            \<and> g1 = send_command i (g\<lparr>gw_store := gw_store g1\<rparr>))"
          by (auto simp: send_command_def)
        then show ?thesis using ok eff(3,4) Begin_New by metis
      qed
    next
      case (Begin_NotDispatched f)
      then show ?thesis
        using assms(1) None b st eff(1,2)
        by (auto simp: submit_feed_request_def intro!: good_refusal_response)
    qed (use unknown in auto)
  qed
qed

lemma cancelled_ok:
  assumes "cancelled_submit p c ev i g = Some g1" "store_inv (gw_store g)"
  shows "effect c i g g1"
proof (cases "p = Cancel_Early \<or> p = Cancel_Late \<or> request_status i (gw_store g) \<noteq> None")
  case True
  then show ?thesis
    using assms(1) submit_ok [of c ev i g _ g1] assms(2)
    by (auto simp: cancelled_submit_def split: if_splits)
next
  case False
  let ?admit = "begin_request i (gc_min_feed_interval_seconds c) (gc_max_feeds_per_hour c)
    (ev_safety ev \<noteq> Inr (False, True)) (ev_now ev) (gw_store g)"
  show ?thesis
  proof (cases ?admit)
    case (Inl e)
    then show ?thesis using assms(1) False by (simp add: cancelled_submit_def)
  next
    case (Inr q)
    obtain out db where b: "?admit = Inr (out, db)" using Inr by (cases q) auto
    show ?thesis
      using assms(1) False b admit_effect(2,3) [OF b assms(2)]
      by (auto simp: cancelled_submit_def split: begin_outcome.splits if_splits)
  qed
qed

lemma feed_request_ok:
  assumes "feed_request c ev i g = Some (rp, g1)" "store_inv (gw_store g)"
  shows "effect c i g g1 \<and> good_reply i g1 rp"
  using assms submit_ok cancelled_ok
  by (auto simp: feed_request_def split: option.splits intro!: good_outcome_response)

lemma lookup_ok:
  assumes "lookup_feed_request ev i g = (rp, g1)" "store_inv (gw_store g)"
  shows "effect c i g g1 \<and> good_reply i g1 rp"
proof (cases "request_status i (gw_store g)")
  case None
  then show ?thesis
    using assms(1) by (auto simp: lookup_feed_request_def good_reply_def public_error_def)
next
  case (Some st)
  then show ?thesis
    using assms(1) existing_response_ok [of ev i st g rp g1 c, OF _ assms(2)]
    by (simp add: lookup_feed_request_def)
qed

lemma server_status_ok:
  assumes "server_feed_request_status ev i g = (rp, g1)" "store_inv (gw_store g)"
  shows "effect c i g g1 \<and> good_reply i g1 rp"
proof (cases "ev_timeout ev")
  case None
  then show ?thesis using assms lookup_ok by (simp add: server_feed_request_status_def)
next
  case (Some p)
  obtain rp' g' where l: "lookup_feed_request ev i g = (rp', g')" by fastforce
  from assms(1) Some l have "rp = outcome_response 504 i Outcome_Ambiguous" "g1 = g' \<or> g1 = g"
    by (auto simp: server_feed_request_status_def split: if_splits)
  then show ?thesis using lookup_ok [OF l assms(2)] by (auto intro!: good_outcome_response)
qed

section \<open>Runs of the gateway\<close>

definition gateway_inv :: "gateway_state \<Rightarrow> bool" where
  "gateway_inv g \<longleftrightarrow> store_inv (gw_store g) \<and> distinct (gw_commands g)
     \<and> set (gw_commands g) \<subseteq> gr_request_id ` set (feeder_requests (gw_store g))"

text \<open>One event: a POST or a GET for a request UUID and the reply it got.\<close>

inductive gateway_step ::
  "gateway_server_config \<Rightarrow> uuid \<times> reply \<Rightarrow> gateway_state \<Rightarrow> gateway_state \<Rightarrow> bool" for c where
  gw_post: "feed_request c ev i g = Some (rp, g1) \<Longrightarrow> gateway_step c (i, rp) g g1"
| gw_get: "server_feed_request_status ev i g = (rp, g1) \<Longrightarrow> gateway_step c (i, rp) g g1"

inductive_cases gateway_step_cases: "gateway_step c (i, rp) g g1"

lemma gateway_step_ok:
  assumes "gateway_step c (i, rp) g g1" "store_inv (gw_store g)"
  shows "effect c i g g1 \<and> good_reply i g1 rp"
  using assms by (auto elim!: gateway_step_cases dest: feed_request_ok server_status_ok)

lemma run_store_ids:
  assumes "run (store_step interval cap) db tr db'" "store_inv db"
  shows "gr_request_id ` set (feeder_requests db) \<subseteq> gr_request_id ` set (feeder_requests db')"
proof -
  have "store_inv db' \<and> gr_request_id ` set (feeder_requests db)
    \<subseteq> gr_request_id ` set (feeder_requests db')"
  proof (rule run_invariant [OF assms(1), where I = "\<lambda>x. store_inv x
      \<and> gr_request_id ` set (feeder_requests db) \<subseteq> gr_request_id ` set (feeder_requests x)"])
    fix e t u
    assume step: "store_step interval cap e t u" and t: "store_inv t
      \<and> gr_request_id ` set (feeder_requests db) \<subseteq> gr_request_id ` set (feeder_requests t)"
    have "gr_request_id ` set (feeder_requests t) \<subseteq> gr_request_id ` set (feeder_requests u)"
      using arg_cong [where f = set, OF store_step_rows(1) [OF step]] t by simp
    then show "store_inv u
      \<and> gr_request_id ` set (feeder_requests db) \<subseteq> gr_request_id ` set (feeder_requests u)"
      using store_step_inv [OF step] t by blast
  qed (use assms(2) in simp)
  then show ?thesis by blast
qed

lemma effect_inv:
  assumes "effect c i g g1" "gateway_inv g"
  shows "gateway_inv g1"
proof -
  from assms(1) obtain tr where tr: "run (steps_of c) (gw_store g) tr (gw_store g1)"
    by (auto simp: effect_def)
  have inv: "store_inv (gw_store g)" using assms(2) by (simp add: gateway_inv_def)
  have ids: "gr_request_id ` set (feeder_requests (gw_store g))
    \<subseteq> gr_request_id ` set (feeder_requests (gw_store g1))"
    by (rule run_store_ids [OF tr inv])
  have "store_inv (gw_store g1)" by (rule run_store_inv [OF tr inv])
  moreover have "i \<notin> set (gw_commands g)" if "\<not> known i (gw_store g)"
    using that assms(2) by (auto simp: gateway_inv_def known_def)
  moreover have "set (gw_commands g) \<subseteq> gr_request_id ` set (feeder_requests (gw_store g1))"
    using assms(2) ids by (auto simp: gateway_inv_def)
  ultimately show ?thesis using assms by (auto simp: gateway_inv_def effect_def)
qed

lemma effect_settled:
  assumes "effect c i g g1" "gateway_inv g" "request_status k (gw_store g) = Some s" "settled s"
  shows "request_status k (gw_store g1) = Some s"
proof -
  from assms(1) obtain tr where tr: "run (steps_of c) (gw_store g) tr (gw_store g1)"
    by (auto simp: effect_def)
  show ?thesis
    by (rule run_store_settled [OF tr _ assms(3,4)]) (use assms(2) in \<open>simp add: gateway_inv_def\<close>)
qed

lemma gateway_init_inv: "gateway_inv gateway_init"
  by (simp add: gateway_inv_def gateway_init_def)

lemma not_dispatched_not_commanded:
  assumes "gateway_inv g" "request_status i (gw_store g) = Some (Stored_NotDispatched f)"
  shows "i \<notin> set (gw_commands g)"
  using assms by (auto simp: gateway_inv_def request_status_simps find_request_None)

text \<open>What a reply said is still true at the end of the run.\<close>

definition reply_holds :: "gateway_state \<Rightarrow> uuid \<times> reply \<Rightarrow> bool" where
  "reply_holds g e \<longleftrightarrow> (case rp_body (snd e) of
     Body_Feed s \<Rightarrow> frs_request_id s = fst e
       \<and> (frs_status s = Outcome_Confirmed \<longrightarrow>
            request_status (fst e) (gw_store g) = Some Stored_Acknowledged)
       \<and> (frs_status s = Outcome_NotDispatched \<longrightarrow> fst e \<notin> set (gw_commands g)
            \<and> (\<exists>f. request_status (fst e) (gw_store g) = Some (Stored_NotDispatched f)))
   | _ \<Rightarrow> True)"

lemma good_reply_holds:
  assumes "good_reply i g rp" "gateway_inv g"
  shows "reply_holds g (i, rp)"
  using assms not_dispatched_not_commanded [OF assms(2), of i]
  by (auto simp: good_reply_def reply_holds_def validate_status_Inr
      split: reply_body.splits option.splits)

lemma reply_holds_step:
  assumes "reply_holds g e" "effect c i g g1" "gateway_inv g"
  shows "reply_holds g1 e"
proof (cases "rp_body (snd e)")
  case (Body_Feed s)
  have "request_status k (gw_store g1) = Some st"
    if "request_status k (gw_store g) = Some st" "settled st" for k st
    by (rule effect_settled [OF assms(2,3) that])
  then show ?thesis
    using assms(1) Body_Feed not_dispatched_not_commanded [OF effect_inv [OF assms(2,3)]]
    by (auto simp: reply_holds_def settled_def)
qed (simp_all add: reply_holds_def)

lemma run_gateway:
  assumes "run (gateway_step c) g0 tr g" "g0 = gateway_init"
  shows "gateway_inv g \<and> (\<forall>e \<in> set tr. reply_holds g e)"
  using assms
proof (induction rule: run.induct)
  case (run_Nil s)
  then show ?case by (simp add: gateway_init_inv)
next
  case (run_snoc s tr t e u)
  then have IH: "gateway_inv t" "\<forall>e \<in> set tr. reply_holds t e" by auto
  obtain i rp where e: "e = (i, rp)" by (cases e)
  have ok: "effect c i t u" "good_reply i u rp"
    using gateway_step_ok [of c i rp t u] run_snoc.hyps(2) IH(1) by (auto simp: e gateway_inv_def)
  have inv: "gateway_inv u" by (rule effect_inv [OF ok(1) IH(1)])
  then show ?case
    using IH(2) reply_holds_step [OF _ ok(1) IH(1)] good_reply_holds [OF ok(2)] by (auto simp: e)
qed

section \<open>A sample exchange\<close>

definition sample_config :: gateway_server_config where
  "sample_config = \<lparr>gc_listen_ip = V4 127 0 0 1, gc_database_url = ''sqlite://gateway.db'',
     gc_max_stale_seconds = 60, gc_ack_timeout_seconds = 10, gc_ack_poll_milliseconds = 500,
     gc_min_feed_interval_seconds = 5, gc_max_feeds_per_hour = 1\<rparr>"

text \<open>OpenHAB reports the request pending once and complete on the second poll.\<close>

definition sample_env :: request_env where
  "sample_env = \<lparr>ev_now = 1000, ev_safety = Inr (False, True), ev_command_ok = True,
     ev_result = Inr Owner_Pending,
     ev_polls = (\<lambda>n. if n = 0 then (Inr Owner_Pending, 20, 0) else (Inr Owner_Complete, 30, 1)),
     ev_timeout = None\<rparr>"

lemma sample_config_valid: "validate_server_config (\<lambda>_. True) sample_config = Inr ()"
  by (simp add: validate_server_config_def sample_config_def)

lemma sample_wait: "wait_loop (ev_polls sample_env) 10000 500 0 0 = Some (Wait_Complete, 2)"
  by (simp add: wait_loop.simps sample_env_def)

lemma sample_post:
  "\<exists>g. feed_request sample_config sample_env ''a'' gateway_init
     = Some (outcome_response 200 ''a'' Outcome_Confirmed, g) \<and> gw_commands g = [''a'']"
proof -
  obtain db where db: "begin_request ''a'' 5 1 False 1000 empty_store = Inr (Begin_New, db)"
    "\<exists>db1. mark_acknowledged ''a'' 1000 db = Inr db1"
    by (simp add: store_eval)
  have s: "request_status ''a'' empty_store = None"
    by (simp add: request_status_def find_request_def find_refusal_def empty_store_def)
  from db s sample_wait show ?thesis
    by (auto simp: feed_request_def submit_feed_request_def wait_for_ack_def acknowledge_def
        send_command_def gateway_init_def sample_config_def sample_env_def)
qed

section \<open>Properties\<close>

text \<open>
  C9: Over any run of POSTs and GETs to the gateway, handlers that time out at any point included,
  each request UUID is commanded to the feeder at most once; a UUID whose reply ever said
  \<open>not_dispatched\<close> is never commanded, before or after that reply; and a reply that said
  \<open>confirmed\<close> was given for a durable acknowledgement that still stands.
\<close>
theorem gateway_dispatches_once:
  assumes "run (gateway_step c) gateway_init tr g"
  shows "distinct (gw_commands g)
    \<and> (\<forall>(i, rp) \<in> set tr. \<forall>s. rp_body rp = Body_Feed s \<longrightarrow> frs_request_id s = i
        \<and> (frs_status s = Outcome_NotDispatched \<longrightarrow> i \<notin> set (gw_commands g))
        \<and> (frs_status s = Outcome_Confirmed \<longrightarrow>
             request_status i (gw_store g) = Some Stored_Acknowledged))"
proof -
  from run_gateway [OF assms refl] have inv: "gateway_inv g"
    and holds: "\<forall>e \<in> set tr. reply_holds g e" by auto
  show ?thesis
  proof (intro conjI ballI)
    show "distinct (gw_commands g)" using inv by (simp add: gateway_inv_def)
    fix e assume "e \<in> set tr"
    with holds have "reply_holds g e" by blast
    then show "case e of (i, rp) \<Rightarrow> \<forall>s. rp_body rp = Body_Feed s \<longrightarrow> frs_request_id s = i
        \<and> (frs_status s = Outcome_NotDispatched \<longrightarrow> i \<notin> set (gw_commands g))
        \<and> (frs_status s = Outcome_Confirmed \<longrightarrow>
             request_status i (gw_store g) = Some Stored_Acknowledged)"
      by (cases e) (auto simp: reply_holds_def)
  qed
qed

theorem gateway_dispatches_once_witness:
  "\<exists>g. run (gateway_step sample_config) gateway_init
      [(''a'', outcome_response 200 ''a'' Outcome_Confirmed)] g
    \<and> gw_commands g = [''a''] \<and> request_status ''a'' (gw_store g) = Some Stored_Acknowledged"
proof -
  from sample_post obtain g where
    g: "feed_request sample_config sample_env ''a'' gateway_init
      = Some (outcome_response 200 ''a'' Outcome_Confirmed, g)" "gw_commands g = [''a'']" by blast
  have r: "run (gateway_step sample_config) gateway_init
      [(''a'', outcome_response 200 ''a'' Outcome_Confirmed)] g"
    by (rule run_one [where step = "gateway_step sample_config", OF gw_post [OF g(1)]])
  with gateway_dispatches_once [OF r] g(2) show ?thesis by (auto simp: outcome_response_def)
qed



text \<open>
  C24: Under every configuration the gateway accepts, the handler for a feed request returns: the
  acknowledgement loop ends whatever OpenHAB answers and however long its answers and the sleeps
  take, after at most the acknowledgement timeout over the polling interval and two more polls.
\<close>
theorem feed_request_returns:
  assumes "validate_server_config durable_ok c = Inr ()"
  shows "(\<exists>r m. wait_loop (ev_polls ev) (1000 * unat (gc_ack_timeout_seconds c))
        (unat (gc_ack_poll_milliseconds c)) 0 0 = Some (r, m)
      \<and> m \<le> 1000 * unat (gc_ack_timeout_seconds c) div unat (gc_ack_poll_milliseconds c) + 2)
    \<and> (\<exists>reply g1. feed_request c ev i g = Some (reply, g1))"
proof (rule conjI)
  have "50 \<le> gc_ack_poll_milliseconds c"
    using assms by (auto simp: validate_server_config_def Let_def split: if_splits)
  then have pos: "0 < unat (gc_ack_poll_milliseconds c)"
    by (simp add: word_le_nat_alt)
  from wait_loop_returns [OF pos, of "ev_polls ev" "1000 * unat (gc_ack_timeout_seconds c)" 0 0]
  show w: "\<exists>r m. wait_loop (ev_polls ev) (1000 * unat (gc_ack_timeout_seconds c))
        (unat (gc_ack_poll_milliseconds c)) 0 0 = Some (r, m)
      \<and> m \<le> 1000 * unat (gc_ack_timeout_seconds c) div unat (gc_ack_poll_milliseconds c) + 2"
    by simp
  have "\<exists>y. wait_for_ack c ev i g = Some y" for g
    using w by (auto simp: wait_for_ack_def split: wait_result.splits)
  then have sub: "\<exists>y. submit_feed_request c ev i g = Some y" for g
    by (auto simp: submit_feed_request_def Let_def
        split: option.splits sum.splits begin_outcome.splits)
  have "cancelled_submit p c ev i g \<noteq> None" for p g
  proof -
    obtain y where "submit_feed_request c ev i g = Some y" using sub by blast
    then show ?thesis by (simp add: cancelled_submit_def split: sum.split begin_outcome.split)
  qed
  then show "\<exists>reply g1. feed_request c ev i g = Some (reply, g1)"
    using sub [of g] by (auto simp: feed_request_def split: option.splits)
qed

theorem feed_request_returns_witness:
  "\<exists>r m. wait_loop (ev_polls sample_env) (1000 * unat (gc_ack_timeout_seconds sample_config))
      (unat (gc_ack_poll_milliseconds sample_config)) 0 0 = Some (r, m) \<and> m \<le> 22"
  using feed_request_returns [OF sample_config_valid, of sample_env]
  by (simp add: sample_config_def)

end
