(* ===== verification/Feeder.thy ===== *)
theory Feeder
  imports Ledger_System Gateway_Server
begin

text \<open>
  The feeder worker, \<open>src/src/feeder/mod.rs\<close>: one step asks the ledger for an unresolved attempt or
  for due credit, asks the gateway, and writes the outcome back to the ledger. The worker is
  written over any gateway (its status query, its safety query and its request, each with a state
  of type \<open>'g\<close>); the locale \<open>feed_gateway\<close> is what it needs of one, and the gateway server behind a
  network that may lose requests and replies is an interpretation.
\<close>

section \<open>The worker\<close>

datatype runtime_mode = Shadow | Canary | Active

definition feeder_enabled :: "runtime_mode \<Rightarrow> bool" where
  "feeder_enabled m \<longleftrightarrow> m = Canary \<or> m = Active"

datatype feed_worker_step =
    Step_Idle
  | Step_NotDispatched uuid
  | Step_ShadowBlocked u64
  | Step_OverrideBlocked u64
  | Step_RemoteDisabled u64
  | Step_SafetyUnavailable u64
  | Step_UnknownFeedBlocked uuid
  | Step_Fed uuid u64

datatype feed_error =
    ZeroThreshold
  | Feed_Ledger ledger_error
  | Feed_Gateway gateway_error
  | MissingRefusal

text \<open>The result of a step and the database it leaves: transactions that were committed before an
  error stay.\<close>

type_synonym feed_result = "(feed_error + feed_worker_step) \<times> ledger_db"

text \<open>\<open>ledger.op().await?\<close> followed by the rest.\<close>

definition committed :: "'a ledger_result \<Rightarrow> ledger_db \<Rightarrow> ('a \<Rightarrow> ledger_db \<Rightarrow> feed_result) \<Rightarrow> feed_result"
  where "committed m db k = (case m of Inl e \<Rightarrow> (Inl (Feed_Ledger e), db) | Inr (x, db1) \<Rightarrow> k x db1)"

definition apply_outcome ::
  "uuid \<Rightarrow> stored_attempt_status \<Rightarrow> feed_request_status \<Rightarrow> i64 \<Rightarrow> ledger_db \<Rightarrow> feed_result" where
  "apply_outcome aid stored status now db =
     (case validate_status aid status of
        Inl e \<Rightarrow> (Inl (Feed_Gateway e), db)
      | Inr _ \<Rightarrow>
        (case frs_status status of
           Outcome_Confirmed \<Rightarrow>
             committed (case stored of
                 Stored_IntentCommitted \<Rightarrow> confirm_feed_attempt aid now db
               | Stored_Unknown \<Rightarrow> db_reconcile_unknown_as_fed aid now db) db (\<lambda>_ db1.
               case feed_credit_sats db1 of
                 Inl e \<Rightarrow> (Inl (Feed_Ledger e), db1)
               | Inr credit \<Rightarrow> (Inr (Step_Fed aid credit), db1))
         | Outcome_NotDispatched \<Rightarrow>
             (case frs_refusal status of
                None \<Rightarrow> (Inl MissingRefusal, db)
              | Some refusal \<Rightarrow>
                  committed (resolve_feed_not_dispatched aid (fr_retry_after_seconds refusal) now db)
                    db (\<lambda>_ db1. (Inr (Step_NotDispatched aid), db1)))
         | _ \<Rightarrow>
             if stored = Stored_IntentCommitted
             then committed (db_mark_feed_unknown aid
                    ''gateway physical outcome unresolved; status polling only'' db) db
                    (\<lambda>_ db1. (Inr (Step_UnknownFeedBlocked aid), db1))
             else (Inr (Step_UnknownFeedBlocked aid), db)))"

type_synonym 'g gateway_call = "uuid \<Rightarrow> 'g \<Rightarrow> (gateway_error + feed_request_status) \<times> 'g"

definition run_feed_step ::
  "'g gateway_call \<Rightarrow> (gateway_error + feeder_safety) \<Rightarrow> 'g gateway_call \<Rightarrow> u64 \<Rightarrow> runtime_mode
     \<Rightarrow> i64 \<Rightarrow> uuid \<Rightarrow> ledger_db \<Rightarrow> 'g \<Rightarrow> feed_result \<times> 'g" where
  "run_feed_step get_status safety post threshold mode now fresh db g =
     (if threshold = 0 then ((Inl ZeroThreshold, db), g)
      else case unresolved_feed_attempt db of
        Inl e \<Rightarrow> ((Inl (Feed_Ledger e), db), g)
      | Inr (Some attempt) \<Rightarrow>
          (case get_status (sfa_id attempt) g of
             (Inl _, g1) \<Rightarrow> ((Inr (Step_UnknownFeedBlocked (sfa_id attempt)), db), g1)
           | (Inr status, g1) \<Rightarrow>
               (apply_outcome (sfa_id attempt) (sfa_status attempt) status now db, g1))
      | Inr None \<Rightarrow>
          (case feed_credit_sats db of
             Inl e \<Rightarrow> ((Inl (Feed_Ledger e), db), g)
           | Inr credit \<Rightarrow>
             let feeds_due = credit div threshold in
             if feeds_due = 0 then ((Inr Step_Idle, db), g)
             else if \<not> feeder_enabled mode then ((Inr (Step_ShadowBlocked feeds_due), db), g)
             else case safety of
               Inl _ \<Rightarrow> ((Inr (Step_SafetyUnavailable feeds_due), db), g)
             | Inr s \<Rightarrow>
               if override_enabled s then ((Inr (Step_OverrideBlocked feeds_due), db), g)
               else if \<not> remote_enabled s then ((Inr (Step_RemoteDisabled feeds_due), db), g)
               else case begin_feed_attempt threshold now fresh db of
                 Inl e \<Rightarrow> ((Inl (Feed_Ledger e), db), g)
               | Inr (None, db1) \<Rightarrow> ((Inr Step_Idle, db1), g)
               | Inr (Some aid, db1) \<Rightarrow>
                   (case post aid g of
                      (Inl e, g1) \<Rightarrow>
                        (committed (db_mark_feed_unknown aid
                           ''gateway response unavailable or uncorrelated'' db1) db1
                           (\<lambda>_ db2. (Inl (Feed_Gateway e), db2)), g1)
                    | (Inr status, g1) \<Rightarrow>
                        (apply_outcome aid Stored_IntentCommitted status now db1, g1))))"

text \<open>The pause of \<open>run_feed_worker\<close> after a step, in seconds.\<close>

definition worker_delay :: "nat \<Rightarrow> feed_error + feed_worker_step \<Rightarrow> nat" where
  "worker_delay inter_feed_delay r =
     (case r of
        Inr (Step_Fed _ _) \<Rightarrow> inter_feed_delay
      | Inr (Step_UnknownFeedBlocked _) \<Rightarrow> 5
      | Inr (Step_SafetyUnavailable _) \<Rightarrow> 5
      | Inr _ \<Rightarrow> 2
      | Inl _ \<Rightarrow> 5)"

section \<open>What a step does to the attempts\<close>

text \<open>No attempt disappears, and the only row that changes is that of \<open>aid\<close>, to status \<open>st\<close>.\<close>

definition moves :: "uuid \<Rightarrow> attempt_state \<Rightarrow> ledger_db \<Rightarrow> ledger_db \<Rightarrow> bool" where
  "moves aid st db db' \<longleftrightarrow>
     fa_id ` set (feed_attempts db') = fa_id ` set (feed_attempts db)
     \<and> (\<forall>r \<in> set (feed_attempts db'). r \<in> set (feed_attempts db) \<or> fa_id r = aid \<and> fa_status r = st)"

lemma moves_refl: "feed_attempts db' = feed_attempts db \<Longrightarrow> moves aid st db db'"
  by (simp add: moves_def)

lemma moves_update:
  assumes "update_attempt aid ok f e db = Inr db1"
    and "\<And>r. fa_id (f r) = fa_id r" "\<And>r. fa_status (f r) = st"
    and "feed_attempts db' = feed_attempts db1"
  shows "moves aid st db db'"
proof -
  let ?g = "\<lambda>r. if fa_id r = aid \<and> ok (fa_status r) then f r else r"
  have eq: "feed_attempts db' = map ?g (feed_attempts db)"
    using assms(1,4) by (auto simp: update_attempt_def Let_def update_where_def split: if_splits)
  have "fa_id ` set (feed_attempts db') = fa_id ` set (feed_attempts db)"
  proof -
    have "fa_id (?g r) = fa_id r" for r by (simp add: assms(2))
    then show ?thesis by (simp only: eq set_map image_image)
  qed
  moreover have "\<forall>r \<in> set (feed_attempts db'). r \<in> set (feed_attempts db)
      \<or> fa_id r = aid \<and> fa_status r = st"
    using assms(2,3) by (auto simp: eq)
  ultimately show ?thesis by (simp add: moves_def)
qed

lemma resolve_as_fed_moves:
  assumes "resolve_as_fed aid st now db = Inr (u, db')" "feed_inv db"
    and "st = St_intent_committed \<or> st = St_unknown"
  shows "moves aid St_confirmed db db'"
proof (rule resolve_as_fed_Inr [OF assms])
  fix r xs ys
  assume r: "fa_id r = aid" "feed_attempts db = xs @ r # ys" "db' = fed_db r xs ys now db"
  then have "feed_attempts db' = xs @ r\<lparr>fa_status := St_confirmed, fa_resolved_at := Some now,
      fa_error := None\<rparr> # ys" by (simp add: fed_db_def)
  then show ?thesis using r(1,2) by (auto simp: moves_def)
qed

lemma mark_unknown_moves:
  assumes "db_mark_feed_unknown aid err db = Inr (u, db')"
  shows "moves aid St_unknown db db'"
proof -
  from assms obtain db1 where "update_attempt aid (\<lambda>s. s = St_intent_committed)
       (\<lambda>r. r\<lparr>fa_status := St_unknown, fa_error := Some (truncate_error err)\<rparr>)
       NotInExpectedState db = Inr db1" "feed_attempts db' = feed_attempts db1"
    by (auto simp: db_mark_feed_unknown_def res_simps append_event_eq)
  then show ?thesis by (elim moves_update) simp_all
qed

lemma not_dispatched_moves:
  assumes "resolve_feed_not_dispatched aid retry now db = Inr (u, db')"
  shows "moves aid St_reconciled_not_fed db db'"
proof -
  from assms obtain db1 where "update_attempt aid (\<lambda>s. s = St_intent_committed \<or> s = St_unknown)
        (\<lambda>r. r\<lparr>fa_status := St_reconciled_not_fed, fa_resolved_at := Some now, fa_error := None\<rparr>)
        NotInExpectedState db = Inr db1" "feed_attempts db' = feed_attempts db1"
    by (auto simp: resolve_feed_not_dispatched_def res_simps Let_def append_event_eq
        split: if_splits)
  then show ?thesis by (elim moves_update) simp_all
qed

lemma interrupted_rows:
  assumes "mark_interrupted_feed_intents_unknown db = Inr (n, db')"
  shows "fa_id ` set (feed_attempts db') = fa_id ` set (feed_attempts db)
    \<and> (\<forall>r \<in> set (feed_attempts db'). r \<in> set (feed_attempts db) \<or> fa_status r = St_unknown)"
proof -
  let ?g = "\<lambda>r. if fa_status r = St_intent_committed then r\<lparr>fa_status := St_unknown,
    fa_error := Some ''daemon restarted with an unresolved feed intent''\<rparr> else r"
  have eq: "feed_attempts db' = map ?g (feed_attempts db)"
    using assms by (auto simp: mark_interrupted_feed_intents_unknown_def Let_def append_event_eq
        update_where_def split: if_splits)
  have "fa_id ` set (feed_attempts db') = fa_id ` set (feed_attempts db)"
    unfolding eq set_map image_image by (rule image_cong) simp_all
  moreover have "\<forall>r \<in> set (feed_attempts db'). r \<in> set (feed_attempts db) \<or> fa_status r = St_unknown"
    by (auto simp: eq)
  ultimately show ?thesis by blast
qed

text \<open>The operations of a step as steps of the ledger.\<close>

lemmas feed_ledger_steps = ledger_step_all [OF ledger_step.confirm]
  ledger_step_all [OF ledger_step.reconcile_fed] ledger_step_all [OF ledger_step.unknown]
  ledger_step_all [OF ledger_step.not_dispatched] ledger_step_all [OF ledger_step.begin_feed]

text \<open>What \<open>apply_outcome\<close> can do.\<close>

lemma apply_outcome_cases:
  assumes "apply_outcome aid stored s now db = (r, db')" "ledger_inv_all db"
  obtains (same) "db' = db"
  | (fed) "frs_status s = Outcome_Confirmed" "frs_request_id s = aid"
      "moves aid St_confirmed db db'" "ledger_inv_all db'"
  | (released) "frs_status s = Outcome_NotDispatched" "frs_request_id s = aid"
      "moves aid St_reconciled_not_fed db db'" "ledger_inv_all db'"
  | (unknown) "moves aid St_unknown db db'" "ledger_inv_all db'"
proof (cases "db' = db")
  case True
  then show thesis by (rule same)
next
  case False
  have feed: "feed_inv db" using assms(2) by (simp add: ledger_inv_all_def)
  from False assms(1) have id: "frs_request_id s = aid"
    by (auto simp: apply_outcome_def validate_status_def split: sum.splits if_splits)
  have conf: thesis if "confirm_feed_attempt aid now db = Inr (u, db')"
      "frs_status s = Outcome_Confirmed" for u
    using fed [OF that(2) id] resolve_as_fed_moves [of aid St_intent_committed now db u db'] that(1)
      feed feed_ledger_steps(1) [OF that(1) assms(2)] by (simp add: confirm_feed_attempt_def)
  have rec: thesis if "db_reconcile_unknown_as_fed aid now db = Inr (u, db')"
      "frs_status s = Outcome_Confirmed" for u
    using fed [OF that(2) id] resolve_as_fed_moves [of aid St_unknown now db u db'] that(1)
      feed feed_ledger_steps(2) [OF that(1) assms(2)] by (simp add: db_reconcile_unknown_as_fed_def)
  have unk: thesis if "db_mark_feed_unknown aid e db = Inr (u, db')" for e u
    by (rule unknown [OF mark_unknown_moves [OF that] feed_ledger_steps(3) [OF that assms(2)]])
  have nd: thesis if "resolve_feed_not_dispatched aid retry now db = Inr (u, db')"
      "frs_status s = Outcome_NotDispatched" for retry u
    by (rule released [OF that(2) id not_dispatched_moves [OF that(1)]
          feed_ledger_steps(4) [OF that(1) assms(2)]])
  show thesis
    using assms(1) False conf rec unk nd
    by (auto simp: apply_outcome_def committed_def
        split: sum.splits feed_outcome.splits option.splits stored_attempt_status.splits if_splits)
qed

section \<open>The daemon's steps\<close>

text \<open>
  A step of the worker (at any time, with any answers of the network, of the owner and of the
  safety switches), a restart of the daemon, or any other transaction of the ledger. Only the
  worker and the restart write \<open>feed_attempts\<close>.
\<close>

inductive daemon_step ::
  "('env \<Rightarrow> 'g gateway_call) \<Rightarrow> ('env \<Rightarrow> 'g gateway_call)
     \<Rightarrow> (feed_error + feed_worker_step) option \<Rightarrow> ledger_db \<times> 'g \<Rightarrow> ledger_db \<times> 'g \<Rightarrow> bool"
  for post get where
  feed: "run_feed_step (get ev) safety (post ev') threshold mode now fresh db g = ((r, db'), g') \<Longrightarrow>
     daemon_step post get (Some r) (db, g) (db', g')"
| restart: "mark_interrupted_feed_intents_unknown db = Inr (n, db') \<Longrightarrow>
     daemon_step post get None (db, g) (db', g)"
| money: "ledger_step db db' \<Longrightarrow> feed_attempts db' = feed_attempts db \<Longrightarrow>
     daemon_step post get None (db, g) (db', g)"

section \<open>What the worker needs of a gateway\<close>

text \<open>
  \<open>commands g\<close> are the physical commands sent so far, \<open>acked\<close> and \<open>refused\<close> what the gateway has
  durably recorded. \<open>post\<close> and \<open>get\<close> take an environment: losses, times, answers of the owner.
\<close>

locale feed_gateway =
  fixes post :: "'env \<Rightarrow> uuid \<Rightarrow> 'g \<Rightarrow> (gateway_error + feed_request_status) \<times> 'g"
    and get :: "'env \<Rightarrow> uuid \<Rightarrow> 'g \<Rightarrow> (gateway_error + feed_request_status) \<times> 'g"
    and good :: "'g \<Rightarrow> bool"
    and commands :: "'g \<Rightarrow> uuid list"
    and acked :: "'g \<Rightarrow> uuid \<Rightarrow> bool"
    and refused :: "'g \<Rightarrow> uuid \<Rightarrow> bool"
  assumes keeps: "good g \<Longrightarrow> post ev i g = (r, g1) \<or> get ev i g = (r, g1) \<Longrightarrow>
      good g1 \<and> (acked g k \<longrightarrow> acked g1 k) \<and> (refused g k \<longrightarrow> refused g1 k)"
    and answers: "good g \<Longrightarrow> post ev i g = (Inr s, g1) \<or> get ev i g = (Inr s, g1) \<Longrightarrow>
      (frs_status s = Outcome_Confirmed \<longrightarrow> acked g1 i)
      \<and> (frs_status s = Outcome_NotDispatched \<longrightarrow> refused g1 i)"
    and get_commands: "good g \<Longrightarrow> get ev i g = (r, g1) \<Longrightarrow> commands g1 = commands g"
    and post_commands: "good g \<Longrightarrow> post ev i g = (r, g1) \<Longrightarrow>
      commands g1 = commands g \<or> commands g1 = commands g @ [i]"
    and once: "good g \<Longrightarrow> distinct (commands g)"
    and refused_uncommanded: "good g \<Longrightarrow> refused g i \<Longrightarrow> i \<notin> set (commands g)"
begin

text \<open>Every physical command belongs to an attempt of the ledger, a debited attempt is acknowledged
  by the gateway, and an attempt that was released is refused there.\<close>

definition linked :: "ledger_db \<Rightarrow> 'g \<Rightarrow> bool" where
  "linked db g \<longleftrightarrow> set (commands g) \<subseteq> fa_id ` set (feed_attempts db)
     \<and> (\<forall>r \<in> set (feed_attempts db). (fa_status r = St_confirmed \<longrightarrow> acked g (fa_id r))
          \<and> (fa_status r = St_reconciled_not_fed \<longrightarrow> refused g (fa_id r)))"

lemma linked_moves:
  assumes "linked db g" "moves aid st db db'"
    and "st = St_confirmed \<Longrightarrow> acked g aid" "st = St_reconciled_not_fed \<Longrightarrow> refused g aid"
  shows "linked db' g"
  unfolding linked_def
proof (intro conjI ballI)
  show "set (commands g) \<subseteq> fa_id ` set (feed_attempts db')"
    using assms(1,2) by (simp add: linked_def moves_def)
next
  fix r assume "r \<in> set (feed_attempts db')"
  with assms(2) consider "r \<in> set (feed_attempts db)" | "fa_id r = aid" "fa_status r = st"
    unfolding moves_def by blast
  then have "(fa_status r = St_confirmed \<longrightarrow> acked g (fa_id r))
      \<and> (fa_status r = St_reconciled_not_fed \<longrightarrow> refused g (fa_id r))"
    by cases (use assms(1,3,4) in \<open>auto simp: linked_def\<close>)
  then show "fa_status r = St_confirmed \<longrightarrow> acked g (fa_id r)"
    "fa_status r = St_reconciled_not_fed \<longrightarrow> refused g (fa_id r)" by auto
qed

lemma apply_outcome_linked:
  assumes "apply_outcome aid stored s now db = (r, db')" "ledger_inv_all db" "linked db g"
    and "frs_status s = Outcome_Confirmed \<Longrightarrow> acked g aid"
    and "frs_status s = Outcome_NotDispatched \<Longrightarrow> refused g aid"
  shows "ledger_inv_all db' \<and> linked db' g"
  using assms(1,2)
  by (cases rule: apply_outcome_cases)
    (use assms(2-5) linked_moves [OF assms(3)] in auto)

lemma linked_call:
  assumes "linked db g" "good g" "post ev i g = (r, g1) \<or> get ev i g = (r, g1)"
    and "i \<in> fa_id ` set (feed_attempts db)"
  shows "linked db g1 \<and> good g1"
proof -
  have "set (commands g1) \<subseteq> insert i (set (commands g))"
    using assms(3) get_commands [OF assms(2), of ev i r g1] post_commands [OF assms(2), of ev i r g1]
    by auto
  moreover have "good g1 \<and> (acked g k \<longrightarrow> acked g1 k) \<and> (refused g k \<longrightarrow> refused g1 k)" for k
    by (rule keeps [OF assms(2,3)])
  ultimately show ?thesis using assms(1,4) unfolding linked_def by blast
qed

lemma unresolved_attempt_row:
  assumes "unresolved_feed_attempt db = Inr (Some a)"
  shows "sfa_id a \<in> fa_id ` set (feed_attempts db)"
  using assms find_Some_in [of unresolved "feed_attempts db"]
  by (auto simp: unresolved_feed_attempt_def stored_of_row_def res_simps split: option.splits)

text \<open>The branch that starts an attempt.\<close>

lemma posted_linked:
  assumes "begin_feed_attempt threshold now fresh db = Inr (Some aid, db1)"
    and "post ev aid g = (q, g1)" "ledger_inv_all db" "linked db g" "good g"
  shows "ledger_inv_all db1 \<and> linked db1 g1 \<and> good g1"
proof -
  have inv: "ledger_inv_all db1" by (rule feed_ledger_steps(5) [OF assms(1,3)])
  have "feed_inv db" using assms(3) by (simp add: ledger_inv_all_def)
  then have "aid = fresh" and rows: "feed_attempts db1 = feed_attempts db
      @ [\<lparr>fa_id = fresh, fa_status = St_intent_committed, fa_threshold_sats = uint threshold,
          fa_resolved_at = None, fa_error = None\<rparr>]"
    using assms(1) by (auto simp: begin_feed_attempt_Inr split: if_splits)
  then have "linked db1 g" "aid \<in> fa_id ` set (feed_attempts db1)"
    using assms(4) by (auto simp: linked_def)
  from linked_call [OF this(1) assms(5) _ this(2)] assms(2) inv show ?thesis by blast
qed

lemma run_feed_step_linked:
  assumes "run_feed_step (get ev) safety (post ev') threshold mode now fresh db g = ((r, db'), g')"
    and "ledger_inv_all db" "linked db g" "good g"
  shows "ledger_inv_all db' \<and> linked db' g' \<and> good g'"
proof (cases "threshold = 0")
  case False
  note nz = this
  show ?thesis
  proof (cases "unresolved_feed_attempt db")
    case (Inr u)
    note un = this
    show ?thesis
    proof (cases u)
      case (Some a)
      let ?aid = "sfa_id a"
      obtain q g1 where q: "get ev ?aid g = (q, g1)" by fastforce
      have row: "?aid \<in> fa_id ` set (feed_attempts db)"
        using unresolved_attempt_row un Some by simp
      have l: "linked db g1 \<and> good g1" by (rule linked_call [OF assms(3,4) _ row]) (use q in blast)
      show ?thesis
      proof (cases q)
        case (Inl e)
        then show ?thesis using assms(1,2) nz un Some q l by (simp add: run_feed_step_def)
      next
        case s: (Inr s)
        have "apply_outcome ?aid (sfa_status a) s now db = (r, db')" "g' = g1"
          using assms(1) nz un Some q s by (auto simp: run_feed_step_def)
        then show ?thesis
          using apply_outcome_linked [of ?aid _ s now db r db' g1] assms(2) l
            answers [OF assms(4), of ev ?aid s g1] q s by auto
      qed
    next
      case None
      show ?thesis
      proof (cases "\<exists>aid db1. begin_feed_attempt threshold now fresh db = Inr (Some aid, db1)
          \<and> (db', g') \<noteq> (db, g)")
        case True
        then obtain aid db1 where b: "begin_feed_attempt threshold now fresh db = Inr (Some aid, db1)"
          "(db', g') \<noteq> (db, g)" by blast
        obtain q g1 where q: "post ev' aid g = (q, g1)" by fastforce
        note l = posted_linked [OF b(1) q assms(2-4)]
        from assms(1) nz un None b q have step: "g' = g1 \<and> (case q of
            Inl e \<Rightarrow> (r, db') = committed (db_mark_feed_unknown aid
               ''gateway response unavailable or uncorrelated'' db1) db1
               (\<lambda>_ db2. (Inl (Feed_Gateway e), db2))
          | Inr s \<Rightarrow> (r, db') = apply_outcome aid Stored_IntentCommitted s now db1)"
          by (auto simp: run_feed_step_def Let_def split: sum.splits if_splits)
        show ?thesis
        proof (cases q)
          case (Inl e)
          with step have "db' = db1
            \<or> (\<exists>u. db_mark_feed_unknown aid ''gateway response unavailable or uncorrelated'' db1
                 = Inr (u, db'))" by (auto simp: committed_def split: sum.splits)
          moreover have "ledger_inv_all db' \<and> linked db' g1"
            if "db_mark_feed_unknown aid e db1 = Inr (u, db')" for e u
            using feed_ledger_steps(3) [OF that] linked_moves [OF _ mark_unknown_moves [OF that]] l
            by simp
          ultimately show ?thesis using l step by blast
        next
          case (Inr s)
          with step have "apply_outcome aid Stored_IntentCommitted s now db1 = (r, db')" by simp
          from apply_outcome_linked [OF this] l step answers [OF assms(4), of ev' aid s g1] q Inr
          show ?thesis by auto
        qed
      next
        case False
        then have "db' = db \<and> g' = g"
          using assms(1) nz un None
          by (auto simp: run_feed_step_def Let_def begin_feed_attempt_def res_simps
              split: sum.splits if_splits option.splits prod.splits)
        then show ?thesis using assms(2-4) by simp
      qed
    qed
  qed (use assms nz in \<open>simp add: run_feed_step_def\<close>)
qed (use assms in \<open>simp add: run_feed_step_def\<close>)

lemma daemon_run_linked:
  assumes "run (daemon_step post get) s tr t" "s = (db, g)"
    and "ledger_inv_all db" "linked db g" "good g"
  shows "ledger_inv_all (fst t) \<and> linked (fst t) (snd t) \<and> good (snd t)"
proof (rule run_invariant [OF assms(1), where I = "\<lambda>x. ledger_inv_all (fst x)
    \<and> linked (fst x) (snd x) \<and> good (snd x)"])
  fix e x y
  assume step: "daemon_step post get e x y"
    and x: "ledger_inv_all (fst x) \<and> linked (fst x) (snd x) \<and> good (snd x)"
  from step show "ledger_inv_all (fst y) \<and> linked (fst y) (snd y) \<and> good (snd y)"
  proof (cases rule: daemon_step.cases)
    case (feed ev safety ev' threshold mode now fresh db g r db' g')
    then show ?thesis using run_feed_step_linked [OF feed(4)] x by simp
  next
    case (restart db n db' g)
    have "ledger_inv_all db'"
      using ledger_step_all [OF ledger_step.interrupted [OF restart(4)]] x restart(2) by simp
    moreover have "linked db' g"
      using interrupted_rows [OF restart(4)] x restart(2) unfolding linked_def by force
    ultimately show ?thesis using x restart(2,3) by simp
  next
    case (money db db' g)
    then show ?thesis using ledger_step_all [OF money(4)] x by (simp add: linked_def)
  qed
qed (use assms(2-5) in simp)

end

section \<open>The gateway server behind a network\<close>

text \<open>
  A call of the daemon's client: the request may not arrive, and the reply may not come back. What
  the client makes of a reply is the right-hand side of the theorem that client and server agree.
\<close>

record network_env =
  ne_server :: request_env
  ne_delivered :: bool
  ne_returned :: bool

definition client_answer :: "reply \<Rightarrow> gateway_error + feed_request_status" where
  "client_answer rp = (case rp_body rp of Body_Feed s \<Rightarrow> Inr s
     | _ \<Rightarrow> Inl (UnexpectedHttpStatus (rp_code rp)))"

definition call_post ::
  "gateway_server_config \<Rightarrow> network_env \<Rightarrow> gateway_state gateway_call" where
  "call_post c ne i g =
     (if \<not> ne_delivered ne then (Inl TransportFailed, g)
      else case feed_request c (ne_server ne) i g of
        None \<Rightarrow> (Inl TransportFailed, g)
      | Some (rp, g1) \<Rightarrow> (if ne_returned ne then client_answer rp else Inl TransportFailed, g1))"

definition call_get :: "network_env \<Rightarrow> gateway_state gateway_call" where
  "call_get ne i g =
     (if \<not> ne_delivered ne then (Inl TransportFailed, g)
      else case server_feed_request_status (ne_server ne) i g of
        (rp, g1) \<Rightarrow> (if ne_returned ne then client_answer rp else Inl TransportFailed, g1))"

definition acknowledged_by :: "gateway_state \<Rightarrow> uuid \<Rightarrow> bool" where
  "acknowledged_by g i \<longleftrightarrow> request_status i (gw_store g) = Some Stored_Acknowledged"

definition refused_by :: "gateway_state \<Rightarrow> uuid \<Rightarrow> bool" where
  "refused_by g i \<longleftrightarrow> (\<exists>f. request_status i (gw_store g) = Some (Stored_NotDispatched f))"

lemma call_reply:
  assumes "call_post c ev i g = (r, g1) \<or> call_get ev i g = (r, g1)" "gateway_inv g"
  shows "g1 = g \<and> r = Inl TransportFailed
    \<or> (\<exists>rp. gateway_step c (i, rp) g g1 \<and> (r = client_answer rp \<or> r = Inl TransportFailed))"
  using assms(1)
  by (auto simp: call_post_def call_get_def split: option.splits prod.splits if_splits
      intro: gw_post gw_get)

lemma call_keeps:
  assumes "call_post c ev i g = (r, g1) \<or> call_get ev i g = (r, g1)" "gateway_inv g"
  shows "gateway_inv g1 \<and> (acknowledged_by g k \<longrightarrow> acknowledged_by g1 k)
    \<and> (refused_by g k \<longrightarrow> refused_by g1 k)"
proof -
  have "\<exists>i. effect c i g g1"
    using call_reply [OF assms] gateway_step_ok [of c i _ g g1] assms(2)
    by (auto simp: gateway_inv_def)
  then obtain j where e: "effect c j g g1" ..
  from effect_inv [OF e assms(2)] effect_settled [OF e assms(2)] show ?thesis
    by (auto simp: acknowledged_by_def refused_by_def settled_def)
qed

lemma call_answers:
  assumes "call_post c ev i g = (Inr s, g1) \<or> call_get ev i g = (Inr s, g1)" "gateway_inv g"
  shows "(frs_status s = Outcome_Confirmed \<longrightarrow> acknowledged_by g1 i)
    \<and> (frs_status s = Outcome_NotDispatched \<longrightarrow> refused_by g1 i)"
proof -
  from call_reply [OF assms] obtain rp where rp: "gateway_step c (i, rp) g g1"
    "Inr s = client_answer rp" by blast
  then have body: "rp_body rp = Body_Feed s"
    by (auto simp: client_answer_def split: reply_body.splits)
  have inv: "store_inv (gw_store g)" using assms(2) by (simp add: gateway_inv_def)
  from gateway_step_ok [OF rp(1) inv] body show ?thesis
    by (auto simp: good_reply_def acknowledged_by_def refused_by_def validate_status_Inr
        split: option.splits)
qed

lemma server_get_commands:
  "gw_commands (snd (server_feed_request_status ev i g)) = gw_commands g"
  by (auto simp: server_feed_request_status_def lookup_feed_request_def existing_response_def
      handle_existing_pending_def acknowledge_def
      split: option.splits stored_status.splits sum.splits owner_outcome.splits)

interpretation gateway: feed_gateway "call_post c" call_get gateway_inv gw_commands
  acknowledged_by refused_by for c
proof
  fix g ev i r g1 s
  assume inv: "gateway_inv g"
  show "call_get ev i g = (r, g1) \<Longrightarrow> gw_commands g1 = gw_commands g"
    using server_get_commands [of "ne_server ev" i g]
    by (auto simp: call_get_def split: prod.splits if_splits)
  show "gw_commands g1 = gw_commands g \<or> gw_commands g1 = gw_commands g @ [i]"
    if "call_post c ev i g = (r, g1)"
    using that inv feed_request_ok [of c "ne_server ev" i g]
    by (auto simp: call_post_def gateway_inv_def effect_def split: option.splits prod.splits if_splits)
  show "distinct (gw_commands g)" using inv by (simp add: gateway_inv_def)
  show "i \<notin> set (gw_commands g)" if "refused_by g i"
    using that not_dispatched_not_commanded [OF inv] by (auto simp: refused_by_def)
qed (use call_keeps call_answers in blast)+

end
