(* ===== verification/Ledger_Properties.thy ===== *)
theory Ledger_Properties
  imports Ledger_System
begin

text \<open>
  What every reachable state of the ledger satisfies, and what an operation started in one does:
  exactly-once crediting of native settlements, credit backed by eligible receipts, holds that
  freeze an intent, and the books that balance.
\<close>

section \<open>What never changes\<close>

text \<open>Settlements stay, and an allocation under a hold stays exactly as it is.\<close>

definition keeps_history :: "ledger_db \<Rightarrow> ledger_db \<Rightarrow> bool" where
  "keeps_history db db' \<longleftrightarrow>
     set (settled_payments db) \<subseteq> set (settled_payments db')
     \<and> (\<forall>a \<in> set (credit_allocations db). al_hold_reason a \<noteq> None \<longrightarrow>
          a \<in> set (credit_allocations db'))"

lemma keeps_history_refl: "keeps_history db db"
  by (simp add: keeps_history_def)

lemma keeps_history_trans: "keeps_history a b \<Longrightarrow> keeps_history b c \<Longrightarrow> keeps_history a c"
  unfolding keeps_history_def by blast

lemma money_history: "money_tables db' = money_tables db \<Longrightarrow> keeps_history db db'"
  by (simp add: money_tables_def keeps_history_def)

lemma feed_history: "feed_write db db' \<Longrightarrow> keeps_history db db'"
  by (simp add: feed_write_def keeps_history_def)

lemma posted_history: "keeps_history db (posted p db)"
  by (auto simp: keeps_history_def posted_tables posted_credit_tables(4) [THEN subsetD])

lemma set_hold_held:
  assumes "a \<in> set (credit_allocations db)" "al_hold_reason a \<noteq> None"
  shows "a \<in> set (credit_allocations (set_hold vid reason db))"
proof -
  let ?f = "\<lambda>a. if al_valuation_id a = vid then a\<lparr>al_hold_reason :=
      (case al_hold_reason a of None \<Rightarrow> Some (hold_str reason) | Some h \<Rightarrow> Some h)\<rparr> else a"
  have "?f a = a" using assms(2) by auto
  moreover have "credit_allocations (set_hold vid reason db) = map ?f (credit_allocations db)"
    by (simp add: set_hold_def update_where_def)
  moreover have "?f a \<in> set (map ?f (credit_allocations db))"
    unfolding set_map using assms(1) by (rule imageI)
  ultimately show ?thesis by (simp only:)
qed

lemma set_hold_history: "keeps_history db (set_hold vid reason db)"
  unfolding keeps_history_def using set_hold_held by auto

lemma hold_observation_history:
  "hold_observation vid ob reason db = Inr db' \<Longrightarrow> keeps_history db db'"
proof -
  assume "hold_observation vid ob reason db = Inr db'"
  then obtain cs where "db' = set_hold vid reason (db\<lparr>credit_conflicts := cs\<rparr>)"
    by (auto simp: hold_observation_eq)
  moreover have "keeps_history db (db\<lparr>credit_conflicts := cs\<rparr>)" by (simp add: keeps_history_def)
  ultimately show ?thesis using keeps_history_trans set_hold_history by blast
qed

lemma insert_valuation_history: "insert_valuation v db = Inr db' \<Longrightarrow> keeps_history db db'"
  using insert_valuation_Inr(3) [of v db db'] by (auto simp: keeps_history_def)

lemma register_history:
  "register_xmr_intent_in_transaction intent db = Inr db' \<Longrightarrow> keeps_history db db'"
  by (auto simp: register_xmr_intent_in_transaction_def res_simps keeps_history_refl
      dest: insert_valuation_history split: if_splits option.splits)

text \<open>A grant changes only the allocation of its own valuation.\<close>

lemma post_grant_history:
  assumes "post_grant vid v i ob u db = Inr (out, db')"
    and free: "\<forall>a \<in> set (credit_allocations db). al_valuation_id a = vid \<longrightarrow> al_hold_reason a = None"
  shows "keeps_history db db'"
proof -
  from assms(1) consider
    (held) db1 where "hold_observation vid ob CreditLimit db = Inr db1" "db' = db1"
  | (granted) "settled_payments db' = settled_payments db"
      "\<exists>atomic sats. credit_allocations db' = update_where (\<lambda>a. al_valuation_id a = vid)
         (\<lambda>a. a\<lparr>al_eligible_atomic := atomic, al_credited_sats := sats\<rparr>) (credit_allocations db)"
    by (fastforce simp: post_grant_def res_simps insert_ledger_entry_Inr append_event_eq
        insert_grant_def split: option.splits if_splits)
  then show ?thesis
  proof cases
    case held
    then show ?thesis using hold_observation_history by blast
  next
    case granted
    then obtain atomic sats where
      "credit_allocations db' = credit_allocations (set_totals vid atomic sats db)"
      by (auto simp: set_totals_def)
    moreover have "a \<in> set (credit_allocations (set_totals vid atomic sats db))"
      if "a \<in> set (credit_allocations db)" "al_hold_reason a \<noteq> None" for a
      using that free by (intro set_totals_other) auto
    ultimately show ?thesis
      by (simp add: keeps_history_def granted(1))
  qed
qed

lemma grant_receipt_history:
  assumes "grant_receipt vid v al i ob db = Inr (out, db')"
    and free: "\<forall>a \<in> set (credit_allocations db). al_valuation_id a = vid \<longrightarrow> al_hold_reason a = None"
  shows "keeps_history db db'"
proof -
  from assms(1) consider
    (held) reason where "hold_observation vid ob reason db = Inr db'"
  | (same) "db' = db"
  | (post) u where "post_grant vid v i ob u db = Inr (out, db')"
    by (auto simp: grant_receipt_def res_simps split: option.splits if_splits)
  then show ?thesis
    using hold_observation_history post_grant_history free keeps_history_refl by cases blast+
qed

lemma allocation_row_unique:
  assumes "grant_inv db" "a \<in> set (credit_allocations db)" "b \<in> set (credit_allocations db)"
    "al_valuation_id a = al_valuation_id b"
  shows "a = b"
proof -
  have "distinct (map al_valuation_id (credit_allocations db))"
    using assms(1) unfolding grant_inv_def by simp
  with assms(2-4) show ?thesis by (simp add: distinct_map inj_on_def)
qed

lemma free_allocation:
  assumes "grant_inv db" "allocation_in_tx vid db = Inr al" "ca_hold_reason al = None"
  shows "\<forall>a \<in> set (credit_allocations db). al_valuation_id a = vid \<longrightarrow> al_hold_reason a = None"
proof -
  obtain b where "b \<in> set (credit_allocations db)" "al_valuation_id b = vid"
    "al_hold_reason b = None"
    by (rule allocation_in_tx_Inr [OF assms(2)]) (use assms(3) in simp)
  with allocation_row_unique [OF assms(1)] show ?thesis by metis
qed

lemma record_xmr_receipt_history:
  assumes rec: "record_xmr_receipt u ob db = Inr (out, db')" and inv: "grant_inv db"
  shows "keeps_history db db'"
proof (rule record_xmr_receipt_cases [OF rec], elim disjE exE conjE)
  fix reason
  show "hold_observation (xmr_id u) ob reason db = Inr db' \<Longrightarrow> keeps_history db db'"
    by (rule hold_observation_history)
next
  fix v al issued expires timely rid db1 db3
  assume al: "allocation_in_tx (xmr_id u) db = Inr al"
    and first: "(case known_receipt u ob db of Some row \<Rightarrow> Inr (ar_id row, db)
           | None \<Rightarrow> insert_receipt (observed_row u ob timely) db) = Inr (rid, db1)"
    and db3: "(if xo_double_spend_seen ob then hold_observation (xmr_id u) ob DoubleSpend
              (if xo_unlocked ob then unlock_receipt rid db1 else db1)
            else Inr (if xo_unlocked ob then unlock_receipt rid db1 else db1)) = Inr db3"
    and tail: "(if ca_hold_reason al \<noteq> None \<or> xo_double_spend_seen ob then Inr (ReceiptHeld, db3)
            else if \<not> timely then Inr (ReceiptHeld, db3)
            else if \<not> xo_unlocked ob then Inr (ReceiptPending, db3)
            else grant_receipt (xmr_id u) v al rid ob db3) = Inr (out, db')"
  have t1: "settled_payments db1 = settled_payments db"
    "credit_allocations db1 = credit_allocations db"
    using first by (auto simp: insert_receipt_def Let_def split: option.splits if_splits)
  define db2 where "db2 = (if xo_unlocked ob then unlock_receipt rid db1 else db1)"
  have t2: "settled_payments db2 = settled_payments db"
    "credit_allocations db2 = credit_allocations db" using t1 by (simp_all add: db2_def)
  then have h2: "keeps_history db db2" by (simp add: keeps_history_def)
  show "keeps_history db db'"
  proof (cases "xo_double_spend_seen ob")
    case True
    then have "hold_observation (xmr_id u) ob DoubleSpend db2 = Inr db'"
      using db3 tail by (simp add: db2_def)
    from keeps_history_trans [OF h2 hold_observation_history [OF this]] show ?thesis .
  next
    case False
    then have db3: "db3 = db2" using db3 by (simp add: db2_def)
    show ?thesis
    proof (cases "db' = db2")
      case False
      with \<open>\<not> xo_double_spend_seen ob\<close> tail
      have g: "grant_receipt (xmr_id u) v al rid ob db2 = Inr (out, db')" "ca_hold_reason al = None"
        by (auto simp: db3 split: if_splits)
      from free_allocation [OF inv al g(2)]
      have "\<forall>a \<in> set (credit_allocations db2). al_valuation_id a = xmr_id u \<longrightarrow> al_hold_reason a = None"
        by (simp add: t2)
      from keeps_history_trans [OF h2 grant_receipt_history [OF g(1) this]] show ?thesis .
    qed (use h2 in simp)
  qed
qed

text \<open>An observation for a held intent is filed, never credited.\<close>

lemma held_receipt_not_credited:
  assumes rec: "record_xmr_receipt u ob db = Inr (out, db')" and inv: "grant_inv db"
    and held: "a \<in> set (credit_allocations db)" "al_valuation_id a = xmr_id u"
      "al_hold_reason a \<noteq> None"
  shows "out = ReceiptHeld \<and> ledger_entries db' = ledger_entries db
    \<and> credit_grants db' = credit_grants db"
proof (rule record_xmr_receipt_cases [OF rec], elim disjE exE conjE)
  fix reason
  show "hold_observation (xmr_id u) ob reason db = Inr db' \<Longrightarrow> out = ReceiptHeld \<Longrightarrow> ?thesis"
    by (auto simp: hold_observation_eq)
next
  fix v al issued expires timely rid db1 db3
  assume al: "allocation_in_tx (xmr_id u) db = Inr al"
    and first: "(case known_receipt u ob db of Some row \<Rightarrow> Inr (ar_id row, db)
           | None \<Rightarrow> insert_receipt (observed_row u ob timely) db) = Inr (rid, db1)"
    and db3: "(if xo_double_spend_seen ob then hold_observation (xmr_id u) ob DoubleSpend
              (if xo_unlocked ob then unlock_receipt rid db1 else db1)
            else Inr (if xo_unlocked ob then unlock_receipt rid db1 else db1)) = Inr db3"
    and tail: "(if ca_hold_reason al \<noteq> None \<or> xo_double_spend_seen ob then Inr (ReceiptHeld, db3)
            else if \<not> timely then Inr (ReceiptHeld, db3)
            else if \<not> xo_unlocked ob then Inr (ReceiptPending, db3)
            else grant_receipt (xmr_id u) v al rid ob db3) = Inr (out, db')"
  obtain b where "b \<in> set (credit_allocations db)" "al_valuation_id b = xmr_id u"
    "ca_hold_reason al = al_hold_reason b"
    by (rule allocation_in_tx_Inr [OF al])
  with allocation_row_unique [OF inv held(1)] held(2,3) have "ca_hold_reason al \<noteq> None" by metis
  with tail have "out = ReceiptHeld" "db' = db3" by simp_all
  moreover have "ledger_entries db1 = ledger_entries db" "credit_grants db1 = credit_grants db"
    using first by (auto simp: insert_receipt_def Let_def split: option.splits if_splits)
  ultimately show ?thesis
    using db3 by (auto simp: hold_observation_eq split: if_splits)
qed

lemma payment_history:
  assumes "record_payment parse_json p db = Inr (out, db')" "ledger_inv_all db"
    "int (length (event_log db)) < i64_max"
  shows "keeps_history db db'"
  using assms by (cases rule: record_payment_cases) (auto simp: keeps_history_refl posted_history)

lemma bind_history:
  assumes "bind_xmr_quote q intent now db = Inr (u, db')"
  shows "keeps_history db db'"
proof (rule bind_xmr_quote_cases [OF assms])
  fix db1 db2
  assume 1: "check_clock now db = Inr db1"
    and 2: "db2 = db1 \<or> (\<exists>db3 bs. register_xmr_intent_in_transaction intent db1 = Inr db3
       \<and> db2 = db3\<lparr>xmr_quote_bindings := bs\<rparr>)"
    and 3: "register_xmr_intent_in_transaction intent db2 = Inr db'"
  have "keeps_history db db1" using 1 by (auto simp: check_clock_Inr keeps_history_def)
  moreover have "keeps_history db1 db2"
    using 2 keeps_history_refl register_history
    by (auto simp: keeps_history_def dest!: register_history)
  moreover have "keeps_history db2 db'" using 3 by (rule register_history)
  ultimately show ?thesis using keeps_history_trans by blast
qed

lemmas step_history =
  feed_writes [THEN feed_history] bind_history advance_money [THEN money_history]
  enqueue_money [THEN money_history] mark_money [THEN money_history]
  strike_request_money [THEN money_history] inbox_money [THEN money_history]
  admission_money [THEN money_history] quote_money [THEN money_history]

lemma resolve_history:
  assumes "resolve_as_fed aid st now db = Inr (u, db')" "ledger_inv_all db"
    "st = St_intent_committed \<or> st = St_unknown"
  shows "keeps_history db db'"
  using feed_history [OF resolve_as_fed_write [OF assms(1) _ assms(3)]] assms(2)
  by (simp add: ledger_inv_all_def)

lemma ledger_step_history: "ledger_step db db' \<Longrightarrow> ledger_inv_all db \<Longrightarrow> keeps_history db db'"
proof (induction rule: ledger_step.induct)
  case (payment parse_json p db out db')
  then show ?case using payment_history by blast
next
  case (register intent db u db')
  then show ?case using register_history by (auto simp: register_xmr_credit_intent_def res_simps)
next
  case (hold i db u db')
  then show ?case
    by (auto simp: hold_xmr_credit_intent_def set_hold_history split: if_splits)
next
  case (receipt i ob db res db')
  then show ?case using record_xmr_receipt_history by (auto simp: ledger_inv_all_def)
next
  case (confirm aid now db u db')
  then show ?case unfolding confirm_feed_attempt_def using resolve_history by blast
next
  case (reconcile_fed aid now db u db')
  then show ?case unfolding db_reconcile_unknown_as_fed_def using resolve_history by blast
next
  case (overlay_reset fresh db id' db')
  then show ?case by (auto simp: reset_overlay_stream_def keeps_history_def)
next
  case (overlay_id fresh db id' db')
  then show ?case by (auto simp: overlay_stream_id_def keeps_history_def split: option.splits)
qed (rule step_history, assumption)+

lemma ledger_steps_history: "ledger_steps db db' \<Longrightarrow> ledger_inv_all db \<Longrightarrow> keeps_history db db'"
proof (induction rule: rtranclp_induct)
  case base
  show ?case by (rule keeps_history_refl)
next
  case (step y z)
  then show ?case
    using ledger_steps_all ledger_step_history keeps_history_trans by blast
qed

section \<open>A sample history\<close>

definition sample_payment :: settled_payment where
  "sample_payment =
     \<lparr>pay_source = ''strike'', pay_source_id = ''r1'', pay_payment_hash = None,
      pay_address_user = ''herd'', pay_credit_pool = ''herd'', pay_amount_msat = 21000,
      pay_settled_at = None, pay_context_json = None\<rparr>"

definition no_json :: "string \<Rightarrow> json option" where
  "no_json s = None"

definition paid_db :: ledger_db where
  "paid_db = posted sample_payment empty_db"

lemma sample_valid: "validate_payment no_json sample_payment = Inr ()"
  by (simp add: validate_payment_def sample_payment_def validate_source_def validate_external_id_def
      validate_user_def lightning_address_user_def MAX_USER_LEN_def source_byte_def user_byte_def
      is_ascii_lowercase_def is_ascii_digit_def byte_def)

lemma sample_unseen: "unseen sample_payment empty_db"
  by (simp add: unseen_def empty_db_def)

lemma sample_recorded:
  "record_payment no_json sample_payment empty_db = Inr (Credited 21 ''herd'' ''herd'', paid_db)"
proof -
  have "uint (pay_amount_msat sample_payment) \<le> i64_max"
    "balance empty_db + uint (pay_amount_msat sample_payment div 1000) \<le> i64_max"
    "int (length (event_log empty_db)) < i64_max"
    by (simp_all add: sample_payment_def i64_max_def empty_db_def balance_def)
  with record_payment_new [OF ledger_inv_all_empty sample_unseen sample_valid] show ?thesis
    by (simp add: paid_db_def) (simp add: sample_payment_def)
qed

lemma paid_reachable: "ledger_steps empty_db paid_db"
  by (rule r_into_rtranclp, rule ledger_step.payment [OF sample_recorded])
    (simp add: empty_db_def i64_max_def)

lemma reachable_inv: "ledger_steps empty_db db \<Longrightarrow> ledger_inv_all db"
  by (erule ledger_steps_all [OF _ ledger_inv_all_empty])

section \<open>Properties\<close>

text \<open>C1: A settled payment is credited exactly once. Once \<open>record_payment\<close> has reported a payment
  as credited, the ledger's receipts have grown by exactly its whole sats, and whatever happens
  afterwards (feeds, other payments, XMR receipts, retries by any worker), delivering it again
  reports a duplicate and changes nothing.\<close>

theorem payment_is_credited_once:
  assumes "ledger_steps empty_db db"
    and "record_payment parse_json p db = Inr (Credited sats user pool, db1)"
    and "int (length (event_log db)) < i64_max"
    and "ledger_steps db1 db2"
  shows "record_payment parse_json p db2 = Inr (Duplicate, db2)
    \<and> receipts db1 = receipts db + uint sats \<and> 1000 * uint sats = uint (pay_amount_msat p)"
proof -
  note inv = reachable_inv [OF assms(1)]
  from assms(2) inv assms(3) show ?thesis
  proof (cases rule: record_payment_cases)
    case credited
    let ?row = "settled_of p (next_id sp_id (settled_payments db))"
    note ok = validate_payment_Inr [OF credited(4)]
    note amount = aligned_sats [OF ok(2,3) credited(5)]
    have sats: "sats = pay_amount_msat p div 1000" using credited(1) by simp
    have inv1: "ledger_inv_all db1"
      by (rule record_payment_all [OF assms(2) inv assms(3)])
    have "?row \<in> set (settled_payments db1)" by (simp add: credited(2) posted_tables)
    then have "?row \<in> set (settled_payments db2)"
      using ledger_steps_history [OF assms(4) inv1] by (auto simp: keeps_history_def)
    from record_payment_stored [OF ledger_steps_all [OF assms(4) inv1] credited(4,5) this]
    have "record_payment parse_json p db2 = Inr (Duplicate, db2)"
      by (simp add: settled_of_def settlement_matches_def)
    moreover have "receipts db1 = receipts db + uint sats"
      by (simp add: credited(2) receipts_def posted_tables sats) (simp add: entry_of_def)
    moreover have "1000 * uint sats = uint (pay_amount_msat p)"
      using amount(2,3) mult_div_mod_eq [of 1000 "uint (pay_amount_msat p)"] by (simp only: sats)
    ultimately show ?thesis by blast
  qed simp
qed

theorem payment_is_credited_once_witness:
  "record_payment no_json sample_payment paid_db = Inr (Duplicate, paid_db)
    \<and> receipts paid_db = receipts empty_db + 21"
  using payment_is_credited_once [OF rtranclp.rtrancl_refl sample_recorded _ rtranclp.rtrancl_refl]
  by (simp add: empty_db_def i64_max_def)

text \<open>C6: On any reachable ledger a valid payment has exactly one outcome: a stored settlement
  is a duplicate when every field agrees and a conflict otherwise, a payment hash that belongs to
  another settlement is refused, and a new payment is credited unless the total would leave the
  64-bit range. No constraint of the database can fail.\<close>

theorem record_payment_outcomes:
  assumes "ledger_steps empty_db db" "validate_payment parse_json p = Inr ()"
    and "uint (pay_amount_msat p) \<le> i64_max" "int (length (event_log db)) < i64_max"
  shows "record_payment parse_json p db =
    (case find (\<lambda>r. sp_source r = pay_source p \<and> sp_source_id r = pay_source_id p)
         (settled_payments db) of
       Some row \<Rightarrow>
         if settlement_matches row p (uint (pay_amount_msat p)) then Inr (Duplicate, db)
         else Inl (Payment ConflictingSettlement)
     | None \<Rightarrow>
         if pay_payment_hash p \<noteq> None
            \<and> list_ex (\<lambda>r. sp_payment_hash r = pay_payment_hash p) (settled_payments db)
         then Inl (Payment PaymentHashCollision)
         else if i64_max < balance db + uint (pay_amount_msat p) div 1000
         then Inl (Db SumOverflow)
         else Inr (Credited (pay_amount_msat p div 1000) (pay_address_user p) (pay_credit_pool p),
                posted p db))"
proof -
  note inv = reachable_inv [OF assms(1)]
  note ok = validate_payment_Inr [OF assms(2)]
  note sats = aligned_sats [OF ok(2,3) assms(3)]
  have i: "to_i64 (pay_amount_msat p) = Inr (uint (pay_amount_msat p))"
    "to_i64 (pay_amount_msat p div 1000) = Inr (uint (pay_amount_msat p div 1000))"
    using assms(3) sats by (simp_all add: to_i64_Inr)
  show ?thesis
  proof (cases "find (\<lambda>r. sp_source r = pay_source p \<and> sp_source_id r = pay_source_id p)
      (settled_payments db)")
    case (Some row)
    from find_Some_in [OF Some] record_payment_stored [OF inv assms(2,3), of row] show ?thesis
      by (simp add: Some)
  next
    case None
    show ?thesis
    proof (cases "pay_payment_hash p \<noteq> None
        \<and> (\<exists>r \<in> set (settled_payments db). sp_payment_hash r = pay_payment_hash p)")
      case True
      then show ?thesis
        by (simp add: record_payment_def assms(2) i None list_ex_iff)
    next
      case False
      with None have "unseen p db" by (auto simp: unseen_def)
      from record_payment_new [OF inv this assms(2-4)] False show ?thesis
        by (auto simp: None list_ex_iff sats(3))
    qed
  qed
qed

theorem record_payment_outcomes_witness:
  "record_payment no_json (sample_payment\<lparr>pay_amount_msat := 22000\<rparr>) paid_db
     = Inl (Payment ConflictingSettlement)"
proof -
  have "validate_payment no_json (sample_payment\<lparr>pay_amount_msat := 22000\<rparr>) = Inr ()"
    using sample_valid by (simp add: validate_payment_def sample_payment_def)
  moreover have "settled_payments paid_db = [settled_of sample_payment 1]"
    by (simp add: paid_db_def posted_tables empty_db_def next_id_def)
  moreover have "event_log paid_db = [received_event sample_payment empty_db]"
    by (simp add: paid_db_def posted_tables empty_db_def)
  ultimately show ?thesis
    by (subst record_payment_outcomes [OF paid_reachable])
      (simp_all add: sample_payment_def i64_max_def settled_of_def settlement_matches_def)
qed

text \<open>C4: The books balance in every reachable state: the feed credit is never negative and is
  exactly the sats received minus the sats of confirmed feeds, the sats received are exactly the
  granted credit, at most one feed is unresolved and its cost is covered, and the event log has no
  gap.\<close>

theorem ledger_books_balance:
  assumes "ledger_steps empty_db db"
  shows "feed_credit_sats db = Inr (word_of_int (balance db)) \<and> 0 \<le> balance db
    \<and> balance db = receipts db - confirmed_sats db
    \<and> receipts db = sum_list (map cg_delta_sats (credit_grants db))
    \<and> count_where unresolved (feed_attempts db) \<le> 1
    \<and> list_all (\<lambda>r. \<not> (unresolved r \<and> balance db < fa_threshold_sats r)) (feed_attempts db)
    \<and> map ev_seq (event_log db) = [1..int (length (event_log db))]"
  using reachable_inv [OF assms]
  by (auto simp: ledger_inv_all_def feed_inv_def link_inv_def events_contiguous_def list_all_iff
      feed_credit_sats_def)

theorem ledger_books_balance_witness:
  "feed_credit_sats paid_db = Inr 21"
  using ledger_books_balance [OF paid_reachable]
  by (simp add: paid_db_def posted_tables balance_def entry_of_def sample_payment_def empty_db_def)

section \<open>A sample XMR intent\<close>

definition sample_intent :: xmr_credit_intent where
  "sample_intent =
     \<lparr>xi_id = ''u'', xi_provider = ''bridge'', xi_network = Mainnet, xi_account_scope = ''0'',
      xi_receive_scope = ''sub1'', xi_address_user = ''herd'', xi_credit_pool = ''herd'',
      xi_quote = \<lparr>xq_terms = \<lparr>ct_asset = Xmr, expected_atomic = 3, target_sats = 10\<rparr>,
        xq_rate = \<lparr>sats_per_xmr_numerator = 1, sats_per_xmr_denominator = 1, rate_source = ''k'',
          observed_at = 90\<rparr>, xq_issued_at = 100, xq_expires_at = 200\<rparr>,
      xi_max_credit_sats = 25\<rparr>"

definition sample_observation :: "u64 \<Rightarrow> string \<Rightarrow> xmr_receipt_observation" where
  "sample_observation n key =
     \<lparr>xo_provider = ''bridge'', xo_network = Mainnet, xo_account_scope = ''0'',
      xo_receive_scope = ''sub1'', xo_receipt_key = key,
      xo_amount = \<lparr>am_asset = Xmr, atomic_units = n\<rparr>, xo_first_seen_at = 150,
      xo_unlocked = True, xo_double_spend_seen = False\<rparr>"

definition sample_valuation :: valuation where
  "sample_valuation =
     \<lparr>va_id = xmr_id ''u'', va_asset = Xmr, va_network = ''mainnet'', va_provider = ''bridge'',
      va_account_scope = ''0'', va_receive_scope = ''sub1'', va_address_user = ''herd'',
      va_credit_pool = ''herd'', va_expected_atomic = 3, va_target_sats = 10,
      va_max_credit_sats = 25, va_rate_numerator = Some (show_u64 1),
      va_rate_denominator = Some (show_u64 1), va_rate_source = Some ''k'',
      va_rate_observed_at = Some 90, va_issued_at = Some 100, va_expires_at = Some 200,
      va_policy_version = XMR_POLICY\<rparr>"

definition sample_allocation :: "i64 \<Rightarrow> i64 \<Rightarrow> string option \<Rightarrow> allocation_row" where
  "sample_allocation e c h =
     \<lparr>al_valuation_id = xmr_id ''u'', al_eligible_atomic = e, al_credited_sats = c,
      al_hold_reason = h\<rparr>"

definition intent_db :: ledger_db where
  "intent_db = empty_db\<lparr>credit_valuations := [sample_valuation],
     credit_allocations := [sample_allocation 0 0 None]\<rparr>"

definition held_db :: ledger_db where
  "held_db = empty_db\<lparr>credit_valuations := [sample_valuation],
     credit_allocations := [sample_allocation 0 0 (Some ''provider_inconsistency'')]\<rparr>"

lemma intent_ok: "register_xmr_credit_intent sample_intent empty_db = Inr ((), intent_db)"
  by (simp add: register_xmr_credit_intent_def register_xmr_intent_in_transaction_def
      sample_intent_def nil_uuid_def validate_source_def validate_external_id_def validate_user_def
      lightning_address_user_def MAX_USER_LEN_def source_byte_def user_byte_def
      is_ascii_lowercase_def is_ascii_digit_def byte_def MAX_ACCOUNTING_UNITS_def
      intent_valuation_def Let_def to_i64_def i64_of_u64_def i64_max_def empty_db_def
      insert_valuation_def valuation_check_def intent_db_def sample_valuation_def
      sample_allocation_def)

lemma held_ok: "hold_xmr_credit_intent ''u'' intent_db = Inr ((), held_db)"
  by (simp add: hold_xmr_credit_intent_def intent_db_def sample_allocation_def count_where_def
      set_hold_def update_where_def held_db_def)

lemma sample_update:
  "xmr_update \<lparr>ct_asset = Xmr, expected_atomic = 3, target_sats = 10\<rparr>
     \<lparr>ca_eligible_atomic = 0, ca_credited_sats = 0, ca_hold_reason = None\<rparr> 4 25
   = Some \<lparr>cumulative_eligible = \<lparr>am_asset = Xmr, atomic_units = 4\<rparr>,
       cumulative_credit_sats = 13, delta_sats = 13\<rparr>"
  by (simp add: xmr_update_def checked_add_u64_def MAX_ACCOUNTING_UNITS_def asset_amount_new_def
      assess_update_def cumulative_sats_def checked_mul_u128_def checked_sub_u64_def)

definition granted_db :: ledger_db where
  "granted_db = empty_db\<lparr>credit_valuations := [sample_valuation],
     credit_allocations := [sample_allocation 4 13 None],
     asset_receipts := [\<lparr>ar_id = 1, ar_valuation_id = xmr_id ''u'', ar_receipt_key = ''tx1'',
       ar_amount_atomic = 4, ar_first_seen_at = Some 150, ar_unlocked = True, ar_eligible = True,
       ar_btc_settlement_id = None\<rparr>],
     ledger_entries := [\<lparr>le_id = 1, le_type = HERD_RECEIPT, le_source_key = asset_receipt_key 1,
       le_delta_sats = 13, le_payment_hash = None, le_payment_source = None,
       le_payment_source_id = None, le_address_user = Some ''herd'', le_credit_pool = Some ''herd'',
       le_feed_attempt_id = None\<rparr>],
     event_log := [\<lparr>ev_seq = 1, ev_type = ''payment_received'',
       ev_payload = JObj [(''amount_sats'', JU64 13), (''feed_credit_sats'', JU64 13),
         (''address_user'', JStr ''herd''), (''credit_pool'', JStr ''herd'')]\<rparr>],
     credit_grants := [\<lparr>cg_receipt_id = 1, cg_delta_sats = 13, cg_cumulative_atomic = 4,
       cg_cumulative_sats = 13, cg_ledger_entry_id = Some 1, cg_event_seq = Some 1\<rparr>]\<rparr>"

lemma granted_ok:
  "record_xmr_receipt ''u'' (sample_observation 4 ''tx1'') intent_db
     = Inr (ReceiptRecorded 13 13, granted_db)"
proof -
  let ?a = "\<lparr>ca_eligible_atomic = 0, ca_credited_sats = 0, ca_hold_reason = None\<rparr>"
  let ?r = "\<lparr>ar_id = 1, ar_valuation_id = xmr_id ''u'', ar_receipt_key = ''tx1'',
       ar_amount_atomic = 4, ar_first_seen_at = Some 150, ar_unlocked = True, ar_eligible = True,
       ar_btc_settlement_id = None\<rparr>"
  let ?db = "intent_db\<lparr>asset_receipts := [?r]\<rparr>"
  have "grant_receipt (xmr_id ''u'') sample_valuation ?a 1 (sample_observation 4 ''tx1'') ?db
      = Inr (ReceiptRecorded 13 13, granted_db)"
    using sample_update
    by (simp add: grant_receipt_def sample_valuation_def quoted_xmr_def MAX_ACCOUNTING_UNITS_def
        granted_atomic_def granted_sats_def joined_def intent_db_def empty_db_def amount_of_def
        asset_amount_new_def cumulative_sats_def checked_mul_u128_def sample_observation_def
        post_grant_def feed_credit_in_transaction_def checked_add_u64_def to_i64_def
        i64_of_u64_def i64_max_def insert_ledger_entry_def append_event_eq next_id_def
        insert_grant_def grant_check_def granted_db_def update_where_def sample_allocation_def)
  then show ?thesis
    by (simp add: record_xmr_receipt_def validate_external_id_def sample_observation_def
        to_i64_def i64_of_u64_def i64_max_def intent_db_def sample_valuation_def Let_def
        allocation_in_tx_def sample_allocation_def receipt_conflict_def empty_db_def
        insert_receipt_def next_id_def update_where_def byte_def)
qed

lemma intent_reachable: "ledger_steps empty_db intent_db"
  by (rule r_into_rtranclp) (rule ledger_step.register [OF intent_ok])

lemma granted_reachable: "ledger_steps empty_db granted_db"
  by (rule rtranclp.rtrancl_into_rtrancl [OF intent_reachable]) (rule ledger_step.receipt [OF granted_ok])

lemma held_reachable: "ledger_steps empty_db held_db"
  by (rule rtranclp.rtrancl_into_rtrancl [OF intent_reachable]) (rule ledger_step.hold [OF held_ok])



text \<open>C7: A held intent is frozen. Once an allocation carries a hold (a conflicting or regressed
  receipt, a double spend, an inconsistent provider), no later operation of any component changes
  it, its first reason included, and every further observation for that intent is filed as held
  without a ledger entry or a grant.\<close>

theorem held_intents_are_frozen:
  assumes "ledger_steps empty_db db"
    and "a \<in> set (credit_allocations db)" "al_valuation_id a = xmr_id u" "al_hold_reason a = Some h"
    and "ledger_steps db db2"
  shows "a \<in> set (credit_allocations db2)
    \<and> (case record_xmr_receipt u ob db2 of
         Inl e \<Rightarrow> True
       | Inr (out, db3) \<Rightarrow> out = ReceiptHeld \<and> ledger_entries db3 = ledger_entries db2
           \<and> credit_grants db3 = credit_grants db2)"
proof -
  note inv = reachable_inv [OF assms(1)]
  have a: "a \<in> set (credit_allocations db2)"
    using ledger_steps_history [OF assms(5) inv] assms(2,4) by (auto simp: keeps_history_def)
  have "grant_inv db2" using ledger_steps_all [OF assms(5) inv] by (simp add: ledger_inv_all_def)
  from held_receipt_not_credited [OF _ this a assms(3)] assms(4) a show ?thesis
    by (cases "record_xmr_receipt u ob db2") auto
qed

theorem held_intents_are_frozen_witness:
  "sample_allocation 0 0 (Some ''provider_inconsistency'') \<in> set (credit_allocations held_db)
    \<and> (case record_xmr_receipt ''u'' (sample_observation 4 ''tx1'') held_db of
         Inl e \<Rightarrow> True | Inr (out, db3) \<Rightarrow> out = ReceiptHeld \<and> credit_grants db3 = [])"
proof -
  have a: "sample_allocation 0 0 (Some ''provider_inconsistency'') \<in> set (credit_allocations held_db)"
    "al_valuation_id (sample_allocation 0 0 (Some ''provider_inconsistency'')) = xmr_id ''u''"
    "al_hold_reason (sample_allocation 0 0 (Some ''provider_inconsistency''))
       = Some ''provider_inconsistency''"
    by (simp_all add: held_db_def sample_allocation_def)
  have "credit_grants held_db = []" by (simp add: held_db_def empty_db_def)
  with held_intents_are_frozen [OF held_reachable a rtranclp.rtrancl_refl,
      where ob = "sample_observation 4 ''tx1''"] show ?thesis
    by (auto split: sum.splits)
qed

end
