(* ===== verification/Feeder_Properties.thy ===== *)
theory Feeder_Properties
  imports Feeder Ledger_Properties
begin

text \<open>
  What the feeder worker, the gateway and the ledger guarantee together, for any interleaving of
  worker steps, restarts and other ledger transactions and over a network that loses requests and
  replies: every physical command is paid for by received sats, a command is sent only when it is
  safe, and a feed is debited once.
\<close>

section \<open>Paid commands\<close>

lemma commanded_sats_paid:
  assumes "feed_inv db"
  shows "sum_list (map fa_threshold_sats
      (filter (\<lambda>r. fa_status r = St_confirmed \<or> unresolved r) (feed_attempts db))) \<le> receipts db"
proof -
  have split: "sum_list (map fa_threshold_sats
      (filter (\<lambda>r. fa_status r = St_confirmed \<or> unresolved r) rs))
    = sum_list (map fa_threshold_sats (filter (\<lambda>r. fa_status r = St_confirmed) rs))
      + sum_list (map fa_threshold_sats (filter unresolved rs))" for rs
    by (induction rs) (auto simp: unresolved_def)
  have "length (filter unresolved (feed_attempts db)) \<le> 1"
    using assms by (simp add: feed_inv_def count_where_def)
  moreover have "fa_threshold_sats r \<le> balance db"
    if "r \<in> set (filter unresolved (feed_attempts db))" for r
    proof -
    have "\<forall>r \<in> set (feed_attempts db). unresolved r \<longrightarrow> fa_threshold_sats r \<le> balance db"
      using assms unfolding feed_inv_def by blast
    with that show ?thesis by simp
  qed
  moreover have "0 \<le> balance db" using assms by (simp add: feed_inv_def)
  ultimately have "sum_list (map fa_threshold_sats (filter unresolved (feed_attempts db))) \<le> balance db"
    by (cases "filter unresolved (feed_attempts db)") auto
  moreover have "balance db = receipts db - confirmed_sats db"
    using assms by (simp add: feed_inv_def)
  ultimately show ?thesis by (simp add: split confirmed_sats_def)
qed

lemma sum_filter_le:
  assumes "\<And>r. r \<in> set rs \<Longrightarrow> 0 \<le> (f r :: int)" "\<And>r. r \<in> set rs \<Longrightarrow> p r \<Longrightarrow> q r"
  shows "sum_list (map f (filter p rs)) \<le> sum_list (map f (filter q rs))"
  using assms
proof (induction rs)
  case (Cons r rs)
  from Cons.prems have "0 \<le> f r" "p r \<Longrightarrow> q r" by simp_all
  then show ?case using Cons by force
qed simp

lemma daemon_run_state:
  assumes "run (daemon_step (call_post c) call_get) (db0, gateway_init) tr (db, g)"
    and "ledger_inv_all db0" "feed_attempts db0 = []"
  shows "ledger_inv_all db \<and> gateway.linked db g \<and> gateway_inv g"
proof -
  have "gateway.linked db0 gateway_init"
    using assms(3) by (simp add: gateway.linked_def gateway_init_def)
  from gateway.daemon_run_linked [OF assms(1) refl assms(2) this gateway_init_inv]
  show ?thesis by simp
qed

section \<open>A sample feed\<close>

text \<open>On a ledger that has received 21 sats, a step at a threshold of 20 feeds once.\<close>

definition sample_network :: network_env where
  "sample_network = \<lparr>ne_server = sample_env, ne_delivered = True, ne_returned = True\<rparr>"

definition sample_switches :: feeder_safety where
  "sample_switches = \<lparr>override_enabled = False, remote_enabled = True\<rparr>"

lemma paid_db_facts:
  "feed_inv paid_db" "feed_attempts paid_db = []" "balance paid_db = 21"
  "feed_credit_sats paid_db = Inr 21" "unresolved_feed_attempt paid_db = Inr None"
  "feeder_resume_after paid_db = 0"
proof -
  show inv: "feed_inv paid_db" using reachable_inv [OF paid_reachable] by (simp add: ledger_inv_all_def)
  show at: "feed_attempts paid_db = []" by (simp add: paid_db_def posted_tables empty_db_def)
  show "feeder_resume_after paid_db = 0"
    by (simp add: paid_db_def posted_def logged_def Let_def empty_db_def)
  show b: "balance paid_db = 21"
    by (simp add: paid_db_def posted_tables balance_def entry_of_def sample_payment_def empty_db_def)
  show "feed_credit_sats paid_db = Inr 21"
    using feed_inv_credit(1) [OF inv] b
    by (simp add: feed_credit_sats_def feed_credit_in_transaction_def)
  show "unresolved_feed_attempt paid_db = Inr None" by (simp add: unresolved_feed_attempt_def at)
qed

lemma sample_fed:
  obtains db' g' where "run_feed_step (call_get sample_network) (Inr sample_switches)
      (call_post sample_config sample_network) 20 Canary 1000 ''a'' paid_db gateway_init
      = ((Inr (Step_Fed ''a'' 1), db'), g')"
    and "gw_commands g' = [''a'']"
proof -
  obtain g' where g': "feed_request sample_config sample_env ''a'' gateway_init
     = Some (outcome_response 200 ''a'' Outcome_Confirmed, g')" "gw_commands g' = [''a'']"
    using sample_post by blast
  let ?s = "\<lparr>frs_request_id = ''a'', frs_status = Outcome_Confirmed, frs_refusal = None\<rparr>"
  have post: "call_post sample_config sample_network ''a'' gateway_init = (Inr ?s, g')"
    by (simp add: call_post_def sample_network_def g'(1) client_answer_def outcome_response_def)
  define row where "row = \<lparr>fa_id = ''a'', fa_status = St_intent_committed, fa_threshold_sats = 20,
    fa_resolved_at = None, fa_error = None\<rparr>"
  define db1 where "db1 = paid_db\<lparr>feed_attempts := [row]\<rparr>"
  have started: "begin_feed_attempt 20 1000 ''a'' paid_db = Inr (Some ''a'', db1)"
    using paid_db_facts
    by (simp add: begin_feed_attempt_Inr [OF paid_db_facts(1)] i64_max_def db1_def row_def)
  have inv1: "feed_inv db1" by (rule begin_feed_attempt_inv [OF started paid_db_facts(1)])
  obtain xs ys where c: "resolve_as_fed (fa_id row) St_intent_committed 1000 db1
      = Inr ((), fed_db row xs ys 1000 db1)"
    by (rule resolve_as_fed_ok [OF inv1, of row]) (auto simp: db1_def row_def)
  define db2 where "db2 = fed_db row xs ys 1000 db1"
  have conf: "confirm_feed_attempt ''a'' 1000 db1 = Inr ((), db2)"
    using c by (simp add: confirm_feed_attempt_def db2_def row_def)
  have inv2: "feed_inv db2"
    using conf inv1 by (auto simp: confirm_feed_attempt_def intro: resolve_as_fed_inv)
  have "balance db2 = 1"
    using paid_db_facts(3) by (simp add: db2_def fed_db_def db1_def row_def balance_def)
  then have credit: "feed_credit_sats db2 = Inr 1"
    using feed_inv_credit(1) [OF inv2]
    by (simp add: feed_credit_sats_def feed_credit_in_transaction_def)
  have "apply_outcome ''a'' Stored_IntentCommitted ?s 1000 db1 = (Inr (Step_Fed ''a'' 1), db2)"
    by (simp add: apply_outcome_def validate_status_def committed_def conf credit)
  then have "run_feed_step (call_get sample_network) (Inr sample_switches)
      (call_post sample_config sample_network) 20 Canary 1000 ''a'' paid_db gateway_init
      = ((Inr (Step_Fed ''a'' 1), db2), g')"
    by (simp add: run_feed_step_def paid_db_facts started post feeder_enabled_def sample_switches_def
        Let_def)
  then show thesis using that g'(2) by blast
qed

section \<open>Properties\<close>



text \<open>
  C17: The worker commands nothing that is not allowed. Whenever a step makes the gateway send a
  command, the mode enables feeding, the gateway has just reported the override off and remote
  feeding on, no attempt was unresolved, no cooldown was running, the ledger's credit covered the
  threshold, and the command is the single one for the attempt this step has opened.
\<close>
theorem worker_commands_only_when_safe:
  assumes "run_feed_step (call_get ev) safety (call_post c ev') threshold mode now fresh db g
      = ((r, db'), g')"
    and "feed_inv db" "gateway_inv g" "gw_commands g' \<noteq> gw_commands g"
  shows "feeder_enabled mode \<and> (\<exists>s. safety = Inr s \<and> \<not> override_enabled s \<and> remote_enabled s)
    \<and> find unresolved (feed_attempts db) = None \<and> feeder_resume_after db \<le> now
    \<and> uint threshold \<le> balance db \<and> gw_commands g' = gw_commands g @ [fresh]"
proof -
  have nz: "threshold \<noteq> 0" using assms(1,4) by (auto simp: run_feed_step_def)
  have un: "unresolved_feed_attempt db = Inr None"
  proof (rule ccontr)
    assume "unresolved_feed_attempt db \<noteq> Inr None"
    then have "g' = g \<or> (\<exists>i q. call_get ev i g = (q, g'))"
      using assms(1) nz
      by (auto simp: run_feed_step_def split: sum.splits option.splits prod.splits)
    then show False using gateway.get_commands [OF assms(3)] assms(4) by blast
  qed
  from assms(1,4) nz un obtain s aid db1 q where
    s: "feeder_enabled mode" "safety = Inr s" "\<not> override_enabled s" "remote_enabled s"
    and b: "begin_feed_attempt threshold now fresh db = Inr (Some aid, db1)"
    and q: "call_post c ev' aid g = (q, g')"
    by (auto simp: run_feed_step_def Let_def split: sum.splits option.splits prod.splits if_splits)
  from b assms(2) have "aid = fresh" "find unresolved (feed_attempts db) = None"
    "feeder_resume_after db \<le> now" "uint threshold \<le> balance db"
    by (auto simp: begin_feed_attempt_Inr split: if_splits)
  then show ?thesis
    using s gateway.post_commands [OF assms(3) q] assms(4) by auto
qed

theorem worker_commands_only_when_safe_witness:
  "feeder_enabled Canary \<and> (20 :: int) \<le> balance paid_db \<and> feeder_resume_after paid_db \<le> 1000"
proof (rule sample_fed)
  fix db g
  assume f: "run_feed_step (call_get sample_network) (Inr sample_switches)
      (call_post sample_config sample_network) 20 Canary 1000 ''a'' paid_db gateway_init
      = ((Inr (Step_Fed ''a'' 1), db), g)" and c: "gw_commands g = [''a'']"
  from worker_commands_only_when_safe [OF f paid_db_facts(1) gateway_init_inv] c show ?thesis
    by (simp add: gateway_init_def)
qed

text \<open>
  C18: A reported feed is exactly one debit. When a step reports \<open>Fed\<close>, the gateway has answered
  \<open>confirmed\<close> for that attempt, the attempt is now confirmed, the credit fell by exactly its
  threshold and by nothing else, and the remaining credit in the report is the new balance.
\<close>
theorem fed_step_debits_once:
  assumes "run_feed_step get_status safety post threshold mode now fresh db g
      = ((Inr (Step_Fed aid credit), db'), g')"
    and "feed_inv db"
  shows "(\<exists>r \<in> set (feed_attempts db'). fa_id r = aid \<and> fa_status r = St_confirmed
      \<and> balance db' = balance db - fa_threshold_sats r)
    \<and> uint credit = balance db' \<and> receipts db' = receipts db
    \<and> (\<exists>s. frs_status s = Outcome_Confirmed \<and> frs_request_id s = aid
        \<and> (get_status aid g = (Inr s, g') \<or> post aid g = (Inr s, g')))"
proof -
  have out: "\<exists>r \<in> set (feed_attempts db2). fa_id r = aid \<and> fa_status r = St_confirmed
      \<and> balance db2 = balance db1 - fa_threshold_sats r \<and> uint credit = balance db2
      \<and> receipts db2 = receipts db1 \<and> frs_status s = Outcome_Confirmed \<and> frs_request_id s = i \<and> i = aid"
    if a: "apply_outcome i st s now db1 = (Inr (Step_Fed aid credit), db2)" and inv: "feed_inv db1"
    for i st s db1 db2
  proof -
    from a have id: "frs_request_id s = i" "i = aid" "frs_status s = Outcome_Confirmed"
      by (auto simp: apply_outcome_def committed_def validate_status_def
          split: sum.splits feed_outcome.splits option.splits stored_attempt_status.splits if_splits)
    from a obtain u est where res: "resolve_as_fed i est now db1 = Inr (u, db2)"
      "est = St_intent_committed \<or> est = St_unknown" and credit: "feed_credit_sats db2 = Inr credit"
      by (cases st)
        (auto simp: apply_outcome_def committed_def confirm_feed_attempt_def
          db_reconcile_unknown_as_fed_def
          split: sum.splits feed_outcome.splits option.splits if_splits)
    have inv2: "feed_inv db2" by (rule resolve_as_fed_inv [OF res(1) inv res(2)])
    have "uint credit = balance db2"
      using credit feed_inv_credit(1,2) [OF inv2]
      by (simp add: feed_credit_sats_def feed_credit_in_transaction_def)
    moreover have "\<exists>r \<in> set (feed_attempts db2). fa_id r = aid \<and> fa_status r = St_confirmed
      \<and> balance db2 = balance db1 - fa_threshold_sats r \<and> receipts db2 = receipts db1"
      by (rule resolve_as_fed_Inr [OF res(1) inv res(2)])
        (auto simp: id fed_db_def receipts_def balance_def)
    ultimately show ?thesis using id by auto
  qed
  have nz: "threshold \<noteq> 0" using assms(1) by (auto simp: run_feed_step_def)
  from assms(1) nz consider
    (polled) i st s where "apply_outcome i st s now db = (Inr (Step_Fed aid credit), db')"
      "get_status i g = (Inr s, g')"
  | (started) i db1 s where "begin_feed_attempt threshold now fresh db = Inr (Some i, db1)"
      "post i g = (Inr s, g')"
      "apply_outcome i Stored_IntentCommitted s now db1 = (Inr (Step_Fed aid credit), db')"
    by (auto simp: run_feed_step_def Let_def committed_def
        split: sum.splits option.splits prod.splits if_splits)
  then show ?thesis
  proof cases
    case polled
    then show ?thesis using out [OF polled(1) assms(2)] by auto
  next
    case started
    have "feed_inv db1" by (rule begin_feed_attempt_inv [OF started(1) assms(2)])
    moreover have "balance db1 = balance db" "receipts db1 = receipts db"
      using started(1) assms(2)
      by (auto simp: begin_feed_attempt_Inr balance_def receipts_def split: if_splits)
    ultimately show ?thesis using out [OF started(3)] started(2) by auto
  qed
qed

theorem fed_step_debits_once_witness:
  "\<exists>db' g'. run_feed_step (call_get sample_network) (Inr sample_switches)
      (call_post sample_config sample_network) 20 Canary 1000 ''a'' paid_db gateway_init
      = ((Inr (Step_Fed ''a'' 1), db'), g') \<and> balance db' = 1"
proof (rule sample_fed)
  fix db g
  assume f: "run_feed_step (call_get sample_network) (Inr sample_switches)
      (call_post sample_config sample_network) 20 Canary 1000 ''a'' paid_db gateway_init
      = ((Inr (Step_Fed ''a'' 1), db), g)"
  from fed_step_debits_once [OF f paid_db_facts(1)] f show ?thesis by auto
qed

end
