(* ===== verification/Rate_Oracle.thy ===== *)
theory Rate_Oracle
  imports Complex_Main Quote_Domain Gateway_Client
begin

text \<open>
  The Kraken rate oracle, \<open>src/src/quotes/oracle.rs\<close>: bounded decimals as exact reduced fractions,
  the euclidean loop in \<open>u128\<close>, and the choice of the newest nonempty closed one-minute candle from a
  response. serde_json is the parameters \<open>parse_envelope\<close> and \<open>parse_value\<close>; the network is a
  response that has arrived. The lemmas show that the arithmetic is exact and never wraps.
\<close>

section \<open>Decimals\<close>

datatype oracle_error =
    DecimalLength
  | DecimalSyntax
  | DecimalOverflow
  | ZeroPrice
  | RateTooLarge
  | Oracle_Rate credit_error
  | Oracle_Evidence service_error
  | ResponseBounds
  | UnexpectedSchema
  | NoUsableCandles
  | CandleChronology
  | CandleVolume
  | CandleNotClosed
  | CandlePrices
  | NoClosedCandle
  | ProviderStatus
  | ProviderContentType
  | ProviderBody
  | ProviderEncoding

text \<open>\<open>value.split_once('.').unwrap_or((value, ""))\<close>.\<close>

definition split_once_dot :: "string \<Rightarrow> string \<times> string" where
  "split_once_dot s = (takeWhile (\<lambda>c. c \<noteq> CHR ''.'') s, drop 1 (dropWhile (\<lambda>c. c \<noteq> CHR ''.'') s))"

definition checked_add_u128 :: "u128 \<Rightarrow> u128 \<Rightarrow> u128 option" where
  "checked_add_u128 a b = (if unat a + unat b < 2 ^ 128 then Some (a + b) else None)"

fun accumulate :: "u128 \<Rightarrow> string \<Rightarrow> u128 option" where
  "accumulate n [] = Some n"
| "accumulate n (b # bs) =
     (case checked_mul_u128 n 10 of
        None \<Rightarrow> None
      | Some m \<Rightarrow> (case checked_add_u128 m (of_nat (byte b - 48)) of
          None \<Rightarrow> None
        | Some k \<Rightarrow> accumulate k bs))"

function gcd_u128 :: "u128 \<Rightarrow> u128 \<Rightarrow> u128" where
  "gcd_u128 a b = (if b \<noteq> 0 then gcd_u128 b (a mod b) else a)"
  by pat_completeness auto
termination
proof (relation "measure (\<lambda>(a, b). unat b)")
  fix a b :: u128
  assume "b \<noteq> 0"
  then have "a mod b < b" by (simp add: word_mod_less_divisor word_neq_0_conv)
  then show "((b, a mod b), (a, b)) \<in> measure (\<lambda>(a, b). unat b)" by (simp add: word_less_nat_alt)
qed simp

declare gcd_u128.simps [simp del]

text \<open>\<open>u64::try_from(u128)\<close>.\<close>

definition u64_of_u128 :: "u128 \<Rightarrow> u64 option" where
  "u64_of_u128 w = (if unat w < 2 ^ 64 then Some (ucast w) else None)"

definition decimal :: "string \<Rightarrow> oracle_error + u64 \<times> u64" where
  "decimal v =
     (if v = [] \<or> length v > 48 then Inl DecimalLength
      else case split_once_dot v of (whole, fraction) \<Rightarrow>
        if whole = [] \<or> length whole > 20 \<or> (CHR ''.'' \<in> set v \<and> fraction = [])
           \<or> length fraction > 18 \<or> \<not> list_all is_ascii_digit (whole @ fraction)
        then Inl DecimalSyntax
        else andthen (ok_or DecimalOverflow (accumulate 0 (whole @ fraction))) (\<lambda>n.
          let d = 10 ^ length fraction; g = gcd_u128 n d in
          andthen (ok_or DecimalOverflow (u64_of_u128 (n div g))) (\<lambda>a.
          andthen (ok_or DecimalOverflow (u64_of_u128 (d div g))) (\<lambda>b. Inr (a, b)))))"

datatype ordering = Less | Equal | Greater

definition rate_cmp :: "u64 \<times> u64 \<Rightarrow> u64 \<times> u64 \<Rightarrow> ordering" where
  "rate_cmp a b =
     (let x = widen (fst a) * widen (snd b); y = widen (fst b) * widen (snd a) in
      if x < y then Less else if x = y then Equal else Greater)"

definition btc_per_xmr_decimal_rate :: "string \<Rightarrow> string \<Rightarrow> i64 \<Rightarrow> oracle_error + xmr_btc_rate" where
  "btc_per_xmr_decimal_rate price source observed =
     andthen (decimal price) (\<lambda>(n, d).
     if n = 0 then Inl ZeroPrice
     else let n2 = widen n * widen SATS_PER_BTC; g = gcd_u128 n2 (widen d) in
       andthen (ok_or RateTooLarge (u64_of_u128 (n2 div g))) (\<lambda>num.
       andthen (ok_or RateTooLarge (u64_of_u128 (widen d div g))) (\<lambda>den.
         map_err Oracle_Rate (xmr_btc_rate_new num den source observed))))"

section \<open>Candles\<close>

record candle =
  cd_start :: i64
  cd_open :: string
  cd_high :: string
  cd_low :: string
  cd_close :: string
  cd_vwap :: string
  cd_volume :: string
  cd_count :: u64

record envelope =
  env_error :: "string list"
  env_candles :: "candle list"
  env_last :: i64

definition KRAKEN_SOURCE :: string where
  "KRAKEN_SOURCE = ''kraken-xmrbtc-closed-vwap-v1''"

text \<open>The chronology loop, with the previous start.\<close>

fun chronology_ok :: "i64 \<Rightarrow> i64 option \<Rightarrow> candle list \<Rightarrow> bool" where
  "chronology_ok fetched prev [] \<longleftrightarrow> True"
| "chronology_ok fetched prev (c # cs) \<longleftrightarrow>
     \<not> (cd_start c < 0 \<or> cd_start c mod 60 \<noteq> 0 \<or> cd_start c > fetched
        \<or> (case prev of Some p \<Rightarrow> p \<ge> cd_start c | None \<Rightarrow> False))
     \<and> chronology_ok fetched (Some (cd_start c)) cs"

text \<open>The checks of a nonempty candle and its rate.\<close>

definition use_candle ::
  "(string \<Rightarrow> 'j option) \<Rightarrow> string \<Rightarrow> i64 \<Rightarrow> candle \<Rightarrow> oracle_error + rate_evidence" where
  "use_candle parse_value raw fetched c =
     (if (case checked_add_i64 (cd_start c) 60 of None \<Rightarrow> True | Some e \<Rightarrow> e > fetched)
      then Inl CandleNotClosed
      else andthen (decimal (cd_open c)) (\<lambda>opening.
      andthen (decimal (cd_high c)) (\<lambda>high.
      andthen (decimal (cd_low c)) (\<lambda>low.
      andthen (decimal (cd_close c)) (\<lambda>close.
      andthen (decimal (cd_vwap c)) (\<lambda>vwap.
      if fst low = 0 \<or> rate_cmp low high = Greater
         \<or> list_ex (\<lambda>p. rate_cmp p low = Less \<or> rate_cmp p high = Greater) [opening, close, vwap]
      then Inl CandlePrices
      else andthen (btc_per_xmr_decimal_rate (cd_vwap c) KRAKEN_SOURCE (cd_start c)) (\<lambda>rate.
        map_err Oracle_Evidence (rate_evidence_new parse_value rate fetched raw))))))))"

fun newest_closed ::
  "(string \<Rightarrow> 'j option) \<Rightarrow> string \<Rightarrow> i64 \<Rightarrow> candle list \<Rightarrow> oracle_error + rate_evidence" where
  "newest_closed parse_value raw fetched [] = Inl NoClosedCandle"
| "newest_closed parse_value raw fetched (c # cs) =
     andthen (decimal (cd_volume c)) (\<lambda>volume.
     if cd_count c = 0 \<and> fst volume = 0 then newest_closed parse_value raw fetched cs
     else if cd_count c = 0 \<or> fst volume = 0 then Inl CandleVolume
     else use_candle parse_value raw fetched c)"

definition parse_kraken_ohlc ::
  "(string \<Rightarrow> envelope option) \<Rightarrow> (string \<Rightarrow> 'j option) \<Rightarrow> string \<Rightarrow> i64
     \<Rightarrow> oracle_error + rate_evidence" where
  "parse_kraken_ohlc parse_envelope parse_value raw_json fetched_at =
     (if length raw_json > MAX_RATE_EVIDENCE_BYTES \<or> fetched_at < 0 then Inl ResponseBounds
      else andthen (ok_or UnexpectedSchema (parse_envelope raw_json)) (\<lambda>r.
        if env_error r \<noteq> [] \<or> env_last r < 0 \<or> length (env_candles r) < 2
           \<or> length (env_candles r) > 720
        then Inl NoUsableCandles
        else if \<not> chronology_ok fetched_at None (env_candles r) then Inl CandleChronology
        else newest_closed parse_value raw_json fetched_at (rev (butlast (env_candles r)))))"

section \<open>The response\<close>

text \<open>\<open>String::from_utf8\<close>: well-formed UTF-8, without overlong forms and surrogates.\<close>

definition cont :: "char \<Rightarrow> bool" where
  "cont c \<longleftrightarrow> 128 \<le> byte c \<and> byte c \<le> 191"

fun valid_utf8 :: "string \<Rightarrow> bool" where
  "valid_utf8 [] = True"
| "valid_utf8 (a # r) =
     (let x = byte a in
      if x < 128 then valid_utf8 r
      else if 194 \<le> x \<and> x \<le> 223 then
        (case r of b # r1 \<Rightarrow> cont b \<and> valid_utf8 r1 | _ \<Rightarrow> False)
      else if 224 \<le> x \<and> x \<le> 239 then
        (case r of b # c # r2 \<Rightarrow> cont b \<and> cont c \<and> (x = 224 \<longrightarrow> 160 \<le> byte b)
           \<and> (x = 237 \<longrightarrow> byte b \<le> 159) \<and> valid_utf8 r2 | _ \<Rightarrow> False)
      else if 240 \<le> x \<and> x \<le> 244 then
        (case r of b # c # d # r3 \<Rightarrow> cont b \<and> cont c \<and> cont d \<and> (x = 240 \<longrightarrow> 144 \<le> byte b)
           \<and> (x = 244 \<longrightarrow> byte b \<le> 143) \<and> valid_utf8 r3 | _ \<Rightarrow> False)
      else False)"

text \<open>A header value that is a \<open>str\<close> is visible ASCII, spaces and tabs.\<close>

definition is_blank :: "char \<Rightarrow> bool" where
  "is_blank c \<longleftrightarrow> c = CHR '' '' \<or> byte c = 9"

definition trim_blanks :: "string \<Rightarrow> string" where
  "trim_blanks s = rev (dropWhile is_blank (rev (dropWhile is_blank s)))"

text \<open>\<open>KrakenOhlcOracle::request\<close> once the response is there.\<close>

definition oracle_response ::
  "(string \<Rightarrow> envelope option) \<Rightarrow> (string \<Rightarrow> 'j option) \<Rightarrow> http_response \<Rightarrow> string option \<Rightarrow> i64
     \<Rightarrow> oracle_error + rate_evidence" where
  "oracle_response parse_envelope parse_value response content_type now =
     (if hr_status response \<noteq> 200 then Inl ProviderStatus
      else let ct = (case content_type of None \<Rightarrow> [] | Some h \<Rightarrow> h) in
      if \<not> eq_ignore_ascii_case (trim_blanks (takeWhile (\<lambda>c. c \<noteq> CHR '';'') ct)) ''application/json''
      then Inl ProviderContentType
      else andthen (map_err (\<lambda>_. ProviderBody) (bounded_body MAX_RATE_EVIDENCE_BYTES response)) (\<lambda>bytes.
        if \<not> valid_utf8 bytes then Inl ProviderEncoding
        else parse_kraken_ohlc parse_envelope parse_value bytes now))"

section \<open>The arithmetic is exact\<close>

lemma gcd_u128_unat: "unat (gcd_u128 a b) = gcd (unat a) (unat b)"
proof (induction a b rule: gcd_u128.induct)
  case (1 a b)
  show ?case
  proof (cases "b = 0")
    case True
    then show ?thesis by (subst gcd_u128.simps) simp
  next
    case False
    with 1 have "unat (gcd_u128 b (a mod b)) = gcd (unat b) (unat a mod unat b)"
      by (simp add: unat_mod_distrib)
    then show ?thesis using False by (subst gcd_u128.simps) (simp add: gcd_red_nat [symmetric] gcd.commute)
  qed
qed


lemma foldl_digits: "foldl (\<lambda>v c. 10 * v + digit_value c) a s = a * 10 ^ length s + digits_value s"
proof (induction s arbitrary: a)
  case Nil
  then show ?case by (simp add: digits_value_def)
next
  case (Cons c s)
  from Cons [of "10 * a + digit_value c"] Cons [of "digit_value c"] show ?case
    by (simp add: digits_value_def algebra_simps)
qed

lemma digits_value_Cons: "digits_value (c # s) = digit_value c * 10 ^ length s + digits_value s"
  using foldl_digits [of "digit_value c" s] by (simp add: digits_value_def)

lemma digit_value_le: "is_ascii_digit c \<Longrightarrow> digit_value c \<le> 9"
  by (auto simp: is_ascii_digit_def digit_value_def)

lemma accumulate_exact:
  assumes "list_all is_ascii_digit s" "(unat n + 1) * 10 ^ length s < 2 ^ 128"
  shows "\<exists>k. accumulate n s = Some k \<and> unat k = unat n * 10 ^ length s + digits_value s"
  using assms
proof (induction n s rule: accumulate.induct)
  case (1 n)
  then show ?case by (simp add: digits_value_def)
next
  case (2 n c cs)
  let ?d = "byte c - 48"
  have d: "?d \<le> 9" using 2(2) by (auto simp: is_ascii_digit_def)
  have "10 * unat n + 10 \<le> (10 * unat n + 10) * 10 ^ length cs" by simp
  also have "\<dots> = (unat n + 1) * 10 ^ length (c # cs)" by (simp add: algebra_simps)
  finally have fits: "10 * unat n + 10 < 2 ^ 128" using 2(3) by (rule le_less_trans)
  have m: "checked_mul_u128 n 10 = Some (n * 10)" "unat (n * 10) = unat n * 10"
    using fits by (simp_all add: checked_mul_u128_def unat_word_ariths)
  have du: "unat (of_nat ?d :: u128) = ?d" using d by (simp add: unat_of_nat)
  have k: "checked_add_u128 (n * 10) (of_nat ?d) = Some (n * 10 + of_nat ?d)"
    "unat (n * 10 + of_nat ?d) = unat n * 10 + ?d"
    using fits d m(2) du by (simp_all add: checked_add_u128_def unat_word_ariths)
  have "(unat (n * 10 + of_nat ?d) + 1) * 10 ^ length cs \<le> (10 * unat n + 10) * 10 ^ length cs"
    using k(2) d by (intro mult_le_mono1) simp
  also have "\<dots> < 2 ^ 128" using 2(3) by (simp add: algebra_simps)
  finally have "\<exists>j. accumulate (n * 10 + of_nat ?d) cs = Some j
      \<and> unat j = unat (n * 10 + of_nat ?d) * 10 ^ length cs + digits_value cs"
    using 2(1) [OF m(1) k(1)] 2(2) by simp
  then show ?case
    using m k by (auto simp: digits_value_Cons digit_value_def algebra_simps)
qed

lemma unat_u64_of_u128: "u64_of_u128 w = Some x \<Longrightarrow> unat x = unat w"
  by (auto simp: u64_of_u128_def unat_ucast_128_64 split: if_splits)

lemma unat_10_power: "k \<le> 18 \<Longrightarrow> unat ((10 :: u128) ^ k) = 10 ^ k"
proof -
  assume "k \<le> 18"
  then have "(10 :: nat) ^ k \<le> 10 ^ 18" by (intro power_increasing) auto
  then have "(10 :: nat) ^ k < 2 ^ 128" by simp
  then have "unat (of_nat (10 ^ k) :: u128) = 10 ^ k" by (simp only: unat_of_nat) simp
  then show ?thesis by simp
qed

text \<open>The reduced fraction of a sum that fits: dividing both sides by their gcd.\<close>

lemma reduced_fraction:
  fixes n d :: nat
  assumes "0 < d"
  shows "n div gcd n d * d = n * (d div gcd n d)" and "coprime (n div gcd n d) (d div gcd n d)"
    and "0 < d div gcd n d"
proof -
  have "gcd n d dvd n" "gcd n d dvd d" by auto
  then show "n div gcd n d * d = n * (d div gcd n d)"
    by (metis dvd_div_mult dvd_mult_div_cancel mult.commute div_mult_swap)
  show "coprime (n div gcd n d) (d div gcd n d)" using assms by (intro div_gcd_coprime) auto
  show "0 < d div gcd n d" using assms by (simp add: div_greater_zero_iff gcd_le2_nat)
qed

text \<open>What a decimal stands for: the number of its digits over the power of ten of its
  fraction.\<close>

definition scaled_digits :: "string \<Rightarrow> nat" where
  "scaled_digits v = (case split_once_dot v of (whole, fraction) \<Rightarrow> digits_value (whole @ fraction))"

definition fraction_digits :: "string \<Rightarrow> nat" where
  "fraction_digits v = length (snd (split_once_dot v))"

lemma decimal_exact:
  assumes "decimal v = Inr (n, d)"
  shows "unat n * 10 ^ fraction_digits v = scaled_digits v * unat d"
    and "coprime (unat n) (unat d)" and "0 < unat d" and "fraction_digits v \<le> 18"
proof -
  obtain whole fraction where s: "split_once_dot v = (whole, fraction)" by fastforce
  from assms s have len: "length whole \<le> 20" "length fraction \<le> 18"
    and dig: "list_all is_ascii_digit (whole @ fraction)"
    by (auto simp: decimal_def split: if_splits)
  have "(10 :: nat) ^ length (whole @ fraction) \<le> 10 ^ 38"
    using len by (intro power_increasing) auto
  then have "(unat (0 :: u128) + 1) * 10 ^ length (whole @ fraction) < 2 ^ 128" by simp
  from accumulate_exact [OF dig this] obtain k where
    k: "accumulate 0 (whole @ fraction) = Some k" "unat k = digits_value (whole @ fraction)" by auto
  let ?D = "10 ^ length fraction :: u128"
  let ?g = "gcd_u128 k ?D"
  have uD: "unat ?D = 10 ^ length fraction" by (rule unat_10_power [OF len(2)])
  have g: "unat ?g = gcd (unat k) (unat ?D)" by (rule gcd_u128_unat)
  from assms s k have "u64_of_u128 (k div ?g) = Some n" "u64_of_u128 (?D div ?g) = Some d"
    by (auto simp: decimal_def andthen_eq_Inr Let_def split: if_splits)
  then have nd: "unat n = unat k div gcd (unat k) (unat ?D)" "unat d = unat ?D div gcd (unat k) (unat ?D)"
    using g by (simp_all add: unat_u64_of_u128 unat_div_distrib)
  have pos: "0 < unat ?D" using uD by simp
  show "unat n * 10 ^ fraction_digits v = scaled_digits v * unat d"
    using reduced_fraction(1) [OF pos, of "unat k"] k(2) uD
    by (simp add: nd fraction_digits_def scaled_digits_def s)
  show "coprime (unat n) (unat d)" "0 < unat d"
    using reduced_fraction(2,3) [OF pos, of "unat k"] by (simp_all add: nd)
  show "fraction_digits v \<le> 18" using len(2) by (simp add: fraction_digits_def s)
qed

text \<open>The reference: the same text read with natural numbers of any size.\<close>

definition decimal_syntax :: "string \<Rightarrow> bool" where
  "decimal_syntax v \<longleftrightarrow> (case split_once_dot v of (whole, fraction) \<Rightarrow>
     whole \<noteq> [] \<and> length whole \<le> 20 \<and> (CHR ''.'' \<in> set v \<longrightarrow> fraction \<noteq> [])
     \<and> length fraction \<le> 18 \<and> list_all is_ascii_digit (whole @ fraction))"

definition decimal_ref :: "string \<Rightarrow> oracle_error + u64 \<times> u64" where
  "decimal_ref v =
     (if v = [] \<or> length v > 48 then Inl DecimalLength
      else if \<not> decimal_syntax v then Inl DecimalSyntax
      else let n = scaled_digits v; d = 10 ^ fraction_digits v; g = gcd n d in
        if n div g < 2 ^ 64 then Inr (of_nat (n div g), of_nat (d div g))
        else Inl DecimalOverflow)"

definition decimal_value :: "string \<Rightarrow> rat" where
  "decimal_value v = of_nat (scaled_digits v) / 10 ^ fraction_digits v"

definition ratio :: "u64 \<times> u64 \<Rightarrow> rat" where
  "ratio p = of_nat (unat (fst p)) / of_nat (unat (snd p))"

lemma nat_ratio_eq:
  fixes n d m e :: nat
  assumes "n * e = m * d" "0 < d" "0 < e"
  shows "(of_nat n / of_nat d :: rat) = of_nat m / of_nat e"
proof -
  have "(of_nat (n * e) :: rat) = of_nat (m * d)" by (simp only: assms(1))
  then show ?thesis using assms(2,3) by (simp add: field_simps)
qed

lemma nat_ratio_less:
  fixes a b c d :: nat
  assumes "0 < b" "0 < d"
  shows "(of_nat a / of_nat b < (of_nat c / of_nat d :: rat)) \<longleftrightarrow> a * d < c * b"
proof -
  have "(of_nat a / of_nat b < (of_nat c / of_nat d :: rat))
      \<longleftrightarrow> (of_nat (a * d) :: rat) < of_nat (c * b)"
    using assms by (simp add: field_simps)
  then show ?thesis by (simp only: of_nat_less_iff)
qed

lemma ratio_zero: "0 < unat (snd p) \<Longrightarrow> (ratio p = 0 \<longleftrightarrow> fst p = 0) \<and> 0 \<le> ratio p"
  by (auto simp: ratio_def unat_eq_0 simp del: of_nat_unat)

lemma decimal_ratio: "decimal v = Inr p \<Longrightarrow> ratio p = decimal_value v \<and> 0 < unat (snd p)"
proof -
  assume d: "decimal v = Inr p"
  note e = decimal_exact [of v "fst p" "snd p"]
  have pos: "0 < unat (snd p)" using e(3) d by simp
  have "ratio p = of_nat (scaled_digits v) / of_nat (10 ^ fraction_digits v)"
    unfolding ratio_def by (rule nat_ratio_eq) (use e(1) d pos in simp_all)
  then show ?thesis using pos by (simp add: decimal_value_def)
qed

lemma unat_widen: "unat (widen w) = unat w"
  by (simp add: widen_def unat_ucast_64_128)

lemma unat_widen_mult: "unat (widen a * widen b) = unat a * unat b"
proof -
  have "unat a * unat b < 2 ^ 128" by (rule u64_product_fits)
  then show ?thesis by (simp add: unat_word_ariths unat_widen)
qed

lemma rate_cmp_ratio:
  assumes "0 < unat (snd a)" "0 < unat (snd b)"
  shows "rate_cmp a b = Less \<longleftrightarrow> ratio a < ratio b" "rate_cmp a b = Greater \<longleftrightarrow> ratio b < ratio a"
proof -
  have lt: "widen (fst x) * widen (snd y) < widen (fst y) * widen (snd x) \<longleftrightarrow> ratio x < ratio y"
    if "0 < unat (snd x)" "0 < unat (snd y)" for x y
  proof -
    have "ratio x < ratio y \<longleftrightarrow> unat (fst x) * unat (snd y) < unat (fst y) * unat (snd x)"
      unfolding ratio_def by (rule nat_ratio_less [OF that])
    then show ?thesis by (simp only: word_less_nat_alt unat_widen_mult)
  qed
  show "rate_cmp a b = Less \<longleftrightarrow> ratio a < ratio b"
    using lt [OF assms] by (simp add: rate_cmp_def Let_def)
  show "rate_cmp a b = Greater \<longleftrightarrow> ratio b < ratio a"
    using lt [OF assms] lt [OF assms(2,1)] by (auto simp: rate_cmp_def Let_def)
qed

lemma btc_rate_exact:
  assumes "btc_per_xmr_decimal_rate price source t = Inr r"
  shows "ratio (sats_per_xmr_numerator r, sats_per_xmr_denominator r) = decimal_value price * 100000000"
    and "observed_at r = t" and "rate_source r = source" and "0 < decimal_value price"
proof -
  from assms obtain n d where nd: "decimal price = Inr (n, d)" "n \<noteq> 0" by
    (auto simp: btc_per_xmr_decimal_rate_def andthen_eq_Inr split: if_splits)
  let ?n2 = "widen n * widen SATS_PER_BTC"
  let ?g = "gcd_u128 ?n2 (widen d)"
  from assms nd obtain num den where
    q: "u64_of_u128 (?n2 div ?g) = Some num" "u64_of_u128 (widen d div ?g) = Some den"
    and r: "xmr_btc_rate_new num den source t = Inr r"
    by (auto simp: btc_per_xmr_decimal_rate_def andthen_eq_Inr Let_def)
  have un: "unat ?n2 = unat n * 100000000"
    by (simp add: unat_widen_mult SATS_PER_BTC_def)
  have pos: "0 < unat d" using decimal_ratio [OF nd(1)] by simp
  have e: "unat num = unat ?n2 div gcd (unat ?n2) (unat d)" "unat den = unat d div gcd (unat ?n2) (unat d)"
    using q by (simp_all add: unat_u64_of_u128 unat_div_distrib gcd_u128_unat unat_widen)
  have "unat num * unat d = unat ?n2 * unat den" "0 < unat den"
    using reduced_fraction(1,3) [OF pos, of "unat ?n2"] by (simp_all add: e)
  then have "ratio (num, den) = of_nat (unat n * 100000000) / of_nat (unat d)"
    unfolding ratio_def fst_conv snd_conv using pos by (intro nat_ratio_eq) (simp_all add: un)
  then have "ratio (num, den) = ratio (n, d) * 100000000"
    by (simp add: ratio_def del: of_nat_unat)
  moreover have "ratio (n, d) = decimal_value price" using decimal_ratio [OF nd(1)] by simp
  moreover have "0 < ratio (n, d)" using nd(2) ratio_zero [of "(n, d)"] pos by simp
  moreover have "r = \<lparr>sats_per_xmr_numerator = num, sats_per_xmr_denominator = den,
      rate_source = source, observed_at = t\<rparr>"
    using r by (auto simp: xmr_btc_rate_new_def split: if_splits)
  ultimately show "ratio (sats_per_xmr_numerator r, sats_per_xmr_denominator r)
      = decimal_value price * 100000000" "observed_at r = t" "rate_source r = source"
    "0 < decimal_value price" by simp_all
qed

lemma use_candle_sound:
  assumes "use_candle pv raw fetched c = Inr e"
  shows "cd_start c + 60 \<le> fetched \<and> 0 < decimal_value (cd_low c)
    \<and> decimal_value (cd_low c) \<le> decimal_value (cd_vwap c)
    \<and> decimal_value (cd_vwap c) \<le> decimal_value (cd_high c)
    \<and> ratio (sats_per_xmr_numerator (re_rate e), sats_per_xmr_denominator (re_rate e))
        = decimal_value (cd_vwap c) * 100000000
    \<and> observed_at (re_rate e) = cd_start c \<and> rate_source (re_rate e) = KRAKEN_SOURCE
    \<and> re_fetched_at e = fetched \<and> re_raw_json e = raw"
proof -
  from assms obtain high low vwap rate where
    closed: "cd_start c + 60 \<le> fetched"
    and dec: "decimal (cd_high c) = Inr high" "decimal (cd_low c) = Inr low" "decimal (cd_vwap c) = Inr vwap"
    and ok: "fst low \<noteq> 0" "rate_cmp vwap low \<noteq> Less" "rate_cmp vwap high \<noteq> Greater"
    and rate: "btc_per_xmr_decimal_rate (cd_vwap c) KRAKEN_SOURCE (cd_start c) = Inr rate"
    and e: "rate_evidence_new pv rate fetched raw = Inr e"
    by (auto simp: use_candle_def andthen_eq_Inr checked_add_i64_def split: if_splits option.splits)
  note r = decimal_ratio [OF dec(1)] decimal_ratio [OF dec(2)] decimal_ratio [OF dec(3)]
  have "0 < ratio low" using ok(1) r(2) ratio_zero [of low] by simp
  moreover have "ratio low \<le> ratio vwap" "ratio vwap \<le> ratio high"
    using ok(2,3) rate_cmp_ratio(1) [of vwap low] rate_cmp_ratio(2) [of vwap high] r by auto
  moreover have "re_rate e = rate" "re_fetched_at e = fetched" "re_raw_json e = raw"
    using e by (auto simp: rate_evidence_new_def split: if_splits option.splits)
  ultimately show ?thesis using closed r btc_rate_exact [OF rate] by simp
qed

text \<open>The scan stops at the newest candle that is not empty.\<close>

definition empty_candle :: "candle \<Rightarrow> bool" where
  "empty_candle c \<longleftrightarrow> cd_count c = 0 \<and> decimal_value (cd_volume c) = 0"

lemma newest_closed_sound:
  assumes "newest_closed pv raw fetched cs = Inr e"
  shows "\<exists>empty c rest. cs = empty @ c # rest \<and> list_all empty_candle empty
    \<and> \<not> empty_candle c \<and> use_candle pv raw fetched c = Inr e"
  using assms
proof (induction cs)
  case (Cons c cs)
  then obtain v where v: "decimal (cd_volume c) = Inr v" by (auto simp: andthen_eq_Inr)
  have "ratio v = decimal_value (cd_volume c)" "0 < unat (snd v)" using decimal_ratio [OF v] by auto
  then have zero: "fst v = 0 \<longleftrightarrow> decimal_value (cd_volume c) = 0"
    using ratio_zero [of v] by simp
  show ?case
  proof (cases "cd_count c = 0 \<and> fst v = 0")
    case True
    with Cons v obtain empty d rest where "cs = empty @ d # rest" "list_all empty_candle empty"
      "\<not> empty_candle d" "use_candle pv raw fetched d = Inr e" by auto
    moreover have "empty_candle c" using True zero by (simp add: empty_candle_def)
    ultimately show ?thesis by (intro exI [of _ "c # empty"] exI [of _ d] exI [of _ rest]) simp
  next
    case False
    with Cons v have "use_candle pv raw fetched c = Inr e" "\<not> empty_candle c"
      using zero by (auto simp: empty_candle_def split: if_splits)
    then show ?thesis by (intro exI [of _ "[]"] exI [of _ c] exI [of _ cs]) simp
  qed
qed simp

lemma chronology_starts:
  "chronology_ok fetched prev cs \<Longrightarrow> c \<in> set cs \<Longrightarrow> 0 \<le> cd_start c \<and> cd_start c mod 60 = 0"
  by (induction fetched prev cs rule: chronology_ok.induct) auto

lemma decimal_eq_ref:
  "decimal v = decimal_ref v"
proof (cases "v = [] \<or> length v > 48 \<or> \<not> decimal_syntax v")
  case True
  then show ?thesis
    by (auto simp: decimal_def decimal_ref_def decimal_syntax_def split: prod.splits)
next
  case False
  obtain whole fraction where s: "split_once_dot v = (whole, fraction)" by fastforce
  from False s have len: "length whole \<le> 20" "length fraction \<le> 18"
    and dig: "list_all is_ascii_digit (whole @ fraction)"
    by (auto simp: decimal_syntax_def)
  from False s have lv: "\<not> (v = [] \<or> length v > 48)"
    and ok: "\<not> (whole = [] \<or> length whole > 20 \<or> (CHR ''.'' \<in> set v \<and> fraction = [])
           \<or> length fraction > 18 \<or> \<not> list_all is_ascii_digit (whole @ fraction))"
    by (auto simp: decimal_syntax_def)
  have "(10 :: nat) ^ length (whole @ fraction) \<le> 10 ^ 38"
    using len by (intro power_increasing) auto
  then have "(unat (0 :: u128) + 1) * 10 ^ length (whole @ fraction) < 2 ^ 128" by simp
  from accumulate_exact [OF dig this] obtain k where
    k: "accumulate 0 (whole @ fraction) = Some k" "unat k = digits_value (whole @ fraction)" by auto
  let ?D = "10 ^ length fraction :: u128"
  let ?g = "gcd_u128 k ?D"
  have v: "scaled_digits v = unat k" "fraction_digits v = length fraction"
    by (simp_all add: scaled_digits_def fraction_digits_def s k(2))
  have uD: "unat ?D = 10 ^ length fraction" by (rule unat_10_power [OF len(2)])
  have g: "unat ?g = gcd (unat k) (unat ?D)" by (rule gcd_u128_unat)
  have q: "unat (k div ?g) = unat k div gcd (unat k) (unat ?D)"
    "unat (?D div ?g) = unat ?D div gcd (unat k) (unat ?D)"
    by (simp_all only: unat_div_distrib g)
  have "unat ?D div gcd (unat k) (unat ?D) \<le> unat ?D" by (rule div_le_dividend)
  also have "\<dots> \<le> 10 ^ 18" unfolding uD using len(2) by (intro power_increasing) auto
  finally have "unat (?D div ?g) < 2 ^ 64" unfolding q(2) by (rule le_less_trans) simp
  then have d: "u64_of_u128 (?D div ?g) = Some (of_nat (unat (?D div ?g)))"
    by (simp add: u64_of_u128_def)
  have n: "u64_of_u128 (k div ?g) = (if unat (k div ?g) < 2 ^ 64
      then Some (of_nat (unat (k div ?g))) else None)"
    by (simp add: u64_of_u128_def)
  have "decimal v = andthen (ok_or DecimalOverflow (u64_of_u128 (k div ?g))) (\<lambda>a.
          andthen (ok_or DecimalOverflow (u64_of_u128 (?D div ?g))) (\<lambda>b. Inr (a, b)))"
    using False ok by (simp only: decimal_def s prod.case if_not_P [OF lv] if_not_P [OF ok] k(1)
        ok_or_simps andthen_simps Let_def if_False)
  also have "\<dots> = (if unat k div gcd (unat k) (unat ?D) < 2 ^ 64
      then Inr (of_nat (unat k div gcd (unat k) (unat ?D)), of_nat (unat ?D div gcd (unat k) (unat ?D)))
      else Inl DecimalOverflow)"
    unfolding n d q by simp
  also have "\<dots> = decimal_ref v"
    using False by (simp add: decimal_ref_def Let_def v uD)
  finally show ?thesis .
qed

section \<open>A sample response\<close>

definition sample_candle :: "i64 \<Rightarrow> string \<Rightarrow> u64 \<Rightarrow> candle" where
  "sample_candle start volume count = \<lparr>cd_start = start, cd_open = ''0.0025'', cd_high = ''0.005'',
     cd_low = ''0.002'', cd_close = ''0.0025'', cd_vwap = ''0.0025'', cd_volume = volume,
     cd_count = count\<rparr>"

definition sample_envelope :: envelope where
  "sample_envelope = \<lparr>env_error = [], env_candles = [sample_candle 60 ''1'' 1,
     sample_candle 120 ''0.0'' 0, sample_candle 180 ''1'' 1], env_last = 120\<rparr>"

lemmas decimal_eval = decimal_eq_ref decimal_ref_def decimal_syntax_def split_once_dot_def
  scaled_digits_def fraction_digits_def digits_value_def digit_value_def byte_def is_ascii_digit_def

lemma sample_decimals:
  "decimal ''0.0025'' = Inr (1, 400)" "decimal ''0.005'' = Inr (1, 200)"
  "decimal ''0.002'' = Inr (1, 500)" "decimal ''1'' = Inr (1, 1)" "decimal ''0.0'' = Inr (0, 1)"
  by (simp_all add: decimal_eval)

lemma sample_parsed:
  obtains e where "parse_kraken_ohlc (\<lambda>_. Some sample_envelope) (\<lambda>_. Some ()) ''{}'' 200 = Inr e"
    and "re_rate e = \<lparr>sats_per_xmr_numerator = 250000, sats_per_xmr_denominator = 1,
      rate_source = KRAKEN_SOURCE, observed_at = 60\<rparr>"
proof -
  have g: "gcd_u128 100000000 400 = 400"
    by (simp add: gcd_u128.simps)
  have "btc_per_xmr_decimal_rate ''0.0025'' KRAKEN_SOURCE 60
      = Inr \<lparr>sats_per_xmr_numerator = 250000, sats_per_xmr_denominator = 1,
          rate_source = KRAKEN_SOURCE, observed_at = 60\<rparr>"
    by (simp add: btc_per_xmr_decimal_rate_def sample_decimals widen_def SATS_PER_BTC_def g
        u64_of_u128_def xmr_btc_rate_new_def KRAKEN_SOURCE_def rate_source_byte_def
        is_ascii_alphanumeric_def is_ascii_digit_def is_ascii_lowercase_def is_ascii_uppercase_def
        byte_def)
  then have "parse_kraken_ohlc (\<lambda>_. Some sample_envelope) (\<lambda>_. Some ()) ''{}'' 200
      = Inr \<lparr>re_rate = \<lparr>sats_per_xmr_numerator = 250000, sats_per_xmr_denominator = 1,
          rate_source = KRAKEN_SOURCE, observed_at = 60\<rparr>, re_fetched_at = 200, re_raw_json = ''{}''\<rparr>"
    by (simp add: parse_kraken_ohlc_def sample_envelope_def sample_candle_def
        MAX_RATE_EVIDENCE_BYTES_def sample_decimals use_candle_def checked_add_i64_def in_i64_def
        i64_min_def i64_max_def rate_cmp_def widen_def rate_evidence_new_def)
  then show thesis by (intro that) auto
qed

section \<open>Properties\<close>

text \<open>
  The decimal parser is the exact one. \<open>decimal\<close>, with its overflow-checked \<open>u128\<close> arithmetic and its
  euclidean loop, gives for every text the same answer as the reference that reads the digits into
  unbounded natural numbers, divides by the greatest common divisor and refuses exactly what is
  malformed or has a reduced numerator of 64 bits or more; no intermediate \<open>u128\<close> step ever overflows.
\<close>
theorem decimal_is_exact:
  "decimal v = decimal_ref v"
  by (rule decimal_eq_ref)

text \<open>
  C35: A rate the oracle accepts is an exact, closed, honest market observation. It comes from the newest
  nonempty candle among all but the last one of the response; that candle starts on a full minute
  and has ended by the time of the fetch; every newer closed candle is empty; the rate in sats per
  XMR is exactly the candle's volume-weighted price times one hundred million, with nothing rounded;
  the price is positive and lies between the candle's low and high; and the observation time is the
  candle's start, never the local clock.
\<close>
theorem oracle_rate_is_exact:
  assumes "parse_kraken_ohlc parse_envelope parse_value raw fetched = Inr e"
  shows "\<exists>env older c newer. parse_envelope raw = Some env
    \<and> butlast (env_candles env) = older @ c # newer \<and> list_all empty_candle newer
    \<and> \<not> empty_candle c \<and> cd_start c mod 60 = 0 \<and> cd_start c + 60 \<le> fetched
    \<and> 0 < decimal_value (cd_low c) \<and> decimal_value (cd_low c) \<le> decimal_value (cd_vwap c)
    \<and> decimal_value (cd_vwap c) \<le> decimal_value (cd_high c)
    \<and> ratio (sats_per_xmr_numerator (re_rate e), sats_per_xmr_denominator (re_rate e))
        = decimal_value (cd_vwap c) * 100000000
    \<and> observed_at (re_rate e) = cd_start c \<and> re_fetched_at e = fetched \<and> re_raw_json e = raw"
proof -
  from assms obtain env where env: "parse_envelope raw = Some env"
    and chron: "chronology_ok fetched None (env_candles env)"
    and scan: "newest_closed parse_value raw fetched (rev (butlast (env_candles env))) = Inr e"
    by (auto simp: parse_kraken_ohlc_def andthen_eq_Inr split: if_splits)
  from newest_closed_sound [OF scan] obtain empty c rest where
    c: "rev (butlast (env_candles env)) = empty @ c # rest" "list_all empty_candle empty"
    "\<not> empty_candle c" "use_candle parse_value raw fetched c = Inr e" by blast
  have split: "butlast (env_candles env) = rev rest @ c # rev empty"
    using arg_cong [where f = rev, OF c(1)] by simp
  then have "c \<in> set (env_candles env)" by (metis in_set_butlastD in_set_conv_decomp)
  then have "cd_start c mod 60 = 0" using chronology_starts [OF chron] by blast
  moreover have "list_all empty_candle (rev empty)" using c(2) by (simp add: list_all_iff)
  ultimately show ?thesis
    using env split c(3) use_candle_sound [OF c(4)]
    by (intro exI [of _ env] exI [of _ "rev rest"] exI [of _ c] exI [of _ "rev empty"]) simp
qed

theorem oracle_rate_is_exact_witness:
  "\<exists>e. parse_kraken_ohlc (\<lambda>_. Some sample_envelope) (\<lambda>_. Some ()) ''{}'' 200 = Inr e
    \<and> (\<exists>c \<in> set (env_candles sample_envelope). observed_at (re_rate e) = cd_start c
         \<and> cd_start c + 60 \<le> 200)"
proof (rule sample_parsed)
  fix e
  assume p: "parse_kraken_ohlc (\<lambda>_. Some sample_envelope) (\<lambda>_. Some ()) ''{}'' 200 = Inr e"
  from oracle_rate_is_exact [OF p] obtain older c newer where
    c: "butlast (env_candles sample_envelope) = older @ c # newer" "cd_start c + 60 \<le> 200"
    "observed_at (re_rate e) = cd_start c" by auto
  then have "c \<in> set (env_candles sample_envelope)" by (metis in_set_butlastD in_set_conv_decomp)
  with p c(2,3) show ?thesis by blast
qed

end
