(* ===== verification/Quote_Service.thy ===== *)
theory Quote_Service
  imports Ledger_Quotes Rate_Oracle
begin

text \<open>
  The quote service, \<open>QuoteService\<close> of \<open>src/src/quotes.rs\<close>: \<open>create\<close>, \<open>lookup\<close> and \<open>bind\<close> over the
  durable requests of \<open>Ledger_Quotes\<close>. serde_json and SHA-256 are the fields of a \<open>quote_codec\<close>;
  the clock readings, the answer of the rate source and the free slot of the semaphore are fields of
  a \<open>quote_env\<close>. The last section shows that printed amounts read back exactly; \<open>Quote_Properties\<close>
  holds what the service promises.
\<close>

section \<open>The service\<close>

record quote_codec =
  qc_identity_text :: "identity \<Rightarrow> string"
  qc_document_text :: "document \<Rightarrow> string"
  qc_parse_identity :: "string \<Rightarrow> identity option"
  qc_parse_document :: "string \<Rightarrow> document option"
  qc_sha256_hex :: "string \<Rightarrow> string"

record quote_service =
  qv_context :: quote_context
  qv_policy :: quote_policy
  qv_source_id :: string

record quote_env =
  qe_slot_free :: bool
  qe_now :: "i64 option"
  qe_evidence :: "rate_evidence option"
  qe_issued :: "i64 option"

definition quote_service_new ::
  "uuid \<Rightarrow> quote_context \<Rightarrow> quote_policy \<Rightarrow> string \<Rightarrow> service_error + quote_service" where
  "quote_service_new fresh context policy source_id =
     andthen (policy_validate policy) (\<lambda>_.
     andthen (identity_new \<lparr>qq_id = fresh, qq_client_bucket = replicate 64 CHR ''0'',
       qq_address_user = ''herd'', qq_target_sats = 1\<rparr> context) (\<lambda>_.
     andthen (map_err Rate_Err (xmr_btc_rate_new 1 1 source_id 0)) (\<lambda>_.
       Inr \<lparr>qv_context = context, qv_policy = policy, qv_source_id = source_id\<rparr>)))"

definition decode_with ::
  "quote_codec \<Rightarrow> string \<Rightarrow> string \<Rightarrow> service_error + stored_xmr_quote" where
  "decode_with codec text identity =
     decode (qc_parse_document codec) (qc_parse_identity codec) (qc_sha256_hex codec) text identity"

text \<open>The document of a new quote, from the evidence to the check of its own decoding.\<close>

definition new_document ::
  "quote_codec \<Rightarrow> quote_service \<Rightarrow> quote_request \<Rightarrow> string \<Rightarrow> i64 \<Rightarrow> rate_evidence \<Rightarrow> i64
     \<Rightarrow> service_error + document" where
  "new_document codec svc request identity now evidence issued_at =
     (if rate_source (re_rate evidence) \<noteq> qv_source_id svc \<or> re_fetched_at evidence < now
         \<or> issued_at < re_fetched_at evidence
      then Inl SourceChronology
      else andthen (validate_rate (re_rate evidence) (qv_policy svc)) (\<lambda>_.
      andthen (ok_or ExpiryOverflow
        (checked_add_i64 issued_at (as_i64 (lifetime_seconds (qv_policy svc))))) (\<lambda>expires_at.
      andthen (map_err Rate_Err (quote_at (re_rate evidence) (qq_target_sats request) issued_at
        expires_at (max_rate_age_seconds (qv_policy svc)))) (\<lambda>quote.
      if max_piconero (qv_policy svc) < expected_atomic (xq_terms quote) then Inl AmountLimit
      else Inr
        \<lparr>doc_version = 1, doc_identity = identity, doc_policy = qv_policy svc,
         doc_numerator = show_u64 (sats_per_xmr_numerator (re_rate evidence)),
         doc_denominator = show_u64 (sats_per_xmr_denominator (re_rate evidence)),
         doc_source = rate_source (re_rate evidence), doc_observed_at = observed_at (re_rate evidence),
         doc_fetched_at = re_fetched_at evidence, doc_issued_at = issued_at,
         doc_expires_at = expires_at, doc_expected_atomic = expected_atomic (xq_terms quote),
         doc_evidence = re_raw_json evidence,
         doc_evidence_sha256 = qc_sha256_hex codec (re_raw_json evidence)\<rparr>))))"

text \<open>The inner block of \<open>create\<close>: fetch, price, decode, complete.\<close>

definition issue_quote ::
  "quote_codec \<Rightarrow> quote_service \<Rightarrow> quote_env \<Rightarrow> quote_request \<Rightarrow> string \<Rightarrow> i64 \<Rightarrow> ledger_db
     \<Rightarrow> service_error + stored_xmr_quote \<times> ledger_db" where
  "issue_quote codec svc env request identity now db =
     andthen (ok_or SourceUnavailable (qe_evidence env)) (\<lambda>evidence.
     andthen (ok_or ClockUnavailable (qe_issued env)) (\<lambda>issued_at.
     andthen (new_document codec svc request identity now evidence issued_at) (\<lambda>document.
     andthen (decode_with codec (qc_document_text codec document) identity) (\<lambda>stored.
     andthen (map_err Ledger_Err (complete_xmr_quote (qq_id request) identity stored issued_at db))
       (\<lambda>(_, db1). Inr (stored, db1))))))"

type_synonym 'a service_result = "(service_error + 'a) \<times> ledger_db"

definition create ::
  "quote_codec \<Rightarrow> quote_service \<Rightarrow> quote_env \<Rightarrow> quote_request \<Rightarrow> ledger_db
     \<Rightarrow> stored_xmr_quote service_result" where
  "create codec svc env request db =
     (case identity_new request (qv_context svc) of
        Inl e \<Rightarrow> (Inl e, db)
      | Inr ident \<Rightarrow>
        let identity = qc_identity_text codec ident in
        if \<not> qe_slot_free env then (Inl QuoteServiceBusy, db)
        else case qe_now env of
          None \<Rightarrow> (Inl ClockUnavailable, db)
        | Some now \<Rightarrow>
          (case reserve_xmr_quote request identity (qv_policy svc) now db of
             Inl e \<Rightarrow> (Inl (Ledger_Err e), db)
           | Inr (Some existing, db1) \<Rightarrow> (decode_with codec existing identity, db1)
           | Inr (None, db1) \<Rightarrow>
               (case issue_quote codec svc env request identity now db1 of
                  Inr (stored, db2) \<Rightarrow> (Inr stored, db2)
                | Inl e \<Rightarrow>
                    (case fail_xmr_quote (qq_id request) db1 of
                       Inl e2 \<Rightarrow> (Inl (Ledger_Err e2), db1)
                     | Inr (_, db2) \<Rightarrow> (Inl e, db2)))))"

definition lookup ::
  "quote_codec \<Rightarrow> quote_service \<Rightarrow> quote_env \<Rightarrow> quote_request \<Rightarrow> ledger_db
     \<Rightarrow> service_error + stored_xmr_quote" where
  "lookup codec svc env request db =
     andthen (identity_new request (qv_context svc)) (\<lambda>ident.
     let identity = qc_identity_text codec ident in
     if \<not> qe_slot_free env then Inl QuoteServiceBusy
     else andthen (ok_or ClockUnavailable (qe_now env)) (\<lambda>now.
     andthen (map_err Ledger_Err (read_xmr_quote (qq_id request) identity now db)) (\<lambda>stored.
       decode_with codec stored identity)))"

definition bind_quote ::
  "quote_codec \<Rightarrow> quote_service \<Rightarrow> quote_env \<Rightarrow> quote_request \<Rightarrow> string \<Rightarrow> ledger_db
     \<Rightarrow> service_error + xmr_credit_intent \<times> ledger_db" where
  "bind_quote codec svc env request receive_scope db =
     andthen (lookup codec svc env request db) (\<lambda>stored.
     andthen (credit_intent stored receive_scope) (\<lambda>intent.
     andthen (ok_or ClockUnavailable (qe_issued env)) (\<lambda>now.
     andthen (map_err Ledger_Err (bind_xmr_quote stored intent now db)) (\<lambda>(_, db1).
       Inr (intent, db1)))))"

section \<open>Printed amounts\<close>

lemma split_once_dot_digits:
  assumes "list_all is_ascii_digit w"
  shows "split_once_dot w = (w, [])" and "split_once_dot (w @ ''.'' @ f) = (w, f)"
proof -
  have no: "\<not> is_ascii_digit CHR ''.''" by (simp add: is_ascii_digit_def byte_def)
  have t: "takeWhile (\<lambda>c. c \<noteq> CHR ''.'') w = w" "dropWhile (\<lambda>c. c \<noteq> CHR ''.'') w = []"
    "takeWhile (\<lambda>c. c \<noteq> CHR ''.'') (w @ ''.'' @ f) = w"
    "dropWhile (\<lambda>c. c \<noteq> CHR ''.'') (w @ ''.'' @ f) = CHR ''.'' # f"
    using no assms by (induction w) auto
  show "split_once_dot w = (w, [])" unfolding split_once_dot_def t by simp
  show "split_once_dot (w @ ''.'' @ f) = (w, f)" unfolding split_once_dot_def t by simp
qed

lemma digits_value_append: "digits_value (a @ b) = digits_value a * 10 ^ length b + digits_value b"
  using foldl_digits [of "digits_value a" b] by (simp add: digits_value_def)

lemma digits_value_zeros: "digits_value (replicate k CHR ''0'') = 0"
  by (induction k) (simp_all add: digits_value_def digits_value_Cons digit_value_def byte_def)

lemma pad_zeros_12:
  assumes "n < 10 ^ 12"
  shows "length (pad_zeros 12 (show_nat n)) = 12" "digits_value (pad_zeros 12 (show_nat n)) = n"
    "list_all is_ascii_digit (pad_zeros 12 (show_nat n))"
proof -
  have "length (show_nat n) \<le> 12" by (rule length_show_nat [OF assms]) simp
  then show "length (pad_zeros 12 (show_nat n)) = 12" by (simp add: pad_zeros_def)
  show "digits_value (pad_zeros 12 (show_nat n)) = n"
    by (simp add: pad_zeros_def digits_value_append digits_value_zeros digits_value_show)
  show "list_all is_ascii_digit (pad_zeros 12 (show_nat n))"
    using show_nat_digits [of n]
    by (auto simp: pad_zeros_def all_digits_def list_all_iff is_ascii_digit_def byte_def)
qed

lemma trim_end_zeros_split: "\<exists>k. s = trim_end_zeros s @ replicate k CHR ''0''"
proof -
  have "rev s = takeWhile (\<lambda>c. c = CHR ''0'') (rev s) @ dropWhile (\<lambda>c. c = CHR ''0'') (rev s)" by simp
  then have "s = trim_end_zeros s @ rev (takeWhile (\<lambda>c. c = CHR ''0'') (rev s))"
    unfolding trim_end_zeros_def by (metis rev_append rev_rev_ident)
  moreover have "takeWhile (\<lambda>c. c = CHR ''0'') xs = replicate (length (takeWhile (\<lambda>c. c = CHR ''0'') xs)) CHR ''0''"
    for xs by (induction xs) auto
  ultimately show ?thesis by (metis rev_replicate)
qed

text \<open>The value of \<open>whole.fraction\<close> with trailing zeros of the fraction dropped.\<close>

lemma decimal_value_trimmed:
  assumes "list_all is_ascii_digit w" "length f = 12"
  shows "decimal_value (w @ ''.'' @ trim_end_zeros f)
    = of_nat (digits_value w * 10 ^ 12 + digits_value f) / 10 ^ 12"
proof -
  obtain k where k: "f = trim_end_zeros f @ replicate k CHR ''0''" using trim_end_zeros_split by blast
  let ?t = "trim_end_zeros f"
  have len: "length ?t + k = 12" using arg_cong [where f = length, OF k] assms(2) by simp
  have v: "digits_value f = digits_value ?t * 10 ^ k"
    using arg_cong [where f = digits_value, OF k] by (simp add: digits_value_append digits_value_zeros)
  have e: "(10 :: nat) ^ 12 = 10 ^ length ?t * 10 ^ k" by (simp only: len power_add [symmetric])
  have "scaled_digits (w @ ''.'' @ ?t) = digits_value w * 10 ^ length ?t + digits_value ?t"
    "fraction_digits (w @ ''.'' @ ?t) = length ?t"
    unfolding scaled_digits_def fraction_digits_def split_once_dot_digits(2) [OF assms(1)]
    by (simp_all add: digits_value_append)
  then have "decimal_value (w @ ''.'' @ ?t)
      = of_nat (digits_value w * 10 ^ length ?t + digits_value ?t) / of_nat (10 ^ length ?t)"
    by (simp add: decimal_value_def)
  also have "\<dots> = of_nat (digits_value w * 10 ^ 12 + digits_value f) / of_nat (10 ^ 12)"
    by (rule nat_ratio_eq) (simp_all only: v e algebra_simps zero_less_power zero_less_numeral
        mult_pos_pos)
  finally show ?thesis by simp
qed

lemma decimal_value_whole: "list_all is_ascii_digit w \<Longrightarrow> decimal_value w = of_nat (digits_value w)"
  by (simp add: decimal_value_def scaled_digits_def fraction_digits_def split_once_dot_digits)

text \<open>
  A printed amount reads back exactly: the decimal text of any number of piconero, without an
  exponent and without trailing zeros, has as its value that number over \<open>10^12\<close>.
\<close>

theorem printed_amount_reads_back: "decimal_value (format_xmr a) = of_nat (unat a) / 1000000000000"
proof -
  let ?w = "show_nat (unat a div 10 ^ 12)" and ?f = "pad_zeros 12 (show_nat (unat a mod 10 ^ 12))"
  have p: "unat PICONERO_PER_XMR = 10 ^ 12" by (simp add: PICONERO_PER_XMR_def)
  have w: "list_all is_ascii_digit ?w" using show_nat_digits by (simp add: all_digits_def)
  have z: "a mod PICONERO_PER_XMR = 0 \<longleftrightarrow> unat a mod 10 ^ 12 = 0"
    by (simp add: unat_eq_0 [symmetric] unat_mod_distrib p del: unat_eq_0)
  have f: "format_xmr a = (if unat a mod 10 ^ 12 = 0 then ?w else ?w @ ''.'' @ trim_end_zeros ?f)"
    unfolding format_xmr_def Let_def z show_u64_def unat_div_distrib unat_mod_distrib p by simp
  have "(10 :: nat) ^ 12 = 1000000000000" by simp
  show ?thesis
  proof (cases "unat a mod 10 ^ 12 = 0")
    case True
    then have "unat a = unat a div 10 ^ 12 * 10 ^ 12" by (metis mod_div_mult_eq add_0)
    then have "of_nat (unat a) = (of_nat (unat a div 10 ^ 12) * of_nat (10 ^ 12) :: rat)"
      by (metis of_nat_mult)
    moreover have "decimal_value (format_xmr a) = of_nat (unat a div 10 ^ 12)"
      unfolding f using True decimal_value_whole [OF w] by (simp only: simp_thms if_True digits_value_show)
    ultimately show ?thesis by (simp del: of_nat_unat)
  next
    case False
    have m: "unat a mod 10 ^ 12 < 10 ^ 12" by simp
    have "digits_value ?w * 10 ^ 12 + digits_value ?f = unat a"
      by (simp only: digits_value_show pad_zeros_12(2) [OF m] div_mult_mod_eq)
    then have "decimal_value (format_xmr a) = of_nat (unat a) / 10 ^ 12"
      unfolding f using False decimal_value_trimmed [OF w pad_zeros_12(1) [OF m]]
      by (simp only: simp_thms if_False)
    then show ?thesis by (simp del: of_nat_unat)
  qed
qed

end
