(* ===== verification/Quote_Runs.thy ===== *)
theory Quote_Runs
  imports Quote_Service Runs
begin

text \<open>
  Runs of the durable quote operations under one policy. \<open>quote_inv\<close> is the invariant of
  \<open>xmr_quote_requests\<close>: ids are unique and request times ascend up to the quote clock. A request that
  is ready stays as it is, the admission limits hold in every window, and the rate of each source
  only moves forward.
\<close>

section \<open>Steps\<close>

lemma run_append: "run step s (xs @ ys) t \<Longrightarrow> \<exists>u. run step s xs u \<and> run step u ys t"
proof (induction ys arbitrary: t rule: rev_induct)
  case Nil
  then show ?case by (auto intro: run_Nil)
next
  case (snoc y ys)
  from snoc.prems obtain v where v: "run step s (xs @ ys) v" "step y v t"
    by (cases rule: run.cases) auto
  from snoc.IH [OF v(1)] obtain u where u: "run step s xs u" "run step u ys v" by blast
  from run_snoc [where step = step, OF u(2) v(2)] u(1) show ?case by blast
qed

lemma run_Cons: "run step s (x # ys) t \<Longrightarrow> \<exists>u. step x s u \<and> run step u ys t"
proof -
  assume "run step s (x # ys) t"
  then obtain u where u: "run step s [x] u" "run step u ys t"
    using run_append [of step s "[x]" ys t] by auto
  from u(1) have "step x s u"
  proof (cases rule: run.cases)
    case (run_snoc es v e)
    then have "es = []" by simp
    with run_snoc show ?thesis by (auto elim: run.cases)
  qed
  with u(2) show ?thesis by blast
qed


text \<open>The committed ledger operations of the service. A rate is an \<open>XmrBtcRate\<close>, whose denominator
  its only constructor has checked; \<open>qs_other\<close> is every operation on the other tables.\<close>

datatype quote_call = Call_reserve uuid | Call_complete stored_xmr_quote | Call_fail | Call_bind
  | Call_other

inductive quote_step :: "quote_policy \<Rightarrow> quote_call \<Rightarrow> ledger_db \<Rightarrow> ledger_db \<Rightarrow> bool" for policy where
  qs_reserve: "reserve_xmr_quote request ident policy now db = Inr (found, db') \<Longrightarrow>
     quote_step policy (Call_reserve (qq_id request)) db db'"
| qs_complete: "complete_xmr_quote i ident q now db = Inr (u, db') \<Longrightarrow>
     0 < sats_per_xmr_denominator (xq_rate (sq_quote q)) \<Longrightarrow>
     quote_step policy (Call_complete q) db db'"
| qs_fail: "fail_xmr_quote i db = Inr (u, db') \<Longrightarrow> quote_step policy Call_fail db db'"
| qs_bind: "bind_xmr_quote q intent now db = Inr (u, db') \<Longrightarrow> quote_step policy Call_bind db db'"
| qs_other: "xmr_quote_requests db' = xmr_quote_requests db \<Longrightarrow>
     xmr_quote_clock db' = xmr_quote_clock db \<Longrightarrow> xmr_rate_watermarks db' = xmr_rate_watermarks db \<Longrightarrow>
     quote_step policy Call_other db db'"

definition quote_inv :: "ledger_db \<Rightarrow> bool" where
  "quote_inv db \<longleftrightarrow>
     distinct (map qr_id (xmr_quote_requests db))
     \<and> sorted (map qr_requested_at (xmr_quote_requests db))
     \<and> (\<forall>r \<in> set (xmr_quote_requests db). qr_requested_at r \<le> xmr_quote_clock db)
     \<and> 0 \<le> xmr_quote_clock db
     \<and> distinct (map rw_source (xmr_rate_watermarks db))"

lemma quote_inv_empty: "quote_inv empty_db"
  by (simp add: quote_inv_def empty_db_def)

section \<open>What each operation writes\<close>

lemma check_clock_ok:
  "check_clock now db = Inr db' \<longleftrightarrow>
     xmr_quote_clock db \<le> now \<and> 0 \<le> now \<and> db' = db\<lparr>xmr_quote_clock := now\<rparr>"
  by (auto simp: check_clock_def)

lemma register_quote_tables:
  "register_xmr_intent_in_transaction intent db = Inr db' \<Longrightarrow>
     xmr_quote_requests db' = xmr_quote_requests db \<and> xmr_quote_clock db' = xmr_quote_clock db
     \<and> xmr_rate_watermarks db' = xmr_rate_watermarks db"
  by (auto simp: register_xmr_intent_in_transaction_def res_simps insert_valuation_def Let_def
      split: if_splits option.splits)

lemma bind_quote_tables:
  assumes "bind_xmr_quote q intent now db = Inr (u, db')"
  shows "xmr_quote_requests db' = xmr_quote_requests db" "xmr_quote_clock db \<le> now \<and> 0 \<le> now"
    "xmr_quote_clock db' = now" "xmr_rate_watermarks db' = xmr_rate_watermarks db"
  using assms
  by (auto simp: bind_xmr_quote_def res_simps check_clock_ok insert_binding_def
      dest!: register_quote_tables split: option.splits if_splits)

lemma reserve_cases:
  assumes "reserve_xmr_quote request ident policy now db = Inr (found, db')"
  obtains (existing) row doc where "found = Some doc" "find_quote (qq_id request) db = Some row"
      "stored_result row ident now = Inr doc" "db' = db\<lparr>xmr_quote_clock := now\<rparr>"
      "xmr_quote_clock db \<le> now" "0 \<le> now"
  | (new) row where "found = None" "find_quote (qq_id request) db = None" "qr_id row = qq_id request"
      "qr_identity_json row = ident" "qr_client_bucket row = qq_client_bucket request"
      "qr_requested_at row = now" "qr_reservation_until row = now + RESERVATION_SECONDS"
      "qr_status row = Qs_reserved" "qr_document_json row = None"
      "db' = db\<lparr>xmr_quote_clock := now, xmr_quote_requests := xmr_quote_requests db @ [row]\<rparr>"
      "xmr_quote_clock db \<le> now" "0 \<le> now"
      "int (length (xmr_quote_requests db)) < uint (max_retained_requests policy)"
      "int (quotes_since (saturating_sub_i64 now (as_i64 (admission_window_seconds policy))) db)
         < uint (max_requests_per_window policy)"
      "int (client_quotes_since (qq_client_bucket request)
         (saturating_sub_i64 now (as_i64 (admission_window_seconds policy))) db)
         < uint (max_requests_per_client_window policy)"
      "int (pending_quotes now db) < uint (max_pending_requests policy)"
      "min_target_sats policy \<le> qq_target_sats request" "qq_target_sats request \<le> max_target_sats policy"
proof (cases "find_quote (qq_id request) db")
  case (Some row)
  then show thesis
    using assms existing
    by (auto simp: reserve_xmr_quote_def andthen_eq_Inr check_clock_ok find_quote_def)
next
  case None
  then have n: "find_quote (qq_id request) (db\<lparr>xmr_quote_clock := now\<rparr>) = None"
    by (simp add: find_quote_def)
  have counts: "quotes_since s (db\<lparr>xmr_quote_clock := now\<rparr>) = quotes_since s db"
    "client_quotes_since b s (db\<lparr>xmr_quote_clock := now\<rparr>) = client_quotes_since b s db"
    "pending_quotes now (db\<lparr>xmr_quote_clock := now\<rparr>) = pending_quotes now db" for b s
    by (simp_all add: quotes_since_def client_quotes_since_def pending_quotes_def)
  show thesis
    using assms n
    by (auto simp: reserve_xmr_quote_def andthen_eq_Inr check_clock_ok counts Let_def
        checked_add_i64_def not_le not_less split: if_splits intro!: new [OF _ None])
qed

lemma advance_tables:
  assumes "advance_watermark rate db = Inr db'"
  shows "xmr_quote_requests db' = xmr_quote_requests db" "xmr_quote_clock db' = xmr_quote_clock db"
  using assms by (auto simp: advance_watermark_def Let_def res_simps split: option.splits if_splits)

lemma complete_cases:
  assumes "complete_xmr_quote i ident q now db = Inr (u, db')"
  obtains row ws where "find_quote i db = Some row" "qr_status row = Qs_reserved"
    "qr_identity_json row = ident" "now < qr_reservation_until row" "sq_id q = i"
    "xq_issued_at (sq_quote q) = now" "xmr_quote_clock db \<le> now" "0 \<le> now"
    "advance_watermark (xq_rate (sq_quote q)) (db\<lparr>xmr_quote_clock := now\<rparr>) = Inr ws"
    "xmr_rate_watermarks db' = xmr_rate_watermarks ws" "xmr_quote_clock db' = now"
    "xmr_quote_requests db' = update_where (\<lambda>r. qr_id r = i \<and> qr_status r = Qs_reserved)
       (\<lambda>r. r\<lparr>qr_status := Qs_ready, qr_document_json := Some (sq_document_json q)\<rparr>)
       (xmr_quote_requests db)"
proof -
  from assms obtain row ws where
    "find_quote i (db\<lparr>xmr_quote_clock := now\<rparr>) = Some row" "qr_status row = Qs_reserved"
    "qr_identity_json row = ident" "now < qr_reservation_until row" "sq_id q = i"
    "xq_issued_at (sq_quote q) = now" "xmr_quote_clock db \<le> now" "0 \<le> now"
    and ws: "advance_watermark (xq_rate (sq_quote q)) (db\<lparr>xmr_quote_clock := now\<rparr>) = Inr ws"
    and db': "db' = ws\<lparr>xmr_quote_requests :=
         update_where (\<lambda>r. qr_id r = i \<and> qr_status r = Qs_reserved)
           (\<lambda>r. r\<lparr>qr_status := Qs_ready, qr_document_json := Some (sq_document_json q)\<rparr>)
           (xmr_quote_requests ws)\<rparr>"
    by (auto simp: complete_xmr_quote_def res_simps check_clock_ok not_le split: if_splits)
  then show thesis
    using advance_tables [OF ws] by (intro that [of row ws]) (simp_all add: find_quote_def)
qed

section \<open>The invariant is kept, and ready requests stay\<close>

lemma update_keeps:
  assumes "\<And>r. qr_id (f r) = qr_id r" "\<And>r. qr_requested_at (f r) = qr_requested_at r"
  shows "map qr_id (update_where p f rows) = map qr_id rows"
    "map qr_requested_at (update_where p f rows) = map qr_requested_at rows"
  using assms by (simp_all add: map_update_where)

lemma advance_sources:
  assumes "advance_watermark rate db = Inr db'" "distinct (map rw_source (xmr_rate_watermarks db))"
  shows "distinct (map rw_source (xmr_rate_watermarks db'))"
proof -
  have "map rw_source (update_where (\<lambda>w. rw_source w = rate_source rate) (\<lambda>_.
      \<lparr>rw_source = rate_source rate, rw_observed_at = a, rw_numerator = b, rw_denominator = c\<rparr>) ws)
    = map rw_source ws" for a b c ws
    by (rule map_update_where) simp
  moreover have "find (\<lambda>w. rw_source w = s) ws = None \<longleftrightarrow> s \<notin> rw_source ` set ws" for s and ws :: "watermark_row list"
    by (auto simp: find_None)
  ultimately show ?thesis
    using assms
    by (auto simp: advance_watermark_def Let_def res_simps split: option.splits if_splits)
qed

lemma quote_inv_rows:
  assumes "quote_inv db" "map qr_id (xmr_quote_requests db') = map qr_id (xmr_quote_requests db)"
    and "map qr_requested_at (xmr_quote_requests db') = map qr_requested_at (xmr_quote_requests db)"
    and "xmr_quote_clock db \<le> xmr_quote_clock db'"
    and "distinct (map rw_source (xmr_rate_watermarks db'))"
  shows "quote_inv db'"
proof -
  have "qr_requested_at ` set (xmr_quote_requests db') = qr_requested_at ` set (xmr_quote_requests db)"
    using arg_cong [where f = set, OF assms(3)] by simp
  moreover have "\<forall>t \<in> qr_requested_at ` set (xmr_quote_requests db). t \<le> xmr_quote_clock db"
    using assms(1) by (simp add: quote_inv_def)
  ultimately have "\<forall>t \<in> qr_requested_at ` set (xmr_quote_requests db'). t \<le> xmr_quote_clock db'"
    using assms(4) by (metis order_trans)
  then show ?thesis using assms unfolding quote_inv_def by (auto simp: assms(2,3))
qed

lemma quote_step_inv:
  assumes "quote_step policy e db db'" "quote_inv db"
  shows "quote_inv db' \<and> xmr_quote_clock db \<le> xmr_quote_clock db'"
  using assms(1)
proof (cases rule: quote_step.cases)
  case (qs_reserve request ident now found)
  from qs_reserve(2) show ?thesis
  proof (cases rule: reserve_cases)
    case (new row)
    then have "qq_id request \<notin> qr_id ` set (xmr_quote_requests db)"
      by (auto simp: find_quote_def find_None)
    then show ?thesis
      using assms(2) new by (auto simp: quote_inv_def sorted_append intro: order_trans)
  next
    case (existing row doc)
    then show ?thesis using assms(2) by (auto simp: quote_inv_def intro: order_trans)
  qed
next
  case (qs_complete i ident q now u)
  from qs_complete(2) show ?thesis
  proof (rule complete_cases)
    fix row ws
    assume c: "xmr_quote_clock db \<le> now" "xmr_quote_clock db' = now"
      and ws: "advance_watermark (xq_rate (sq_quote q)) (db\<lparr>xmr_quote_clock := now\<rparr>) = Inr ws"
        "xmr_rate_watermarks db' = xmr_rate_watermarks ws"
      and rows: "xmr_quote_requests db' = update_where (\<lambda>r. qr_id r = i \<and> qr_status r = Qs_reserved)
       (\<lambda>r. r\<lparr>qr_status := Qs_ready, qr_document_json := Some (sq_document_json q)\<rparr>)
       (xmr_quote_requests db)"
    have "distinct (map rw_source (xmr_rate_watermarks db'))"
      using advance_sources [OF ws(1)] assms(2) ws(2) by (simp add: quote_inv_def)
    then show ?thesis
      using quote_inv_rows [OF assms(2), of db'] c unfolding rows by (simp add: update_keeps)
  qed
next
  case (qs_fail i u)
  then have "xmr_quote_requests db' = update_where (\<lambda>r. qr_id r = i \<and> qr_status r = Qs_reserved)
         (\<lambda>r. r\<lparr>qr_status := Qs_failed\<rparr>) (xmr_quote_requests db)"
    "xmr_quote_clock db' = xmr_quote_clock db" "xmr_rate_watermarks db' = xmr_rate_watermarks db"
    by (auto simp: fail_xmr_quote_def)
  then show ?thesis
    using quote_inv_rows [OF assms(2), of db'] assms(2)
    by (simp add: update_keeps) (simp add: quote_inv_def)
next
  case (qs_bind q intent now u)
  note b = bind_quote_tables [OF qs_bind(2)]
  then show ?thesis
    using quote_inv_rows [OF assms(2), of db'] assms(2) by (simp add: b) (simp add: quote_inv_def)
next
  case qs_other
  then show ?thesis using assms(2) by (simp add: quote_inv_def)
qed

lemma ready_update:
  assumes "r \<in> set rows" "qr_status r = Qs_ready"
  shows "r \<in> set (update_where (\<lambda>r. qr_id r = i \<and> qr_status r = Qs_reserved) f rows)"
  using assms by (force simp: set_update_where)

lemma quote_step_ready:
  assumes "quote_step policy e db db'" "r \<in> set (xmr_quote_requests db)" "qr_status r = Qs_ready"
  shows "r \<in> set (xmr_quote_requests db')"
  using assms(1)
proof (cases rule: quote_step.cases)
  case (qs_reserve request ident now found)
  from qs_reserve(2) show ?thesis by (cases rule: reserve_cases) (use assms(2) in auto)
next
  case (qs_complete i ident q now u)
  from qs_complete(2) show ?thesis
    by (rule complete_cases) (simp add: ready_update [OF assms(2,3)])
next
  case (qs_fail i u)
  then show ?thesis using ready_update [OF assms(2,3)] by (auto simp: fail_xmr_quote_def)
next
  case (qs_bind q intent now u)
  then show ?thesis using bind_quote_tables(1) [OF qs_bind(2)] assms(2) by simp
next
  case qs_other
  then show ?thesis using assms(2) by simp
qed

lemma run_ready:
  assumes "run (quote_step policy) db tr db'" "quote_inv db"
    and "r \<in> set (xmr_quote_requests db)" "qr_status r = Qs_ready"
  shows "quote_inv db' \<and> r \<in> set (xmr_quote_requests db') \<and> xmr_quote_clock db \<le> xmr_quote_clock db'"
proof (rule run_invariant [OF assms(1), where I = "\<lambda>x. quote_inv x \<and> r \<in> set (xmr_quote_requests x)
    \<and> xmr_quote_clock db \<le> xmr_quote_clock x"])
  fix e t u
  assume s: "quote_step policy e t u" and t: "quote_inv t \<and> r \<in> set (xmr_quote_requests t)
    \<and> xmr_quote_clock db \<le> xmr_quote_clock t"
  then show "quote_inv u \<and> r \<in> set (xmr_quote_requests u) \<and> xmr_quote_clock db \<le> xmr_quote_clock u"
    using quote_step_inv [OF s] quote_step_ready [OF s _ assms(4)] by auto
qed (use assms(2,3) in simp)

section \<open>What \<open>create\<close> leaves behind\<close>

definition ready_row :: "quote_request \<Rightarrow> string \<Rightarrow> string \<Rightarrow> quote_row \<Rightarrow> bool" where
  "ready_row request ident doc r \<longleftrightarrow> qr_id r = qq_id request \<and> qr_identity_json r = ident
     \<and> qr_status r = Qs_ready \<and> qr_document_json r = Some doc"

lemma find_quote_Some: "find_quote i db = Some r \<Longrightarrow> r \<in> set (xmr_quote_requests db) \<and> qr_id r = i"
  by (auto simp: find_quote_def dest: find_Some_in)

lemma find_quote_row:
  "quote_inv db \<Longrightarrow> r \<in> set (xmr_quote_requests db) \<Longrightarrow> find_quote (qr_id r) db = Some r"
  by (simp add: find_quote_def quote_inv_def find_unique)

lemma decode_document: "decode pd pid sha doc ident = Inr stored \<Longrightarrow> sq_document_json stored = doc"
  by (auto simp: decode_def res_simps split: if_splits)

lemma quote_at_rate: "quote_at rate target issued expires age = Inr q \<Longrightarrow>
    xq_rate q = rate \<and> xq_issued_at q = issued \<and> xq_expires_at q = expires"
  by (auto simp: quote_at_def res_simps Let_def split: if_splits)

lemma xmr_btc_rate_new_Inr:
  "xmr_btc_rate_new num den source observed = Inr r \<longleftrightarrow>
     0 < num \<and> 0 < den \<and> source \<noteq> [] \<and> length source \<le> 96 \<and> list_all rate_source_byte source
     \<and> 0 \<le> observed
     \<and> r = \<lparr>sats_per_xmr_numerator = num, sats_per_xmr_denominator = den, rate_source = source,
            observed_at = observed\<rparr>"
  by (auto simp: xmr_btc_rate_new_def word_neq_0_conv)

lemma decode_positive:
  "decode_with codec doc ident = Inr stored \<Longrightarrow> 0 < sats_per_xmr_denominator (xq_rate (sq_quote stored))"
  by (auto simp: decode_with_def decode_def res_simps xmr_btc_rate_new_Inr dest!: quote_at_rate
      split: if_splits)

lemma issue_ready:
  assumes "issue_quote codec svc env request ident now db = Inr (stored, db1)" "quote_inv db"
  shows "\<exists>r \<in> set (xmr_quote_requests db1). ready_row request ident (sq_document_json stored) r"
    and "decode_with codec (sq_document_json stored) ident = Inr stored"
    and "\<exists>issued. complete_xmr_quote (qq_id request) ident stored issued db = Inr ((), db1)"
proof -
  from assms(1) obtain doc issued where d: "decode_with codec (qc_document_text codec doc) ident = Inr stored"
    and c: "complete_xmr_quote (qq_id request) ident stored issued db = Inr ((), db1)"
    by (auto simp: issue_quote_def res_simps)
  show "decode_with codec (sq_document_json stored) ident = Inr stored"
    using d decode_document [of _ _ _ "qc_document_text codec doc" ident stored]
    by (simp add: decode_with_def)
  show "\<exists>issued. complete_xmr_quote (qq_id request) ident stored issued db = Inr ((), db1)"
    using c by blast
  show "\<exists>r \<in> set (xmr_quote_requests db1). ready_row request ident (sq_document_json stored) r"
  proof (rule complete_cases [OF c])
    fix row ws
    assume row: "find_quote (qq_id request) db = Some row" "qr_status row = Qs_reserved"
      "qr_identity_json row = ident"
      and rows: "xmr_quote_requests db1 = update_where
        (\<lambda>r. qr_id r = qq_id request \<and> qr_status r = Qs_reserved)
        (\<lambda>r. r\<lparr>qr_status := Qs_ready, qr_document_json := Some (sq_document_json stored)\<rparr>)
        (xmr_quote_requests db)"
    let ?r = "row\<lparr>qr_status := Qs_ready, qr_document_json := Some (sq_document_json stored)\<rparr>"
    from find_quote_Some [OF row(1)] have "row \<in> set (xmr_quote_requests db)" "qr_id row = qq_id request"
      by auto
    then have "?r \<in> set (xmr_quote_requests db1)"
      unfolding rows set_update_where using row(2) by blast
    moreover have "ready_row request ident (sq_document_json stored) ?r"
      using row(3) \<open>qr_id row = _\<close> by (simp add: ready_row_def)
    ultimately show ?thesis by blast
  qed
qed

lemma create_ready:
  assumes "create codec svc env request db = (Inr stored, db1)" "quote_inv db"
  obtains ident r where "identity_new request (qv_context svc) = Inr ident"
    "r \<in> set (xmr_quote_requests db1)"
    "ready_row request (qc_identity_text codec ident) (sq_document_json stored) r"
    "decode_with codec (sq_document_json stored) (qc_identity_text codec ident) = Inr stored"
    "quote_inv db1"
proof -
  from assms(1) obtain ident now found db2 where
    ident: "identity_new request (qv_context svc) = Inr ident"
    and res: "reserve_xmr_quote request (qc_identity_text codec ident) (qv_policy svc) now db
      = Inr (found, db2)"
    and rest: "case found of
        Some doc \<Rightarrow> decode_with codec doc (qc_identity_text codec ident) = Inr stored \<and> db1 = db2
      | None \<Rightarrow> issue_quote codec svc env request (qc_identity_text codec ident) now db2
          = Inr (stored, db1)"
    by (auto simp: create_def Let_def fail_xmr_quote_def
        split: sum.splits if_splits option.splits prod.splits)
  have inv2: "quote_inv db2" using quote_step_inv [OF qs_reserve [OF res] assms(2)] by blast
  show thesis
  proof (cases found)
    case None
    with rest have i: "issue_quote codec svc env request (qc_identity_text codec ident) now db2
        = Inr (stored, db1)" by simp
    obtain issued where "complete_xmr_quote (qq_id request) (qc_identity_text codec ident) stored issued db2
        = Inr ((), db1)" using issue_ready(3) [OF i inv2] by blast
    then have "quote_inv db1"
      using quote_step_inv [OF qs_complete inv2] decode_positive [OF issue_ready(2) [OF i inv2]] by blast
    then show thesis using that [OF ident] issue_ready(1,2) [OF i inv2] by blast
  next
    case (Some doc)
    with rest have d: "decode_with codec doc (qc_identity_text codec ident) = Inr stored" "db1 = db2"
      by auto
    have doc: "sq_document_json stored = doc"
      using d(1) unfolding decode_with_def by (rule decode_document)
    from res Some obtain row where row: "find_quote (qq_id request) db = Some row"
      "stored_result row (qc_identity_text codec ident) now = Inr doc"
      "db2 = db\<lparr>xmr_quote_clock := now\<rparr>"
      by (auto elim: reserve_cases)
    from find_quote_Some [OF row(1)] row(2) have "row \<in> set (xmr_quote_requests db)"
      "ready_row request (qc_identity_text codec ident) doc row"
      by (auto simp: stored_result_def ready_row_def split: if_splits quote_status.splits)
    then show thesis using that [OF ident, of row] d inv2 row(3) doc by simp
  qed
qed

lemma replay:
  assumes "identity_new request (qv_context svc) = Inr ident" "r \<in> set (xmr_quote_requests db)"
    and "ready_row request (qc_identity_text codec ident) doc r" "quote_inv db"
    and "decode_with codec doc (qc_identity_text codec ident) = Inr stored"
    and "qe_slot_free env" "qe_now env = Some now" "xmr_quote_clock db \<le> now"
  shows "lookup codec svc env request db = Inr stored"
    and "create codec svc env request db = (Inr stored, db\<lparr>xmr_quote_clock := now\<rparr>)"
proof -
  have f: "find_quote (qq_id request) db = Some r"
    using find_quote_row [OF assms(4,2)] assms(3) by (simp add: ready_row_def)
  have t: "qr_requested_at r \<le> now" "0 \<le> now"
    using assms(2,4,8) by (auto simp: quote_inv_def intro: order_trans)
  have s: "stored_result r (qc_identity_text codec ident) now = Inr doc"
    using assms(3) t(1) by (simp add: stored_result_def ready_row_def)
  show "lookup codec svc env request db = Inr stored"
    using assms by (simp add: lookup_def read_xmr_quote_def f s)
  have "find_quote (qq_id request) (db\<lparr>xmr_quote_clock := now\<rparr>) = Some r"
    using f by (simp add: find_quote_def)
  then have "reserve_xmr_quote request (qc_identity_text codec ident) (qv_policy svc) now db
      = Inr (Some doc, db\<lparr>xmr_quote_clock := now\<rparr>)"
    using assms(8) t(2) s by (simp add: reserve_xmr_quote_def check_clock_def)
  then show "create codec svc env request db = (Inr stored, db\<lparr>xmr_quote_clock := now\<rparr>)"
    using assms by (simp add: create_def)
qed

section \<open>Admission limits\<close>

text \<open>Requests admitted in \<open>(t, t + w]\<close>, of all clients or of one.\<close>

definition requests_within :: "i64 \<Rightarrow> i64 \<Rightarrow> ledger_db \<Rightarrow> nat" where
  "requests_within t w db =
     count_where (\<lambda>r. t < qr_requested_at r \<and> qr_requested_at r \<le> t + w) (xmr_quote_requests db)"

definition client_requests_within :: "string \<Rightarrow> i64 \<Rightarrow> i64 \<Rightarrow> ledger_db \<Rightarrow> nat" where
  "client_requests_within b t w db = count_where (\<lambda>r. qr_client_bucket r = b \<and> t < qr_requested_at r
     \<and> qr_requested_at r \<le> t + w) (xmr_quote_requests db)"

definition limits_hold :: "quote_policy \<Rightarrow> ledger_db \<Rightarrow> bool" where
  "limits_hold policy db \<longleftrightarrow>
     int (length (xmr_quote_requests db)) \<le> uint (max_retained_requests policy)
     \<and> int (pending_quotes (xmr_quote_clock db) db) \<le> uint (max_pending_requests policy)
     \<and> (\<forall>t. int (requests_within t (uint (admission_window_seconds policy)) db)
            \<le> uint (max_requests_per_window policy))
     \<and> (\<forall>b t. int (client_requests_within b t (uint (admission_window_seconds policy)) db)
            \<le> uint (max_requests_per_client_window policy))"

lemma count_where_le: "(\<And>x. x \<in> set xs \<Longrightarrow> p x \<Longrightarrow> q x) \<Longrightarrow> count_where p xs \<le> count_where q xs"
  by (induction xs) (auto simp: count_where_def)

lemma count_where_update:
  "count_where p (update_where q f rs) = count_where (\<lambda>r. p (if q r then f r else r)) rs"
  by (induction rs) (simp_all add: count_where_def update_where_def)

text \<open>An operation that only changes the status of reserved requests keeps the limits.\<close>

lemma limits_hold_update:
  assumes "limits_hold policy db" "xmr_quote_clock db \<le> xmr_quote_clock db'"
    and "xmr_quote_requests db' = update_where p f (xmr_quote_requests db)"
    and "\<And>r. qr_requested_at (f r) = qr_requested_at r" "\<And>r. qr_client_bucket (f r) = qr_client_bucket r"
    and "\<And>r. qr_status (f r) \<noteq> Qs_reserved"
  shows "limits_hold policy db'"
proof -
  have "requests_within t w db' = requests_within t w db" for t w
    unfolding requests_within_def assms(3) count_where_update
    by (rule arg_cong2 [where f = count_where, OF _ refl]) (auto simp: assms(4))
  moreover have "client_requests_within b t w db' = client_requests_within b t w db" for b t w
    unfolding client_requests_within_def assms(3) count_where_update
    by (rule arg_cong2 [where f = count_where, OF _ refl]) (auto simp: assms(4,5) fun_eq_iff)
  moreover have "pending_quotes (xmr_quote_clock db') db' \<le> pending_quotes (xmr_quote_clock db) db"
    unfolding pending_quotes_def assms(3) count_where_update
    by (rule count_where_le) (use assms(2,6) in \<open>auto split: if_splits\<close>)
  ultimately show ?thesis
    using assms(1) by (simp add: limits_hold_def assms(3))
qed

lemma window_i64:
  assumes "policy_validate policy = Inr ()" "0 \<le> now"
  shows "saturating_sub_i64 now (as_i64 (admission_window_seconds policy))
      \<le> now - uint (admission_window_seconds policy)"
    and "0 < uint (admission_window_seconds policy)"
proof -
  let ?w = "admission_window_seconds policy"
  have w: "?w \<le> 86400" "?w \<noteq> 0" using assms(1) by (auto simp: policy_validate_def split: if_splits)
  then have u: "uint ?w \<le> 86400" by (simp add: word_le_def)
  have "sint ?w = uint ?w"
    unfolding sint_uint
    by (rule signed_take_bit_int_eq_self) (use u in \<open>simp_all add: order_trans [OF _ uint_ge_0]\<close>)
  then show "saturating_sub_i64 now (as_i64 ?w) \<le> now - uint ?w"
    using u assms(2) by (simp add: saturating_sub_i64_def as_i64_def i64_min_def)
  show "0 < uint ?w" using w(2) by (simp add: uint_0_iff order_less_le)
qed

lemma limits_hold_reserve:
  assumes "policy_validate policy = Inr ()" "limits_hold policy db"
    and "reserve_xmr_quote request ident policy now db = Inr (found, db')"
  shows "limits_hold policy db'"
  using assms(3)
proof (cases rule: reserve_cases)
  case (existing row doc)
  then have "pending_quotes now db \<le> pending_quotes (xmr_quote_clock db) db"
    unfolding pending_quotes_def by (intro count_where_le) auto
  then show ?thesis
    using assms(2) existing
    by (auto simp: limits_hold_def requests_within_def client_requests_within_def pending_quotes_def)
next
  case (new row)
  let ?w = "uint (admission_window_seconds policy)"
  let ?s = "saturating_sub_i64 now (as_i64 (admission_window_seconds policy))"
  note w = window_i64 [OF assms(1) new(12)]
  have "int (requests_within t ?w db') \<le> uint (max_requests_per_window policy)" for t
  proof (cases "t < now \<and> now \<le> t + ?w")
    case True
    then have "requests_within t ?w db \<le> quotes_since ?s db"
      using w(1) unfolding requests_within_def quotes_since_def by (intro count_where_le) auto
    moreover have "requests_within t ?w db' = requests_within t ?w db + 1"
      using True new by (simp add: requests_within_def table_simps)
    ultimately show ?thesis using new(14) by simp
  next
    case False
    then have "requests_within t ?w db' = requests_within t ?w db"
      using new by (auto simp: requests_within_def table_simps)
    then show ?thesis using assms(2) by (simp add: limits_hold_def)
  qed
  moreover have "int (client_requests_within b t ?w db') \<le> uint (max_requests_per_client_window policy)"
    for b t
  proof (cases "b = qq_client_bucket request \<and> t < now \<and> now \<le> t + ?w")
    case True
    then have "client_requests_within b t ?w db \<le> client_quotes_since b ?s db"
      using w(1) unfolding client_requests_within_def client_quotes_since_def
      by (intro count_where_le) auto
    moreover have "client_requests_within b t ?w db' = client_requests_within b t ?w db + 1"
      using True new by (simp add: client_requests_within_def table_simps)
    ultimately show ?thesis using new(15) True by simp
  next
    case False
    then have "client_requests_within b t ?w db' = client_requests_within b t ?w db"
      using new by (auto simp: client_requests_within_def table_simps)
    then show ?thesis using assms(2) by (simp add: limits_hold_def)
  qed
  moreover have "pending_quotes now db' \<le> pending_quotes now db + 1"
    using new by (simp add: pending_quotes_def table_simps)
  ultimately show ?thesis using new by (simp add: limits_hold_def)
qed

lemma quote_step_limits:
  assumes "quote_step policy e db db'" "policy_validate policy = Inr ()" "quote_inv db"
    and "limits_hold policy db"
  shows "limits_hold policy db'"
  using assms(1)
proof (cases rule: quote_step.cases)
  case (qs_reserve request ident now found)
  then show ?thesis using limits_hold_reserve [OF assms(2,4)] by blast
next
  case (qs_complete i ident q now u)
  from qs_complete(2) show ?thesis
    by (rule complete_cases) (rule limits_hold_update [OF assms(4),
        where f = "\<lambda>r. r\<lparr>qr_status := Qs_ready, qr_document_json := Some (sq_document_json q)\<rparr>"
          and p = "\<lambda>r. qr_id r = i \<and> qr_status r = Qs_reserved"], simp_all)
next
  case (qs_fail i u)
  then show ?thesis
    by (intro limits_hold_update [OF assms(4), where f = "\<lambda>r. r\<lparr>qr_status := Qs_failed\<rparr>"
        and p = "\<lambda>r. qr_id r = i \<and> qr_status r = Qs_reserved"]) (auto simp: fail_xmr_quote_def)
next
  case (qs_bind q intent now u)
  note b = bind_quote_tables [OF qs_bind(2)]
  show ?thesis
    by (rule limits_hold_update [OF assms(4), where f = "\<lambda>r. r\<lparr>qr_status := Qs_failed\<rparr>"
        and p = "\<lambda>_. False"]) (use b in \<open>simp_all add: update_where_unused\<close>)
next
  case qs_other
  show ?thesis
    by (rule limits_hold_update [OF assms(4), where f = "\<lambda>r. r\<lparr>qr_status := Qs_failed\<rparr>"
        and p = "\<lambda>_. False"]) (use qs_other in \<open>simp_all add: update_where_unused\<close>)
qed

lemma limits_hold_empty: "limits_hold policy empty_db"
  by (simp add: limits_hold_def empty_db_def pending_quotes_def requests_within_def
      client_requests_within_def count_where_def)

section \<open>Rate watermarks\<close>

definition watermark_rate :: "watermark_row \<Rightarrow> u64 \<Rightarrow> u64 \<Rightarrow> bool" where
  "watermark_rate w n d \<longleftrightarrow> rw_numerator w = show_u64 n \<and> rw_denominator w = show_u64 d \<and> 0 < d"

definition watermarks_ok :: "ledger_db \<Rightarrow> bool" where
  "watermarks_ok db \<longleftrightarrow> distinct (map rw_source (xmr_rate_watermarks db))
     \<and> (\<forall>w \<in> set (xmr_rate_watermarks db). \<exists>n d. watermark_rate w n d)"

definition same_rate :: "u64 \<Rightarrow> u64 \<Rightarrow> u64 \<Rightarrow> u64 \<Rightarrow> bool" where
  "same_rate n d n' d' \<longleftrightarrow> unat n * unat d' = unat n' * unat d"

text \<open>The watermark of the rate's source is newer than the rate, or is the rate.\<close>

definition rate_covered :: "xmr_btc_rate \<Rightarrow> ledger_db \<Rightarrow> bool" where
  "rate_covered r db \<longleftrightarrow> (\<exists>w n d. w \<in> set (xmr_rate_watermarks db) \<and> rw_source w = rate_source r
     \<and> watermark_rate w n d \<and> (observed_at r < rw_observed_at w \<or> (rw_observed_at w = observed_at r
     \<and> same_rate (sats_per_xmr_numerator r) (sats_per_xmr_denominator r) n d)))"

lemma same_rate_widen: "widen n * widen d' = widen n' * widen d \<longleftrightarrow> same_rate n d n' d'"
  unfolding same_rate_def unat_widen_mult [symmetric] by (rule word_eq_iff_unsigned)

lemma same_rate_trans:
  assumes "same_rate n d m e" "same_rate n' d' m e" "0 < e" "0 < d" "0 < d'"
  shows "same_rate n d n' d'"
proof -
  have "unat n * unat d' * unat e = unat n' * unat d * unat e"
    using assms(1,2) unfolding same_rate_def by (metis mult.assoc mult.commute)
  then show ?thesis using assms(3) by (simp add: same_rate_def word_less_nat_alt)
qed

lemma find_watermark:
  "watermarks_ok db \<Longrightarrow> w \<in> set (xmr_rate_watermarks db) \<Longrightarrow> rw_source w = s \<Longrightarrow>
     find (\<lambda>w. rw_source w = s) (xmr_rate_watermarks db) = Some w"
  using find_unique [of rw_source "xmr_rate_watermarks db" w] by (auto simp: watermarks_ok_def)

lemma advance_cases:
  assumes "advance_watermark rate db = Inr db'" "watermarks_ok db" "0 < sats_per_xmr_denominator rate"
  obtains (old) w n d where "w \<in> set (xmr_rate_watermarks db)" "rw_source w = rate_source rate"
      "watermark_rate w n d" "rw_observed_at w \<le> observed_at rate"
      "rw_observed_at w = observed_at rate \<longrightarrow> db' = db
         \<and> same_rate (sats_per_xmr_numerator rate) (sats_per_xmr_denominator rate) n d"
      "rw_observed_at w \<noteq> observed_at rate \<longrightarrow> xmr_rate_watermarks db' =
         update_where (\<lambda>w. rw_source w = rate_source rate) (\<lambda>_. \<lparr>rw_source = rate_source rate,
           rw_observed_at = observed_at rate, rw_numerator = show_u64 (sats_per_xmr_numerator rate),
           rw_denominator = show_u64 (sats_per_xmr_denominator rate)\<rparr>) (xmr_rate_watermarks db)"
  | (fresh) "rate_source rate \<notin> rw_source ` set (xmr_rate_watermarks db)"
      "xmr_rate_watermarks db' = xmr_rate_watermarks db @ [\<lparr>rw_source = rate_source rate,
           rw_observed_at = observed_at rate, rw_numerator = show_u64 (sats_per_xmr_numerator rate),
           rw_denominator = show_u64 (sats_per_xmr_denominator rate)\<rparr>]"
proof (cases "find (\<lambda>w. rw_source w = rate_source rate) (xmr_rate_watermarks db)")
  case None
  from assms(1) have "xmr_rate_watermarks db' = xmr_rate_watermarks db @ [\<lparr>rw_source = rate_source rate,
      rw_observed_at = observed_at rate, rw_numerator = show_u64 (sats_per_xmr_numerator rate),
      rw_denominator = show_u64 (sats_per_xmr_denominator rate)\<rparr>]"
    by (auto simp: advance_watermark_def None)
  with None show thesis by (intro fresh) (auto simp: find_None)
next
  case (Some w)
  from find_Some_in [OF Some] have w: "w \<in> set (xmr_rate_watermarks db)" "rw_source w = rate_source rate"
    by auto
  then obtain n d where r: "watermark_rate w n d" using assms(2) by (auto simp: watermarks_ok_def)
  then have "parse_u64 (rw_numerator w) = Some n" "parse_u64 (rw_denominator w) = Some d"
    by (simp_all add: watermark_rate_def)
  then show thesis
    using assms(1) Some
    by (intro old [OF w r]) (auto simp: advance_watermark_def Let_def same_rate_widen
        split: if_splits)
qed

lemma advance_ok:
  assumes "advance_watermark rate db = Inr db'" "watermarks_ok db" "0 < sats_per_xmr_denominator rate"
  shows "watermarks_ok db'"
proof -
  have d: "distinct (map rw_source (xmr_rate_watermarks db'))"
    using advance_sources [OF assms(1)] assms(2) by (simp add: watermarks_ok_def)
  have row: "watermark_rate \<lparr>rw_source = s, rw_observed_at = t,
      rw_numerator = show_u64 n, rw_denominator = show_u64 (sats_per_xmr_denominator rate)\<rparr>
      n (sats_per_xmr_denominator rate)" for s t n
    using assms(3) by (simp add: watermark_rate_def)
  have "\<exists>n d. watermark_rate w n d" if w: "w \<in> set (xmr_rate_watermarks db')" for w
    using assms
  proof (cases rule: advance_cases)
    case (old v n d)
    then show ?thesis
      using w assms(2) row by (cases "rw_observed_at v = observed_at rate")
        (auto simp: watermarks_ok_def set_update_where, blast)
  next
    case fresh
    then show ?thesis using w assms(2) row by (auto simp: watermarks_ok_def, blast)
  qed
  with d show ?thesis by (simp add: watermarks_ok_def)
qed

lemma rate_covered_self:
  assumes "advance_watermark rate db = Inr db'" "watermarks_ok db" "0 < sats_per_xmr_denominator rate"
  shows "rate_covered rate db'"
proof -
  let ?row = "\<lparr>rw_source = rate_source rate, rw_observed_at = observed_at rate,
     rw_numerator = show_u64 (sats_per_xmr_numerator rate),
     rw_denominator = show_u64 (sats_per_xmr_denominator rate)\<rparr>"
  have row: "?row \<in> set (xmr_rate_watermarks db') \<Longrightarrow> rate_covered rate db'"
    unfolding rate_covered_def using assms(3)
    by (intro exI [of _ ?row] exI [of _ "sats_per_xmr_numerator rate"]
        exI [of _ "sats_per_xmr_denominator rate"]) (simp add: watermark_rate_def same_rate_def)
  from assms show ?thesis
  proof (cases rule: advance_cases)
    case (old w n d)
    show ?thesis
    proof (cases "rw_observed_at w = observed_at rate")
      case True
      with old show ?thesis unfolding rate_covered_def by blast
    next
      case False
      with old show ?thesis by (intro row) (auto simp: set_update_where)
    qed
  next
    case fresh
    then show ?thesis by (intro row) simp
  qed
qed

lemma rate_covered_advance:
  assumes "rate_covered r db" "advance_watermark rate db = Inr db'" "watermarks_ok db"
    and "0 < sats_per_xmr_denominator rate"
  shows "rate_covered r db'"
    and "0 < sats_per_xmr_denominator r \<Longrightarrow> rate_source r = rate_source rate \<Longrightarrow>
      observed_at r \<le> observed_at rate \<and> (observed_at r = observed_at rate \<longrightarrow>
        same_rate (sats_per_xmr_numerator r) (sats_per_xmr_denominator r)
          (sats_per_xmr_numerator rate) (sats_per_xmr_denominator rate))"
proof -
  from assms(1) obtain w n d where w: "w \<in> set (xmr_rate_watermarks db)" "rw_source w = rate_source r"
    "watermark_rate w n d"
    and r: "observed_at r < rw_observed_at w \<or> (rw_observed_at w = observed_at r
      \<and> same_rate (sats_per_xmr_numerator r) (sats_per_xmr_denominator r) n d)"
    unfolding rate_covered_def by blast
  have same: "v = w" if "v \<in> set (xmr_rate_watermarks db)" "rw_source v = rate_source r" for v
    using find_watermark [OF assms(3) that] find_watermark [OF assms(3) w(1,2)] by simp
  have eq: "n' = n \<and> d' = d" if "watermark_rate w n' d'" for n' d'
    using that w(3) by (simp add: watermark_rate_def)
  have keep: "w \<in> set (xmr_rate_watermarks db') \<Longrightarrow> rate_covered r db'"
    unfolding rate_covered_def using w r by blast
  have "rate_covered r db' \<and> (0 < sats_per_xmr_denominator r \<longrightarrow> rate_source r = rate_source rate \<longrightarrow>
      observed_at r \<le> observed_at rate \<and> (observed_at r = observed_at rate \<longrightarrow>
        same_rate (sats_per_xmr_numerator r) (sats_per_xmr_denominator r)
          (sats_per_xmr_numerator rate) (sats_per_xmr_denominator rate)))"
    using assms(2-4)
  proof (cases rule: advance_cases)
    case (old v m e)
    show ?thesis
    proof (cases "rate_source r = rate_source rate")
      case True
      then have v: "v = w" using same old by simp
      with old eq have me: "m = n" "e = d" by auto
      show ?thesis
      proof (cases "rw_observed_at v = observed_at rate")
        case same_time: True
        then have "rate_covered r db'" using old assms(1) by simp
        moreover have "same_rate (sats_per_xmr_numerator r) (sats_per_xmr_denominator r)
            (sats_per_xmr_numerator rate) (sats_per_xmr_denominator rate)"
          if "observed_at r = observed_at rate" "0 < sats_per_xmr_denominator r"
          using same_rate_trans [of _ _ n d] that r old(5) same_time v me w(3) assms(4)
          by (auto simp: watermark_rate_def)
        ultimately show ?thesis using r old(4) v by auto
      next
        case False
        then have less: "observed_at r < observed_at rate" using r old(4) v by auto
        from rate_covered_self [OF assms(2-4)] obtain w' n' d' where
          "w' \<in> set (xmr_rate_watermarks db')" "rw_source w' = rate_source rate"
          "watermark_rate w' n' d'" "observed_at rate \<le> rw_observed_at w'"
          unfolding rate_covered_def by force
        then have "rate_covered r db'"
          unfolding rate_covered_def using True less by (metis order_less_le_trans)
        then show ?thesis using less by simp
      qed
    next
      case False
      then have "w \<in> set (xmr_rate_watermarks db')"
        using old w by (cases "rw_observed_at v = observed_at rate") (auto simp: set_update_where)
      then show ?thesis using keep False by simp
    qed
  next
    case fresh
    then have "rate_source r \<noteq> rate_source rate" using w(1,2) by (metis imageI)
    with fresh show ?thesis using keep w by auto
  qed
  then show "rate_covered r db'"
    and "0 < sats_per_xmr_denominator r \<Longrightarrow> rate_source r = rate_source rate \<Longrightarrow>
      observed_at r \<le> observed_at rate \<and> (observed_at r = observed_at rate \<longrightarrow>
        same_rate (sats_per_xmr_numerator r) (sats_per_xmr_denominator r)
          (sats_per_xmr_numerator rate) (sats_per_xmr_denominator rate))"
    by blast+
qed

lemma step_watermarks:
  assumes "quote_step policy e db db'"
  obtains (kept) "xmr_rate_watermarks db' = xmr_rate_watermarks db" "\<forall>q. e \<noteq> Call_complete q"
  | (completed) q dbc ws where "e = Call_complete q" "0 < sats_per_xmr_denominator (xq_rate (sq_quote q))"
      "xmr_rate_watermarks dbc = xmr_rate_watermarks db"
      "advance_watermark (xq_rate (sq_quote q)) dbc = Inr ws"
      "xmr_rate_watermarks db' = xmr_rate_watermarks ws"
  using assms
proof (cases rule: quote_step.cases)
  case (qs_reserve request ident now found)
  from qs_reserve(2) have "xmr_rate_watermarks db' = xmr_rate_watermarks db"
    by (cases rule: reserve_cases) auto
  with qs_reserve show thesis by (intro kept) auto
next
  case (qs_complete i ident q now u)
  from qs_complete(2) show thesis
    by (rule complete_cases) (rule completed [OF qs_complete(1,3)], auto)
next
  case (qs_fail i u)
  then show thesis by (intro kept) (auto simp: fail_xmr_quote_def)
next
  case (qs_bind q intent now u)
  then show thesis using bind_quote_tables(4) [OF qs_bind(2)] by (intro kept) auto
next
  case qs_other
  then show thesis by (intro kept) auto
qed

lemma watermark_congs:
  assumes "xmr_rate_watermarks db' = xmr_rate_watermarks db"
  shows "watermarks_ok db' = watermarks_ok db" "rate_covered r db' = rate_covered r db"
  by (simp_all add: watermarks_ok_def rate_covered_def assms)

lemma step_watermarks_ok:
  assumes "quote_step policy e db db'" "watermarks_ok db"
  shows "watermarks_ok db'" and "rate_covered r db \<Longrightarrow> rate_covered r db'"
proof -
  from assms(1) have "watermarks_ok db' \<and> (rate_covered r db \<longrightarrow> rate_covered r db')"
  proof (cases rule: step_watermarks)
    case kept
    then show ?thesis using watermark_congs [OF kept(1)] assms(2) by simp
  next
    case (completed q dbc ws)
    then have "watermarks_ok dbc" using watermark_congs(1) [OF completed(3)] assms(2) by simp
    with completed(2,4) show ?thesis
      using advance_ok rate_covered_advance(1) watermark_congs [OF completed(3)]
        watermark_congs [OF completed(5)] by metis
  qed
  then show "watermarks_ok db'" and "rate_covered r db \<Longrightarrow> rate_covered r db'" by blast+
qed

definition rate_forward :: "xmr_btc_rate \<Rightarrow> xmr_btc_rate \<Rightarrow> bool" where
  "rate_forward r r' \<longleftrightarrow> rate_source r = rate_source r' \<longrightarrow>
     observed_at r \<le> observed_at r' \<and> (observed_at r = observed_at r' \<longrightarrow>
       same_rate (sats_per_xmr_numerator r) (sats_per_xmr_denominator r)
         (sats_per_xmr_numerator r') (sats_per_xmr_denominator r'))"

lemma complete_rate:
  assumes "quote_step policy (Call_complete q) db db'" "watermarks_ok db"
  shows "0 < sats_per_xmr_denominator (xq_rate (sq_quote q))"
    and "rate_covered (xq_rate (sq_quote q)) db'"
    and "rate_covered r db \<Longrightarrow> 0 < sats_per_xmr_denominator r \<Longrightarrow> rate_forward r (xq_rate (sq_quote q))"
proof -
  from assms(1) obtain dbc ws where pos: "0 < sats_per_xmr_denominator (xq_rate (sq_quote q))"
    and c: "xmr_rate_watermarks dbc = xmr_rate_watermarks db"
    and a: "advance_watermark (xq_rate (sq_quote q)) dbc = Inr ws"
    and d: "xmr_rate_watermarks db' = xmr_rate_watermarks ws"
    by (cases rule: step_watermarks) auto
  have ok: "watermarks_ok dbc" using assms(2) watermark_congs(1) [OF c] by simp
  show "0 < sats_per_xmr_denominator (xq_rate (sq_quote q))" by (rule pos)
  show "rate_covered (xq_rate (sq_quote q)) db'"
    using rate_covered_self [OF a ok pos] watermark_congs(2) [OF d] by simp
  show "rate_forward r (xq_rate (sq_quote q))" if "rate_covered r db" "0 < sats_per_xmr_denominator r"
    using rate_covered_advance(2) [OF _ a ok pos] that watermark_congs(2) [OF c]
    unfolding rate_forward_def by simp
qed

lemma run_watermarks:
  assumes "run (quote_step policy) db tr db'" "watermarks_ok db"
  shows "watermarks_ok db' \<and> (rate_covered r db \<longrightarrow> rate_covered r db')"
  using assms
proof (induction rule: run.induct)
  case (run_snoc s es t e u)
  then show ?case using step_watermarks_ok [OF run_snoc.hyps(2)] by blast
qed simp

lemma completes_forward:
  assumes "run (quote_step policy) db (xs @ Call_complete q # ys @ Call_complete q' # zs) db'"
    and "watermarks_ok db"
  shows "rate_forward (xq_rate (sq_quote q)) (xq_rate (sq_quote q'))"
proof -
  note app = run_append [where step = "quote_step policy"] and cons = run_Cons [where step = "quote_step policy"]
  obtain t1 where 1: "run (quote_step policy) db xs t1"
    and r1: "run (quote_step policy) t1 (Call_complete q # ys @ Call_complete q' # zs) db'"
    using app [OF assms(1)] by blast
  obtain t2 where 2: "quote_step policy (Call_complete q) t1 t2"
    and r2: "run (quote_step policy) t2 (ys @ Call_complete q' # zs) db'"
    using cons [OF r1] by blast
  obtain t3 where 3: "run (quote_step policy) t2 ys t3"
    and r3: "run (quote_step policy) t3 (Call_complete q' # zs) db'"
    using app [OF r2] by blast
  obtain t4 where 4: "quote_step policy (Call_complete q') t3 t4" using cons [OF r3] by blast
  note w1 = run_watermarks [OF 1 assms(2)]
  then have w: "watermarks_ok t2" using step_watermarks_ok(1) [OF 2] by blast
  from complete_rate(1,2) [OF 2] w1 have "rate_covered (xq_rate (sq_quote q)) t2"
    "0 < sats_per_xmr_denominator (xq_rate (sq_quote q))" by blast+
  then show ?thesis
    using run_watermarks [OF 3 w] complete_rate(3) [OF 4] by blast
qed

lemma watermarks_ok_empty: "watermarks_ok empty_db"
  by (simp add: watermarks_ok_def empty_db_def)

end
