(* ===== verification/Quote_Properties.thy ===== *)
theory Quote_Properties
  imports Quote_Runs
begin

text \<open>
  What the quote service promises: an issued document decodes, a decoded quote is sound, a created
  quote never changes, the admission limits hold in every window, and rates only move forward.
\<close>

section \<open>What a decoded document satisfies\<close>

lemma decode_Inr:
  "decode pd pid sha doc ident = Inr s \<longleftrightarrow>
     (\<exists>d i num den rate q. pd doc = Some d \<and> doc_version d = 1 \<and> doc_identity d = ident
       \<and> pid ident = Some i \<and> policy_validate (doc_policy d) = Inr ()
       \<and> parse_u64 (doc_numerator d) = Some num \<and> parse_u64 (doc_denominator d) = Some den
       \<and> xmr_btc_rate_new num den (doc_source d) (doc_observed_at d) = Inr rate
       \<and> validate_rate rate (doc_policy d) = Inr ()
       \<and> quote_at rate (idn_target_sats i) (doc_issued_at d) (doc_expires_at d)
           (max_rate_age_seconds (doc_policy d)) = Inr q
       \<and> document_consistent sha d i q
       \<and> s = \<lparr>sq_document_json = doc, sq_document = d, sq_identity = i, sq_quote = q\<rparr>)"
  by (simp add: decode_def res_simps guard_Inr) blast

lemma quote_at_terms:
  "quote_at rate target issued expires age = Inr q \<Longrightarrow> \<exists>e. quoted_xmr e target = Inr (xq_terms q)"
  by (auto simp: quote_at_def res_simps Let_def guard_Inr)

lemma new_document_Inr:
  "new_document codec svc request identity now ev issued = Inr d \<longleftrightarrow>
     rate_source (re_rate ev) = qv_source_id svc \<and> now \<le> re_fetched_at ev \<and> re_fetched_at ev \<le> issued
     \<and> validate_rate (re_rate ev) (qv_policy svc) = Inr ()
     \<and> in_i64 (issued + as_i64 (lifetime_seconds (qv_policy svc)))
     \<and> (\<exists>q. quote_at (re_rate ev) (qq_target_sats request) issued
           (issued + as_i64 (lifetime_seconds (qv_policy svc))) (max_rate_age_seconds (qv_policy svc)) = Inr q
         \<and> expected_atomic (xq_terms q) \<le> max_piconero (qv_policy svc)
         \<and> d = \<lparr>doc_version = 1, doc_identity = identity, doc_policy = qv_policy svc,
             doc_numerator = show_u64 (sats_per_xmr_numerator (re_rate ev)),
             doc_denominator = show_u64 (sats_per_xmr_denominator (re_rate ev)),
             doc_source = rate_source (re_rate ev), doc_observed_at = observed_at (re_rate ev),
             doc_fetched_at = re_fetched_at ev, doc_issued_at = issued,
             doc_expires_at = issued + as_i64 (lifetime_seconds (qv_policy svc)),
             doc_expected_atomic = expected_atomic (xq_terms q), doc_evidence = re_raw_json ev,
             doc_evidence_sha256 = qc_sha256_hex codec (re_raw_json ev)\<rparr>)"
  by (auto simp: new_document_def res_simps checked_add_i64_def not_less not_le)

lemma lifetime_uint:
  assumes "policy_validate policy = Inr ()"
  shows "as_i64 (lifetime_seconds policy) = uint (lifetime_seconds policy)"
    and "0 < uint (lifetime_seconds policy)"
proof -
  let ?w = "lifetime_seconds policy"
  have w: "?w \<le> 86400" "?w \<noteq> 0" using assms by (auto simp: policy_validate_def split: if_splits)
  then have u: "uint ?w \<le> 86400" by (simp add: word_le_def)
  show "as_i64 ?w = uint ?w"
    unfolding as_i64_def sint_uint
    by (rule signed_take_bit_int_eq_self) (use u in \<open>simp_all add: order_trans [OF _ uint_ge_0]\<close>)
  show "0 < uint ?w" using w(2) by (simp add: uint_0_iff order_less_le)
qed

lemma validate_rate_ok:
  "validate_rate rate policy = Inr () \<longleftrightarrow>
     unat (min_sats_per_xmr policy) * unat (sats_per_xmr_denominator rate) \<le> unat (sats_per_xmr_numerator rate)
     \<and> unat (sats_per_xmr_numerator rate) \<le> unat (max_sats_per_xmr policy) * unat (sats_per_xmr_denominator rate)"
  by (auto simp: validate_rate_def Let_def word_less_nat_alt unat_widen unat_widen_mult not_less)

text \<open>
  C30: Issuing never trips over its own checks: a document that \<open>create\<close> builds from a valid policy,
  a valid rate with checked evidence and a request within the target bounds decodes again, whenever
  the JSON codec reads back what it wrote. The stored quote carries the rate of the evidence, the
  target of the request, and expires one lifetime after it was issued.
\<close>

theorem issued_documents_decode:
  assumes "policy_validate (qv_policy svc) = Inr ()"
    and "xmr_btc_rate_new num den source observed = Inr rate"
    and "rate_evidence_new parse_value rate fetched raw = Inr ev"
    and "identity_new request context = Inr ident"
    and "min_target_sats (qv_policy svc) \<le> qq_target_sats request"
    and "qq_target_sats request \<le> max_target_sats (qv_policy svc)"
    and "new_document codec svc request identity now ev issued = Inr d"
    and "qc_parse_document codec (qc_document_text codec d) = Some d"
    and "qc_parse_identity codec identity = Some ident"
  shows "\<exists>stored. decode_with codec (qc_document_text codec d) identity = Inr stored
    \<and> sq_id stored = qq_id request \<and> sq_document stored = d
    \<and> xq_rate (sq_quote stored) = rate
    \<and> target_sats (xq_terms (sq_quote stored)) = qq_target_sats request
    \<and> xq_issued_at (sq_quote stored) = issued
    \<and> xq_expires_at (sq_quote stored) = issued + uint (lifetime_seconds (qv_policy svc))"
proof -
  note life = lifetime_uint [OF assms(1)]
  have ev: "re_rate ev = rate" "observed_at rate \<le> re_fetched_at ev" "re_raw_json ev \<noteq> []"
    "length (re_raw_json ev) \<le> MAX_RATE_EVIDENCE_BYTES"
    using assms(3) by (auto simp: rate_evidence_new_def split: if_splits option.splits)
  have ident: "idn_target_sats ident = qq_target_sats request" "idn_id ident = qq_id request"
    using assms(4) by (auto simp: identity_new_def split: if_splits)
  from assms(7) obtain q where q: "quote_at rate (qq_target_sats request) issued
      (issued + uint (lifetime_seconds (qv_policy svc))) (max_rate_age_seconds (qv_policy svc)) = Inr q"
    unfolding new_document_Inr ev(1) life(1) by blast
  let ?s = "\<lparr>sq_document_json = qc_document_text codec d, sq_document = d, sq_identity = ident, sq_quote = q\<rparr>"
  have rate: "xmr_btc_rate_new (sats_per_xmr_numerator rate) (sats_per_xmr_denominator rate)
      (rate_source rate) (observed_at rate) = Inr rate"
    using assms(2) by (auto simp: xmr_btc_rate_new_Inr)
  have sub: "checked_sub_i64 (issued + uint (lifetime_seconds (qv_policy svc))) issued
      = Some (uint (lifetime_seconds (qv_policy svc)))"
    using lifetime_uint(1) [OF assms(1)] sint_ge [of "lifetime_seconds (qv_policy svc)"]
      sint_lt [of "lifetime_seconds (qv_policy svc)"]
    by (simp add: checked_sub_i64_def in_i64_def i64_min_def i64_max_def as_i64_def)
  have "document_consistent (qc_sha256_hex codec) d ident q"
    using assms(5-7) q ev sub
    unfolding new_document_Inr ev(1) life(1) document_consistent_def
    by (auto simp: ident life(1) not_less)
  then have "decode_with codec (qc_document_text codec d) identity = Inr ?s"
    using assms(1,7,8,9) q rate
    unfolding decode_with_def decode_Inr new_document_Inr ev(1) life(1)
    by (auto simp: ident)
  moreover have "target_sats (xq_terms q) = qq_target_sats request"
    using quote_at_terms [OF q] by (auto simp: quoted_xmr_Inr)
  ultimately show ?thesis
    using quote_at_rate [OF q] ident by (intro exI [of _ ?s]) (simp add: sq_id_def)
qed

text \<open>A small world for the witnesses: one policy, one rate, one request of 300 sats.\<close>

definition sample_policy :: quote_policy where
  "sample_policy = \<lparr>min_target_sats = 1, max_target_sats = 1000, max_credit_sats = 1000,
     max_piconero = 1000000000000, lifetime_seconds = 600, max_rate_age_seconds = 300,
     min_sats_per_xmr = 1, max_sats_per_xmr = 1000000000, admission_window_seconds = 3600,
     max_requests_per_window = 10, max_requests_per_client_window = 2, max_pending_requests = 5,
     max_retained_requests = 100\<rparr>"

definition sample_rate :: xmr_btc_rate where
  "sample_rate = \<lparr>sats_per_xmr_numerator = 300000, sats_per_xmr_denominator = 1,
     rate_source = ''kraken'', observed_at = 90\<rparr>"

definition sample_request :: quote_request where
  "sample_request = \<lparr>qq_id = ''q1'', qq_client_bucket = replicate 64 CHR ''0'',
     qq_address_user = ''herd'', qq_target_sats = 300\<rparr>"

definition sample_context :: quote_context where
  "sample_context = \<lparr>qc_provider = ''wallet'', qc_account_scope = ''acct'', qc_network = Mainnet\<rparr>"

definition sample_service :: quote_service where
  "sample_service = \<lparr>qv_context = sample_context, qv_policy = sample_policy, qv_source_id = ''kraken''\<rparr>"

definition sample_identity :: identity where
  "sample_identity = \<lparr>idn_id = ''q1'', idn_client_bucket = replicate 64 CHR ''0'',
     idn_address_user = ''herd'', idn_target_sats = 300, idn_provider = ''wallet'',
     idn_account_scope = ''acct'', idn_network = ''mainnet''\<rparr>"

definition sample_evidence :: rate_evidence where
  "sample_evidence = \<lparr>re_rate = sample_rate, re_fetched_at = 100, re_raw_json = ''{}''\<rparr>"

definition sample_document :: document where
  "sample_document = \<lparr>doc_version = 1, doc_identity = ''i'', doc_policy = sample_policy,
     doc_numerator = show_u64 300000, doc_denominator = show_u64 1, doc_source = ''kraken'',
     doc_observed_at = 90, doc_fetched_at = 100, doc_issued_at = 101, doc_expires_at = 701,
     doc_expected_atomic = 1000000000, doc_evidence = ''{}'', doc_evidence_sha256 = ''h''\<rparr>"

definition sample_codec :: quote_codec where
  "sample_codec = \<lparr>qc_identity_text = (\<lambda>_. ''i''), qc_document_text = (\<lambda>_. ''d''),
     qc_parse_identity = (\<lambda>_. Some sample_identity), qc_parse_document = (\<lambda>_. Some sample_document),
     qc_sha256_hex = (\<lambda>_. ''h'')\<rparr>"

definition sample_quote :: xmr_quote where
  "sample_quote = \<lparr>xq_terms = \<lparr>ct_asset = Xmr, expected_atomic = 1000000000, target_sats = 300\<rparr>,
     xq_rate = sample_rate, xq_issued_at = 101, xq_expires_at = 701\<rparr>"

definition sample_stored :: stored_xmr_quote where
  "sample_stored = \<lparr>sq_document_json = ''d'', sq_document = sample_document,
     sq_identity = sample_identity, sq_quote = sample_quote\<rparr>"

lemma sample_facts:
  "policy_validate sample_policy = Inr ()"
  "identity_new sample_request sample_context = Inr sample_identity"
  "xmr_btc_rate_new 300000 1 ''kraken'' 90 = Inr sample_rate"
  "rate_evidence_new (\<lambda>_. Some ()) sample_rate 100 ''{}'' = Inr sample_evidence"
  by (simp_all add: policy_validate_def sample_policy_def MAX_ACCOUNTING_UNITS_def identity_new_def
      sample_request_def sample_context_def sample_identity_def nil_uuid_def bucket_byte_def
      is_ascii_digit_def byte_def source_byte_def is_ascii_alphanumeric_def is_ascii_lowercase_def is_ascii_uppercase_def
      xmr_btc_rate_new_def sample_rate_def rate_source_byte_def
      rate_evidence_new_def sample_evidence_def MAX_RATE_EVIDENCE_BYTES_def list_all_iff)

lemma sample_quoted: "quote_at sample_rate 300 101 701 300 = Inr sample_quote"
  by (simp add: quote_at_Inr valid_rate_def i64_max_def MAX_ACCOUNTING_UNITS_def
        quote_numerator_def ceil_div_def sample_rate_def sample_quote_def)

lemma sample_new_document:
  "new_document sample_codec sample_service sample_request ''i'' 100 sample_evidence 101 = Inr sample_document"
  using sample_quoted lifetime_uint(1) [OF sample_facts(1)]
  unfolding new_document_Inr
  by (intro conjI exI [of _ sample_quote])
    (simp_all add: sample_evidence_def sample_service_def sample_rate_def sample_policy_def
      sample_codec_def sample_request_def sample_document_def validate_rate_ok in_i64_def i64_max_def
      i64_min_def sample_quote_def)

lemma sample_decode:
  "decode (\<lambda>_. Some sample_document) (\<lambda>_. Some sample_identity) (\<lambda>_. ''h'') ''d'' ''i''
    = Inr sample_stored"
  unfolding decode_Inr
  by (rule exI [of _ sample_document], rule exI [of _ sample_identity], rule exI [of _ 300000],
      rule exI [of _ 1], rule exI [of _ sample_rate], rule exI [of _ sample_quote])
    (use sample_facts sample_quoted in \<open>simp add: sample_document_def sample_identity_def
      sample_stored_def document_consistent_def sample_policy_def sample_quote_def checked_sub_i64_def
      in_i64_def i64_min_def i64_max_def as_i64_def MAX_RATE_EVIDENCE_BYTES_def validate_rate_ok
      sample_rate_def\<close>)

theorem issued_documents_decode_witness:
  "\<exists>stored. decode_with sample_codec ''d'' ''i'' = Inr stored \<and> sq_id stored = ''q1''
    \<and> xq_expires_at (sq_quote stored) = 701"
  using issued_documents_decode [OF _ sample_facts(3,4,2) _ _ sample_new_document]
  by (auto simp: sample_service_def sample_facts sample_request_def sample_codec_def)
    (simp_all add: sample_policy_def, blast)

section \<open>A decoded quote is sound\<close>

text \<open>
  C29: Whatever text is read from the database, a quote that decodes is well formed: its policy is
  valid, its rate is positive, was observed before it was fetched and fetched before the issue, lies
  within the policy's bounds and is not stale, the target lies within its bounds, the amount is the
  least that covers the target at that rate and does not exceed the cap, the lifetime is the
  policy's, and the evidence has the recorded digest.
\<close>

theorem decoded_quote_is_sound:
  assumes "decode pd pid sha doc ident = Inr s"
    and "in_i64 (doc_observed_at (sq_document s))" "in_i64 (doc_issued_at (sq_document s))"
  shows "valid_rate (xq_rate (sq_quote s)) \<and> valid_terms (xq_terms (sq_quote s))
    \<and> policy_validate (doc_policy (sq_document s)) = Inr ()
    \<and> observed_at (xq_rate (sq_quote s)) \<le> doc_fetched_at (sq_document s)
    \<and> doc_fetched_at (sq_document s) \<le> xq_issued_at (sq_quote s)
    \<and> xq_issued_at (sq_quote s) - observed_at (xq_rate (sq_quote s))
        \<le> uint (max_rate_age_seconds (doc_policy (sq_document s)))
    \<and> xq_expires_at (sq_quote s)
        = xq_issued_at (sq_quote s) + uint (lifetime_seconds (doc_policy (sq_document s)))
    \<and> min_target_sats (doc_policy (sq_document s)) \<le> target_sats (xq_terms (sq_quote s))
    \<and> target_sats (xq_terms (sq_quote s)) \<le> max_target_sats (doc_policy (sq_document s))
    \<and> validate_rate (xq_rate (sq_quote s)) (doc_policy (sq_document s)) = Inr ()
    \<and> (\<forall>k. unat (expected_atomic (xq_terms (sq_quote s))) \<le> k \<longleftrightarrow>
          unat (target_sats (xq_terms (sq_quote s))) * 1000000000000
            * unat (sats_per_xmr_denominator (xq_rate (sq_quote s)))
          \<le> k * unat (sats_per_xmr_numerator (xq_rate (sq_quote s))))
    \<and> expected_atomic (xq_terms (sq_quote s)) \<le> max_piconero (doc_policy (sq_document s))
    \<and> doc_evidence_sha256 (sq_document s) = sha (doc_evidence (sq_document s))
    \<and> sq_document_json s = doc"
proof -
  let ?d = "sq_document s" and ?q = "sq_quote s"
  from assms(1) obtain i num den rate where
    policy: "policy_validate (doc_policy ?d) = Inr ()"
    and rate: "xmr_btc_rate_new num den (doc_source ?d) (doc_observed_at ?d) = Inr rate"
    and bounds: "validate_rate rate (doc_policy ?d) = Inr ()"
    and q: "quote_at rate (idn_target_sats i) (doc_issued_at ?d) (doc_expires_at ?d)
        (max_rate_age_seconds (doc_policy ?d)) = Inr ?q"
    and c: "document_consistent sha ?d i ?q" and doc: "sq_document_json s = doc"
    unfolding decode_Inr by auto
  have valid: "valid_rate rate" and observed: "observed_at rate = doc_observed_at ?d"
    using rate assms(2) by (auto simp: xmr_btc_rate_new_Inr valid_rate_def in_i64_def)
  have issued: "doc_issued_at ?d \<le> i64_max" using assms(3) by (simp add: in_i64_def)
  note full = q [unfolded quote_at_Inr [OF valid issued]]
  let ?c = "ceil_div (quote_numerator rate (idn_target_sats i)) (unat (sats_per_xmr_numerator rate))"
  have amount: "unat (expected_atomic (xq_terms ?q)) = ?c"
    using full unat_of_nat_MAX [of ?c] by (metis credit_terms.select_convs(2) xmr_quote.select_convs(1))
  have d: "0 < unat (sats_per_xmr_numerator rate)"
    using valid by (simp add: valid_rate_def word_less_nat_alt)
  have least: "unat (expected_atomic (xq_terms ?q)) \<le> k \<longleftrightarrow>
      unat (idn_target_sats i) * 1000000000000 * unat (sats_per_xmr_denominator rate)
        \<le> k * unat (sats_per_xmr_numerator rate)" for k
    using ceil_div_least [OF d, of "quote_numerator rate (idn_target_sats i)" k]
    unfolding amount by (simp add: quote_numerator_def)
  obtain e where e: "quoted_xmr e (idn_target_sats i) = Inr (xq_terms ?q)" using quote_at_terms [OF q] ..
  have terms: "valid_terms (xq_terms ?q)" by (rule quoted_xmr_valid [OF e])
  have target: "target_sats (xq_terms ?q) = idn_target_sats i" using e by (auto simp: quoted_xmr_Inr)
  have times: "xq_rate ?q = rate" "xq_issued_at ?q = doc_issued_at ?d" "xq_expires_at ?q = doc_expires_at ?d"
    using quote_at_rate [OF q] by auto
  have expires: "doc_expires_at ?d = doc_issued_at ?d + uint (lifetime_seconds (doc_policy ?d))"
    using c lifetime_uint(1) [OF policy]
    by (auto simp: document_consistent_def checked_sub_i64_def split: if_splits)
  show ?thesis
    using c full least terms valid policy bounds
    unfolding times target document_consistent_def observed doc expires
    by (auto simp: not_less)
qed

theorem decoded_quote_is_sound_witness:
  "valid_rate sample_rate \<and> xq_expires_at sample_quote = xq_issued_at sample_quote + 600"
proof -
  obtain s where s: "decode (\<lambda>_. Some sample_document) (\<lambda>_. Some sample_identity) (\<lambda>_. ''h'') ''d'' ''i''
      = Inr s" "s = sample_stored"
    by (simp add: sample_decode)
  show ?thesis
    using decoded_quote_is_sound [OF s(1)] s(2)
    by (simp add: sample_stored_def sample_quote_def sample_document_def sample_policy_def
        in_i64_def i64_min_def i64_max_def)
qed

section \<open>A created quote never changes\<close>

text \<open>
  C28: Once \<open>create\<close> has returned a quote, then whatever the ledger does afterwards, in whatever order,
  every later \<open>lookup\<close> and every repeated \<open>create\<close> of the same request returns that same quote, as
  long as the clock has not gone back; the repeated \<open>create\<close> writes nothing but the clock.
\<close>

theorem created_quote_never_changes:
  assumes "create codec svc env request db = (Inr stored, db1)" and "quote_inv db"
    and "run (quote_step policy) db1 calls db2"
    and "qe_slot_free later" and "qe_now later = Some now" and "xmr_quote_clock db2 \<le> now"
  shows "lookup codec svc later request db2 = Inr stored
    \<and> create codec svc later request db2 = (Inr stored, db2\<lparr>xmr_quote_clock := now\<rparr>)"
proof -
  from create_ready [OF assms(1,2)] obtain ident r where
    c: "identity_new request (qv_context svc) = Inr ident" "r \<in> set (xmr_quote_requests db1)"
      "ready_row request (qc_identity_text codec ident) (sq_document_json stored) r"
      "decode_with codec (sq_document_json stored) (qc_identity_text codec ident) = Inr stored"
      "quote_inv db1" by blast
  then have "qr_status r = Qs_ready" by (simp add: ready_row_def)
  from run_ready [OF assms(3) c(5,2) this]
  have "quote_inv db2" "r \<in> set (xmr_quote_requests db2)" by blast+
  from replay [OF c(1) this(2) c(3) this(1) c(4) assms(4-6)] show ?thesis by blast
qed

definition sample_env :: quote_env where
  "sample_env = \<lparr>qe_slot_free = True, qe_now = Some 100, qe_evidence = Some sample_evidence,
     qe_issued = Some 101\<rparr>"

definition sample_row :: "quote_status \<Rightarrow> string option \<Rightarrow> quote_row" where
  "sample_row status doc = \<lparr>qr_id = ''q1'', qr_identity_json = ''i'',
     qr_client_bucket = replicate 64 CHR ''0'', qr_requested_at = 100, qr_reservation_until = 130,
     qr_status = status, qr_document_json = doc\<rparr>"

definition reserved_db :: ledger_db where
  "reserved_db = empty_db\<lparr>xmr_quote_clock := 100, xmr_quote_requests := [sample_row Qs_reserved None]\<rparr>"

definition issued_db :: ledger_db where
  "issued_db = empty_db\<lparr>xmr_quote_clock := 101, xmr_quote_requests := [sample_row Qs_ready (Some ''d'')],
     xmr_rate_watermarks := [\<lparr>rw_source = ''kraken'', rw_observed_at = 90,
       rw_numerator = show_u64 300000, rw_denominator = show_u64 1\<rparr>]\<rparr>"

lemma sample_reserve:
  "reserve_xmr_quote sample_request ''i'' sample_policy 100 empty_db = Inr (None, reserved_db)"
  by (simp add: reserve_xmr_quote_def check_clock_def empty_db_def find_quote_def sample_request_def
      sample_policy_def quotes_since_def client_quotes_since_def pending_quotes_def count_where_def
      checked_add_i64_def in_i64_def i64_min_def i64_max_def RESERVATION_SECONDS_def
      quote_row_check_def sql_length_def is_continuation_def byte_def reserved_db_def sample_row_def)

lemma sample_complete:
  "complete_xmr_quote ''q1'' ''i'' sample_stored 101 reserved_db = Inr ((), issued_db)"
  by (simp add: complete_xmr_quote_def check_clock_def reserved_db_def find_quote_def sample_row_def
      sq_id_def sample_stored_def sample_identity_def sample_quote_def sample_rate_def
      advance_watermark_def empty_db_def update_where_def issued_db_def)

lemma sample_create:
  "create sample_codec sample_service sample_env sample_request empty_db = (Inr sample_stored, issued_db)"
proof -
  have "issue_quote sample_codec sample_service sample_env sample_request ''i'' 100 reserved_db
      = Inr (sample_stored, issued_db)"
    using sample_new_document sample_decode sample_complete
    by (simp add: issue_quote_def sample_env_def decode_with_def sample_codec_def sample_request_def)
  then show ?thesis
    using sample_reserve sample_facts
    by (simp add: create_def sample_service_def sample_env_def sample_codec_def)
qed

theorem created_quote_never_changes_witness:
  "lookup sample_codec sample_service (sample_env\<lparr>qe_now := Some 5000\<rparr>) sample_request issued_db
    = Inr sample_stored"
  using created_quote_never_changes [OF sample_create quote_inv_empty run_Nil,
      of "sample_env\<lparr>qe_now := Some 5000\<rparr>" 5000]
  by (simp add: sample_env_def issued_db_def)

section \<open>Admission limits\<close>

text \<open>
  C33: Under a valid policy, whatever sequence of reservations, completions, failures and bindings
  has run, no window of the admission length ever holds more requests than the policy allows, in
  all or from one client; no more reservations are pending than it allows, and no more requests are
  stored.
\<close>

theorem quote_admission_is_bounded:
  assumes "policy_validate policy = Inr ()" and "run (quote_step policy) empty_db calls db"
  shows "int (requests_within t (uint (admission_window_seconds policy)) db)
      \<le> uint (max_requests_per_window policy)
    \<and> int (client_requests_within b t (uint (admission_window_seconds policy)) db)
      \<le> uint (max_requests_per_client_window policy)
    \<and> int (pending_quotes (xmr_quote_clock db) db) \<le> uint (max_pending_requests policy)
    \<and> int (length (xmr_quote_requests db)) \<le> uint (max_retained_requests policy)"
proof -
  have "quote_inv db \<and> limits_hold policy db"
    using assms(2) quote_inv_empty limits_hold_empty
  proof (induction empty_db calls db rule: run.induct)
    case (run_snoc es t e u)
    then show ?case using quote_step_inv quote_step_limits [OF _ assms(1)] by blast
  qed (simp add: quote_inv_empty limits_hold_empty)
  then show ?thesis by (simp add: limits_hold_def)
qed

theorem quote_admission_is_bounded_witness:
  "int (requests_within 99 3600 reserved_db) \<le> 10"
  using quote_admission_is_bounded [OF sample_facts(1)
      run_one [where step = "quote_step sample_policy", OF qs_reserve [OF sample_reserve]], of 99]
  by (simp add: sample_policy_def)

section \<open>Rates\<close>

text \<open>
  C31: Of two quotes completed one after the other with rates of the same source, the later one was
  priced at an observation no older than the earlier one's, and at the same rate if the two
  observations are of the same time. This holds between any two completions of a run, with anything
  in between, including other sources.
\<close>

theorem quoted_rates_never_go_back:
  assumes "run (quote_step policy) empty_db
      (before @ Call_complete q # between @ Call_complete q' # after) db"
    and "rate_source (xq_rate (sq_quote q)) = rate_source (xq_rate (sq_quote q'))"
  shows "observed_at (xq_rate (sq_quote q)) \<le> observed_at (xq_rate (sq_quote q'))
    \<and> (observed_at (xq_rate (sq_quote q)) = observed_at (xq_rate (sq_quote q')) \<longrightarrow>
        same_rate (sats_per_xmr_numerator (xq_rate (sq_quote q)))
          (sats_per_xmr_denominator (xq_rate (sq_quote q)))
          (sats_per_xmr_numerator (xq_rate (sq_quote q')))
          (sats_per_xmr_denominator (xq_rate (sq_quote q'))))"
  using completes_forward [OF assms(1) watermarks_ok_empty] assms(2) unfolding rate_forward_def by blast

definition second_request :: quote_request where
  "second_request = sample_request\<lparr>qq_id := ''q2''\<rparr>"

definition second_stored :: stored_xmr_quote where
  "second_stored = sample_stored\<lparr>sq_identity := sample_identity\<lparr>idn_id := ''q2''\<rparr>,
     sq_quote := sample_quote\<lparr>xq_rate := sample_rate\<lparr>observed_at := 95\<rparr>, xq_issued_at := 103\<rparr>\<rparr>"

definition second_row :: quote_row where
  "second_row = \<lparr>qr_id = ''q2'', qr_identity_json = ''j'',
     qr_client_bucket = replicate 64 CHR ''0'', qr_requested_at = 102, qr_reservation_until = 132,
     qr_status = Qs_reserved, qr_document_json = None\<rparr>"

definition second_db :: ledger_db where
  "second_db = issued_db\<lparr>xmr_quote_clock := 102,
     xmr_quote_requests := [sample_row Qs_ready (Some ''d''), second_row]\<rparr>"

lemma second_reserve:
  "reserve_xmr_quote second_request ''j'' sample_policy 102 issued_db = Inr (None, second_db)"
  by (simp add: reserve_xmr_quote_def check_clock_def empty_db_def find_quote_def sample_request_def
      second_request_def sample_policy_def quotes_since_def client_quotes_since_def pending_quotes_def
      count_where_def checked_add_i64_def in_i64_def i64_min_def i64_max_def RESERVATION_SECONDS_def
      quote_row_check_def sql_length_def is_continuation_def byte_def issued_db_def sample_row_def
      second_row_def second_db_def saturating_sub_i64_def as_i64_def)

lemma second_complete: "\<exists>db. complete_xmr_quote ''q2'' ''j'' second_stored 103 second_db = Inr ((), db)"
  by (simp add: complete_xmr_quote_def check_clock_def second_db_def find_quote_def sample_row_def
      second_row_def issued_db_def sq_id_def second_stored_def sample_stored_def sample_identity_def
      sample_quote_def sample_rate_def advance_watermark_def empty_db_def)

theorem quoted_rates_never_go_back_witness:
  "observed_at (xq_rate (sq_quote sample_stored)) \<le> observed_at (xq_rate (sq_quote second_stored))"
proof -
  note rates = second_stored_def sample_stored_def sample_quote_def sample_rate_def
  obtain db where c: "complete_xmr_quote ''q2'' ''j'' second_stored 103 second_db = Inr ((), db)"
    using second_complete ..
  have 1: "quote_step sample_policy (Call_complete sample_stored) reserved_db issued_db"
    by (rule qs_complete [OF sample_complete]) (simp add: rates)
  have 2: "quote_step sample_policy (Call_complete second_stored) second_db db"
    by (rule qs_complete [OF c]) (simp add: rates)
  note snoc = run_snoc [where step = "quote_step sample_policy"]
  from snoc [OF snoc [OF snoc [OF run_one [where step = "quote_step sample_policy",
      OF qs_reserve [OF sample_reserve]] 1] qs_reserve [OF second_reserve]] 2]
  have "run (quote_step sample_policy) empty_db ([Call_reserve (qq_id sample_request)]
      @ Call_complete sample_stored # [Call_reserve (qq_id second_request)]
      @ Call_complete second_stored # []) db" by simp
  from quoted_rates_never_go_back [OF this] show ?thesis by (simp add: rates)
qed

end
