(* ===== verification/Rust_Text.thy ===== *)
theory Rust_Text
  imports Prelude
begin

text \<open>
  Text functions of the Rust standard library on UTF-8 bytes: \<open>str::trim\<close> over the characters with
  the White_Space property, and \<open>str::ends_with\<close>.
\<close>

section \<open>\<open>trim\<close>\<close>

text \<open>
  The number of bytes of a white-space character at the front, 0 if there is none: U+0009 to U+000D
  and the space; U+0085 and U+00A0; U+1680, U+2000 to U+200A, U+2028, U+2029, U+202F, U+205F and
  U+3000.
\<close>

definition space3 :: "nat \<Rightarrow> nat \<Rightarrow> nat \<Rightarrow> bool" where
  "space3 a b c \<longleftrightarrow> (a = 0xE1 \<and> b = 0x9A \<and> c = 0x80)
     \<or> (a = 0xE2 \<and> b = 0x80 \<and> ((0x80 \<le> c \<and> c \<le> 0x8A) \<or> c = 0xA8 \<or> c = 0xA9 \<or> c = 0xAF))
     \<or> (a = 0xE2 \<and> b = 0x81 \<and> c = 0x9F)
     \<or> (a = 0xE3 \<and> b = 0x80 \<and> c = 0x80)"

definition space1 :: "nat \<Rightarrow> bool" where
  "space1 a \<longleftrightarrow> a = 32 \<or> (9 \<le> a \<and> a \<le> 13)"

fun leading_space :: "string \<Rightarrow> nat" where
  "leading_space [] = 0"
| "leading_space [a] = (if space1 (byte a) then 1 else 0)"
| "leading_space [a, b] = (if space1 (byte a) then 1
     else if byte a = 0xC2 \<and> (byte b = 0x85 \<or> byte b = 0xA0) then 2 else 0)"
| "leading_space (a # b # c # cs) = (if space1 (byte a) then 1
     else if byte a = 0xC2 \<and> (byte b = 0x85 \<or> byte b = 0xA0) then 2
     else if space3 (byte a) (byte b) (byte c) then 3 else 0)"

text \<open>The same at the end, on the reversed text: in valid UTF-8 no character ends inside another.\<close>

fun trailing_space :: "string \<Rightarrow> nat" where
  "trailing_space [] = 0"
| "trailing_space [a] = (if space1 (byte a) then 1 else 0)"
| "trailing_space [b, a] = (if space1 (byte b) then 1
     else if byte a = 0xC2 \<and> (byte b = 0x85 \<or> byte b = 0xA0) then 2 else 0)"
| "trailing_space (c # b # a # cs) = (if space1 (byte c) then 1
     else if byte b = 0xC2 \<and> (byte c = 0x85 \<or> byte c = 0xA0) then 2
     else if space3 (byte a) (byte b) (byte c) then 3 else 0)"

function trim_start :: "string \<Rightarrow> string" where
  "trim_start s = (if leading_space s = 0 then s else trim_start (drop (leading_space s) s))"
  by auto
termination
proof (relation "measure length")
  fix s
  assume "leading_space s \<noteq> 0"
  then show "(drop (leading_space s) s, s) \<in> measure length" by (cases s) auto
qed simp

function trim_end_rev :: "string \<Rightarrow> string" where
  "trim_end_rev s = (if trailing_space s = 0 then s else trim_end_rev (drop (trailing_space s) s))"
  by auto
termination
proof (relation "measure length")
  fix s
  assume "trailing_space s \<noteq> 0"
  then show "(drop (trailing_space s) s, s) \<in> measure length" by (cases s) auto
qed simp

declare trim_start.simps [simp del] trim_end_rev.simps [simp del]

definition trim :: "string \<Rightarrow> string" where
  "trim s = rev (trim_end_rev (rev (trim_start s)))"

definition ends_with :: "string \<Rightarrow> string \<Rightarrow> bool" where
  "ends_with s suffix \<longleftrightarrow> length suffix \<le> length s \<and> drop (length s - length suffix) s = suffix"

end
