(* ===== verification/Openhab.thy ===== *)
theory Openhab
  imports Gateway_Server Rate_Oracle Rust_Text
begin

text \<open>
  The gateway's client of openHAB, \<open>src/src/openhab.rs\<close>: the switches it reads, the command it posts,
  and the three owner protocols by which it learns what became of a request. The url crate, chrono,
  serde_json and the uuid parser are the fields of an \<open>oh_codec\<close>; instants are integer nanoseconds
  since the epoch, and one call reads one clock value \<open>now\<close>. \<open>oh_send\<close> answers every request of a
  call. The temperature Item is in \<open>Weather\<close>.
\<close>

section \<open>Configuration\<close>

datatype owner_protocol = FeederRequestV1 | FeederRequestV2 string | UuidCanary | UuidHeldCanary

record openhab_config =
  oc_url :: string
  oc_request_item :: string
  oc_ack_item :: string
  oc_protocol :: owner_protocol
  oc_override_item :: string
  oc_remote_enabled_item :: string
  oc_temperature_item :: "string option"

datatype openhab_error =
    EmptyToken
  | IdentifierLength
  | IdentifierBytes
  | CanaryItems
  | LedgerNotSeparate
  | InvalidUrl
  | OpenhabScheme
  | OpenhabHost
  | NotLoopback
  | OpenhabCredentials
  | OpenhabQuery
  | EndpointFailed
  | RequestFailed
  | ItemStatus nat
  | BodyError gateway_error
  | StateNotUtf8
  | UnexpectedSwitch
  | InvalidCanaryReceipt
  | InvalidV2Time
  | V2TimeOutOfRange
  | LedgerTooLong
  | InvalidLedgerJson
  | UnsupportedLedger
  | InvalidLedgerIdentity
  | InvalidLedgerStatus
  | InvalidResultJson
  | InvalidResultEnvelope
  | UnknownResultStatus
  | InvalidResultTime
  | ResultInFuture
  | MissingCompletionTime
  | InvalidPersistence
  | PersistenceIdentity
  | PersistenceOrder
  | AdmissionConflict
  | CompletionConflict
  | CompletionRegressed
  | CompletionEvicted
  | PaginationLimit

definition identifier_byte :: "char \<Rightarrow> bool" where
  "identifier_byte c \<longleftrightarrow> is_ascii_alphanumeric c \<or> c \<in> set ''_-.''"

definition validate_identifier :: "string \<Rightarrow> openhab_error + unit" where
  "validate_identifier v =
     (if v = [] \<or> length v > 128 then Inl IdentifierLength
      else if \<not> list_all identifier_byte v then Inl IdentifierBytes
      else Inr ())"

definition canary_pair :: "owner_protocol \<Rightarrow> (string \<times> string) option" where
  "canary_pair p = (case p of
     UuidCanary \<Rightarrow> Some (''LightningGoatsCanaryRequest'', ''LightningGoatsCanaryAck'')
   | UuidHeldCanary \<Rightarrow> Some (''LightningGoatsHeldCanary2Request'', ''LightningGoatsHeldCanary2Ack'')
   | _ \<Rightarrow> None)"

record openhab_client =
  oh_base :: url
  oh_request_item :: string
  oh_ack_item :: string
  oh_protocol :: owner_protocol
  oh_override_item :: string
  oh_remote_enabled_item :: string
  oh_temperature_item :: "string option"

definition openhab_new ::
  "(string \<Rightarrow> url option) \<Rightarrow> openhab_config \<Rightarrow> string \<Rightarrow> openhab_error + openhab_client" where
  "openhab_new parse_url c token =
     (if trim token = [] then Inl EmptyToken
      else andthen (validate_identifier (oc_request_item c)) (\<lambda>_.
      andthen (validate_identifier (oc_ack_item c)) (\<lambda>_.
      andthen (validate_identifier (oc_override_item c)) (\<lambda>_.
      andthen (validate_identifier (oc_remote_enabled_item c)) (\<lambda>_.
      if (case canary_pair (oc_protocol c) of None \<Rightarrow> False
          | Some (request, ack) \<Rightarrow> oc_request_item c \<noteq> request \<or> oc_ack_item c \<noteq> ack)
      then Inl CanaryItems
      else andthen
        (case oc_protocol c of
           FeederRequestV2 ledger_item \<Rightarrow>
             andthen (validate_identifier ledger_item) (\<lambda>_.
             if ledger_item \<in> set [oc_request_item c, oc_ack_item c, oc_override_item c,
                                   oc_remote_enabled_item c]
             then Inl LedgerNotSeparate else Inr ())
         | _ \<Rightarrow> Inr ()) (\<lambda>_.
      andthen (case oc_temperature_item c of None \<Rightarrow> Inr () | Some item \<Rightarrow> validate_identifier item) (\<lambda>_.
      andthen (ok_or InvalidUrl (parse_url (oc_url c))) (\<lambda>u.
      if url_scheme u \<noteq> ''http'' \<and> url_scheme u \<noteq> ''https'' then Inl OpenhabScheme
      else andthen (ok_or OpenhabHost (url_host u)) (\<lambda>host.
      if host \<notin> {''127.0.0.1'', ''localhost'', ''::1''} then Inl NotLoopback
      else if url_username u \<noteq> [] \<or> url_password u \<noteq> None then Inl OpenhabCredentials
      else if url_query u \<noteq> None \<or> url_fragment u \<noteq> None then Inl OpenhabQuery
      else Inr
        \<lparr>oh_base = (if ends_with (url_path u) ''/'' then u else u\<lparr>url_path := url_path u @ ''/''\<rparr>),
         oh_request_item = oc_request_item c, oh_ack_item = oc_ack_item c,
         oh_protocol = oc_protocol c, oh_override_item = oc_override_item c,
         oh_remote_enabled_item = oc_remote_enabled_item c,
         oh_temperature_item = oc_temperature_item c\<rparr>)))))))))"

section \<open>Requests\<close>

text \<open>What goes over the wire: a state, one page of persisted states of an item between two
  instants, or a command with its body.\<close>

datatype oh_request =
    Oh_state url
  | Oh_history url int int nat
  | Oh_command url string

record owner_entry =
  oe_version :: string
  oe_request_id :: string
  oe_status :: string
  oe_reason :: string
  oe_at :: string
  oe_updated_at :: "string option"

record owner_ledger =
  ol_version :: string
  ol_entries :: "owner_entry list"

record owner_history_row =
  ow_time :: i64
  ow_state :: string

record owner_history =
  ow_name :: string
  ow_datapoints :: string
  ow_data :: "owner_history_row list"

datatype owner_status = Os_accepted | Os_running | Os_complete | Os_denied | Os_failed

record owner_result =
  or_request_id :: string
  or_status :: owner_status
  or_reason :: string
  or_at :: string

record oh_codec =
  oj_join :: "url \<Rightarrow> string \<Rightarrow> url option"
  oj_time :: "string \<Rightarrow> int option"
  oj_uuid :: "string \<Rightarrow> uuid option"
  oj_result :: "string \<Rightarrow> owner_result option"
  oj_entry :: "string \<Rightarrow> owner_entry option"
  oj_ledger :: "string \<Rightarrow> owner_ledger option"
  oj_history :: "string \<Rightarrow> owner_history option"

type_synonym oh_network = "oh_request \<Rightarrow> unit + http_response"

definition item_state_bounded ::
  "oh_codec \<Rightarrow> oh_network \<Rightarrow> openhab_client \<Rightarrow> string \<Rightarrow> nat \<Rightarrow> openhab_error + string" where
  "item_state_bounded codec send c item limit =
     andthen (ok_or EndpointFailed (oj_join codec (oh_base c) (''rest/items/'' @ item @ ''/state''))) (\<lambda>u.
     andthen (map_err (\<lambda>_. RequestFailed) (send (Oh_state u))) (\<lambda>response.
     if \<not> is_success (hr_status response) then Inl (ItemStatus (hr_status response))
     else andthen (map_err BodyError (bounded_body limit response)) (\<lambda>bytes.
       if valid_utf8 bytes then Inr bytes else Inl StateNotUtf8)))"

definition item_state ::
  "oh_codec \<Rightarrow> oh_network \<Rightarrow> openhab_client \<Rightarrow> string \<Rightarrow> openhab_error + string" where
  "item_state codec send c item = item_state_bounded codec send c item 4096"

definition parse_switch :: "string \<Rightarrow> openhab_error + bool" where
  "parse_switch state =
     (if trim state = ''ON'' then Inr True
      else if trim state = ''OFF'' then Inr False
      else Inl UnexpectedSwitch)"

definition openhab_safety ::
  "oh_codec \<Rightarrow> oh_network \<Rightarrow> openhab_client \<Rightarrow> openhab_error + bool \<times> bool" where
  "openhab_safety codec send c =
     andthen (andthen (item_state codec send c (oh_override_item c)) parse_switch) (\<lambda>override.
     andthen (andthen (item_state codec send c (oh_remote_enabled_item c)) parse_switch) (\<lambda>remote.
       Inr (override, remote)))"

text \<open>\<open>requested_at\<close> is the text of chrono for the clock; neither it nor a Uuid needs escaping.\<close>

definition quoted :: "string \<Rightarrow> string" where
  "quoted s = char_of (34 :: nat) # s @ [char_of (34 :: nat)]"

definition command_text :: "owner_protocol \<Rightarrow> uuid \<Rightarrow> string \<Rightarrow> string" where
  "command_text p request_id requested_at =
     (let fields = quoted ''requestId'' @ '':'' @ quoted request_id @ '','' @ quoted ''requestedAt''
            @ '':'' @ quoted requested_at @ ''}'' in
      case p of
        FeederRequestV1 \<Rightarrow> ''{'' @ fields
      | FeederRequestV2 _ \<Rightarrow> ''{'' @ quoted ''version'' @ '':'' @ quoted ''feeder-request-v2'' @ '','' @ fields
      | _ \<Rightarrow> request_id)"

definition command_feeder_request ::
  "oh_codec \<Rightarrow> oh_network \<Rightarrow> openhab_client \<Rightarrow> uuid \<Rightarrow> string \<Rightarrow> openhab_error + unit" where
  "command_feeder_request codec send c request_id requested_at =
     andthen (ok_or EndpointFailed (oj_join codec (oh_base c) (''rest/items/'' @ oh_request_item c))) (\<lambda>u.
     andthen (map_err (\<lambda>_. RequestFailed)
       (send (Oh_command u (command_text (oh_protocol c) request_id requested_at)))) (\<lambda>response.
     if \<not> is_success (hr_status response) then Inl (ItemStatus (hr_status response)) else Inr ()))"

section \<open>The v1 result Item\<close>

definition NANO :: int where
  "NANO = 1000000000"

definition is_empty_state :: "string \<Rightarrow> bool" where
  "is_empty_state state \<longleftrightarrow> state = [] \<or> state \<in> {''NULL'', ''UNDEF'', ''-''}"

definition v1_denied :: "string set" where
  "v1_denied = {''request_invalid'', ''request_stale'', ''ledger_restore_missing'', ''ledger_invalid'',
     ''ledger_recovery_failed'', ''duplicate'', ''busy'', ''cooldown''}"

definition v1_failed :: "string set" where
  "v1_failed = {''clock_invalid'', ''restart_uncertain'', ''ledger_readback_failed'',
     ''ledger_persist_failed'', ''execution_error''}"

definition parse_owner_result ::
  "oh_codec \<Rightarrow> int \<Rightarrow> string \<Rightarrow> uuid \<Rightarrow> openhab_error + owner_outcome" where
  "parse_owner_result codec now raw expected =
     (let state = trim raw in
      if is_empty_state state then Inr Owner_Absent
      else andthen (ok_or InvalidResultJson (oj_result codec state)) (\<lambda>result.
      if or_request_id result \<noteq> expected then Inr Owner_Absent
      else andthen (ok_or InvalidResultTime (oj_time codec (or_at result))) (\<lambda>inst.
      if inst > now + 30 * NANO then Inl ResultInFuture
      else case or_status result of
        Os_complete \<Rightarrow> if or_reason result = ''complete'' then Inr Owner_Complete else Inl UnknownResultStatus
      | Os_accepted \<Rightarrow> if or_reason result = ''accepted'' then Inr Owner_Pending else Inl UnknownResultStatus
      | Os_running \<Rightarrow> if or_reason result = ''pulse_started'' then Inr Owner_Pending else Inl UnknownResultStatus
      | Os_denied \<Rightarrow> if or_reason result \<in> v1_denied then Inr Owner_Rejected else Inl UnknownResultStatus
      | Os_failed \<Rightarrow> if or_reason result \<in> v1_failed then Inr Owner_Ambiguous else Inl UnknownResultStatus)))"

section \<open>The v2 ledger and result\<close>

definition parse_v2_time :: "oh_codec \<Rightarrow> int \<Rightarrow> string \<Rightarrow> openhab_error + int" where
  "parse_v2_time codec now raw =
     andthen (ok_or InvalidV2Time (oj_time codec raw)) (\<lambda>inst.
     if inst div NANO < 946684800 \<or> inst > now + 30 * NANO then Inl V2TimeOutOfRange else Inr inst)"

definition ledger_id_byte :: "char \<Rightarrow> bool" where
  "ledger_id_byte c \<longleftrightarrow> is_ascii_alphanumeric c \<or> c \<in> set ''._:-''"

text \<open>The loop over the entries, with the ids seen.\<close>

fun check_entries :: "oh_codec \<Rightarrow> int \<Rightarrow> string list \<Rightarrow> owner_entry list \<Rightarrow> openhab_error + unit" where
  "check_entries codec now ids [] = Inr ()"
| "check_entries codec now ids (e # es) =
     (let i = oe_request_id e in
      if oe_version e \<noteq> ''feeder-request-v2'' \<or> length i < 8 \<or> length i > 128
         \<or> \<not> is_ascii_alphanumeric (hd i) \<or> \<not> list_all ledger_id_byte i \<or> i \<in> set ids
      then Inl InvalidLedgerIdentity
      else andthen (parse_v2_time codec now (oe_at e)) (\<lambda>admitted.
      andthen
        (case oe_updated_at e of
           None \<Rightarrow> if oe_status e = ''accepted'' \<and> oe_reason e = ''accepted'' then Inr ()
             else Inl InvalidLedgerStatus
         | Some updated \<Rightarrow>
             if oe_status e = ''complete'' \<and> oe_reason e = ''complete''
             then andthen (parse_v2_time codec now updated) (\<lambda>inst.
               if inst \<ge> admitted then Inr () else Inl InvalidLedgerStatus)
             else Inl InvalidLedgerStatus) (\<lambda>_.
        check_entries codec now (i # ids) es)))"

definition parse_ledger_v2 :: "oh_codec \<Rightarrow> int \<Rightarrow> string \<Rightarrow> openhab_error + owner_ledger" where
  "parse_ledger_v2 codec now raw =
     (if length raw > 8192 then Inl LedgerTooLong
      else andthen (ok_or InvalidLedgerJson (oj_ledger codec raw)) (\<lambda>ledger.
      if ol_version ledger \<noteq> ''feeder-request-ledger/v2'' \<or> length (ol_entries ledger) > 32
      then Inl UnsupportedLedger
      else andthen (check_entries codec now [] (ol_entries ledger)) (\<lambda>_. Inr ledger)))"

definition v2_denied :: "string set" where
  "v2_denied = {''request_invalid'', ''request_version'', ''request_stale'', ''ledger_restore_missing'',
     ''ledger_restore_conflict'', ''ledger_invalid'', ''restart_uncertain'', ''ledger_full'',
     ''clock_invalid'', ''cooldown'', ''busy''}"

definition v2_failed :: "string set" where
  "v2_failed = {''ledger_persist_uncertain'', ''completion_persist_uncertain'', ''execution_error''}"

definition parse_result_v2 ::
  "oh_codec \<Rightarrow> int \<Rightarrow> string \<Rightarrow> uuid \<Rightarrow> openhab_error + owner_outcome" where
  "parse_result_v2 codec now raw expected =
     (if is_empty_state (trim raw) then Inr Owner_Absent
      else andthen (ok_or InvalidResultJson (oj_entry codec raw)) (\<lambda>result.
      if oe_version result \<noteq> ''feeder-request-v2'' \<or> oe_updated_at result \<noteq> None
      then Inl InvalidResultEnvelope
      else andthen (parse_v2_time codec now (oe_at result)) (\<lambda>_.
      if oe_request_id result \<noteq> expected then Inr Owner_Absent
      else let status = oe_status result; reason = oe_reason result in
        if status = ''complete'' \<and> reason = ''complete'' then Inr Owner_Ambiguous
        else if (status = ''accepted'' \<and> reason = ''accepted'')
           \<or> (status = ''running'' \<and> reason = ''pulse_started'') then Inr Owner_Pending
        else if status = ''denied'' \<and> reason \<in> v2_denied then Inr Owner_Rejected
        else if status = ''failed'' \<and> reason \<in> v2_failed then Inr Owner_Ambiguous
        else Inl UnknownResultStatus)))"

section \<open>The v2 completion proof\<close>

text \<open>\<open>timestamp_millis\<close> rounds down.\<close>

definition millis :: "int \<Rightarrow> i64" where
  "millis instant = instant div 1000000"

text \<open>
  The loop over the rows of a page: \<open>seen\<close> and \<open>prev\<close> are \<open>seen_complete\<close> and \<open>previous_time\<close>,
  \<open>entry\<close> the receipt of the ledger Item, completed at \<open>completed\<close>.
\<close>

fun check_rows ::
  "oh_codec \<Rightarrow> int \<Rightarrow> owner_entry \<Rightarrow> int \<Rightarrow> bool \<Rightarrow> i64 \<Rightarrow> owner_history_row list
     \<Rightarrow> openhab_error + bool \<times> i64" where
  "check_rows codec now entry completed seen prev [] = Inr (seen, prev)"
| "check_rows codec now entry completed seen prev (row # rows) =
     (if ow_time row < prev \<or> ow_time row < millis (completed - 10 * NANO)
         \<or> ow_time row > millis (completed + 10 * NANO) \<or> ow_time row > millis now + 30000
      then Inl PersistenceOrder
      else andthen (parse_ledger_v2 codec now (ow_state row)) (\<lambda>snapshot.
      andthen
        (case find (\<lambda>e. oe_request_id e = oe_request_id entry) (ol_entries snapshot) of
           Some receipt \<Rightarrow>
             if oe_at receipt \<noteq> oe_at entry then Inl AdmissionConflict
             else if oe_status receipt = ''complete'' then
               (if receipt \<noteq> entry \<or> ow_time row < millis completed then Inl CompletionConflict
                else Inr True)
             else if seen then Inl CompletionRegressed else Inr seen
         | None \<Rightarrow> if seen then Inl CompletionEvicted else Inr seen) (\<lambda>seen1.
        check_rows codec now entry completed seen1 (ow_time row) rows)))"

definition history_page ::
  "oh_codec \<Rightarrow> oh_network \<Rightarrow> openhab_client \<Rightarrow> string \<Rightarrow> int \<Rightarrow> nat \<Rightarrow> openhab_error + owner_history" where
  "history_page codec send c ledger_item completed page =
     andthen (ok_or EndpointFailed (oj_join codec (oh_base c) (''rest/persistence/items/'' @ ledger_item))) (\<lambda>u.
     andthen (map_err (\<lambda>_. RequestFailed)
       (send (Oh_history u (completed - 10 * NANO) (completed + 10 * NANO) page))) (\<lambda>response.
     if \<not> is_success (hr_status response) then Inl (ItemStatus (hr_status response))
     else andthen (map_err BodyError (bounded_body (256 * 1024) response)) (\<lambda>bytes.
     andthen (ok_or InvalidPersistence (oj_history codec bytes)) (\<lambda>history.
     if ow_name history \<noteq> ledger_item \<or> length (ow_data history) > 8
        \<or> map_option unat (parse_u64 (ow_datapoints history)) \<noteq> Some (length (ow_data history))
     then Inl PersistenceIdentity else Inr history))))"

text \<open>The loop over the pages; \<open>fuel\<close> is the number of pages left of the eight.\<close>

fun page_loop ::
  "oh_codec \<Rightarrow> oh_network \<Rightarrow> openhab_client \<Rightarrow> int \<Rightarrow> string \<Rightarrow> owner_entry \<Rightarrow> int \<Rightarrow> nat \<Rightarrow> bool \<Rightarrow> i64
     \<Rightarrow> nat \<Rightarrow> openhab_error + owner_outcome" where
  "page_loop codec send c now ledger_item entry completed page seen prev 0 = Inl PaginationLimit"
| "page_loop codec send c now ledger_item entry completed page seen prev (Suc fuel) =
     andthen (history_page codec send c ledger_item completed page) (\<lambda>history.
     andthen (check_rows codec now entry completed seen prev (ow_data history)) (\<lambda>(seen1, prev1).
     if length (ow_data history) < 8
     then Inr (if seen1 then Owner_Complete else Owner_Ambiguous)
     else page_loop codec send c now ledger_item entry completed (page + 1) seen1 prev1 fuel))"

definition feeder_result_v2 ::
  "oh_codec \<Rightarrow> oh_network \<Rightarrow> openhab_client \<Rightarrow> int \<Rightarrow> uuid \<Rightarrow> string \<Rightarrow> openhab_error + owner_outcome" where
  "feeder_result_v2 codec send c now request_id ledger_item =
     andthen (item_state_bounded codec send c ledger_item 8192) (\<lambda>raw.
     andthen (parse_ledger_v2 codec now raw) (\<lambda>ledger.
     case find (\<lambda>e. oe_request_id e = request_id) (ol_entries ledger) of
       None \<Rightarrow> andthen (item_state codec send c (oh_ack_item c)) (\<lambda>state.
         parse_result_v2 codec now state request_id)
     | Some entry \<Rightarrow>
         if oe_status entry = ''accepted'' then Inr Owner_Pending
         else andthen (ok_or MissingCompletionTime (oe_updated_at entry)) (\<lambda>updated.
         andthen (parse_v2_time codec now updated) (\<lambda>completed.
           page_loop codec send c now ledger_item entry completed 0 False i64_min 8))))"

definition feeder_result ::
  "oh_codec \<Rightarrow> oh_network \<Rightarrow> openhab_client \<Rightarrow> int \<Rightarrow> uuid \<Rightarrow> openhab_error + owner_outcome" where
  "feeder_result codec send c now request_id =
     (case oh_protocol c of
        FeederRequestV2 ledger_item \<Rightarrow> feeder_result_v2 codec send c now request_id ledger_item
      | p \<Rightarrow> andthen (item_state codec send c (oh_ack_item c)) (\<lambda>state.
          if p = FeederRequestV1 then parse_owner_result codec now state request_id
          else if is_empty_state (trim state) then Inr Owner_Absent
          else andthen (ok_or InvalidCanaryReceipt (oj_uuid codec (trim state))) (\<lambda>i.
            Inr (if i = request_id then Owner_Complete else Owner_Absent))))"

end
