(* ===== verification/Openhab_Properties.thy ===== *)
theory Openhab_Properties
  imports Openhab
begin

text \<open>
  What an owner's answer is worth: \<open>Owner_Complete\<close> under protocol v2 stands for a receipt that the
  owner's persistence holds, unchanged from the moment it appears to the end of the interval read.
\<close>

text \<open>The snapshot of a row holds exactly this receipt for its request.\<close>

definition row_certifies :: "oh_codec \<Rightarrow> int \<Rightarrow> owner_entry \<Rightarrow> int \<Rightarrow> owner_history_row \<Rightarrow> bool" where
  "row_certifies codec now entry completed row \<longleftrightarrow> millis completed \<le> ow_time row
     \<and> (\<exists>snapshot. parse_ledger_v2 codec now (ow_state row) = Inr snapshot
       \<and> find (\<lambda>e. oe_request_id e = oe_request_id entry) (ol_entries snapshot) = Some entry)"

definition row_in_window :: "int \<Rightarrow> int \<Rightarrow> owner_history_row \<Rightarrow> bool" where
  "row_in_window now completed row \<longleftrightarrow> millis (completed - 10 * NANO) \<le> ow_time row
     \<and> ow_time row \<le> millis (completed + 10 * NANO) \<and> ow_time row \<le> millis now + 30000"

lemma check_rows_append:
  "check_rows codec now entry completed seen prev (xs @ ys) =
     andthen (check_rows codec now entry completed seen prev xs) (\<lambda>(seen1, prev1).
       check_rows codec now entry completed seen1 prev1 ys)"
proof (induction xs arbitrary: seen prev)
  case (Cons row xs)
  then show ?case by (simp add: andthen_def split: sum.splits option.splits)
qed simp

lemma check_rows_Cons:
  assumes "check_rows codec now entry completed seen prev (row # rows) = Inr r"
  obtains seen1 where "prev \<le> ow_time row" "row_in_window now completed row"
    "check_rows codec now entry completed seen1 (ow_time row) rows = Inr r"
    "seen \<Longrightarrow> seen1" "seen1 \<Longrightarrow> row_certifies codec now entry completed row"
proof -
  from assms obtain snapshot seen1 where
    s: "parse_ledger_v2 codec now (ow_state row) = Inr snapshot"
    and w: "prev \<le> ow_time row" "row_in_window now completed row"
    and c: "(case find (\<lambda>e. oe_request_id e = oe_request_id entry) (ol_entries snapshot) of
           Some receipt \<Rightarrow>
             if oe_at receipt \<noteq> oe_at entry then Inl AdmissionConflict
             else if oe_status receipt = ''complete'' then
               (if receipt \<noteq> entry \<or> ow_time row < millis completed then Inl CompletionConflict
                else Inr True)
             else if seen then Inl CompletionRegressed else Inr seen
         | None \<Rightarrow> if seen then Inl CompletionEvicted else Inr seen) = Inr seen1"
    and r: "check_rows codec now entry completed seen1 (ow_time row) rows = Inr r"
    by (auto simp: res_simps row_in_window_def not_less split: if_splits)
  from c have keep: "seen \<longrightarrow> seen1"
    by (auto split: option.splits if_splits)
  have cert: "row_certifies codec now entry completed row" if "seen1"
    using c that s by (auto simp: row_certifies_def split: option.splits if_splits)
  from that [OF w r] keep cert show thesis by blast
qed

lemma check_rows_sound:
  assumes "check_rows codec now entry completed seen prev rows = Inr (seen', prev')"
  shows "sorted (prev # map ow_time rows) \<and> (\<forall>row \<in> set rows. row_in_window now completed row)
    \<and> (seen \<longrightarrow> seen' \<and> (\<forall>row \<in> set rows. row_certifies codec now entry completed row))
    \<and> (seen' \<longrightarrow> seen \<or> (\<exists>before after. rows = before @ after \<and> after \<noteq> []
          \<and> (\<forall>row \<in> set after. row_certifies codec now entry completed row)))"
  using assms
proof (induction rows arbitrary: seen prev)
  case (Cons row rows)
  from Cons.prems show ?case
  proof (rule check_rows_Cons)
    fix seen1
    assume c: "prev \<le> ow_time row" "row_in_window now completed row"
      "check_rows codec now entry completed seen1 (ow_time row) rows = Inr (seen', prev')"
      and keep: "seen \<Longrightarrow> seen1" and cert: "seen1 \<Longrightarrow> row_certifies codec now entry completed row"
    note IH = Cons.IH [OF c(3)]
    have "\<exists>before after. row # rows = before @ after \<and> after \<noteq> []
        \<and> (\<forall>row \<in> set after. row_certifies codec now entry completed row)" if "seen'"
    proof (cases seen1)
      case True
      then show ?thesis using IH cert by (intro exI [of _ "[]"] exI [of _ "row # rows"]) simp
    next
      case False
      then obtain before after where "rows = before @ after" "after \<noteq> []"
        "\<forall>row \<in> set after. row_certifies codec now entry completed row" using IH \<open>seen'\<close> by blast
      then show ?thesis by (intro exI [of _ "row # before"] exI [of _ after]) simp
    qed
    then show ?thesis using IH c(1,2) keep cert by auto
  qed
qed simp

lemma page_loop_pages:
  assumes "page_loop codec send c now item entry completed page seen prev fuel = Inr Owner_Complete"
  shows "\<exists>pages prev'. pages \<noteq> [] \<and> length pages \<le> fuel
    \<and> (\<forall>k < length pages. history_page codec send c item completed (page + k) = Inr (pages ! k))
    \<and> (\<forall>h \<in> set (butlast pages). length (ow_data h) = 8) \<and> length (ow_data (last pages)) < 8
    \<and> check_rows codec now entry completed seen prev (concat (map ow_data pages)) = Inr (True, prev')"
  using assms
proof (induction fuel arbitrary: page seen prev)
  case (Suc fuel)
  from Suc.prems obtain h seen1 prev1 where
    h: "history_page codec send c item completed page = Inr h"
    and r: "check_rows codec now entry completed seen prev (ow_data h) = Inr (seen1, prev1)"
    and rest: "if length (ow_data h) < 8
     then seen1
     else page_loop codec send c now item entry completed (page + 1) seen1 prev1 fuel = Inr Owner_Complete"
    by (auto simp: res_simps split: if_splits)
  have le: "length (ow_data h) \<le> 8"
    using h by (auto simp: history_page_def res_simps split: if_splits)
  show ?case
  proof (cases "length (ow_data h) < 8")
    case True
    with rest h r show ?thesis by (intro exI [of _ "[h]"]) auto
  next
    case False
    with rest have "page_loop codec send c now item entry completed (page + 1) seen1 prev1 fuel
        = Inr Owner_Complete" by simp
    from Suc.IH [OF this] obtain pages prev' where p: "pages \<noteq> []" "length pages \<le> fuel"
      "\<forall>k < length pages. history_page codec send c item completed (page + 1 + k) = Inr (pages ! k)"
      "\<forall>h \<in> set (butlast pages). length (ow_data h) = 8" "length (ow_data (last pages)) < 8"
      "check_rows codec now entry completed seen1 prev1 (concat (map ow_data pages)) = Inr (True, prev')"
      by blast
    have "\<forall>k < length (h # pages). history_page codec send c item completed (page + k) = Inr ((h # pages) ! k)"
      using h p(3) by (auto simp: nth_Cons split: nat.splits)
    with p r False le show ?thesis
      by (intro exI [of _ "h # pages"] exI [of _ prev']) (auto simp: check_rows_append)
  qed
qed simp

text \<open>
  C25: Under protocol v2 the answer complete is given only when the owner's ledger Item names the
  request as no longer merely accepted and the owner's persisted history proves it complete: the
  pages read in order to a short last one, at most eight, hold rows in time order within ten seconds
  of the stated completion, and from some row on, not before the completion, every row to the end
  holds exactly that receipt. The result Item alone never completes a request.
\<close>

theorem v2_completion_is_certified:
  assumes "oh_protocol c = FeederRequestV2 item"
    and "feeder_result codec send c now i = Inr Owner_Complete"
  shows "\<exists>raw ledger entry updated completed pages before after.
      item_state_bounded codec send c item 8192 = Inr raw \<and> parse_ledger_v2 codec now raw = Inr ledger
    \<and> entry \<in> set (ol_entries ledger) \<and> oe_request_id entry = i \<and> oe_status entry \<noteq> ''accepted''
    \<and> oe_updated_at entry = Some updated \<and> parse_v2_time codec now updated = Inr completed
    \<and> pages \<noteq> [] \<and> length pages \<le> 8
    \<and> (\<forall>k < length pages. history_page codec send c item completed k = Inr (pages ! k))
    \<and> (\<forall>h \<in> set (butlast pages). length (ow_data h) = 8) \<and> length (ow_data (last pages)) < 8
    \<and> concat (map ow_data pages) = before @ after \<and> after \<noteq> []
    \<and> sorted (map ow_time (before @ after))
    \<and> (\<forall>row \<in> set (before @ after). row_in_window now completed row)
    \<and> (\<forall>row \<in> set after. row_certifies codec now entry completed row)"
proof -
  have notification: "parse_result_v2 codec now state i \<noteq> Inr Owner_Complete" for state
    by (auto simp: parse_result_v2_def res_simps Let_def split: if_splits)
  from assms obtain raw ledger entry updated completed where
    l: "item_state_bounded codec send c item 8192 = Inr raw" "parse_ledger_v2 codec now raw = Inr ledger"
    and f: "find (\<lambda>e. oe_request_id e = i) (ol_entries ledger) = Some entry"
    and e: "oe_status entry \<noteq> ''accepted''" "oe_updated_at entry = Some updated"
      "parse_v2_time codec now updated = Inr completed"
    and p: "page_loop codec send c now item entry completed 0 False i64_min 8 = Inr Owner_Complete"
    by (auto simp: feeder_result_def feeder_result_v2_def res_simps notification
        split: option.splits if_splits)
  from find_Some_in [OF f] have entry: "entry \<in> set (ol_entries ledger)" "oe_request_id entry = i" by auto
  from page_loop_pages [OF p] obtain pages prev' where g: "pages \<noteq> []" "length pages \<le> 8"
    "\<forall>k < length pages. history_page codec send c item completed k = Inr (pages ! k)"
    "\<forall>h \<in> set (butlast pages). length (ow_data h) = 8" "length (ow_data (last pages)) < 8"
    and r: "check_rows codec now entry completed False i64_min (concat (map ow_data pages)) = Inr (True, prev')"
    by auto
  from check_rows_sound [OF r] obtain before after where
    split: "concat (map ow_data pages) = before @ after" "after \<noteq> []"
      "\<forall>row \<in> set after. row_certifies codec now entry completed row"
    and "sorted (map ow_time (before @ after))"
      "\<forall>row \<in> set (before @ after). row_in_window now completed row"
    by auto
  then show ?thesis using l entry e g by blast
qed

definition sample_owner_entry :: owner_entry where
  "sample_owner_entry = \<lparr>oe_version = ''feeder-request-v2'', oe_request_id = ''request-1'',
     oe_status = ''complete'', oe_reason = ''complete'', oe_at = ''t0'', oe_updated_at = Some ''t1''\<rparr>"

definition sample_oh_codec :: oh_codec where
  "sample_oh_codec = \<lparr>oj_join = (\<lambda>u p. Some (u\<lparr>url_path := url_path u @ p\<rparr>)),
     oj_time = (\<lambda>s. Some ((if s = ''t0'' then 1000000000 else 1000000001) * NANO)),
     oj_uuid = Some, oj_result = (\<lambda>_. None), oj_entry = (\<lambda>_. None),
     oj_ledger = (\<lambda>_. Some \<lparr>ol_version = ''feeder-request-ledger/v2'', ol_entries = [sample_owner_entry]\<rparr>),
     oj_history = (\<lambda>_. Some \<lparr>ow_name = ''Ledger'', ow_datapoints = ''1'',
       ow_data = [\<lparr>ow_time = 1000000001500, ow_state = ''L''\<rparr>]\<rparr>)\<rparr>"

definition sample_oh_client :: openhab_client where
  "sample_oh_client = \<lparr>oh_base = \<lparr>url_scheme = ''http'', url_username = [], url_password = None,
       url_host = Some ''127.0.0.1'', url_path = ''/'', url_query = None, url_fragment = None\<rparr>,
     oh_request_item = ''Request'', oh_ack_item = ''Ack'', oh_protocol = FeederRequestV2 ''Ledger'',
     oh_override_item = ''Override'', oh_remote_enabled_item = ''Remote'', oh_temperature_item = None\<rparr>"

definition sample_oh_send :: oh_network where
  "sample_oh_send = (\<lambda>_. Inr \<lparr>hr_status = 200, hr_content_length = None, hr_chunks = [Inr ''L'']\<rparr>)"

lemma sample_oh_complete:
  "feeder_result sample_oh_codec sample_oh_send sample_oh_client (1000000005 * NANO) ''request-1''
    = Inr Owner_Complete"
proof -
  have ledger: "parse_ledger_v2 sample_oh_codec (1000000005 * NANO) raw
      = Inr \<lparr>ol_version = ''feeder-request-ledger/v2'', ol_entries = [sample_owner_entry]\<rparr>"
    if "length raw \<le> 8192" for raw
    using that
    by (simp add: parse_ledger_v2_def sample_oh_codec_def sample_owner_entry_def parse_v2_time_def
        NANO_def ledger_id_byte_def is_ascii_alphanumeric_def is_ascii_digit_def is_ascii_lowercase_def
        is_ascii_uppercase_def byte_def)
  have state: "item_state_bounded sample_oh_codec sample_oh_send sample_oh_client ''Ledger'' 8192 = Inr ''L''"
    by (simp add: item_state_bounded_def sample_oh_codec_def sample_oh_send_def is_success_def
        bounded_body_def byte_def)
  have page: "history_page sample_oh_codec sample_oh_send sample_oh_client ''Ledger'' (1000000001 * NANO) 0
      = Inr \<lparr>ow_name = ''Ledger'', ow_datapoints = ''1'',
          ow_data = [\<lparr>ow_time = 1000000001500, ow_state = ''L''\<rparr>]\<rparr>"
    by (simp add: history_page_def sample_oh_codec_def sample_oh_send_def is_success_def
        bounded_body_def parse_u64_def all_digits_def digits_value_def digit_value_def
        is_ascii_digit_def byte_def)
  have updated: "parse_v2_time sample_oh_codec (1000000005 * NANO) ''t1'' = Inr (1000000001 * NANO)"
    by (simp add: parse_v2_time_def sample_oh_codec_def NANO_def)
  have "page_loop sample_oh_codec sample_oh_send sample_oh_client (1000000005 * NANO) ''Ledger''
      sample_owner_entry (1000000001 * NANO) 0 False i64_min (Suc 7) = Inr Owner_Complete"
    using ledger [of "''L''"]
    unfolding page_loop.simps page
    by (simp add: sample_owner_entry_def millis_def NANO_def i64_min_def)
  then show ?thesis
    using ledger [of "''L''"] updated
    by (simp add: feeder_result_def feeder_result_v2_def sample_oh_client_def state [unfolded sample_oh_client_def]
        sample_owner_entry_def)
qed

theorem v2_completion_is_certified_witness:
  "\<exists>raw ledger entry. item_state_bounded sample_oh_codec sample_oh_send sample_oh_client ''Ledger'' 8192 = Inr raw
    \<and> parse_ledger_v2 sample_oh_codec (1000000005 * NANO) raw = Inr ledger
    \<and> entry \<in> set (ol_entries ledger) \<and> oe_request_id entry = ''request-1''"
proof -
  have "oh_protocol sample_oh_client = FeederRequestV2 ''Ledger''" by (simp add: sample_oh_client_def)
  from v2_completion_is_certified [OF this sample_oh_complete] show ?thesis by blast
qed

end
