(* ===== verification/Strike_Amounts.thy ===== *)
theory Strike_Amounts
  imports Quote_Service Rust_Text
begin

text \<open>
  Amounts on the wire to and from Strike (\<open>src/src/strike.rs\<close>): millisatoshis printed as a BTC
  decimal, BTC decimals parsed to millisatoshis, and the syntax check of amounts that are only kept
  as evidence. Both directions are exact.
\<close>

datatype amount_error =
    AmountSigned
  | AmountSyntax
  | WholeTooLarge
  | FractionSyntax
  | FractionInvalid
  | AmountRange
  | EvidenceSyntax

definition MSAT_PER_BTC :: u64 where
  "MSAT_PER_BTC = 100000000000"

definition msat_to_btc_decimal :: "u64 \<Rightarrow> string" where
  "msat_to_btc_decimal msat =
     show_u64 (msat div MSAT_PER_BTC) @ ''.'' @ pad_zeros 11 (show_u64 (msat mod MSAT_PER_BTC))"

definition checked_mul_u64 :: "u64 \<Rightarrow> u64 \<Rightarrow> u64 option" where
  "checked_mul_u64 a b = (if unat a * unat b < 2 ^ 64 then Some (a * b) else None)"

text \<open>\<open>split_dots\<close> is \<open>split('.')\<close>; the iterator yields the whole, perhaps a fraction, and nothing
  more. \<open>repeat_n\<close> pads the fraction to eleven digits.\<close>

definition btc_decimal_to_msat :: "string \<Rightarrow> amount_error + u64" where
  "btc_decimal_to_msat raw =
     (let v = trim raw in
      if v = [] \<or> hd v = CHR ''-'' \<or> hd v = CHR ''+'' then Inl AmountSigned
      else let parts = split_dots v; whole = hd parts;
               fraction = (case tl parts of [] \<Rightarrow> [] | f # _ \<Rightarrow> f) in
      if length parts > 2 \<or> whole = [] \<or> \<not> list_all is_ascii_digit whole then Inl AmountSyntax
      else andthen (ok_or WholeTooLarge (parse_u64 whole)) (\<lambda>w.
      if length fraction > 11 \<or> \<not> list_all is_ascii_digit fraction then Inl FractionSyntax
      else andthen (ok_or FractionInvalid
        (parse_u64 (fraction @ replicate (11 - length fraction) CHR ''0''))) (\<lambda>f.
      ok_or AmountRange
        (case checked_mul_u64 w MSAT_PER_BTC of None \<Rightarrow> None | Some base \<Rightarrow> checked_add_u64 base f))))"

definition validate_decimal_evidence :: "string \<Rightarrow> amount_error + unit" where
  "validate_decimal_evidence v =
     (let parts = split_dots v; whole = hd parts in
      if length v > 64 \<or> whole = [] \<or> \<not> list_all is_ascii_digit whole
         \<or> (case tl parts of [] \<Rightarrow> False | f # _ \<Rightarrow> f = [] \<or> \<not> list_all is_ascii_digit f)
         \<or> length parts > 2 \<or> \<not> list_ex (\<lambda>c. 49 \<le> byte c \<and> byte c \<le> 57) v
      then Inl EvidenceSyntax else Inr ())"

section \<open>Lemmas\<close>

lemma split_dots_digits:
  assumes "list_all is_ascii_digit w"
  shows "split_dots w = [w]" and "split_dots (w @ CHR ''.'' # rest) = w # split_dots rest"
proof -
  have dot: "byte CHR ''.'' = 46" by (simp add: byte_def)
  show "split_dots w = [w]"
    using assms by (induction w) (auto simp: is_ascii_digit_def)
  show "split_dots (w @ CHR ''.'' # rest) = w # split_dots rest"
    using assms by (induction w) (auto simp: is_ascii_digit_def dot)
qed

text \<open>A text is its parts with dots between them.\<close>

fun join_dots :: "string list \<Rightarrow> string" where
  "join_dots [] = []"
| "join_dots [w] = w"
| "join_dots (w # ws) = w @ CHR ''.'' # join_dots ws"

lemma byte_46: "byte c = 46 \<longleftrightarrow> c = CHR ''.''"
proof
  have e: "(of_char CHR ''.'' :: nat) = 46" by simp
  assume "byte c = 46"
  then have "(of_char c :: nat) = of_char CHR ''.''" unfolding byte_def e .
  then show "c = CHR ''.''" by (rule iffD1 [OF of_char_eq_iff])
qed (simp add: byte_def)

lemma split_dots_nonempty: "split_dots s \<noteq> []"
  by (induction s) (auto split: list.splits)

lemma join_split_dots: "join_dots (split_dots s) = s"
proof (induction s)
  case (Cons c s)
  obtain w ws where s: "split_dots s = w # ws" using split_dots_nonempty by (cases "split_dots s") auto
  show ?case
  proof (cases "byte c = 46")
    case True
    then have "c = CHR ''.''" by (simp add: byte_46)
    with True s Cons show ?thesis by simp
  next
    case False
    then have "split_dots (c # s) = (c # w) # ws" using s by simp
    moreover have "join_dots ((c # w) # ws) = c # join_dots (w # ws)" by (cases ws) auto
    ultimately show ?thesis using s Cons by simp
  qed
qed simp

definition unspaced :: "char \<Rightarrow> bool" where
  "unspaced c \<longleftrightarrow> \<not> space1 (byte c) \<and> byte c < 128"

lemma unspaced_edges:
  "list_all unspaced t \<Longrightarrow> leading_space t = 0" "list_all unspaced t \<Longrightarrow> trailing_space t = 0"
  by (cases t rule: leading_space.cases; simp add: unspaced_def space3_def)
    (cases t rule: trailing_space.cases; simp add: unspaced_def space3_def)

lemma trim_plain:
  assumes "list_all (\<lambda>c. is_ascii_digit c \<or> c = CHR ''.'') s"
  shows "trim s = s"
proof -
  have u: "list_all unspaced s"
    using assms by (auto simp: list_all_iff unspaced_def is_ascii_digit_def space1_def byte_def)
  then have "list_all unspaced (rev s)" by (simp add: list_all_iff)
  with u have "trim_start s = s" "trim_end_rev (rev s) = rev s"
    by (simp_all add: unspaced_edges trim_start.simps [of s] trim_end_rev.simps [of "rev s"])
  then show ?thesis by (simp add: trim_def)
qed

lemma parse_u64_digits:
  assumes "w \<noteq> []" "list_all is_ascii_digit w"
  shows "parse_u64 w = (if digits_value w < 2 ^ 64 then Some (of_nat (digits_value w)) else None)"
proof -
  have "hd w \<noteq> CHR ''+''" using assms by (cases w) (auto simp: is_ascii_digit_def byte_def)
  then show ?thesis using assms by (cases w) (auto simp: parse_u64_def all_digits_def)
qed

lemma parse_u64_unat:
  "w \<noteq> [] \<Longrightarrow> list_all is_ascii_digit w \<Longrightarrow> parse_u64 w = Some x \<Longrightarrow> unat x = digits_value w"
  by (auto simp: parse_u64_digits unat_of_nat split: if_splits)

lemma msat_parts:
  "unat (m div MSAT_PER_BTC) = unat m div 10 ^ 11" "unat (m mod MSAT_PER_BTC) = unat m mod 10 ^ 11"
  by (simp_all add: MSAT_PER_BTC_def unat_div_distrib unat_mod_distrib)

lemma pad_zeros_11:
  assumes "n < 10 ^ 11"
  shows "length (pad_zeros 11 (show_nat n)) = 11" "digits_value (pad_zeros 11 (show_nat n)) = n"
    "list_all is_ascii_digit (pad_zeros 11 (show_nat n))"
proof -
  have "length (show_nat n) \<le> 11" by (rule length_show_nat [OF assms]) simp
  then show "length (pad_zeros 11 (show_nat n)) = 11" by (simp add: pad_zeros_def)
  show "digits_value (pad_zeros 11 (show_nat n)) = n"
    by (simp add: pad_zeros_def digits_value_append digits_value_zeros digits_value_show)
  show "list_all is_ascii_digit (pad_zeros 11 (show_nat n))"
    using show_nat_digits [of n]
    by (auto simp: pad_zeros_def all_digits_def list_all_iff is_ascii_digit_def byte_def)
qed

text \<open>
  What \<open>btc_decimal_to_msat\<close> accepts and returns: the trimmed text is digits, or digits, a dot and at
  most eleven digits, and the result is its exact value in millisatoshis, which fits a \<open>u64\<close>.
\<close>

lemma btc_decimal_cases:
  assumes "btc_decimal_to_msat raw = Inr m"
  obtains whole fraction where "trim raw = whole \<or> trim raw = whole @ ''.'' @ fraction"
    "trim raw = whole \<Longrightarrow> fraction = []" "whole \<noteq> []" "list_all is_ascii_digit whole"
    "list_all is_ascii_digit fraction" "length fraction \<le> 11"
    "unat m = digits_value whole * 10 ^ 11 + digits_value fraction * 10 ^ (11 - length fraction)"
proof -
  let ?v = "trim raw"
  define whole where "whole = hd (split_dots ?v)"
  define fraction where "fraction = (case tl (split_dots ?v) of [] \<Rightarrow> [] | f # _ \<Rightarrow> f)"
  from assms obtain w f where
    l: "length (split_dots ?v) \<le> 2" "whole \<noteq> []" "list_all is_ascii_digit whole"
    and w: "parse_u64 whole = Some w"
    and f: "length fraction \<le> 11" "list_all is_ascii_digit fraction"
      "parse_u64 (fraction @ replicate (11 - length fraction) CHR ''0'') = Some f"
    and m: "(case checked_mul_u64 w MSAT_PER_BTC of None \<Rightarrow> None | Some base \<Rightarrow> checked_add_u64 base f) = Some m"
    unfolding btc_decimal_to_msat_def Let_def whole_def [symmetric] fraction_def [symmetric]
    by (auto simp: andthen_eq_Inr not_less split: if_splits)
  obtain ws where s: "split_dots ?v = whole # ws"
    using split_dots_nonempty [of ?v] unfolding whole_def by (cases "split_dots ?v") auto
  have v: "?v = join_dots (whole # ws)" using join_split_dots [of ?v] s by simp
  have uw: "unat w = digits_value whole"
    using parse_u64_unat [OF l(2,3) w] .
  let ?p = "fraction @ replicate (11 - length fraction) CHR ''0''"
  have "length ?p = 11" using f(1) by simp
  then have p: "?p \<noteq> []" by (metis list.size(3) zero_neq_numeral)
  have d: "list_all is_ascii_digit ?p" using f(2) by (auto simp: list_all_iff is_ascii_digit_def byte_def)
  have uf: "unat f = digits_value fraction * 10 ^ (11 - length fraction)"
    using parse_u64_unat [OF p d f(3)] by (simp add: digits_value_append digits_value_zeros)
  have um: "unat m = unat w * 10 ^ 11 + unat f"
  proof -
    from m obtain base where b: "checked_mul_u64 w MSAT_PER_BTC = Some base" "checked_add_u64 base f = Some m"
      by (auto split: option.splits)
    then have "unat base = unat w * 10 ^ 11"
      by (auto simp: checked_mul_u64_def MSAT_PER_BTC_def unat_word_ariths split: if_splits)
    with checked_add_u64_unat [OF b(2)] show ?thesis by simp
  qed
  show thesis
  proof (rule that [of whole fraction])
    show "?v = whole \<or> ?v = whole @ ''.'' @ fraction"
      using v l(1) s by (cases ws; cases "tl ws") (auto simp: fraction_def)
    show "fraction = []" if "?v = whole"
      using that s split_dots_digits(1) [OF l(3)] by (simp add: fraction_def)
    show "unat m = digits_value whole * 10 ^ 11 + digits_value fraction * 10 ^ (11 - length fraction)"
      using um uw uf by simp
  qed (use l f in auto)
qed

lemma btc_decimal_exact:
  assumes "btc_decimal_to_msat raw = Inr m"
  shows "decimal_value (trim raw) = of_nat (unat m) / 100000000000"
  using assms
proof (rule btc_decimal_cases)
  fix whole fraction
  assume v: "trim raw = whole \<or> trim raw = whole @ ''.'' @ fraction" "trim raw = whole \<Longrightarrow> fraction = []"
    and d: "list_all is_ascii_digit whole" "length fraction \<le> 11"
    and m: "unat m = digits_value whole * 10 ^ 11 + digits_value fraction * 10 ^ (11 - length fraction)"
  have e: "(10 :: nat) ^ 11 = 10 ^ length fraction * 10 ^ (11 - length fraction)"
    using d(2) by (simp flip: power_add)
  have "split_once_dot (trim raw) = (whole, fraction)"
    using v split_once_dot_digits [OF d(1)] by auto
  then have "decimal_value (trim raw)
      = of_nat (digits_value whole * 10 ^ length fraction + digits_value fraction) / of_nat (10 ^ length fraction)"
    by (simp add: decimal_value_def scaled_digits_def fraction_digits_def digits_value_append)
  also have "\<dots> = of_nat (unat m) / of_nat (10 ^ 11)"
    by (rule nat_ratio_eq) (simp_all only: m e algebra_simps zero_less_power zero_less_numeral mult_pos_pos)
  finally show ?thesis by (simp del: of_nat_unat)
qed

lemma msat_round_trip:
  "btc_decimal_to_msat (msat_to_btc_decimal m) = Inr m"
  "trim (msat_to_btc_decimal m) = msat_to_btc_decimal m"
proof -
  have lt: "unat x < 2 ^ 64" for x :: u64 using unsigned_less [of x, where ?'a = nat] by simp
  define w where "w = show_u64 (m div MSAT_PER_BTC)"
  define f where "f = pad_zeros 11 (show_u64 (m mod MSAT_PER_BTC))"
  have t: "msat_to_btc_decimal m = w @ CHR ''.'' # f" by (simp add: msat_to_btc_decimal_def w_def f_def)
  have w: "list_all is_ascii_digit w" "w \<noteq> []"
    using show_nat_digits by (auto simp: all_digits_def w_def show_u64_def)
  have "unat (m mod MSAT_PER_BTC) < 10 ^ 11" unfolding msat_parts by simp
  from pad_zeros_11 [OF this] have f: "length f = 11" "digits_value f = unat (m mod MSAT_PER_BTC)"
    "list_all is_ascii_digit f" by (simp_all add: f_def show_u64_def)
  have tr: "trim (w @ CHR ''.'' # f) = w @ CHR ''.'' # f"
    using w(1) f(3) by (intro trim_plain) (auto simp: list_all_iff)
  have s: "split_dots (w @ CHR ''.'' # f) = [w, f]"
    by (simp add: split_dots_digits(2) [OF w(1)] split_dots_digits(1) [OF f(3)])
  have h: "hd (w @ CHR ''.'' # f) \<noteq> CHR ''-'' \<and> hd (w @ CHR ''.'' # f) \<noteq> CHR ''+''"
    using w by (cases w) (auto simp: is_ascii_digit_def byte_def)
  have pw: "parse_u64 w = Some (m div MSAT_PER_BTC)" by (simp add: w_def)
  have "f \<noteq> []" using f(1) by auto
  then have pf: "parse_u64 f = Some (m mod MSAT_PER_BTC)"
    using lt [of "m mod MSAT_PER_BTC"] by (simp add: parse_u64_digits f)
  have u: "unat (m div MSAT_PER_BTC) * unat MSAT_PER_BTC + unat (m mod MSAT_PER_BTC) = unat m"
    unfolding msat_parts by (simp add: MSAT_PER_BTC_def)
  have "unat (m div MSAT_PER_BTC) * unat MSAT_PER_BTC < 2 ^ 64"
    using u lt [of m] by simp
  then have mul: "checked_mul_u64 (m div MSAT_PER_BTC) MSAT_PER_BTC = Some (m div MSAT_PER_BTC * MSAT_PER_BTC)"
    "unat (m div MSAT_PER_BTC * MSAT_PER_BTC) = unat (m div MSAT_PER_BTC) * unat MSAT_PER_BTC"
    by (simp_all add: checked_mul_u64_def unat_word_ariths)
  have add: "checked_add_u64 (m div MSAT_PER_BTC * MSAT_PER_BTC) (m mod MSAT_PER_BTC) = Some m"
    unfolding checked_add_u64_Some mul(2) using u lt [of m] by (simp add: div_mult_mod_eq)
  show "btc_decimal_to_msat (msat_to_btc_decimal m) = Inr m"
    unfolding btc_decimal_to_msat_def Let_def t tr s
    using h w f(1,3) by (simp add: pw pf mul(1) add)
  show "trim (msat_to_btc_decimal m) = msat_to_btc_decimal m" unfolding t by (rule tr)
qed

text \<open>
  The BTC amount the program sends to Strike is exact and reads back: the text printed for any
  number of millisatoshis has that value in BTC, and parsing it returns the same number.
\<close>

theorem msat_text_reads_back:
  "btc_decimal_to_msat (msat_to_btc_decimal m) = Inr m
   \<and> decimal_value (msat_to_btc_decimal m) = of_nat (unat m) / 100000000000"
  using btc_decimal_exact [OF msat_round_trip(1)] by (simp only: msat_round_trip simp_thms)

end
