(* ===== verification/Strike_Provider.thy ===== *)
theory Strike_Provider
  imports Strike_Amounts Ledger_Inbox
begin

text \<open>
  The Strike client, \<open>StrikeClient\<close> and \<open>StrikeWebhookVerifier\<close> of \<open>src/src/strike.rs\<close>, with the check
  of signed invoices of \<open>src/src/bolt11.rs\<close>. The network answers each request (\<open>strike_network\<close>);
  serde_json, the BOLT11 parser with its signature check, the hex decoder and HMAC-SHA256 are fields
  of a \<open>strike_codec\<close>. A Strike API URL is a \<open>url\<close> of \<open>Gateway_Client\<close>.
\<close>

section \<open>Errors\<close>

text \<open>\<open>Bail\<close> carries the message of a \<open>bail!\<close> or a \<open>context\<close>, without the values printed into it.
  \<open>InvoiceCapacity\<close> is \<open>InvoiceCapacityError\<close>, which the LNURL service tells apart.\<close>

datatype strike_error =
    StrikeLedger ledger_error
  | StrikeAmountError amount_error
  | StrikeBody gateway_error
  | StrikeStatus nat
  | InvoiceCapacity
  | Bail string

section \<open>Wire types\<close>

record provider_amount =
  pa_amount :: string
  pa_currency :: string

record provider_conversion =
  pc_amount :: string
  pc_source_currency :: string
  pc_target_currency :: string

record lightning_receive =
  lr_invoice :: string
  lr_description_hash :: "string option"
  lr_payment_hash :: string

record strike_receive =
  rc_receive_id :: uuid
  rc_receive_request_id :: uuid
  rc_type :: string
  rc_state :: string
  rc_amount_received :: provider_amount
  rc_amount_credited :: "provider_amount option"
  rc_conversion_rate :: "provider_conversion option"
  rc_completed :: "string option"
  rc_lightning :: "lightning_receive option"

record bolt11_receive_request =
  br_invoice :: string
  br_requested_amount :: "provider_amount option"
  br_btc_amount :: "string option"
  br_description_hash :: "string option"
  br_payment_hash :: string

record receive_request_response =
  rr_receive_request_id :: uuid
  rr_created :: "string option"
  rr_target_currency :: "string option"
  rr_bolt11 :: "bolt11_receive_request option"

record create_body =
  cb_amount :: string
  cb_currency :: string
  cb_description_hash :: string
  cb_expiry_in_seconds :: u64
  cb_target_currency :: string

record webhook_event =
  we_id :: uuid
  we_event_type :: string
  we_version :: string
  we_entity_id :: uuid
  we_receive_id :: uuid

text \<open>What the program reads of a parsed BOLT11 invoice. \<open>bi_description_hash\<close> is \<open>None\<close> for a direct
  description; times are nanoseconds since the epoch, \<open>bi_expires_at\<close> is \<open>None\<close> on overflow.\<close>

record bolt11_invoice =
  bi_signature_ok :: bool
  bi_mainnet :: bool
  bi_amount_msat :: "u64 option"
  bi_payment_hash :: string
  bi_description_hash :: "string option"
  bi_expiry :: nat
  bi_timestamp :: nat
  bi_expires_at :: "nat option"

datatype strike_request =
    Sk_create url create_body
  | Sk_find url
  | Sk_receives url "(string \<times> string) list"

type_synonym strike_network = "strike_request \<Rightarrow> unit + http_response"

record strike_codec =
  sj_join :: "url \<Rightarrow> string \<Rightarrow> url option"
  sj_request :: "string \<Rightarrow> receive_request_response option"
  sj_page :: "string \<Rightarrow> strike_receive list option"
  sj_invoice :: "string \<Rightarrow> bolt11_invoice option"
  sj_webhook :: "string \<Rightarrow> webhook_event option"
  sj_hex :: "string \<Rightarrow> string option"
  sj_hmac :: "string \<Rightarrow> string \<Rightarrow> string"

section \<open>The client\<close>

definition validate_provider_url :: "url \<Rightarrow> strike_error + unit" where
  "validate_provider_url u =
     (case url_host u of
        None \<Rightarrow> Inl (Bail ''Strike API URL is missing a host'')
      | Some host \<Rightarrow>
          if url_username u \<noteq> [] \<or> url_password u \<noteq> None then Inl (Bail ''Strike API credentials must not be embedded in the URL'')
          else if url_scheme u = ''https'' then Inr ()
          else if url_scheme u = ''http'' \<and> (eq_ignore_ascii_case host ''localhost''
              \<or> (case ip_from_str host of Some ip \<Rightarrow> is_loopback ip | None \<Rightarrow> False))
          then Inr ()
          else Inl (Bail ''Strike API URL must use HTTPS''))"

record strike_client =
  sk_base :: url
  sk_api_key :: string

definition strike_client_new ::
  "(string \<Rightarrow> url option) \<Rightarrow> string \<Rightarrow> string \<Rightarrow> strike_error + strike_client" where
  "strike_client_new parse_url base_url api_key =
     (if trim api_key = [] then Inl (Bail ''Strike API key is empty'')
      else andthen (ok_or (Bail ''invalid Strike API URL'') (parse_url base_url)) (\<lambda>u.
      andthen (validate_provider_url u) (\<lambda>_.
      if url_query u \<noteq> None \<or> url_fragment u \<noteq> None then Inl (Bail ''Strike API base URL must not contain a query or fragment'')
      else Inr \<lparr>sk_base = (if ends_with (url_path u) ''/'' then u else u\<lparr>url_path := url_path u @ ''/''\<rparr>),
                sk_api_key = api_key\<rparr>)))"

definition send_json ::
  "strike_network \<Rightarrow> 'a json_reader \<Rightarrow> strike_request \<Rightarrow> strike_error + 'a" where
  "send_json send parse request =
     andthen (map_err (\<lambda>_. (Bail ''Strike request failed'')) (send request)) (\<lambda>response.
     andthen (map_err StrikeBody (bounded_body (256 * 1024) response)) (\<lambda>body.
     if \<not> is_success (hr_status response)
     then (if hr_status response = 429 then Inl (Bail ''Strike rate limited (HTTP 429)'') else Inl (StrikeStatus (hr_status response)))
     else ok_or (Bail ''Strike returned malformed JSON'') (parse body)))"

definition hex32 :: "string \<Rightarrow> strike_error + unit" where
  "hex32 v = (if length v \<noteq> 64 \<or> \<not> list_all is_ascii_hexdigit v then Inl (Bail ''must be a 32-byte hex string'') else Inr ())"

section \<open>Signed invoices\<close>

definition verify_invoice ::
  "(string \<Rightarrow> bolt11_invoice option) \<Rightarrow> string \<Rightarrow> u64 \<Rightarrow> string \<Rightarrow> string \<Rightarrow> strike_error + bolt11_invoice" where
  "verify_invoice parse encoded amount_msat payment_hash description_hash =
     andthen (ok_or (Bail ''invalid signed BOLT11 invoice'') (parse encoded)) (\<lambda>invoice.
     if \<not> bi_signature_ok invoice then Inl (Bail ''invalid BOLT11 signature'')
     else if \<not> bi_mainnet invoice then Inl (Bail ''BOLT11 network must be Bitcoin mainnet'')
     else if bi_amount_msat invoice \<noteq> Some amount_msat \<or> amount_msat = 0 then Inl (Bail ''BOLT11 amount differs from requested millisatoshis'')
     else if \<not> eq_ignore_ascii_case (bi_payment_hash invoice) payment_hash then Inl (Bail ''BOLT11 payment hash differs from provider contract'')
     else case bi_description_hash invoice of
       Some hash \<Rightarrow> if eq_ignore_ascii_case hash description_hash then Inr invoice
         else Inl (Bail ''BOLT11 must commit to the exact LNURL metadata hash'')
     | None \<Rightarrow> Inl (Bail ''BOLT11 must commit to the exact LNURL metadata hash''))"

definition DURATION_MAX :: nat where
  "DURATION_MAX = (2 ^ 64 - 1) * 1000000000 + 999999999"

definition verify_expiry_at :: "bolt11_invoice \<Rightarrow> u64 \<Rightarrow> nat \<Rightarrow> strike_error + unit" where
  "verify_expiry_at invoice expected_seconds now =
     (if expected_seconds = 0 \<or> bi_expiry invoice \<noteq> unat expected_seconds * 1000000000
      then Inl (Bail ''BOLT11 expiry differs from requested expiry'')
      else if bi_timestamp invoice > min (now + 30 * 1000000000) DURATION_MAX then Inl (Bail ''BOLT11 timestamp is too far in the future'')
      else if (case bi_expires_at invoice of None \<Rightarrow> True | Some expires \<Rightarrow> expires \<le> now)
      then Inl (Bail ''BOLT11 is already expired'') else Inr ())"

definition btc_equals :: "string \<Rightarrow> u64 \<Rightarrow> strike_error \<Rightarrow> strike_error + unit" where
  "btc_equals text amount_msat e =
     andthen (map_err StrikeAmountError (btc_decimal_to_msat text)) (\<lambda>returned.
     if returned \<noteq> amount_msat then Inl e else Inr ())"

definition validate_receive_request_response ::
  "strike_codec \<Rightarrow> receive_request_response \<Rightarrow> u64 \<Rightarrow> string \<Rightarrow> strike_error + bolt11_invoice" where
  "validate_receive_request_response codec response amount_msat expected_hash =
     (if rr_target_currency response \<notin> {None, Some ''BTC''} then Inl (Bail ''Strike receive request targetCurrency is not BTC'')
      else andthen (ok_or (Bail ''Strike receive request omitted bolt11'') (rr_bolt11 response)) (\<lambda>b.
      if br_invoice b = [] \<or> length (br_invoice b) > 8192 then Inl (Bail ''Strike returned an invalid BOLT11 invoice length'')
      else andthen (hex32 (br_payment_hash b)) (\<lambda>_.
      andthen (verify_invoice (sj_invoice codec) (br_invoice b) amount_msat (br_payment_hash b)
        expected_hash) (\<lambda>verified.
      andthen (case br_description_hash b of
           None \<Rightarrow> Inr ()
         | Some hash \<Rightarrow> andthen (hex32 hash) (\<lambda>_.
             if \<not> eq_ignore_ascii_case hash expected_hash then Inl (Bail ''Strike returned a different descriptionHash than requested'') else Inr ())) (\<lambda>_.
      andthen (case br_requested_amount b of
           None \<Rightarrow> Inr ()
         | Some a \<Rightarrow> if pa_currency a \<noteq> ''BTC'' then Inl (Bail ''Strike requestedAmount currency is not BTC'')
             else btc_equals (pa_amount a) amount_msat (Bail ''Strike requestedAmount does not match requested millisatoshis'')) (\<lambda>_.
      andthen (case br_btc_amount b of
           None \<Rightarrow> Inr ()
         | Some a \<Rightarrow> btc_equals a amount_msat (Bail ''Strike btcAmount does not match requested millisatoshis'')) (\<lambda>_.
        Inr verified)))))))"

section \<open>Issuing\<close>

record created_receive_request =
  cr_receive_request_id :: uuid
  cr_invoice :: string
  cr_payment_hash :: string
  cr_description_hash :: string
  cr_created_provider :: "string option"

definition create_bolt11_receive_request ::
  "strike_codec \<Rightarrow> strike_network \<Rightarrow> strike_client \<Rightarrow> nat \<Rightarrow> u64 \<Rightarrow> string \<Rightarrow> u64
     \<Rightarrow> strike_error + created_receive_request" where
  "create_bolt11_receive_request codec send c now amount_msat description_hash expiry_seconds =
     (if amount_msat = 0 then Inl (Bail ''Strike receive amount must be greater than zero'')
      else andthen (hex32 description_hash) (\<lambda>_.
      if expiry_seconds = 0 then Inl (Bail ''Strike receive expiry must be greater than zero'')
      else andthen (ok_or (Bail ''failed constructing Strike URL'') (sj_join codec (sk_base c) ''v1/receive-requests'')) (\<lambda>endpoint.
      andthen (send_json send (sj_request codec) (Sk_create endpoint
        \<lparr>cb_amount = msat_to_btc_decimal amount_msat, cb_currency = ''BTC'',
         cb_description_hash = to_ascii_lowercase description_hash,
         cb_expiry_in_seconds = expiry_seconds, cb_target_currency = ''BTC''\<rparr>)) (\<lambda>response.
      andthen (validate_receive_request_response codec response amount_msat description_hash) (\<lambda>invoice.
      andthen (verify_expiry_at invoice expiry_seconds now) (\<lambda>_.
      andthen (ok_or (Bail ''Strike receive request omitted bolt11'') (rr_bolt11 response)) (\<lambda>b.
        Inr \<lparr>cr_receive_request_id = rr_receive_request_id response, cr_invoice = br_invoice b,
             cr_payment_hash = to_ascii_lowercase (br_payment_hash b),
             cr_description_hash = (case br_description_hash b of
                Some hash \<Rightarrow> hash | None \<Rightarrow> to_ascii_lowercase description_hash),
             cr_created_provider = rr_created response\<rparr>)))))))"

section \<open>Looking up\<close>

definition find_receive_request ::
  "strike_codec \<Rightarrow> strike_network \<Rightarrow> strike_client \<Rightarrow> uuid \<Rightarrow> strike_error + receive_request_response" where
  "find_receive_request codec send c i =
     andthen (ok_or (Bail ''failed constructing Strike URL'') (sj_join codec (sk_base c) (''v1/receive-requests/'' @ i))) (\<lambda>endpoint.
       send_json send (sj_request codec) (Sk_find endpoint))"

definition find_receive ::
  "strike_codec \<Rightarrow> strike_network \<Rightarrow> strike_client \<Rightarrow> uuid \<Rightarrow> uuid \<Rightarrow> strike_error + strike_receive" where
  "find_receive codec send c request_id receive_id =
     andthen (ok_or (Bail ''failed constructing Strike URL'')
       (sj_join codec (sk_base c) (''v1/receive-requests/'' @ request_id @ ''/receives''))) (\<lambda>endpoint.
     andthen (send_json send (sj_page codec)
       (Sk_receives endpoint [(''$receiveId'', receive_id), (''$top'', ''2'')])) (\<lambda>items.
     case filter (\<lambda>item. rc_receive_id item = receive_id) items of
       [] \<Rightarrow> Inl (Bail ''Strike did not return the referenced receiveId'')
     | [receive] \<Rightarrow> Inr receive
     | _ \<Rightarrow> Inl (Bail ''Strike returned duplicate rows for one receiveId'')))"

definition receive_page ::
  "strike_codec \<Rightarrow> strike_network \<Rightarrow> strike_client \<Rightarrow> uuid \<Rightarrow> u32 \<Rightarrow> strike_error + strike_receive list" where
  "receive_page codec send c i offset =
     andthen (ok_or (Bail ''failed constructing Strike URL'')
       (sj_join codec (sk_base c) (''v1/receive-requests/'' @ i @ ''/receives''))) (\<lambda>endpoint.
     andthen (send_json send (sj_page codec)
       (Sk_receives endpoint [(''$skip'', show_nat (unat offset)), (''$top'', ''100'')])) (\<lambda>items.
     if length items > 100 \<or> list_ex (\<lambda>r. rc_receive_request_id r \<noteq> i) items then Inl (Bail ''invalid receive scan page'')
     else Inr items))"

definition validate_stored_request ::
  "strike_codec \<Rightarrow> receive_request_response \<Rightarrow> stored_strike_receive_request \<Rightarrow> strike_error + unit" where
  "validate_stored_request codec response stored =
     (if rr_receive_request_id response \<noteq> srr_receive_request_id stored then Inl (Bail ''Strike receive request lookup returned the wrong ID'')
      else andthen (validate_receive_request_response codec response (srr_amount_msat stored)
        (srr_description_hash stored)) (\<lambda>_.
      andthen (ok_or (Bail ''Strike receive request omitted bolt11'') (rr_bolt11 response)) (\<lambda>b.
      if br_invoice b \<noteq> srr_invoice stored then Inl (Bail ''Strike authoritative invoice differs from stored issued invoice'')
      else if \<not> eq_ignore_ascii_case (br_payment_hash b) (srr_payment_hash stored)
      then Inl (Bail ''Strike authoritative payment hash differs from stored issued invoice'') else Inr ())))"

definition validate_provider_amount :: "provider_amount \<Rightarrow> strike_error + unit" where
  "validate_provider_amount a =
     (if pa_currency a \<notin> {''BTC'', ''USD'', ''EUR'', ''USDT'', ''GBP'', ''AUD''} then Inl (Bail ''unsupported Strike received currency'')
      else map_err StrikeAmountError (validate_decimal_evidence (pa_amount a)))"

section \<open>Reconciling a completed receive\<close>

record reconciled_receive =
  rv_receive_request_id :: uuid
  rv_receive_id :: uuid
  rv_type :: string
  rv_amount_msat :: u64
  rv_payment_hash :: "string option"
  rv_completed_provider :: "string option"
  rv_received :: provider_amount
  rv_credited :: "provider_amount option"
  rv_conversion_rate :: "provider_conversion option"

definition btc_msat :: "string \<Rightarrow> strike_error + u64" where
  "btc_msat text = map_err StrikeAmountError (btc_decimal_to_msat text)"

text \<open>The two arms of the match on the receive type: the amount to credit and its payment hash.\<close>

definition lightning_credit ::
  "stored_strike_receive_request \<Rightarrow> strike_receive \<Rightarrow> strike_error + u64 \<times> string option" where
  "lightning_credit stored r =
     (if pa_currency (rc_amount_received r) \<noteq> ''BTC''
      then Inl (Bail ''Strike LIGHTNING receive must be denominated in BTC'')
      else andthen (btc_msat (pa_amount (rc_amount_received r))) (\<lambda>amount.
      if amount \<noteq> srr_amount_msat stored
      then Inl (Bail ''Strike completed LIGHTNING amount differs from issued invoice'')
      else andthen (case rc_amount_credited r of
           None \<Rightarrow> Inr ()
         | Some credited \<Rightarrow>
             if pa_currency credited \<noteq> ''BTC''
             then Inl (Bail ''Strike LIGHTNING credited amount contradicts received amount'')
             else andthen (btc_msat (pa_amount credited)) (\<lambda>c.
               if c \<noteq> amount then Inl (Bail ''Strike LIGHTNING credited amount contradicts received amount'')
               else Inr ())) (\<lambda>_.
      andthen (ok_or (Bail ''Strike LIGHTNING receive omitted lightning details'') (rc_lightning r)) (\<lambda>l.
      andthen (hex32 (lr_payment_hash l)) (\<lambda>_.
      if \<not> eq_ignore_ascii_case (lr_payment_hash l) (srr_payment_hash stored)
      then Inl (Bail ''Strike completed receive payment hash does not match issued invoice'')
      else if lr_invoice l \<noteq> srr_invoice stored
      then Inl (Bail ''Strike completed receive invoice does not match issued invoice'')
      else if (case lr_description_hash l of None \<Rightarrow> False
               | Some hash \<Rightarrow> \<not> eq_ignore_ascii_case hash (srr_description_hash stored))
      then Inl (Bail ''Strike completed receive description hash does not match issued invoice'')
      else Inr (amount, Some (to_ascii_lowercase (lr_payment_hash l))))))))"

definition p2p_credit ::
  "receive_request_response \<Rightarrow> strike_receive \<Rightarrow> strike_error + u64 \<times> string option" where
  "p2p_credit request r =
     (if rr_target_currency request \<noteq> Some ''BTC'' \<or> rc_lightning r \<noteq> None
      then Inl (Bail ''Strike P2P receive has an inconsistent target/type contract'')
      else andthen (ok_or (Bail ''Strike P2P omitted authoritative amountCredited'')
        (rc_amount_credited r)) (\<lambda>credited.
      if pa_currency credited \<noteq> ''BTC'' then Inl (Bail ''Strike P2P credited currency must be BTC'')
      else andthen (btc_msat (pa_amount credited)) (\<lambda>amount.
      if amount = 0 \<or> amount mod 1000 \<noteq> 0
      then Inl (Bail ''Strike P2P credited amount must be positive whole satoshis'')
      else if pa_currency (rc_amount_received r) = ''BTC''
      then andthen (btc_msat (pa_amount (rc_amount_received r))) (\<lambda>received.
        if received \<noteq> amount then Inl (Bail ''Strike BTC-to-BTC P2P received and credited amounts disagree'')
        else Inr (amount, None))
      else Inr (amount, None))))"

definition receive_evidence_ok :: "strike_receive \<Rightarrow> strike_error + unit" where
  "receive_evidence_ok r =
     andthen (validate_provider_amount (rc_amount_received r)) (\<lambda>_.
     case rc_conversion_rate r of
       None \<Rightarrow> Inr ()
     | Some rate \<Rightarrow>
         andthen (map_err StrikeAmountError (validate_decimal_evidence (pc_amount rate))) (\<lambda>_.
         if pc_source_currency rate \<noteq> pa_currency (rc_amount_received r)
            \<or> pc_target_currency rate \<noteq> ''BTC''
         then Inl (Bail ''Strike conversion currencies contradict the credited target'')
         else Inr ()))"

definition reconcile_completed_receive ::
  "strike_codec \<Rightarrow> strike_network \<Rightarrow> strike_client \<Rightarrow> stored_strike_receive_request \<Rightarrow> uuid
     \<Rightarrow> strike_error + reconciled_receive" where
  "reconcile_completed_receive codec send c stored receive_id =
     andthen (find_receive_request codec send c (srr_receive_request_id stored)) (\<lambda>request.
     andthen (validate_stored_request codec request stored) (\<lambda>_.
     andthen (find_receive codec send c (srr_receive_request_id stored) receive_id) (\<lambda>receive.
     if rc_receive_request_id receive \<noteq> srr_receive_request_id stored
     then Inl (Bail ''Strike receive points to the wrong receive request'')
     else if rc_state receive \<noteq> ''COMPLETED'' then Inl (Bail ''Strike receive is not completed'')
     else andthen (receive_evidence_ok receive) (\<lambda>_.
     andthen
       (if rc_type receive = ''LIGHTNING'' then lightning_credit stored receive
        else if rc_type receive = ''P2P'' then p2p_credit request receive
        else Inl (Bail ''unexpected Strike receive type'')) (\<lambda>(amount, payment_hash).
     Inr \<lparr>rv_receive_request_id = srr_receive_request_id stored, rv_receive_id = receive_id,
          rv_type = rc_type receive, rv_amount_msat = amount, rv_payment_hash = payment_hash,
          rv_completed_provider = rc_completed receive, rv_received = rc_amount_received receive,
          rv_credited = rc_amount_credited receive,
          rv_conversion_rate = rc_conversion_rate receive\<rparr>)))))"

section \<open>Webhooks\<close>

definition webhook_verifier_new :: "string \<Rightarrow> strike_error + string" where
  "webhook_verifier_new secret =
     (if secret = [] then Inl (Bail ''Strike webhook secret is empty'') else Inr secret)"

definition verify_signature ::
  "strike_codec \<Rightarrow> string \<Rightarrow> string \<Rightarrow> string \<Rightarrow> strike_error + unit" where
  "verify_signature codec secret body signature_hex =
     andthen (ok_or (Bail ''Strike X-Webhook-Signature is not valid hex'')
       (sj_hex codec (trim signature_hex))) (\<lambda>signature.
     if length signature \<noteq> 32 then Inl (Bail ''Strike X-Webhook-Signature must be 32 bytes'')
     else if sj_hmac codec secret body \<noteq> signature
     then Inl (Bail ''Strike webhook signature verification failed'') else Inr ())"

definition parse_completed_event ::
  "strike_codec \<Rightarrow> string \<Rightarrow> strike_error + strike_completed_receive_event" where
  "parse_completed_event codec body =
     andthen (ok_or (Bail ''malformed Strike webhook JSON'') (sj_webhook codec body)) (\<lambda>event.
     if we_event_type event \<noteq> ''receive-request.receive-completed''
     then Inl (Bail ''unsupported Strike webhook event type'')
     else if we_version event \<noteq> ''v1'' then Inl (Bail ''unsupported Strike webhook version'')
     else Inr \<lparr>sce_event_id = we_id event, sce_receive_request_id = we_entity_id event,
               sce_receive_id = we_receive_id event\<rparr>)"

end
