(* ===== verification/Strike_Runtime.thy ===== *)
theory Strike_Runtime
  imports Strike_Provider Ledger_System
begin

text \<open>
  \<open>StrikeRuntime\<close> of \<open>src/src/strike.rs\<close>: issuing an invoice under admission, crediting a completed
  receive after it is reconciled with the provider, and the recovery step that works through the
  durable inbox and scans the provider for completed receives. An operation that fails may already
  have committed transactions, so it returns its result beside the database. \<open>clk n\<close> is the
  \<open>unixepoch()\<close> of the \<open>n\<close>-th transaction of a step; \<open>print_json\<close> and \<open>parse_json\<close> are serde_json.
\<close>

type_synonym 'a strike_result = "(strike_error + 'a) \<times> ledger_db"

definition at_ledger ::
  "'a ledger_result \<Rightarrow> ledger_db \<Rightarrow> ('a \<Rightarrow> ledger_db \<Rightarrow> 'b strike_result) \<Rightarrow> 'b strike_result" where
  "at_ledger m db k = (case m of Inl e \<Rightarrow> (Inl (StrikeLedger e), db) | Inr (x, db1) \<Rightarrow> k x db1)"

record strike_world =
  sw_codec :: strike_codec
  sw_send :: strike_network
  sw_client :: strike_client
  sw_print_json :: "json \<Rightarrow> string"
  sw_parse_json :: "string \<Rightarrow> json option"

section \<open>Crediting\<close>

definition amount_json :: "provider_amount \<Rightarrow> json" where
  "amount_json a = JObj [(''amount'', JStr (pa_amount a)), (''currency'', JStr (pa_currency a))]"

definition conversion_json :: "provider_conversion \<Rightarrow> json" where
  "conversion_json c = JObj [(''amount'', JStr (pc_amount c)),
     (''sourceCurrency'', JStr (pc_source_currency c)), (''targetCurrency'', JStr (pc_target_currency c))]"

definition json_option :: "('a \<Rightarrow> json) \<Rightarrow> 'a option \<Rightarrow> json" where
  "json_option f x = (case x of None \<Rightarrow> JNull | Some a \<Rightarrow> f a)"

definition receive_context :: "reconciled_receive \<Rightarrow> json" where
  "receive_context r = JObj
     [(''receive_request_id'', JStr (rv_receive_request_id r)), (''receive_type'', JStr (rv_type r)),
      (''completed_provider'', JOptStr (rv_completed_provider r)),
      (''amount_received'', amount_json (rv_received r)),
      (''amount_credited'', json_option amount_json (rv_credited r)),
      (''conversion_rate'', json_option conversion_json (rv_conversion_rate r)),
      (''rounding_policy'', JStr ''none_exact_whole_satoshis'')]"

definition strike_payment ::
  "(json \<Rightarrow> string) \<Rightarrow> stored_strike_receive_request \<Rightarrow> reconciled_receive \<Rightarrow> settled_payment" where
  "strike_payment print_json stored r =
     \<lparr>pay_source = ''strike'', pay_source_id = rv_receive_id r, pay_payment_hash = rv_payment_hash r,
      pay_address_user = srr_address_user stored, pay_credit_pool = srr_credit_pool stored,
      pay_amount_msat = rv_amount_msat r, pay_settled_at = None,
      pay_context_json = Some (print_json (receive_context r))\<rparr>"

definition reconcile_and_credit ::
  "strike_world \<Rightarrow> strike_completed_receive_event \<Rightarrow> ledger_db \<Rightarrow> settlement_outcome strike_result" where
  "reconcile_and_credit w event db =
     (case strike_receive_request (sce_receive_request_id event) db of
        Inl e \<Rightarrow> (Inl (StrikeLedger e), db)
      | Inr None \<Rightarrow> (Inl (Bail ''unknown Strike receiveRequestId; refusing credit''), db)
      | Inr (Some stored) \<Rightarrow>
          (case reconcile_completed_receive (sw_codec w) (sw_send w) (sw_client w) stored
                  (sce_receive_id event) of
             Inl e \<Rightarrow> (Inl e, db)
           | Inr r \<Rightarrow> at_ledger (record_payment (sw_parse_json w)
               (strike_payment (sw_print_json w) stored r) db) db (\<lambda>out db1. (Inr out, db1))))"

section \<open>Recovery\<close>

definition work_step :: "strike_world \<Rightarrow> (nat \<Rightarrow> i64) \<Rightarrow> ledger_db \<Rightarrow> unit strike_result" where
  "work_step w clk db =
     (case due_strike_work (clk 0) db of
        Inl e \<Rightarrow> (Inl (StrikeLedger e), db)
      | Inr None \<Rightarrow> (Inr (), db)
      | Inr (Some work) \<Rightarrow>
          (case reconcile_and_credit w (siw_event work) db of
             (Inr _, db1) \<Rightarrow> at_ledger (finish_strike_work (clk 1) (siw_key work) db1) db1
               (\<lambda>_ db2. (Inr (), db2))
           | (Inl _, db1) \<Rightarrow> at_ledger (retry_strike_work (clk 1) (siw_key work) (siw_attempts work) db1) db1
               (\<lambda>_ db2. (Inr (), db2))))"

fun enqueue_completed ::
  "i64 \<Rightarrow> uuid \<Rightarrow> strike_receive list \<Rightarrow> ledger_db \<Rightarrow> unit strike_result" where
  "enqueue_completed now request_id [] db = (Inr (), db)"
| "enqueue_completed now request_id (r # rs) db =
     (if rc_state r = ''COMPLETED''
      then at_ledger (enqueue_strike_work now (''recovery:'' @ rc_receive_id r)
        \<lparr>sce_event_id = rc_receive_id r, sce_receive_request_id = request_id,
         sce_receive_id = rc_receive_id r\<rparr> db) db (\<lambda>_ db1. enqueue_completed now request_id rs db1)
      else enqueue_completed now request_id rs db)"

definition next_offset :: "nat \<Rightarrow> u32 \<Rightarrow> u32" where
  "next_offset page_length offset =
     (if page_length = 100 \<and> offset < 1000000 then offset + 100 else 0)"

definition saturating_add_u32 :: "u32 \<Rightarrow> u32 \<Rightarrow> u32" where
  "saturating_add_u32 a b = (if unat a + unat b < 2 ^ 32 then a + b else - 1)"

definition scan_step :: "strike_world \<Rightarrow> (nat \<Rightarrow> i64) \<Rightarrow> ledger_db \<Rightarrow> unit strike_result" where
  "scan_step w clk db =
     (case due_strike_scan (clk 2) db of
        Inl e \<Rightarrow> (Inl (StrikeLedger e), db)
      | Inr None \<Rightarrow> (Inr (), db)
      | Inr (Some (stored, offset, attempts)) \<Rightarrow>
          (case receive_page (sw_codec w) (sw_send w) (sw_client w) (srr_receive_request_id stored) offset of
             Inr page \<Rightarrow>
               (case enqueue_completed (clk 3) (srr_receive_request_id stored) page db of
                  (Inl e, db1) \<Rightarrow> (Inl e, db1)
                | (Inr _, db1) \<Rightarrow>
                    let next = next_offset (length page) offset in
                    at_ledger (record_strike_scan (clk 4) (srr_receive_request_id stored) next 0
                      (if next = 0 then 300 else 1) db1) db1 (\<lambda>_ db2. (Inr (), db2)))
           | Inl _ \<Rightarrow>
               at_ledger (record_strike_scan (clk 4) (srr_receive_request_id stored) offset
                 (min (saturating_add_u32 attempts 1) 30) (retry_delay attempts) db) db
                 (\<lambda>_ db2. (Inr (), db2))))"

definition recovery_step :: "strike_world \<Rightarrow> (nat \<Rightarrow> i64) \<Rightarrow> ledger_db \<Rightarrow> unit strike_result" where
  "recovery_step w clk db =
     (case work_step w clk db of
        (Inl e, db1) \<Rightarrow> (Inl e, db1)
      | (Inr _, db1) \<Rightarrow> scan_step w clk db1)"

section \<open>Issuing\<close>

text \<open>
  The environment of an issue: a free slot of the semaphore, the fresh id and time of the admission,
  the wall clock in nanoseconds for the invoice check, the time of the stored request, and where the
  20-second deadline cut the inner block, if it did: before its transaction or after it.
\<close>

datatype issue_cut = Cut_unrecorded | Cut_recorded

record issue_env =
  ie_slot_free :: bool
  ie_admitted_at :: i64
  ie_admission_id :: uuid
  ie_clock :: nat
  ie_recorded_at :: i64
  ie_cut :: "issue_cut option"

definition stored_of_created ::
  "string \<Rightarrow> string \<Rightarrow> u64 \<Rightarrow> created_receive_request \<Rightarrow> stored_strike_receive_request" where
  "stored_of_created address_user credit_pool amount_msat created =
     \<lparr>srr_receive_request_id = cr_receive_request_id created, srr_address_user = address_user,
      srr_credit_pool = credit_pool, srr_amount_msat = amount_msat,
      srr_description_hash = cr_description_hash created, srr_payment_hash = cr_payment_hash created,
      srr_invoice = cr_invoice created, srr_created_provider = cr_created_provider created\<rparr>"

definition create_and_record ::
  "strike_world \<Rightarrow> issue_env \<Rightarrow> string \<Rightarrow> string \<Rightarrow> u64 \<Rightarrow> string \<Rightarrow> u64 \<Rightarrow> ledger_db
     \<Rightarrow> created_receive_request strike_result" where
  "create_and_record w env address_user credit_pool amount_msat description_hash expiry db =
     (if ie_cut env = Some Cut_unrecorded
      then (Inl (Bail ''invoice creation deadline exceeded''), db)
      else case create_bolt11_receive_request (sw_codec w) (sw_send w) (sw_client w) (ie_clock env)
             amount_msat description_hash expiry of
        Inl e \<Rightarrow> (Inl e, db)
      | Inr created \<Rightarrow>
          at_ledger (record_strike_receive_request (ie_recorded_at env)
            (stored_of_created address_user credit_pool amount_msat created) db) db
            (\<lambda>_ db1. if ie_cut env = Some Cut_recorded
              then (Inl (Bail ''invoice creation deadline exceeded''), db1)
              else (Inr created, db1)))"

definition issue_user :: "string \<Rightarrow> strike_error + unit" where
  "issue_user user =
     map_err (\<lambda>_. Bail ''invalid Lightning Address user'') (lightning_address_user user)"

definition create_and_record_receive_request ::
  "strike_world \<Rightarrow> issue_env \<Rightarrow> string \<Rightarrow> string \<Rightarrow> u64 \<Rightarrow> string \<Rightarrow> u64 \<Rightarrow> ledger_db
     \<Rightarrow> created_receive_request strike_result" where
  "create_and_record_receive_request w env address_user credit_pool amount_msat description_hash
     expiry db =
     (case andthen (issue_user address_user) (\<lambda>_.
           andthen (issue_user credit_pool) (\<lambda>_.
           if amount_msat = 0 \<or> amount_msat mod 1000 \<noteq> 0 \<or> uint amount_msat > i64_max \<or> expiry = 0
           then Inl (Bail ''invalid invoice amount or expiry'')
           else hex32 description_hash)) of
        Inl e \<Rightarrow> (Inl e, db)
      | Inr _ \<Rightarrow>
          if \<not> ie_slot_free env then (Inl InvoiceCapacity, db)
          else at_ledger (reserve_invoice (ie_admitted_at env) (ie_admission_id env) db) db
            (\<lambda>slot db1. case slot of
               None \<Rightarrow> (Inl InvoiceCapacity, db1)
             | Some reservation \<Rightarrow>
                 (case create_and_record w env address_user credit_pool amount_msat description_hash
                         expiry db1 of
                    (out, db2) \<Rightarrow>
                      (case finish_invoice_admission reservation db2 of
                         Inl _ \<Rightarrow> (out, db2)
                       | Inr (_, db3) \<Rightarrow> (out, db3)))))"

section \<open>Every effect is a sequence of ledger transactions\<close>

lemma at_ledger_Inr:
  "at_ledger m db k = (Inr y, db') \<longleftrightarrow> (\<exists>x db1. m = Inr (x, db1) \<and> k x db1 = (Inr y, db'))"
  by (auto simp: at_ledger_def split: sum.splits)

lemma at_ledger_steps:
  assumes "snd (at_ledger m db k) = db'"
    and "\<And>x db1. m = Inr (x, db1) \<Longrightarrow> ledger_step db db1"
    and "\<And>x db1. m = Inr (x, db1) \<Longrightarrow> ledger_steps db1 (snd (k x db1))"
  shows "ledger_steps db db'"
  using assms by (auto simp: at_ledger_def split: sum.splits intro: converse_rtranclp_into_rtranclp)

end
