(* ===== verification/Strike_Properties.thy ===== *)
theory Strike_Properties
  imports Strike_Runtime Ledger_Properties
begin

text \<open>
  What crediting a Strike receive rests on: the amount credited is the one the provider reports for
  an invoice that is signed, stored and reconciled; one receive is credited once, however often and
  through whatever path it is delivered; and an issued invoice is bound to its stored request.
\<close>

section \<open>What the provider's answers were checked against\<close>

lemma hex32_Inr: "hex32 v = Inr () \<longleftrightarrow> length v = 64 \<and> list_all is_ascii_hexdigit v"
  by (auto simp: hex32_def)

lemma verify_invoice_Inr:
  "verify_invoice parse text amount hash desc = Inr invoice \<longleftrightarrow>
     parse text = Some invoice \<and> bi_signature_ok invoice \<and> bi_mainnet invoice \<and> bi_amount_msat invoice = Some amount
     \<and> amount \<noteq> 0 \<and> eq_ignore_ascii_case (bi_payment_hash invoice) hash
     \<and> (\<exists>h. bi_description_hash invoice = Some h \<and> eq_ignore_ascii_case h desc)"
proof (cases "parse text")
  case None
  then show ?thesis by (simp add: verify_invoice_def)
next
  case (Some i)
  show ?thesis
    unfolding verify_invoice_def Some ok_or_simps andthen_simps guard_Inr
    by (cases "bi_description_hash i") (simp_all only: option.case guard_Inr, auto)
qed

lemma response_checked:
  assumes "validate_receive_request_response codec response amount desc = Inr invoice"
  obtains b where "rr_bolt11 response = Some b" "br_invoice b \<noteq> []" "length (br_invoice b) \<le> 8192"
    "hex32 (br_payment_hash b) = Inr ()"
    "verify_invoice (sj_invoice codec) (br_invoice b) amount (br_payment_hash b) desc = Inr invoice"
    "\<And>h. br_description_hash b = Some h \<Longrightarrow> hex32 h = Inr () \<and> eq_ignore_ascii_case h desc"
  using assms
  by (auto simp: validate_receive_request_response_def res_simps not_less
      split: if_splits option.splits)

lemma stored_request_checked:
  assumes "validate_stored_request codec response stored = Inr ()"
  obtains invoice where "sj_invoice codec (srr_invoice stored) = Some invoice" "bi_signature_ok invoice"
    "bi_mainnet invoice" "bi_amount_msat invoice = Some (srr_amount_msat stored)"
proof -
  from assms obtain invoice b where
    v: "validate_receive_request_response codec response (srr_amount_msat stored)
      (srr_description_hash stored) = Inr invoice"
    and b: "rr_bolt11 response = Some b" "br_invoice b = srr_invoice stored"
    by (auto simp: validate_stored_request_def res_simps split: if_splits)
  from v show thesis
    by (rule response_checked) (use b that in \<open>auto simp: verify_invoice_Inr\<close>)
qed

lemma btc_msat_Inr: "btc_msat text = Inr m \<longleftrightarrow> btc_decimal_to_msat text = Inr m"
  by (simp add: btc_msat_def)

text \<open>The evidence for the amount of a completed receive.\<close>

definition lightning_evidence :: "stored_strike_receive_request \<Rightarrow> strike_receive \<Rightarrow> u64 \<Rightarrow> bool" where
  "lightning_evidence stored r amount \<longleftrightarrow> rc_type r = ''LIGHTNING'' \<and> amount = srr_amount_msat stored
     \<and> pa_currency (rc_amount_received r) = ''BTC''
     \<and> decimal_value (trim (pa_amount (rc_amount_received r))) = of_nat (unat amount) / 100000000000
     \<and> (\<exists>l. rc_lightning r = Some l \<and> lr_invoice l = srr_invoice stored
          \<and> eq_ignore_ascii_case (lr_payment_hash l) (srr_payment_hash stored))"

definition p2p_evidence :: "strike_receive \<Rightarrow> u64 \<Rightarrow> bool" where
  "p2p_evidence r amount \<longleftrightarrow> rc_type r = ''P2P'' \<and> amount \<noteq> 0 \<and> amount mod 1000 = 0
     \<and> rc_lightning r = None
     \<and> (\<exists>c. rc_amount_credited r = Some c \<and> pa_currency c = ''BTC''
          \<and> decimal_value (trim (pa_amount c)) = of_nat (unat amount) / 100000000000)"

lemma lightning_credit_sound:
  assumes "lightning_credit stored r = Inr (amount, hash)" "rc_type r = ''LIGHTNING''"
  shows "lightning_evidence stored r amount"
  using assms btc_decimal_exact
  by (auto simp: lightning_credit_def lightning_evidence_def res_simps btc_msat_Inr
      split: if_splits simp del: of_nat_unat)

lemma p2p_credit_sound:
  assumes "p2p_credit request r = Inr (amount, hash)" "rc_type r = ''P2P''"
  shows "p2p_evidence r amount"
  using assms btc_decimal_exact
  by (auto simp: p2p_credit_def p2p_evidence_def res_simps btc_msat_Inr
      split: if_splits simp del: of_nat_unat del: mod_0_imp_dvd)

lemma reconcile_sound:
  assumes "reconcile_completed_receive codec send c stored i = Inr rv"
  obtains invoice receive where "sj_invoice codec (srr_invoice stored) = Some invoice" "bi_signature_ok invoice"
    "bi_amount_msat invoice = Some (srr_amount_msat stored)"
    "find_receive codec send c (srr_receive_request_id stored) i = Inr receive"
    "rc_receive_request_id receive = srr_receive_request_id stored" "rc_state receive = ''COMPLETED''"
    "rv_receive_id rv = i"
    "lightning_evidence stored receive (rv_amount_msat rv) \<or> p2p_evidence receive (rv_amount_msat rv)"
proof -
  from assms obtain request receive amount hash where
    v: "validate_stored_request codec request stored = Inr ()"
    and r: "find_receive codec send c (srr_receive_request_id stored) i = Inr receive"
      "rc_receive_request_id receive = srr_receive_request_id stored" "rc_state receive = ''COMPLETED''"
    and a: "(if rc_type receive = ''LIGHTNING'' then lightning_credit stored receive
        else if rc_type receive = ''P2P'' then p2p_credit request receive
        else Inl (Bail ''unexpected Strike receive type'')) = Inr (amount, hash)"
    and rv: "rv_receive_id rv = i" "rv_amount_msat rv = amount"
    by (auto simp: reconcile_completed_receive_def res_simps split: if_splits)
  from a have "lightning_evidence stored receive amount \<or> p2p_evidence receive amount"
    using lightning_credit_sound p2p_credit_sound by (auto split: if_splits)
  with v r rv show thesis by (elim stored_request_checked) (auto intro: that)
qed

lemma reconcile_and_credit_Inr:
  assumes "reconcile_and_credit w event db = (Inr out, db')"
  obtains stored rv where "strike_receive_request (sce_receive_request_id event) db = Inr (Some stored)"
    "reconcile_completed_receive (sw_codec w) (sw_send w) (sw_client w) stored (sce_receive_id event) = Inr rv"
    "record_payment (sw_parse_json w) (strike_payment (sw_print_json w) stored rv) db = Inr (out, db')"
  using assms by (auto simp: reconcile_and_credit_def at_ledger_Inr split: sum.splits option.splits)

lemma strike_request_row:
  assumes "strike_receive_request i db = Inr (Some stored)"
  obtains row where "row \<in> set (strike_receive_requests db)" "sr_receive_request_id row = i"
    "stored_request_of row = Inr stored"
  using assms by (auto simp: strike_receive_request_def res_simps split: option.splits dest!: find_Some_in)

section \<open>Properties\<close>

text \<open>
  C3: Sats are credited for a Strike receive only when a stored invoice and the provider agree on
  it: the invoice of the stored request parses with a valid signature for exactly the stored amount,
  the provider reports one receive of that id for that request as completed, and the credited sats
  are its exact value, either the invoiced amount of a Lightning receive with the invoice's payment
  hash or the whole-sat BTC amount credited of a peer-to-peer receive. They go to the user and pool
  of the stored request.
\<close>

theorem strike_credit_matches_invoice:
  assumes "reconcile_and_credit w event db = (Inr (Credited sats user pool), db')"
  shows "\<exists>row stored invoice receive amount.
      row \<in> set (strike_receive_requests db)
    \<and> sr_receive_request_id row = sce_receive_request_id event \<and> stored_request_of row = Inr stored
    \<and> user = srr_address_user stored \<and> pool = srr_credit_pool stored
    \<and> sj_invoice (sw_codec w) (srr_invoice stored) = Some invoice \<and> bi_signature_ok invoice
    \<and> bi_amount_msat invoice = Some (srr_amount_msat stored)
    \<and> find_receive (sw_codec w) (sw_send w) (sw_client w) (srr_receive_request_id stored)
        (sce_receive_id event) = Inr receive
    \<and> rc_receive_request_id receive = sce_receive_request_id event
    \<and> rc_state receive = ''COMPLETED''
    \<and> (lightning_evidence stored receive amount \<or> p2p_evidence receive amount)
    \<and> unat sats * 1000 = unat amount"
  using assms
proof (rule reconcile_and_credit_Inr)
  fix stored rv
  assume s: "strike_receive_request (sce_receive_request_id event) db = Inr (Some stored)"
    and r: "reconcile_completed_receive (sw_codec w) (sw_send w) (sw_client w) stored
      (sce_receive_id event) = Inr rv"
    and p: "record_payment (sw_parse_json w) (strike_payment (sw_print_json w) stored rv) db
      = Inr (Credited sats user pool, db')"
  obtain row where row: "row \<in> set (strike_receive_requests db)"
    "sr_receive_request_id row = sce_receive_request_id event" "stored_request_of row = Inr stored"
    using strike_request_row [OF s] .
  have i: "srr_receive_request_id stored = sce_receive_request_id event"
    using row(2,3) by (auto simp: stored_request_of_def andthen_eq_Inr)
  obtain invoice receive where e: "sj_invoice (sw_codec w) (srr_invoice stored) = Some invoice"
    "bi_signature_ok invoice" "bi_amount_msat invoice = Some (srr_amount_msat stored)"
    "find_receive (sw_codec w) (sw_send w) (sw_client w) (srr_receive_request_id stored)
        (sce_receive_id event) = Inr receive"
    "rc_receive_request_id receive = srr_receive_request_id stored" "rc_state receive = ''COMPLETED''"
    "lightning_evidence stored receive (rv_amount_msat rv) \<or> p2p_evidence receive (rv_amount_msat rv)"
    using reconcile_sound [OF r] .
  have c: "sats = rv_amount_msat rv div 1000" "user = srr_address_user stored"
    "pool = srr_credit_pool stored" and valid: "validate_payment (sw_parse_json w)
      (strike_payment (sw_print_json w) stored rv) = Inr ()"
    and fits: "uint (rv_amount_msat rv) \<le> i64_max"
    using p by (auto simp: record_payment_def strike_payment_def res_simps Let_def to_i64_Inr
        split: option.splits if_splits)
  note ok = validate_payment_Inr [OF valid]
  note amount = aligned_sats [OF ok(2,3)]
  have "uint sats * 1000 = uint (rv_amount_msat rv)"
    using amount fits c(1) mult_div_mod_eq [of 1000 "uint (rv_amount_msat rv)"]
    by (simp add: strike_payment_def mult.commute)
  then have "unat sats * 1000 = unat (rv_amount_msat rv)"
    by (metis nat_mult_distrib nat_numeral uint_nat unat_eq_nat_uint uint_ge_0)
  with row e c i show ?thesis by metis
qed

text \<open>
  C2: A Strike receive is credited once. After it has been credited, whatever the ledger does and
  whatever the provider then answers, a later delivery of the same receive id, by webhook or by
  recovery, under the same or another request, is a duplicate that changes nothing, or fails.
\<close>

theorem strike_receive_is_credited_once:
  assumes "ledger_steps empty_db db" and "int (length (event_log db)) < i64_max"
    and "reconcile_and_credit w event db = (Inr (Credited sats user pool), db1)"
    and "ledger_steps db1 db2"
    and "sce_receive_id event' = sce_receive_id event"
    and "reconcile_and_credit w' event' db2 = (Inr out, db3)"
  shows "out = Duplicate \<and> db3 = db2 \<and> receipts db1 = receipts db + uint sats"
proof -
  note inv0 = reachable_inv [OF assms(1)]
  from assms(3) obtain stored rv where
    r: "reconcile_completed_receive (sw_codec w) (sw_send w) (sw_client w) stored (sce_receive_id event) = Inr rv"
    and p: "record_payment (sw_parse_json w) (strike_payment (sw_print_json w) stored rv) db
      = Inr (Credited sats user pool, db1)" by (rule reconcile_and_credit_Inr)
  from assms(6) obtain stored' rv' where
    r': "reconcile_completed_receive (sw_codec w') (sw_send w') (sw_client w') stored' (sce_receive_id event') = Inr rv'"
    and p': "record_payment (sw_parse_json w') (strike_payment (sw_print_json w') stored' rv') db2
      = Inr (out, db3)" by (rule reconcile_and_credit_Inr)
  let ?p = "strike_payment (sw_print_json w) stored rv"
  let ?q = "strike_payment (sw_print_json w') stored' rv'"
  have id: "pay_source ?q = pay_source ?p" "pay_source_id ?q = pay_source_id ?p"
    using r r' assms(5) by (auto elim!: reconcile_sound simp: strike_payment_def)
  from p inv0 assms(2) show ?thesis
  proof (cases rule: record_payment_cases)
    case credited
    let ?row = "settled_of ?p (next_id sp_id (settled_payments db))"
    have inv1: "ledger_inv_all db1" by (rule record_payment_all [OF p inv0 assms(2)])
    have "?row \<in> set (settled_payments db1)" by (simp add: credited(2) posted_tables)
    then have row: "?row \<in> set (settled_payments db2)"
      using ledger_steps_history [OF assms(4) inv1] by (auto simp: keeps_history_def)
    have valid: "validate_payment (sw_parse_json w') ?q = Inr ()" and fits: "uint (pay_amount_msat ?q) \<le> i64_max"
      using p' by (auto simp: record_payment_def andthen_eq_Inr to_i64_Inr)
    from record_payment_stored [OF ledger_steps_all [OF assms(4) inv1] valid fits row] p'
    have "out = Duplicate \<and> db3 = db2"
      using id by (auto simp: settled_of_def split: if_splits)
    moreover have "receipts db1 = receipts db + uint sats"
      using credited(1) by (simp add: credited(2) receipts_def posted_tables) (simp add: entry_of_def)
    ultimately show ?thesis by blast
  qed simp
qed

section \<open>Recovery\<close>

lemma at_ledger_tables:
  "at_ledger (Inr (x, db1)) db k = k x db1" "at_ledger (Inl e) db k = (Inl (StrikeLedger e), db)"
  by (simp_all add: at_ledger_def)

text \<open>Rows marked done by an operation, with the settlement that justifies them.\<close>

definition done_justified :: "ledger_db \<Rightarrow> ledger_db \<Rightarrow> bool" where
  "done_justified db db' \<longleftrightarrow> (\<forall>r \<in> set (strike_inbox db'). in_status r = In_done \<longrightarrow>
     (\<exists>r0 \<in> set (strike_inbox db). in_work_key r0 = in_work_key r
        \<and> in_receive_id r0 = in_receive_id r \<and> in_status r0 = In_done)
     \<or> (\<exists>q \<in> set (settled_payments db'). sp_source q = ''strike'' \<and> sp_source_id q = in_receive_id r))"

lemma reconcile_settles:
  assumes "reconcile_and_credit w event db = (Inr out, db')" "ledger_inv_all db"
    and "int (length (event_log db)) < i64_max"
  shows "\<exists>q \<in> set (settled_payments db'). sp_source q = ''strike'' \<and> sp_source_id q = sce_receive_id event"
    and "strike_inbox db' = strike_inbox db"
proof -
  from assms(1) obtain stored rv where
    r: "reconcile_completed_receive (sw_codec w) (sw_send w) (sw_client w) stored (sce_receive_id event) = Inr rv"
    and p: "record_payment (sw_parse_json w) (strike_payment (sw_print_json w) stored rv) db = Inr (out, db')"
    by (rule reconcile_and_credit_Inr)
  let ?p = "strike_payment (sw_print_json w) stored rv"
  have id: "pay_source ?p = ''strike''" "pay_source_id ?p = sce_receive_id event"
    using r by (auto elim!: reconcile_sound simp: strike_payment_def)
  show "\<exists>q \<in> set (settled_payments db'). sp_source q = ''strike'' \<and> sp_source_id q = sce_receive_id event"
    using p assms(2,3) id
    by (cases rule: record_payment_cases) (auto simp: posted_tables settled_of_def)
  show "strike_inbox db' = strike_inbox db"
    using p assms(2,3) by (cases rule: record_payment_cases) (auto simp: posted_def logged_def Let_def)
qed

lemma reconcile_fails: "reconcile_and_credit w event db = (Inl e, db') \<Longrightarrow> db' = db"
  by (auto simp: reconcile_and_credit_def at_ledger_def split: sum.splits option.splits)

lemma due_work_row:
  assumes "due_strike_work now db = Inr (Some work)"
  obtains r where "r \<in> set (strike_inbox db)" "siw_key work = in_work_key r"
    "sce_receive_id (siw_event work) = in_receive_id r"
proof -
  let ?rows = "sort_key work_order (filter (strike_work_due now) (strike_inbox db))"
  from assms obtain r rs where s: "?rows = r # rs" and w: "siw_key work = in_work_key r"
    "sce_receive_id (siw_event work) = in_receive_id r"
    by (auto simp: due_strike_work_def res_simps split: list.splits)
  have "r \<in> set ?rows" unfolding s by simp
  then have "r \<in> set (strike_inbox db)" by simp
  with w that show thesis by blast
qed

lemma work_step_justified:
  assumes "work_step w clk db = (res, db')" "ledger_inv_all db" "inbox_inv db"
    and "int (length (event_log db)) < i64_max"
  shows "done_justified db db'"
proof -
  have refl: "done_justified db db" by (auto simp: done_justified_def)
  show ?thesis
  proof (cases "due_strike_work (clk 0) db")
    case (Inr found)
    show ?thesis
    proof (cases found)
      case (Some work)
      obtain r where r: "r \<in> set (strike_inbox db)" "siw_key work = in_work_key r"
        "sce_receive_id (siw_event work) = in_receive_id r"
        using due_work_row Inr Some by blast
      have same: "x = r" if "x \<in> set (strike_inbox db)" "in_work_key x = siw_key work" for x
        using that r assms(3) by (auto simp: inbox_inv_def distinct_map dest: inj_onD)
      obtain out db1 where rec: "reconcile_and_credit w (siw_event work) db = (out, db1)" by force
      show ?thesis
      proof (cases out)
        case (Inr o')
        note s = reconcile_settles [OF rec [unfolded Inr] assms(2,4)]
        have "strike_inbox db' = update_where (\<lambda>r. in_work_key r = siw_key work)
              (\<lambda>r. r\<lparr>in_status := In_done, in_completed_at := Some (clk 1)\<rparr>) (strike_inbox db)"
          "settled_payments db' = settled_payments db1"
          using assms(1) \<open>due_strike_work (clk 0) db = Inr found\<close> Some rec Inr s(2)
          by (auto simp: work_step_def at_ledger_def finish_strike_work_def)
        then have db': "strike_inbox db' = update_where (\<lambda>r. in_work_key r = siw_key work)
              (\<lambda>r. r\<lparr>in_status := In_done, in_completed_at := Some (clk 1)\<rparr>) (strike_inbox db)"
          "settled_payments db' = settled_payments db1" .
        show ?thesis
          unfolding done_justified_def
        proof (intro ballI impI)
          fix x
          assume x: "x \<in> set (strike_inbox db')" "in_status x = In_done"
          show "(\<exists>r0 \<in> set (strike_inbox db). in_work_key r0 = in_work_key x
                \<and> in_receive_id r0 = in_receive_id x \<and> in_status r0 = In_done)
              \<or> (\<exists>q \<in> set (settled_payments db'). sp_source q = ''strike'' \<and> sp_source_id q = in_receive_id x)"
          proof (cases "in_work_key x = siw_key work")
            case True
            with x(1) have "in_receive_id x = in_receive_id r"
              using same unfolding db' set_update_where by auto
            then show ?thesis using s(1) r(3) db'(2) by auto
          next
            case False
            then have "x \<in> set (strike_inbox db)" using x(1) unfolding db' set_update_where by auto
            then show ?thesis using x(2) by blast
          qed
        qed
      next
        case (Inl e)
        note reconcile_fails [OF rec [unfolded Inl]]
        then have "db' = snd (projr (retry_strike_work (clk 1) (siw_key work) (siw_attempts work) db))"
          using assms(1) \<open>due_strike_work (clk 0) db = Inr found\<close> Some rec Inl
          by (auto simp: work_step_def at_ledger_def retry_strike_work_def Let_def)
        then have "\<forall>x \<in> set (strike_inbox db'). in_status x = In_done \<longrightarrow> x \<in> set (strike_inbox db)"
          by (auto simp: retry_strike_work_def Let_def set_update_where)
        then show ?thesis unfolding done_justified_def by blast
      qed
    qed (use assms(1) Inr refl in \<open>auto simp: work_step_def\<close>)
  qed (use assms(1) refl in \<open>auto simp: work_step_def\<close>)
qed

lemma enqueue_completed_done:
  "enqueue_completed now i page db = (res, db') \<Longrightarrow> x \<in> set (strike_inbox db') \<Longrightarrow> in_status x = In_done
    \<Longrightarrow> x \<in> set (strike_inbox db)"
proof (induction now i page db rule: enqueue_completed.induct)
  case (2 now i r rs db)
  show ?case
  proof (cases "rc_state r = ''COMPLETED''")
    case True
    show ?thesis
    proof (cases "enqueue_strike_work now (''recovery:'' @ rc_receive_id r)
        \<lparr>sce_event_id = rc_receive_id r, sce_receive_request_id = i, sce_receive_id = rc_receive_id r\<rparr> db")
      case (Inl e)
      then show ?thesis using 2(3-5) True by (simp add: at_ledger_def)
    next
      case (Inr p)
      then obtain db1 where e: "enqueue_strike_work now (''recovery:'' @ rc_receive_id r)
        \<lparr>sce_event_id = rc_receive_id r, sce_receive_request_id = i, sce_receive_id = rc_receive_id r\<rparr> db
          = Inr ((), db1)" by (cases p) auto
      have "x \<in> set (strike_inbox db1)"
        using 2(1) [OF True] 2(3-5) True e by (simp add: at_ledger_def)
      then show ?thesis
        using e 2(5) by (auto simp: enqueue_strike_work_def split: option.splits if_splits)
    qed
  next
    case False
    then show ?thesis using 2 by simp
  qed
qed simp

lemma record_scan_inbox:
  "record_strike_scan now i offset attempts delay db = Inr (u, db') \<Longrightarrow>
     strike_inbox db' = strike_inbox db"
  by (auto simp: record_strike_scan_def Let_def split: if_splits)

lemma scan_step_done:
  assumes "scan_step w clk db = (res, db')" "x \<in> set (strike_inbox db')" "in_status x = In_done"
  shows "x \<in> set (strike_inbox db)"
proof -
  have "\<exists>now i page db1. (strike_inbox db' = strike_inbox db1 \<and> (db1 = db \<or> (\<exists>out. enqueue_completed now i page db = (out, db1))))"
    using assms(1)
    by (auto simp: scan_step_def at_ledger_def Let_def record_scan_inbox split: sum.splits option.splits
        prod.splits) (blast dest: record_scan_inbox)+
  with assms(2,3) enqueue_completed_done show ?thesis by metis
qed

lemma enqueue_completed_money:
  "enqueue_completed now i page db = (res, db') \<Longrightarrow> money_tables db' = money_tables db"
proof (induction now i page db rule: enqueue_completed.induct)
  case (2 now i r rs db)
  show ?case
  proof (cases "rc_state r = ''COMPLETED''")
    case True
    then show ?thesis
      using 2 by (auto simp: at_ledger_def split: sum.splits dest!: inbox_money(1))
  next
    case False
    then show ?thesis using 2 by simp
  qed
qed simp

lemma scan_step_money:
  assumes "scan_step w clk db = (res, db')"
  shows "money_tables db' = money_tables db"
  using assms enqueue_completed_money
  by (auto simp: scan_step_def at_ledger_def Let_def split: sum.splits option.splits prod.splits
      dest!: inbox_money(4))


section \<open>Issuing\<close>

lemma create_bolt11_sound:
  assumes "create_bolt11_receive_request codec send c now amount desc expiry = Inr created"
  obtains invoice where "sj_invoice codec (cr_invoice created) = Some invoice" "bi_signature_ok invoice"
    "bi_mainnet invoice" "bi_amount_msat invoice = Some amount"
    "eq_ignore_ascii_case (bi_payment_hash invoice) (cr_payment_hash created)"
    "\<exists>h. bi_description_hash invoice = Some h \<and> eq_ignore_ascii_case h desc"
    "bi_expiry invoice = unat expiry * 1000000000"
    "\<exists>t. bi_expires_at invoice = Some t \<and> now < t"
proof -
  from assms obtain response invoice b where
    v: "validate_receive_request_response codec response amount desc = Inr invoice"
    and e: "verify_expiry_at invoice expiry now = Inr ()" and b: "rr_bolt11 response = Some b"
    and c: "cr_invoice created = br_invoice b"
      "cr_payment_hash created = to_ascii_lowercase (br_payment_hash b)"
    by (auto simp: create_bolt11_receive_request_def andthen_eq_Inr guard_Inr)
  have "bi_expiry invoice = unat expiry * 1000000000" "\<exists>t. bi_expires_at invoice = Some t \<and> now < t"
    using e by (auto simp: verify_expiry_at_def not_le split: if_splits option.splits)
  with v show thesis
    by (elim response_checked)
      (use that b c in \<open>auto simp: verify_invoice_Inr eq_ignore_ascii_case_def\<close>)
qed

lemma record_request_row:
  assumes "record_strike_receive_request now q db = Inr (u, db')"
  shows "\<exists>row \<in> set (strike_receive_requests db'). sr_receive_request_id row = srr_receive_request_id q
    \<and> sr_address_user row = srr_address_user q \<and> sr_credit_pool row = srr_credit_pool q
    \<and> sr_amount_msat row = uint (srr_amount_msat q) \<and> sr_invoice row = srr_invoice q
    \<and> eq_ignore_ascii_case (sr_payment_hash row) (srr_payment_hash q)
    \<and> eq_ignore_ascii_case (sr_description_hash row) (srr_description_hash q)"
  using assms
  by (auto simp: record_strike_receive_request_def res_simps insert_strike_request_def to_i64_Inr
      request_matches_def eq_ignore_ascii_case_def split: option.splits if_splits dest!: find_Some_in)

text \<open>What is known of an invoice that is handed out.\<close>

definition invoice_bound ::
  "strike_world \<Rightarrow> issue_env \<Rightarrow> string \<Rightarrow> string \<Rightarrow> u64 \<Rightarrow> string \<Rightarrow> u64 \<Rightarrow> string \<Rightarrow> string
     \<Rightarrow> bolt11_invoice \<Rightarrow> strike_request_row \<Rightarrow> bool" where
  "invoice_bound w env user pool amount desc expiry request_id text_of invoice row \<longleftrightarrow>
     sj_invoice (sw_codec w) text_of = Some invoice \<and> bi_signature_ok invoice
    \<and> bi_mainnet invoice \<and> bi_amount_msat invoice = Some amount
    \<and> eq_ignore_ascii_case (bi_payment_hash invoice) (sr_payment_hash row)
    \<and> (\<exists>h. bi_description_hash invoice = Some h \<and> eq_ignore_ascii_case h desc)
    \<and> bi_expiry invoice = unat expiry * 1000000000
    \<and> (\<exists>t. bi_expires_at invoice = Some t \<and> ie_clock env < t)
    \<and> sr_receive_request_id row = request_id
    \<and> sr_address_user row = user \<and> sr_credit_pool row = pool \<and> sr_amount_msat row = uint amount
    \<and> sr_invoice row = text_of"

lemma issued_bound:
  assumes "create_and_record_receive_request w env user pool amount desc expiry db = (Inr created, db')"
  shows "\<exists>invoice row. invoice_bound w env user pool amount desc expiry
      (cr_receive_request_id created) (cr_invoice created) invoice row
    \<and> row \<in> set (strike_receive_requests db')
    \<and> (\<forall>ad \<in> set (invoice_admissions db'). ad_id ad = ie_admission_id env \<longrightarrow> ad_finished ad)"
proof -
  from assms obtain db1 db2 where
    r: "reserve_invoice (ie_admitted_at env) (ie_admission_id env) db = Inr (Some (ie_admission_id env), db1)"
    and c: "create_and_record w env user pool amount desc expiry db1 = (Inr created, db2)"
    and f: "finish_invoice_admission (ie_admission_id env) db2 = Inr ((), db')"
    by (auto simp: create_and_record_receive_request_def at_ledger_def reserve_invoice_def
        finish_invoice_admission_def Let_def split: sum.splits if_splits option.splits prod.splits)
  from c have b: "create_bolt11_receive_request (sw_codec w) (sw_send w) (sw_client w) (ie_clock env)
      amount desc expiry = Inr created"
    and s: "record_strike_receive_request (ie_recorded_at env) (stored_of_created user pool amount created) db1
      = Inr ((), db2)"
    by (auto simp: create_and_record_def at_ledger_def split: sum.splits if_splits)
  obtain invoice where i: "sj_invoice (sw_codec w) (cr_invoice created) = Some invoice" "bi_signature_ok invoice"
    "bi_mainnet invoice" "bi_amount_msat invoice = Some amount"
    "eq_ignore_ascii_case (bi_payment_hash invoice) (cr_payment_hash created)"
    "\<exists>h. bi_description_hash invoice = Some h \<and> eq_ignore_ascii_case h desc"
    "bi_expiry invoice = unat expiry * 1000000000"
    "\<exists>t. bi_expires_at invoice = Some t \<and> ie_clock env < t"
    using create_bolt11_sound [OF b] .
  have "strike_receive_requests db' = strike_receive_requests db2"
    "\<forall>ad \<in> set (invoice_admissions db'). ad_id ad = ie_admission_id env \<longrightarrow> ad_finished ad"
    using f by (auto simp: finish_invoice_admission_def set_update_where)
  with record_request_row [OF s] i show ?thesis
    unfolding stored_of_created_def stored_strike_receive_request.simps invoice_bound_def
    by (metis eq_ignore_ascii_case_def)
qed

text \<open>
  C20: An invoice is handed out only when it is bound. It parses with a valid mainnet signature for
  exactly the requested amount, description hash and expiry, is not expired, and its request is
  stored with the user, the pool, the amount, the invoice and its payment hash, so that a later
  receive can be reconciled with it; the admission slot is released.
\<close>

theorem issued_invoice_is_bound:
  assumes "create_and_record_receive_request w env user pool amount desc expiry db = (Inr created, db')"
  shows "\<exists>invoice row. invoice_bound w env user pool amount desc expiry
      (cr_receive_request_id created) (cr_invoice created) invoice row
    \<and> row \<in> set (strike_receive_requests db')
    \<and> (\<forall>ad \<in> set (invoice_admissions db'). ad_id ad = ie_admission_id env \<longrightarrow> ad_finished ad)"
  by (rule issued_bound [OF assms])

section \<open>A sample world\<close>

text \<open>A small world for the witnesses: one request of 21 sats, paid by one Lightning receive.\<close>

definition sample_desc :: string where
  "sample_desc = replicate 64 CHR ''0''"

definition sample_hash :: string where
  "sample_hash = replicate 64 CHR ''1''"

definition sample_invoice :: bolt11_invoice where
  "sample_invoice = \<lparr>bi_signature_ok = True, bi_mainnet = True, bi_amount_msat = Some 21000,
     bi_payment_hash = sample_hash, bi_description_hash = Some sample_desc,
     bi_expiry = 60 * 1000000000, bi_timestamp = 100 * 1000000000,
     bi_expires_at = Some (160 * 1000000000)\<rparr>"

definition sample_response :: receive_request_response where
  "sample_response = \<lparr>rr_receive_request_id = ''rq1'', rr_created = None, rr_target_currency = None,
     rr_bolt11 = Some \<lparr>br_invoice = ''lnbc'', br_requested_amount = None, br_btc_amount = None,
       br_description_hash = None, br_payment_hash = sample_hash\<rparr>\<rparr>"

definition sample_receive :: strike_receive where
  "sample_receive = \<lparr>rc_receive_id = ''rv1'', rc_receive_request_id = ''rq1'', rc_type = ''LIGHTNING'',
     rc_state = ''COMPLETED'',
     rc_amount_received = \<lparr>pa_amount = msat_to_btc_decimal 21000, pa_currency = ''BTC''\<rparr>,
     rc_amount_credited = None, rc_conversion_rate = None, rc_completed = None,
     rc_lightning = Some \<lparr>lr_invoice = ''lnbc'', lr_description_hash = None,
       lr_payment_hash = sample_hash\<rparr>\<rparr>"

definition sample_world :: strike_world where
  "sample_world = \<lparr>sw_codec = \<lparr>sj_join = (\<lambda>u p. Some u), sj_request = (\<lambda>_. Some sample_response),
       sj_page = (\<lambda>_. Some [sample_receive]), sj_invoice = (\<lambda>_. Some sample_invoice),
       sj_webhook = (\<lambda>_. None), sj_hex = (\<lambda>_. None), sj_hmac = (\<lambda>_ _. [])\<rparr>,
     sw_send = (\<lambda>_. Inr \<lparr>hr_status = 200, hr_content_length = None, hr_chunks = []\<rparr>),
     sw_client = \<lparr>sk_base = \<lparr>url_scheme = ''https'', url_username = [], url_password = None,
       url_host = Some ''api.strike.me'', url_path = ''/'', url_query = None, url_fragment = None\<rparr>,
       sk_api_key = ''k''\<rparr>,
     sw_print_json = (\<lambda>_. ''{}''), sw_parse_json = (\<lambda>_. Some (JObj []))\<rparr>"

definition sample_issue :: issue_env where
  "sample_issue = \<lparr>ie_slot_free = True, ie_admitted_at = 100, ie_admission_id = ''a1'',
     ie_clock = 101 * 1000000000, ie_recorded_at = 101, ie_cut = None\<rparr>"

definition sample_created :: created_receive_request where
  "sample_created = \<lparr>cr_receive_request_id = ''rq1'', cr_invoice = ''lnbc'', cr_payment_hash = sample_hash,
     cr_description_hash = sample_desc, cr_created_provider = None\<rparr>"

definition invoiced_db :: ledger_db where
  "invoiced_db = empty_db\<lparr>
     invoice_admissions := [\<lparr>ad_id = ''a1'', ad_created_at = 100, ad_expires_at = 130, ad_finished = True\<rparr>],
     strike_receive_requests := [\<lparr>sr_receive_request_id = ''rq1'', sr_address_user = ''herd'',
       sr_credit_pool = ''herd'', sr_amount_msat = 21000, sr_description_hash = sample_desc,
       sr_payment_hash = sample_hash, sr_invoice = ''lnbc'', sr_created_provider = None,
       sr_created_at = 101\<rparr>]\<rparr>"

lemma lower_digits: "list_all is_ascii_digit s \<Longrightarrow> to_ascii_lowercase s = s"
  by (induction s) (auto simp: to_ascii_lowercase_def to_ascii_lower_def is_ascii_digit_def
      is_ascii_uppercase_def)

lemma sample_texts:
  "hex32 sample_desc = Inr ()" "hex32 sample_hash = Inr ()"
  "validate_hex32 sample_desc = Inr ()" "validate_hex32 sample_hash = Inr ()"
  "to_ascii_lowercase sample_desc = sample_desc" "to_ascii_lowercase sample_hash = sample_hash"
  "sql_length sample_desc = 64" "sql_length sample_hash = 64"
  "sql_length ''herd'' = 4" "sql_length ''lnbc'' = 4"
  "validate_payment_hash sample_hash = Inr ()"
  by (simp_all add: hex32_def sample_desc_def sample_hash_def is_ascii_hexdigit_def is_ascii_digit_def
      byte_def validate_hex32_def sql_length_def is_continuation_def lower_digits
      validate_payment_hash_def list_all_iff)

lemma sample_users: "validate_user ''herd'' = Inr ()" "issue_user ''herd'' = Inr ()"
  by (simp_all add: validate_user_def issue_user_def lightning_address_user_def MAX_USER_LEN_def source_byte_def user_byte_def
      is_ascii_lowercase_def is_ascii_digit_def byte_def)

lemma sample_verified:
  "validate_receive_request_response (sw_codec sample_world) sample_response 21000 sample_desc
    = Inr sample_invoice"
  by (simp add: validate_receive_request_response_def sample_response_def sample_texts sample_world_def
      verify_invoice_def sample_invoice_def eq_ignore_ascii_case_def)

lemma sample_bolt11:
  "create_bolt11_receive_request (sw_codec sample_world) (sw_send sample_world) (sw_client sample_world)
    (101 * 1000000000) 21000 sample_desc 60 = Inr sample_created"
proof -
  have "verify_expiry_at sample_invoice 60 (101 * 1000000000) = Inr ()"
    by (simp add: verify_expiry_at_def sample_invoice_def DURATION_MAX_def)
  moreover have "send_json (sw_send sample_world) (sj_request (sw_codec sample_world)) r = Inr sample_response" for r
    by (simp add: send_json_def sample_world_def bounded_body_def is_success_def)
  moreover have "sj_join (sw_codec sample_world) u p = Some u" for u p by (simp add: sample_world_def)
  ultimately show ?thesis
    using sample_verified
    by (simp add: create_bolt11_receive_request_def sample_texts)
      (simp add: sample_response_def sample_created_def sample_texts)
qed


definition sample_event :: strike_completed_receive_event where
  "sample_event = \<lparr>sce_event_id = ''e1'', sce_receive_request_id = ''rq1'', sce_receive_id = ''rv1''\<rparr>"

definition sample_stored :: stored_strike_receive_request where
  "sample_stored = stored_of_created ''herd'' ''herd'' 21000 sample_created"

definition sample_reconciled :: reconciled_receive where
  "sample_reconciled = \<lparr>rv_receive_request_id = ''rq1'', rv_receive_id = ''rv1'', rv_type = ''LIGHTNING'',
     rv_amount_msat = 21000, rv_payment_hash = Some sample_hash, rv_completed_provider = None,
     rv_received = rc_amount_received sample_receive, rv_credited = None, rv_conversion_rate = None\<rparr>"

lemma sample_admitted:
  "reserve_invoice 100 ''a1'' empty_db = Inr (Some ''a1'', empty_db\<lparr>invoice_admissions :=
     [\<lparr>ad_id = ''a1'', ad_created_at = 100, ad_expires_at = 130, ad_finished = False\<rparr>]\<rparr>)"
  by (simp add: reserve_invoice_def empty_db_def count_where_def)

lemma sample_stored_row:
  "strike_receive_requests db = [] \<Longrightarrow> record_strike_receive_request 101 sample_stored db
    = Inr ((), db\<lparr>strike_receive_requests := strike_receive_requests invoiced_db\<rparr>)"
  by (simp add: record_strike_receive_request_def sample_stored_def stored_of_created_def
      sample_created_def sample_texts sample_users insert_strike_request_def request_check_def
      to_i64_def i64_of_u64_def i64_max_def invoiced_db_def)

lemma sample_created_ok:
  "create_and_record_receive_request sample_world sample_issue ''herd'' ''herd'' 21000 sample_desc 60 empty_db
    = (Inr sample_created, invoiced_db)"
proof -
  have "ie_clock sample_issue = 101 * 1000000000" "ie_cut sample_issue = None" "ie_slot_free sample_issue"
    "ie_admitted_at sample_issue = 100" "ie_admission_id sample_issue = ''a1''" "ie_recorded_at sample_issue = 101"
    by (simp_all add: sample_issue_def)
  then show ?thesis
    using sample_bolt11 sample_stored_row
    by (simp add: create_and_record_receive_request_def create_and_record_def at_ledger_def sample_users
        sample_texts sample_admitted sample_stored_def i64_max_def)
     (simp add: finish_invoice_admission_def update_where_def invoiced_db_def empty_db_def)
qed

theorem issued_invoice_is_bound_witness:
  "\<exists>row. row \<in> set (strike_receive_requests invoiced_db) \<and> sr_invoice row = ''lnbc''"
  using issued_invoice_is_bound [OF sample_created_ok]
  by (auto simp: sample_created_def invoice_bound_def)

lemma invoiced_reachable: "ledger_steps empty_db invoiced_db"
proof -
  note a = sample_admitted
  let ?a = "empty_db\<lparr>invoice_admissions :=
     [\<lparr>ad_id = ''a1'', ad_created_at = 100, ad_expires_at = 130, ad_finished = False\<rparr>]\<rparr>"
  have "ledger_step empty_db ?a" by (rule ledger_step.admit [OF a])
  moreover have "record_strike_receive_request 101 sample_stored ?a
     = Inr ((), ?a\<lparr>strike_receive_requests := strike_receive_requests invoiced_db\<rparr>)"
    by (rule sample_stored_row) (simp add: empty_db_def)
  then have "ledger_step ?a (?a\<lparr>strike_receive_requests := strike_receive_requests invoiced_db\<rparr>)"
    by (rule ledger_step.strike_request)
  moreover have "finish_invoice_admission ''a1'' (?a\<lparr>strike_receive_requests := strike_receive_requests invoiced_db\<rparr>)
     = Inr ((), invoiced_db)"
    by (simp add: finish_invoice_admission_def update_where_def invoiced_db_def empty_db_def)
  then have "ledger_step (?a\<lparr>strike_receive_requests := strike_receive_requests invoiced_db\<rparr>) invoiced_db"
    by (rule ledger_step.admit_done)
  ultimately show ?thesis by (meson converse_rtranclp_into_rtranclp rtranclp.rtrancl_refl)
qed

lemma sample_amount:
  "btc_msat (msat_to_btc_decimal 21000) = Inr 21000" 
  "validate_decimal_evidence (msat_to_btc_decimal 21000) = Inr ()"
proof -
  have d: "digit 0 = CHR ''0''" "digit (Suc 0) = CHR ''1''" "digit 2 = CHR ''2''"
    by (simp_all add: digit_def char_of_def bit_0)
  have r: "replicate 6 CHR ''0'' = ''000000''" by (simp add: numeral_eq_Suc)
  have "msat_to_btc_decimal 21000 = ''0.00000021000''"
    by (simp add: msat_to_btc_decimal_def MSAT_PER_BTC_def show_u64_def show_nat.simps pad_zeros_def d r)
  then show "validate_decimal_evidence (msat_to_btc_decimal 21000) = Inr ()"
    by (simp add: validate_decimal_evidence_def is_ascii_digit_def byte_def)
qed (simp add: btc_msat_def msat_round_trip)

lemma sample_reconciles:
  "reconcile_completed_receive (sw_codec sample_world) (sw_send sample_world) (sw_client sample_world)
    sample_stored ''rv1'' = Inr sample_reconciled"
proof -
  have f: "find_receive_request (sw_codec sample_world) (sw_send sample_world) (sw_client sample_world) i
      = Inr sample_response" for i
    by (simp add: find_receive_request_def send_json_def sample_world_def bounded_body_def is_success_def)
  have g: "find_receive (sw_codec sample_world) (sw_send sample_world) (sw_client sample_world) i ''rv1''
      = Inr sample_receive" for i
    by (simp add: find_receive_def send_json_def sample_world_def bounded_body_def is_success_def
        sample_receive_def)
  show ?thesis
    by (simp add: reconcile_completed_receive_def f g validate_stored_request_def sample_stored_def
        stored_of_created_def sample_created_def sample_verified)
      (simp add: sample_response_def eq_ignore_ascii_case_def sample_receive_def receive_evidence_ok_def
        validate_provider_amount_def sample_amount lightning_credit_def sample_texts sample_reconciled_def)
qed


definition sample_credit :: settled_payment where
  "sample_credit = strike_payment (sw_print_json sample_world) sample_stored sample_reconciled"

definition credited_db :: ledger_db where
  "credited_db = posted sample_credit invoiced_db"

lemma sample_credit_fields:
  "pay_source sample_credit = ''strike''" "pay_source_id sample_credit = ''rv1''"
  "pay_payment_hash sample_credit = Some sample_hash" "pay_address_user sample_credit = ''herd''"
  "pay_credit_pool sample_credit = ''herd''" "pay_amount_msat sample_credit = 21000"
  "pay_settled_at sample_credit = None" "pay_context_json sample_credit = Some ''{}''"
  by (simp_all add: sample_credit_def strike_payment_def sample_stored_def stored_of_created_def
      sample_reconciled_def sample_world_def)

lemma sample_credit_valid: "validate_payment (sw_parse_json sample_world) sample_credit = Inr ()"
  using sample_users sample_texts
  by (simp add: validate_payment_def sample_credit_fields validate_source_def validate_external_id_def
      source_byte_def is_ascii_lowercase_def is_ascii_digit_def byte_def sample_world_def)

lemma sample_credit_ok:
  "record_payment (sw_parse_json sample_world) sample_credit invoiced_db
     = Inr (Credited 21 ''herd'' ''herd'', credited_db)"
proof -
  have "uint (pay_amount_msat sample_credit) \<le> i64_max" "unseen sample_credit invoiced_db"
    "balance invoiced_db + uint (pay_amount_msat sample_credit div 1000) \<le> i64_max"
    "int (length (event_log invoiced_db)) < i64_max"
    by (simp_all add: sample_credit_fields i64_max_def invoiced_db_def empty_db_def balance_def unseen_def)
  with record_payment_new [OF reachable_inv [OF invoiced_reachable] _ sample_credit_valid] show ?thesis
    by (simp add: credited_db_def) (simp add: sample_credit_fields)
qed

lemma sample_lookup:
  "strike_receive_request ''rq1'' invoiced_db = Inr (Some sample_stored)"
  "strike_receive_request ''rq1'' credited_db = Inr (Some sample_stored)"
proof -
  have r: "strike_receive_requests credited_db = strike_receive_requests invoiced_db"
    by (simp add: credited_db_def posted_def logged_def Let_def)
  show "strike_receive_request ''rq1'' invoiced_db = Inr (Some sample_stored)"
    by (simp add: strike_receive_request_def invoiced_db_def stored_request_of_def to_u64_def u64_of_i64_def
        sample_stored_def stored_of_created_def sample_created_def)
  then show "strike_receive_request ''rq1'' credited_db = Inr (Some sample_stored)"
    unfolding strike_receive_request_def r .
qed

lemma sample_credited:
  "reconcile_and_credit sample_world sample_event invoiced_db = (Inr (Credited 21 ''herd'' ''herd''), credited_db)"
  using sample_lookup(1) sample_reconciles sample_credit_ok
  by (simp add: reconcile_and_credit_def sample_event_def at_ledger_def sample_credit_def)

theorem strike_credit_matches_invoice_witness:
  "rc_state sample_receive = ''COMPLETED'' \<and> (\<exists>row \<in> set (strike_receive_requests invoiced_db).
     sr_receive_request_id row = ''rq1'')"
  using strike_credit_matches_invoice [OF sample_credited]
  by (auto simp: sample_event_def sample_receive_def)

lemma credited_reachable: "ledger_step invoiced_db credited_db"
  by (rule ledger_step.payment [OF sample_credit_ok]) (simp add: invoiced_db_def empty_db_def i64_max_def)

lemma sample_again:
  "reconcile_and_credit sample_world sample_event credited_db = (Inr Duplicate, credited_db)"
proof -
  note inv = ledger_steps_all [OF r_into_rtranclp [where r = ledger_step, OF credited_reachable] reachable_inv [OF invoiced_reachable]]
  have "settled_of sample_credit 1 \<in> set (settled_payments credited_db)"
    by (simp add: credited_db_def posted_tables invoiced_db_def empty_db_def next_id_def)
  from record_payment_stored [OF inv sample_credit_valid _ this]
  have "record_payment (sw_parse_json sample_world) sample_credit credited_db = Inr (Duplicate, credited_db)"
    by (simp add: settled_of_def settlement_matches_def sample_credit_fields i64_max_def)
  then show ?thesis
    using sample_lookup(2) sample_reconciles
    by (simp add: reconcile_and_credit_def sample_event_def at_ledger_def sample_credit_def)
qed

theorem strike_receive_is_credited_once_witness:
  "receipts credited_db = receipts invoiced_db + 21"
  using strike_receive_is_credited_once [OF invoiced_reachable _ sample_credited rtranclp.rtrancl_refl refl
      sample_again]
  by (simp add: invoiced_db_def empty_db_def i64_max_def)

definition notified_db :: ledger_db where
  "notified_db = invoiced_db\<lparr>strike_inbox := [\<lparr>in_work_key = ''webhook:e1'', in_event_id = ''e1'',
     in_receive_request_id = ''rq1'', in_receive_id = ''rv1'', in_status = In_pending, in_attempts = 0,
     in_next_attempt = 150, in_created_at = 150, in_completed_at = None\<rparr>]\<rparr>"


lemma notified_reachable: "ledger_steps empty_db notified_db"
proof -
  have "enqueue_strike_work 150 ''webhook:e1'' sample_event invoiced_db = Inr ((), notified_db)"
    by (simp add: enqueue_strike_work_def notified_db_def invoiced_db_def empty_db_def sample_event_def
        INBOX_CAPACITY_def count_where_def)
  with invoiced_reachable show ?thesis by (blast intro: rtranclp.rtrancl_into_rtrancl ledger_step.inbox_enqueue)
qed

lemma notified_credited:
  "reconcile_and_credit sample_world sample_event notified_db
     = (Inr (Credited 21 ''herd'' ''herd''), posted sample_credit notified_db)"
proof -
  have "uint (pay_amount_msat sample_credit) \<le> i64_max" "unseen sample_credit notified_db"
    "balance notified_db + uint (pay_amount_msat sample_credit div 1000) \<le> i64_max"
    "int (length (event_log notified_db)) < i64_max"
    by (simp_all add: sample_credit_fields i64_max_def notified_db_def invoiced_db_def empty_db_def
        balance_def unseen_def)
  with record_payment_new [OF reachable_inv [OF notified_reachable] _ sample_credit_valid]
  have "record_payment (sw_parse_json sample_world) sample_credit notified_db
     = Inr (Credited 21 ''herd'' ''herd'', posted sample_credit notified_db)"
    by simp (simp add: sample_credit_fields)
  moreover have "strike_receive_request ''rq1'' notified_db = Inr (Some sample_stored)"
    using sample_lookup(1) by (simp add: strike_receive_request_def notified_db_def)
  ultimately show ?thesis
    using sample_reconciles
    by (simp add: reconcile_and_credit_def sample_event_def at_ledger_def sample_credit_def)
qed

definition sample_clock :: "nat \<Rightarrow> i64" where
  "sample_clock n = (if n = 2 then 0 else 200)"

definition recovered_db :: ledger_db where
  "recovered_db = (posted sample_credit notified_db)\<lparr>strike_inbox :=
     update_where (\<lambda>r. in_work_key r = ''webhook:e1'')
       (\<lambda>r. r\<lparr>in_status := In_done, in_completed_at := Some 200\<rparr>) (strike_inbox notified_db)\<rparr>"

lemma sample_recovers:
  "recovery_step sample_world sample_clock notified_db = (Inr (), recovered_db)"
proof -
  have due: "due_strike_work (sample_clock 0) notified_db
      = Inr (Some \<lparr>siw_key = ''webhook:e1'', siw_event = sample_event, siw_attempts = 0\<rparr>)"
    by (simp add: due_strike_work_def notified_db_def strike_work_due_def sample_clock_def to_u32_def
        sample_event_def)
  have tables: "strike_inbox (posted sample_credit notified_db) = strike_inbox notified_db"
    by (simp add: posted_def logged_def Let_def)
  have scans: "strike_receive_requests recovered_db = strike_receive_requests invoiced_db"
    "strike_recovery_scan recovered_db = []"
    by (simp_all add: recovered_db_def posted_def logged_def Let_def notified_db_def invoiced_db_def
        empty_db_def)
  have "work_step sample_world sample_clock notified_db = (Inr (), recovered_db)"
    using due notified_credited
    by (simp add: work_step_def at_ledger_def finish_strike_work_def sample_clock_def tables recovered_db_def)
  moreover have "scan_step sample_world sample_clock recovered_db = (Inr (), recovered_db)"
    by (simp add: scan_step_def due_strike_scan_def sample_clock_def scan_next_attempt_def scan_of_def
        scans) (simp add: invoiced_db_def)
  ultimately show ?thesis by (simp add: recovery_step_def)
qed


end
