(* ===== verification/Float64.thy ===== *)
theory Float64
  imports Complex_Main Rust_Text Decimal_Text
begin

text \<open>
  IEEE 754 doubles as the code uses them: a finite one is its rational value, except that negative
  zero is kept apart because it prints with its sign. Infinities and NaN are one value: every
  expression of the code with such an operand is refused by \<open>is_finite\<close>. Results are rounded to the
  nearest double, ties to even, down to the subnormal range.
\<close>

section \<open>Values and rounding\<close>

datatype f64 = NonFinite | NegZero | Finite rat

definition f64_value :: "f64 \<Rightarrow> rat option" where
  "f64_value a = (case a of NonFinite \<Rightarrow> None | NegZero \<Rightarrow> Some 0 | Finite x \<Rightarrow> Some x)"

text \<open>The number of binary digits.\<close>

fun bit_length :: "nat \<Rightarrow> nat" where
  "bit_length n = (if n = 0 then 0 else Suc (bit_length (n div 2)))"

declare bit_length.simps [simp del]

definition pow2 :: "int \<Rightarrow> rat" where
  "pow2 k = (if 0 \<le> k then 2 ^ nat k else 1 / 2 ^ nat (- k))"

text \<open>The greatest \<open>k\<close> with \<open>pow2 k \<le> x\<close>, for a positive \<open>x\<close>.\<close>

definition binade :: "rat \<Rightarrow> int" where
  "binade x =
     (case quotient_of x of (n, d) \<Rightarrow>
        let k = int (bit_length (nat n)) - int (bit_length (nat d)) in
        if pow2 k \<le> x then k else k - 1)"

definition round_even :: "rat \<Rightarrow> int" where
  "round_even x =
     (let f = \<lfloor>x\<rfloor>; r = x - of_int f in
      if r < 1 / 2 then f else if 1 / 2 < r then f + 1 else if even f then f else f + 1)"

text \<open>The value of the unit in the last place, and the nearest multiple of it.\<close>

definition ulp :: "rat \<Rightarrow> rat" where
  "ulp x = pow2 (max (binade \<bar>x\<bar> - 52) (- 1074))"

definition round_f64 :: "rat \<Rightarrow> rat" where
  "round_f64 x = (if x = 0 then 0 else of_int (round_even (x / ulp x)) * ulp x)"

definition f64_of_rat :: "rat \<Rightarrow> f64" where
  "f64_of_rat x =
     (let r = round_f64 x in
      if 2 ^ 1024 \<le> \<bar>r\<bar> then NonFinite else if r = 0 \<and> x < 0 then NegZero else Finite r)"

section \<open>Operations\<close>

definition f64_op :: "(rat \<Rightarrow> rat \<Rightarrow> rat) \<Rightarrow> f64 \<Rightarrow> f64 \<Rightarrow> f64" where
  "f64_op f a b =
     (case (f64_value a, f64_value b) of (Some x, Some y) \<Rightarrow> f64_of_rat (f x y) | _ \<Rightarrow> NonFinite)"

definition f64_less :: "f64 \<Rightarrow> f64 \<Rightarrow> bool" where
  "f64_less a b \<longleftrightarrow> (case (f64_value a, f64_value b) of (Some x, Some y) \<Rightarrow> x < y | _ \<Rightarrow> False)"

definition f64_min :: "f64 \<Rightarrow> f64 \<Rightarrow> f64" where
  "f64_min a b = (if f64_less b a then b else a)"

text \<open>\<open>value.is_finite() && (lo..=hi).contains(&value)\<close>.\<close>

definition f64_within :: "rat \<Rightarrow> rat \<Rightarrow> f64 \<Rightarrow> bool" where
  "f64_within lo hi a \<longleftrightarrow> (case f64_value a of None \<Rightarrow> False | Some x \<Rightarrow> lo \<le> x \<and> x \<le> hi)"

definition f64_of_u64 :: "u64 \<Rightarrow> f64" where
  "f64_of_u64 w = f64_of_rat (of_nat (unat w))"

section \<open>Text\<close>

text \<open>
  \<open>str::parse::<f64>\<close>: an optional sign, then \<open>inf\<close>, \<open>infinity\<close> or \<open>nan\<close> in any case, or digits with
  at most one point and at least one digit, and an optional exponent. The decimal value is rounded.
\<close>

definition signed_rest :: "string \<Rightarrow> bool \<times> string" where
  "signed_rest s = (case s of [] \<Rightarrow> (False, [])
     | c # cs \<Rightarrow> if c = CHR ''-'' then (True, cs) else if c = CHR ''+'' then (False, cs) else (False, s))"

definition parse_exponent :: "string \<Rightarrow> int option" where
  "parse_exponent s =
     (case s of [] \<Rightarrow> Some 0
      | c # cs \<Rightarrow>
          if c \<noteq> CHR ''e'' \<and> c \<noteq> CHR ''E'' then None
          else case signed_rest cs of (negative, t) \<Rightarrow>
            if all_digits t
            then Some (if negative then - int (digits_value t) else int (digits_value t)) else None)"

definition pow10 :: "int \<Rightarrow> rat" where
  "pow10 k = (if 0 \<le> k then 10 ^ nat k else 1 / 10 ^ nat (- k))"

definition parse_decimal :: "string \<Rightarrow> rat option" where
  "parse_decimal s =
     (let whole = takeWhile is_ascii_digit s; rest = dropWhile is_ascii_digit s;
          (fraction, rest) =
            (case rest of [] \<Rightarrow> ([], [])
             | c # cs \<Rightarrow> if c = CHR ''.'' then (takeWhile is_ascii_digit cs, dropWhile is_ascii_digit cs)
                 else ([], rest)) in
      if whole = [] \<and> fraction = [] then None
      else map_option (\<lambda>e. of_nat (digits_value (whole @ fraction)) * pow10 (e - int (length fraction)))
        (parse_exponent rest))"

definition parse_f64 :: "string \<Rightarrow> f64 option" where
  "parse_f64 s =
     (case signed_rest s of (negative, t) \<Rightarrow>
        if list_ex (eq_ignore_ascii_case t) [''inf'', ''infinity'', ''nan''] then Some NonFinite
        else map_option (\<lambda>x. if negative then (if x = 0 then NegZero else f64_of_rat (- x)) else f64_of_rat x)
          (parse_decimal t))"

text \<open>\<open>format!("{value:.n}")\<close> of a finite value: the exact value, ties to even.\<close>

definition pad_digits :: "nat \<Rightarrow> string \<Rightarrow> string" where
  "pad_digits n s = replicate (n - length s) CHR ''0'' @ s"

definition fixed :: "nat \<Rightarrow> f64 \<Rightarrow> string" where
  "fixed n a =
     (let x = (case f64_value a of None \<Rightarrow> 0 | Some x \<Rightarrow> x);
          r = nat (round_even (\<bar>x\<bar> * 10 ^ n)) in
      (if x < 0 \<or> a = NegZero then ''-'' else [])
      @ show_nat (r div 10 ^ n) @ (if n = 0 then [] else CHR ''.'' # pad_digits n (show_nat (r mod 10 ^ n))))"

section \<open>Rounding is monotone at powers of two\<close>

lemma pow2_pos [simp]: "0 < pow2 k"
  by (simp add: pow2_def)

lemma pow2_Suc: "pow2 (k + 1) = 2 * pow2 k"
proof (cases "0 \<le> k")
  case True
  then show ?thesis by (simp add: pow2_def nat_add_distrib)
next
  case False
  then have "nat (- k) = Suc (nat (- (k + 1)))" by simp
  with False show ?thesis by (auto simp: pow2_def field_simps)
qed

lemma pow2_mono: "j \<le> k \<Longrightarrow> pow2 j \<le> pow2 k"
proof (induction k rule: int_ge_induct)
  case (step k)
  then show ?case using pow2_pos [of k] unfolding pow2_Suc by linarith
qed simp

lemma pow2_add: "0 \<le> j \<Longrightarrow> pow2 (k + j) = 2 ^ nat j * pow2 k"
proof (induction j rule: int_ge_induct)
  case (step j)
  then show ?case by (simp add: pow2_Suc [of "k + j", simplified add.assoc] nat_add_distrib)
qed simp

lemma bit_length_bounds: "0 < n \<Longrightarrow> 2 ^ (bit_length n - 1) \<le> n \<and> n < 2 ^ bit_length n \<and> 0 < bit_length n"
proof (induction n rule: bit_length.induct)
  case (1 n)
  show ?case
  proof (cases "n = 1")
    case True
    then show ?thesis by (simp add: bit_length.simps)
  next
    case False
    with 1(2) have "0 < n div 2" by simp
    with 1 have ih: "2 ^ (bit_length (n div 2) - 1) \<le> n div 2" "n div 2 < 2 ^ bit_length (n div 2)"
      "0 < bit_length (n div 2)" by auto
    have b: "bit_length n = Suc (bit_length (n div 2))" using 1(2) by (simp add: bit_length.simps [of n])
    have "2 * 2 ^ (bit_length (n div 2) - 1) \<le> n" using ih(1) by linarith
    then have "2 ^ bit_length (n div 2) \<le> n" using ih(3) by (cases "bit_length (n div 2)") simp_all
    moreover have "n < 2 * 2 ^ bit_length (n div 2)" using ih(2) by linarith
    ultimately show ?thesis by (simp add: b)
  qed
qed

lemma pow2_less: "j < k \<Longrightarrow> pow2 j < pow2 k"
  using pow2_mono [of "j + 1" k] pow2_pos [of j] unfolding pow2_Suc by linarith

lemma pow2_less_iff: "pow2 j < pow2 k \<longleftrightarrow> j < k"
  using pow2_less pow2_mono by (meson linorder_not_le)

lemma pow2_diff: "pow2 (int a - int b) = 2 ^ a / 2 ^ b"
proof (cases "b \<le> a")
  case True
  then have "nat (int a - int b) = a - b" by simp
  with True show ?thesis by (simp add: pow2_def power_diff)
next
  case False
  then have "pow2 (int a - int b) = 1 / 2 ^ (b - a)" by (simp add: pow2_def nat_diff_distrib)
  with False show ?thesis by (simp add: power_diff)
qed

lemma binade_bounds:
  assumes "0 < x"
  shows "pow2 (binade x) \<le> x" "x < pow2 (binade x + 1)"
proof -
  obtain n d where q: "quotient_of x = (n, d)" by fastforce
  then have d: "0 < d" and x: "x = of_int n / of_int d"
    by (auto intro: quotient_of_denom_pos quotient_of_div)
  then have n: "0 < n" using assms by (simp add: zero_less_divide_iff)
  let ?a = "bit_length (nat n)" let ?b = "bit_length (nat d)"
  have A: "2 ^ (?a - 1) \<le> nat n" "nat n < 2 ^ ?a" "0 < ?a"
    and B: "2 ^ (?b - 1) \<le> nat d" "nat d < 2 ^ ?b" "0 < ?b"
    using bit_length_bounds [of "nat n"] bit_length_bounds [of "nat d"] n d by auto
  have N: "2 ^ (?a - 1) \<le> (of_int n :: rat)" "(of_int n :: rat) < 2 ^ ?a"
    and D: "2 ^ (?b - 1) \<le> (of_int d :: rat)" "(of_int d :: rat) < 2 ^ ?b"
    using A B n d by (metis (mono_tags) nat_less_iff nat_le_iff of_int_le_iff of_int_less_iff of_int_numeral
        of_int_power of_nat_numeral of_nat_power order_less_imp_le nat_int int_nat_eq zless_nat_eq_int_zless zle_int)+
  let ?k = "int ?a - int ?b"
  have "x < 2 ^ ?a / 2 ^ (?b - 1)"
    unfolding x using N(2) D(1) n d by (intro frac_less) (auto intro: less_imp_le)
  also have "\<dots> = pow2 (?k + 1)" using pow2_diff [of ?a "?b - 1"] B(3) by (simp add: of_nat_diff algebra_simps)
  finally have hi: "x < pow2 (?k + 1)" .
  have "pow2 (?k - 1) = 2 ^ (?a - 1) / 2 ^ ?b"
    using pow2_diff [of "?a - 1" ?b] A(3) by (simp add: of_nat_diff algebra_simps)
  also have "\<dots> \<le> x" unfolding x using N(1) D(2) d n by (intro frac_le) auto
  finally have lo: "pow2 (?k - 1) \<le> x" .
  have b: "binade x = (if pow2 ?k \<le> x then ?k else ?k - 1)" by (simp add: binade_def q Let_def)
  show "pow2 (binade x) \<le> x" "x < pow2 (binade x + 1)" using lo hi by (auto simp: b)
qed

lemma binade_unique:
  assumes "pow2 k \<le> x" "x < pow2 (k + 1)"
  shows "binade x = k"
proof -
  have "0 < x" using assms(1) pow2_pos [of k] by linarith
  note b = binade_bounds [OF this]
  have "pow2 (binade x) < pow2 (k + 1)" "pow2 k < pow2 (binade x + 1)" using assms b by linarith+
  then show ?thesis by (simp add: pow2_less_iff)
qed

lemma round_even_le: "x \<le> of_int m \<Longrightarrow> round_even x \<le> m"
  unfolding round_even_def Let_def by (simp add: floor_le_iff le_floor_iff; linarith)

lemma round_even_ge: "of_int m \<le> x \<Longrightarrow> m \<le> round_even x"
  unfolding round_even_def Let_def by (simp add: le_floor_iff; linarith)

lemma round_even_of_int [simp]: "round_even (of_int m) = m"
  by (simp add: round_even_def)

lemma ulp_pos [simp]: "0 < ulp x"
  by (simp add: ulp_def)

lemma ulp_multiple: "max (binade \<bar>x\<bar> - 52) (- 1074) \<le> k \<Longrightarrow> \<exists>m. pow2 k = of_int m * ulp x \<and> 0 < m"
  using pow2_add [of "k - max (binade \<bar>x\<bar> - 52) (- 1074)" "max (binade \<bar>x\<bar> - 52) (- 1074)"]
  by (intro exI [of _ "2 ^ nat (k - max (binade \<bar>x\<bar> - 52) (- 1074))"]) (simp add: ulp_def)

lemma round_le_multiple:
  "0 < x \<Longrightarrow> x \<le> of_int m * ulp x \<Longrightarrow> round_f64 x \<le> of_int m * ulp x"
proof -
  assume "0 < x" "x \<le> of_int m * ulp x"
  then have "x / ulp x \<le> of_int m" by (simp add: pos_divide_le_eq)
  then have "round_even (x / ulp x) \<le> m" by (rule round_even_le)
  then show ?thesis using \<open>0 < x\<close> by (simp add: round_f64_def)
qed

lemma round_ge_multiple:
  "0 < x \<Longrightarrow> of_int m * ulp x \<le> x \<Longrightarrow> of_int m * ulp x \<le> round_f64 x"
proof -
  assume "0 < x" "of_int m * ulp x \<le> x"
  then have "of_int m \<le> x / ulp x" by (simp add: pos_le_divide_eq)
  then have "m \<le> round_even (x / ulp x)" by (rule round_even_ge)
  then show ?thesis using \<open>0 < x\<close> by (simp add: round_f64_def)
qed

lemma round_le_pow2:
  assumes "0 < x" "x \<le> pow2 k" "- 1074 \<le> k"
  shows "round_f64 x \<le> pow2 k"
proof -
  have "pow2 (binade x) < pow2 (k + 1)"
    using binade_bounds(1) [OF assms(1)] assms(2) pow2_less [of k "k + 1"] by linarith
  then have "max (binade \<bar>x\<bar> - 52) (- 1074) \<le> k" using assms(1,3) by (simp add: pow2_less_iff)
  then obtain m where "pow2 k = of_int m * ulp x" using ulp_multiple by blast
  with round_le_multiple [OF assms(1)] assms(2) show ?thesis by metis
qed

lemma round_ge_pow2:
  assumes "pow2 k \<le> x" "- 1074 \<le> k"
  shows "pow2 k \<le> round_f64 x"
proof -
  have x: "0 < x" using assms(1) pow2_pos [of k] by linarith
  have "pow2 k < pow2 (binade x + 1)" using assms(1) binade_bounds(2) [OF x] by linarith
  then have k: "k \<le> binade x" by (simp add: pow2_less_iff)
  then obtain m where "pow2 (binade x) = of_int m * ulp x"
    using ulp_multiple [of x "binade x"] x assms(2) by auto
  with round_ge_multiple [OF x] binade_bounds(1) [OF x] have "pow2 (binade x) \<le> round_f64 x" by metis
  then show ?thesis using pow2_mono [OF k] by linarith
qed

lemma round_nonneg: "0 \<le> x \<Longrightarrow> 0 \<le> round_f64 x"
  using round_even_ge [of 0 "x / ulp x"] less_imp_le [OF ulp_pos [of x]]
  by (simp add: round_f64_def)

text \<open>A rational of 53 binary digits is a double.\<close>

lemma round_exact:
  assumes "0 < c" "c < 2 ^ 53" "- 1074 \<le> e"
  shows "round_f64 (of_int c * pow2 e) = of_int c * pow2 e"
proof -
  let ?x = "of_int c * pow2 e"
  have x: "0 < ?x" using assms(1) by simp
  have "of_int c < (2 ^ 53 :: rat)" using assms(2) by (metis of_int_less_iff of_int_numeral of_int_power)
  then have "?x < pow2 (e + 53)" using pow2_add [of 53 e] by simp
  then have "pow2 (binade ?x) < pow2 (e + 53)" using binade_bounds(1) [OF x] by linarith
  then have "max (binade \<bar>?x\<bar> - 52) (- 1074) \<le> e" using x assms(3) by (simp add: pow2_less_iff)
  then obtain m where "pow2 e = of_int m * ulp ?x" using ulp_multiple by blast
  then have m: "?x = of_int (c * m) * ulp ?x" by simp
  show ?thesis
    using round_le_multiple [OF x, of "c * m"] round_ge_multiple [OF x, of "c * m"]
    unfolding m [symmetric] by simp
qed

text \<open>Rounding keeps the unit interval, and \<open>f64_of_rat\<close> of such a value is finite.\<close>

lemma round_unit: "0 \<le> x \<Longrightarrow> x \<le> 1 \<Longrightarrow> 0 \<le> round_f64 x \<and> round_f64 x \<le> 1"
  using round_nonneg [of x] round_le_pow2 [of x 0] by (cases "x = 0") (auto simp: pow2_def round_f64_def)

lemma f64_of_rat_nonneg:
  assumes "0 \<le> x" "round_f64 x < 2 ^ 1024"
  shows "f64_of_rat x = Finite (round_f64 x)"
  using assms round_nonneg [OF assms(1)] by (simp add: f64_of_rat_def Let_def)

lemma f64_of_rat_unit:
  assumes "0 \<le> x" "x \<le> 1"
  shows "f64_of_rat x = Finite (round_f64 x)"
proof -
  have "round_f64 x < 2 ^ 1024"
    using round_unit [OF assms] one_less_power [of "2 :: rat" 1024] by linarith
  then show ?thesis by (rule f64_of_rat_nonneg [OF assms(1)])
qed

text \<open>Integers below \<open>2 ^ 53\<close> are doubles.\<close>

lemma f64_of_small_int:
  assumes "0 \<le> i" "i < 2 ^ 53"
  shows "f64_of_rat (of_int i) = Finite (of_int i)"
proof -
  have r: "round_f64 (of_int i) = of_int i"
    using assms round_exact [of i 0] by (cases "i = 0") (simp_all add: round_f64_def pow2_def)
  have "i < 2 ^ 1024" using assms(2) power_strict_increasing [of 53 1024 "2 :: int"] by linarith
  then have "of_int i < (2 ^ 1024 :: rat)" by (metis of_int_less_iff of_int_numeral of_int_power)
  then show ?thesis using f64_of_rat_nonneg [of "of_int i"] assms(1) r by simp
qed

end
