(* ===== verification/Config.thy ===== *)
theory Config
  imports Feeder Strike_Provider Float64
begin

text \<open>
  The configuration, \<open>src/src/config.rs\<close>, and the storage options of \<open>src/src/sqlite.rs\<close> that its
  validation consults. Reading and parsing the TOML file, the url parser, the SQLx URL parser and
  \<open>form_urlencoded::parse\<close> are parameters. An error is the message of its \<open>bail!\<close> or \<open>context\<close>,
  without the values printed into it.
\<close>

type_synonym 'a fallible = "string + 'a"

section \<open>Durable storage\<close>

datatype sqlite_journal = Journal_default | Journal_wal
datatype sqlite_sync = Sync_default | Sync_full

text \<open>What \<open>SqliteConnectOptions\<close> carries here; \<open>so_filename\<close> is \<open>None\<close> when it is not UTF-8.\<close>

record sqlite_options =
  so_filename :: "string option"
  so_create_if_missing :: bool
  so_journal :: sqlite_journal
  so_sync :: sqlite_sync
  so_foreign_keys :: bool
  so_busy_timeout_seconds :: nat

record sqlite_codec =
  sx_parse :: "string \<Rightarrow> sqlite_options option"
  sx_query :: "string \<Rightarrow> (string \<times> string) list"

definition strip_prefix :: "string \<Rightarrow> string \<Rightarrow> string option" where
  "strip_prefix p s = (if take (length p) s = p then Some (drop (length p) s) else None)"

definition starts_with :: "string \<Rightarrow> string \<Rightarrow> bool" where
  "starts_with s p \<longleftrightarrow> take (length p) s = p"

text \<open>\<open>split_once('?')\<close>: what follows the first question mark.\<close>

fun after_question :: "string \<Rightarrow> string option" where
  "after_question [] = None"
| "after_question (c # cs) = (if c = CHR 0x3F then Some cs else after_question cs)"

definition storage_option_ok :: "string \<times> string \<Rightarrow> bool" where
  "storage_option_ok kv \<longleftrightarrow>
     (fst kv = ''mode'' \<and> snd kv \<in> {''rw'', ''rwc''})
     \<or> (fst kv = ''cache'' \<and> snd kv \<in> {''private'', ''shared''})
     \<or> (fst kv = ''immutable'' \<and> snd kv \<in> {''false'', ''0''})"

definition durable_options :: "sqlite_codec \<Rightarrow> string \<Rightarrow> sqlite_options fallible" where
  "durable_options codec database_url =
     andthen (ok_or ''SQLite database must use a file-backed sqlite:// URL''
       (strip_prefix ''sqlite://'' database_url)) (\<lambda>rest.
     if starts_with rest ''sqlite:'' then Inl ''SQLite database must not contain a repeated scheme''
     else andthen (ok_or ''invalid SQLite URL'' (sx_parse codec database_url)) (\<lambda>options.
     andthen (ok_or ''SQLite database filename must be UTF-8'' (so_filename options)) (\<lambda>filename.
     if filename = [] \<or> filename = '':memory:'' \<or> starts_with filename ''file:''
     then Inl ''SQLite database must use a nonempty filesystem path, not memory or a native file: URI''
     else if (case after_question rest of None \<Rightarrow> False
              | Some query \<Rightarrow> \<not> list_all storage_option_ok (sx_query codec query))
     then Inl ''SQLite database URL has an unsupported storage option''
     else Inr (options\<lparr>so_create_if_missing := True, so_journal := Journal_wal, so_sync := Sync_full,
       so_foreign_keys := True, so_busy_timeout_seconds := 5\<rparr>))))"

text \<open>\<open>verify_connection\<close> on the rows of its four queries: the (name, file) pairs of
  \<open>database_list\<close>, the journal mode, \<open>synchronous\<close> and \<open>foreign_keys\<close>.\<close>

definition verify_connection :: "(string \<times> string) list \<Rightarrow> string \<Rightarrow> i64 \<Rightarrow> i64 \<Rightarrow> unit fallible" where
  "verify_connection databases journal synchronous foreign_keys =
     (let file_backed = list_ex (\<lambda>(name, path). name = ''main'' \<and> path \<noteq> []) databases in
      if \<not> file_backed \<or> journal \<noteq> ''wal'' \<or> synchronous \<noteq> 2 \<or> foreign_keys \<noteq> 1
      then Inl ''SQLite database must be file-backed with effective WAL, FULL synchronous and foreign keys enabled''
      else Inr ())"

section \<open>The configuration\<close>

record service_config =
  sv_listen_ip :: ip_addr
  sv_mode :: runtime_mode

record lnurl_config =
  ln_public_base_url :: string
  ln_invoice_expiry_seconds :: u64

record lightning_address_config =
  la_user :: string
  la_display_name :: string
  la_description :: string
  la_credit_pool :: string
  la_min_sendable_msat :: u64
  la_max_sendable_msat :: u64

record feeder_config =
  fc_threshold_sats :: u64
  fc_inter_feed_delay_seconds :: u64

record informational_config =
  ic_interval_seconds :: u64
  ic_interface_info_enabled :: bool
  ic_weather_enabled :: bool
  ic_interface_info_probability :: f64
  ic_weather_probability :: f64

record nostr_config =
  nc_nak_path :: string
  nc_nak_config_path :: string
  nc_bunker_pubkey :: string
  nc_relays :: "string list"

record app_config =
  ac_service :: service_config
  ac_database_url :: string
  ac_strike_api_url :: string
  ac_lnurl :: lnurl_config
  ac_lightning_address :: "lightning_address_config list"
  ac_feeder :: feeder_config
  ac_gateway_url :: string
  ac_informational :: informational_config
  ac_nostr :: nostr_config

definition mode_str :: "runtime_mode \<Rightarrow> string" where
  "mode_str m = (case m of Shadow \<Rightarrow> ''shadow'' | Canary \<Rightarrow> ''canary'' | Active \<Rightarrow> ''active'')"

definition nostr_enabled :: "runtime_mode \<Rightarrow> bool" where
  "nostr_enabled m \<longleftrightarrow> m = Active"

section \<open>Validation\<close>

definition REQUIRED_PHASE1_LIGHTNING_USERS :: "string list" where
  "REQUIRED_PHASE1_LIGHTNING_USERS = [''herd'', ''dexter'', ''rowan'', ''cosmo'', ''newton'', ''nova'']"

definition domain_user :: "string \<Rightarrow> string \<Rightarrow> unit fallible" where
  "domain_user context user = map_err (\<lambda>_. context) (lightning_address_user user)"

text \<open>The checks of one configured address after its user is known to be new.\<close>

definition check_address :: "lightning_address_config \<Rightarrow> unit fallible" where
  "check_address a =
     (if trim (la_display_name a) = [] \<or> 80 < length (la_display_name a)
      then Inl ''Lightning Address display_name must contain 1 to 80 characters''
      else if trim (la_description a) = [] \<or> 250 < length (la_description a)
      then Inl ''Lightning Address description must contain 1 to 250 characters''
      else andthen (domain_user ''invalid Lightning Address credit_pool'' (la_credit_pool a)) (\<lambda>_.
      if la_credit_pool a \<noteq> ''herd'' then Inl ''Phase 1 Lightning Address must credit the herd pool''
      else if la_min_sendable_msat a = 0 \<or> la_max_sendable_msat a < la_min_sendable_msat a
      then Inl ''Lightning Address has an invalid min/max sendable range''
      else Inr ()))"

text \<open>The loop over the addresses, with the users seen so far.\<close>

fun check_addresses :: "string list \<Rightarrow> lightning_address_config list \<Rightarrow> string list fallible" where
  "check_addresses users [] = Inr users"
| "check_addresses users (a # rest) =
     andthen (domain_user ''invalid Lightning Address user'' (la_user a)) (\<lambda>_.
     if la_user a \<in> set users then Inl ''duplicate Lightning Address user''
     else andthen (check_address a) (\<lambda>_. check_addresses (la_user a # users) rest))"

definition validate_lnurl :: "(string \<Rightarrow> url option) \<Rightarrow> app_config \<Rightarrow> unit fallible" where
  "validate_lnurl parse_url c =
     (let expiry = ln_invoice_expiry_seconds (ac_lnurl c) in
      if expiry = 0 \<or> 86400 < expiry
      then Inl ''lnurl.invoice_expiry_seconds must be between 1 and 86400 seconds''
      else andthen (ok_or ''invalid lnurl.public_base_url''
        (parse_url (ln_public_base_url (ac_lnurl c)))) (\<lambda>u.
      if url_scheme u \<noteq> ''https'' \<or> url_host u = None
      then Inl ''lnurl.public_base_url must use https:// with a host''
      else if url_username u \<noteq> [] \<or> url_password u \<noteq> None \<or> url_query u \<noteq> None
        \<or> url_fragment u \<noteq> None \<or> url_path u \<noteq> ''/''
      then Inl ''lnurl.public_base_url must be a root HTTPS origin without credentials, query, fragment, or path''
      else if ac_lightning_address c = [] then Inl ''Phase 1 requires configured Lightning Addresses''
      else andthen (check_addresses [] (ac_lightning_address c)) (\<lambda>users.
      if list_all (\<lambda>required. required \<in> set users) REQUIRED_PHASE1_LIGHTNING_USERS then Inr ()
      else Inl ''Phase 1 Lightning Address registry is missing required user'')))"

text \<open>\<open>is_finite\<close> and membership of \<open>0.0..=1.0\<close>.\<close>

definition is_probability :: "f64 \<Rightarrow> bool" where
  "is_probability p \<longleftrightarrow> f64_within 0 1 p"

text \<open>\<open>a + b > 1.0\<close>.\<close>

definition sum_exceeds_one :: "f64 \<Rightarrow> f64 \<Rightarrow> bool" where
  "sum_exceeds_one a b \<longleftrightarrow> f64_less (Finite 1) (f64_op (+) a b)"

lemma sum_within_one:
  "0 \<le> x \<Longrightarrow> 0 \<le> y \<Longrightarrow> x + y \<le> 1 \<Longrightarrow> \<not> sum_exceeds_one (Finite x) (Finite y)"
  using round_unit [of "x + y"]
  by (simp add: sum_exceeds_one_def f64_less_def f64_op_def f64_value_def f64_of_rat_unit)

definition validate_informational :: "informational_config \<Rightarrow> unit fallible" where
  "validate_informational c =
     (if \<not> (10 \<le> ic_interval_seconds c \<and> ic_interval_seconds c \<le> 3600)
      then Inl ''informational.interval_seconds must be between 10 and 3600''
      else if \<not> is_probability (ic_interface_info_probability c)
      then Inl ''informational.interface_info_probability must be a finite probability between 0 and 1''
      else if \<not> is_probability (ic_weather_probability c)
      then Inl ''informational.weather_probability must be a finite probability between 0 and 1''
      else if sum_exceeds_one (ic_interface_info_probability c) (ic_weather_probability c)
      then Inl ''informational interface + weather unconditional probabilities must not exceed 1''
      else Inr ())"

text \<open>\<open>Path::is_absolute\<close> on Unix.\<close>

definition is_absolute :: "string \<Rightarrow> bool" where
  "is_absolute p \<longleftrightarrow> starts_with p ''/''"

fun check_relays :: "(string \<Rightarrow> url option) \<Rightarrow> string list \<Rightarrow> unit fallible" where
  "check_relays parse_url [] = Inr ()"
| "check_relays parse_url (r # rs) =
     andthen (ok_or ''invalid Nostr relay URL'' (parse_url r)) (\<lambda>u.
     if url_scheme u \<noteq> ''wss'' \<or> url_host u = None
     then Inl ''Nostr relay URLs must use wss:// with a host''
     else check_relays parse_url rs)"

definition validate_nostr :: "(string \<Rightarrow> url option) \<Rightarrow> nostr_config \<Rightarrow> unit fallible" where
  "validate_nostr parse_url c =
     (if \<not> is_absolute (nc_nak_path c) then Inl ''nostr.nak_path must be an absolute path''
      else if \<not> is_absolute (nc_nak_config_path c)
      then Inl ''nostr.nak_config_path must be an absolute path''
      else if length (nc_bunker_pubkey c) \<noteq> 64 \<or> \<not> list_all is_ascii_hexdigit (nc_bunker_pubkey c)
      then Inl ''nostr.bunker_pubkey must be a 32-byte hex public key''
      else if nc_relays c = [] then Inl ''nostr.relays must contain at least one relay''
      else check_relays parse_url (nc_relays c))"

definition validate_gateway_origin :: "(string \<Rightarrow> url option) \<Rightarrow> string \<Rightarrow> unit fallible" where
  "validate_gateway_origin parse_url raw =
     andthen (ok_or ''invalid gateway.url'' (parse_url raw)) (\<lambda>u.
     if url_username u \<noteq> [] \<or> url_password u \<noteq> None
     then Inl ''gateway.url must not contain credentials''
     else if url_query u \<noteq> None \<or> url_fragment u \<noteq> None \<or> url_path u \<noteq> ''/''
     then Inl ''gateway.url must be a root origin without query, fragment, or path''
     else andthen (ok_or ''gateway.url is missing a host'' (url_host u)) (\<lambda>host.
     if url_scheme u = ''https'' then Inr ()
     else if url_scheme u = ''http'' then
       (if eq_ignore_ascii_case host ''localhost'' then Inr ()
        else andthen (ok_or ''plain HTTP gateway.url must use a literal private/loopback IP''
          (ip_from_str host)) (\<lambda>ip.
        if is_loopback ip \<or> is_private_ip ip then Inr ()
        else Inl ''plain HTTP gateway.url must use a private/loopback address''))
     else Inl ''unsupported gateway.url scheme''))"

definition config_validate ::
  "(string \<Rightarrow> url option) \<Rightarrow> sqlite_codec \<Rightarrow> app_config \<Rightarrow> unit fallible" where
  "config_validate parse_url sqlite c =
     (if \<not> is_loopback (sv_listen_ip (ac_service c))
      then Inl ''service.listen must use a loopback address; nginx is the public boundary''
      else andthen (map_err (\<lambda>_. ''invalid database.url'') (durable_options sqlite (ac_database_url c))) (\<lambda>_.
      andthen (ok_or ''invalid strike.api_url'' (parse_url (ac_strike_api_url c))) (\<lambda>u.
      if url_scheme u \<noteq> ''https'' \<or> url_host u = None
      then Inl ''strike.api_url must use https:// with a host''
      else if url_username u \<noteq> [] \<or> url_password u \<noteq> None \<or> url_query u \<noteq> None
        \<or> url_fragment u \<noteq> None
      then Inl ''strike.api_url must not contain credentials, query, or fragment''
      else andthen (validate_lnurl parse_url c) (\<lambda>_.
      if fc_threshold_sats (ac_feeder c) = 0 then Inl ''feeder.threshold_sats must be greater than zero''
      else if fc_inter_feed_delay_seconds (ac_feeder c) = 0
      then Inl ''feeder.inter_feed_delay_seconds must be greater than zero''
      else andthen (validate_gateway_origin parse_url (ac_gateway_url c)) (\<lambda>_.
      andthen (validate_informational (ac_informational c)) (\<lambda>_.
      validate_nostr parse_url (ac_nostr c)))))))"

text \<open>\<open>AppConfig::load\<close>; \<open>read\<close> is the file system, \<open>parse\<close> the TOML deserializer.\<close>

definition config_load ::
  "(string \<Rightarrow> string option) \<Rightarrow> (string \<Rightarrow> app_config option) \<Rightarrow> (string \<Rightarrow> url option) \<Rightarrow> sqlite_codec
     \<Rightarrow> string \<Rightarrow> app_config fallible" where
  "config_load read parse parse_url sqlite path =
     andthen (ok_or ''failed reading config'' (read path)) (\<lambda>raw.
     andthen (ok_or ''failed parsing config'' (parse raw)) (\<lambda>c.
     andthen (config_validate parse_url sqlite c) (\<lambda>_. Inr c)))"

text \<open>\<open>read_systemd_credential\<close> of \<open>src/src/secrets.rs\<close>: the directory is the value of
  \<open>CREDENTIALS_DIRECTORY\<close>, \<open>read_file\<close> reads a file of it.\<close>

definition read_systemd_credential ::
  "string option \<Rightarrow> (string \<Rightarrow> string \<Rightarrow> string option) \<Rightarrow> string \<Rightarrow> string fallible" where
  "read_systemd_credential credentials_directory read_file name =
     (if name = [] \<or> \<not> list_all (\<lambda>c. is_ascii_alphanumeric c \<or> c = CHR ''-'' \<or> c = CHR ''_'') name
      then Inl ''invalid systemd credential name''
      else andthen (ok_or ''CREDENTIALS_DIRECTORY is not set; service credentials are unavailable''
        credentials_directory) (\<lambda>directory.
      andthen (ok_or ''failed reading systemd credential'' (read_file directory name)) (\<lambda>text_read.
      let v = trim text_read in
      if v = [] then Inl ''systemd credential is empty'' else Inr v)))"

section \<open>Lemmas\<close>

lemma check_addresses_Inr:
  "check_addresses users as = Inr users' \<longleftrightarrow>
     users' = rev (map la_user as) @ users \<and> distinct (map la_user as)
     \<and> set (map la_user as) \<inter> set users = {}
     \<and> (\<forall>a \<in> set as. lightning_address_user (la_user a) = Inr () \<and> check_address a = Inr ())"
  by (induction as arbitrary: users)
    (auto simp: andthen_eq_Inr guard_Inr domain_user_def)

lemma check_address_Inr:
  "check_address a = Inr () \<longleftrightarrow>
     trim (la_display_name a) \<noteq> [] \<and> length (la_display_name a) \<le> 80
     \<and> trim (la_description a) \<noteq> [] \<and> length (la_description a) \<le> 250
     \<and> lightning_address_user (la_credit_pool a) = Inr () \<and> la_credit_pool a = ''herd''
     \<and> la_min_sendable_msat a \<noteq> 0 \<and> la_min_sendable_msat a \<le> la_max_sendable_msat a"
  by (auto simp: check_address_def andthen_eq_Inr guard_Inr domain_user_def not_less)

lemma config_validate_Inr:
  assumes "config_validate parse_url sqlite c = Inr ()"
  obtains u g where "parse_url (ac_strike_api_url c) = Some u" "url_scheme u = ''https''"
    "url_host u \<noteq> None" "url_username u = []" "url_password u = None" "url_query u = None"
    "url_fragment u = None"
    "validate_lnurl parse_url c = Inr ()"
    "parse_url (ac_gateway_url c) = Some g" "validate_gateway_origin parse_url (ac_gateway_url c) = Inr ()"
    "fc_threshold_sats (ac_feeder c) \<noteq> 0" "fc_inter_feed_delay_seconds (ac_feeder c) \<noteq> 0"
    "validate_nostr parse_url (ac_nostr c) = Inr ()" "is_loopback (sv_listen_ip (ac_service c))"
  using assms
  by (auto simp: config_validate_def andthen_eq_Inr guard_Inr validate_gateway_origin_def)

lemma validate_lnurl_Inr:
  assumes "validate_lnurl parse_url c = Inr ()"
  obtains u host where "parse_url (ln_public_base_url (ac_lnurl c)) = Some u" "url_host u = Some host"
    "url_scheme u = ''https''" "url_path u = ''/''"
    "ln_invoice_expiry_seconds (ac_lnurl c) \<noteq> 0" "ln_invoice_expiry_seconds (ac_lnurl c) \<le> 86400"
    "distinct (map la_user (ac_lightning_address c))"
    "\<forall>a \<in> set (ac_lightning_address c). lightning_address_user (la_user a) = Inr () \<and> check_address a = Inr ()"
    "set REQUIRED_PHASE1_LIGHTNING_USERS \<subseteq> set (map la_user (ac_lightning_address c))"
  using assms
  by (auto simp: validate_lnurl_def Let_def andthen_eq_Inr guard_Inr check_addresses_Inr list_all_iff
      not_less subset_iff split: if_splits)

end
