(* ===== verification/Lnurl.thy ===== *)
theory Lnurl
  imports Config Strike_Properties "HOL-Library.List_Lexorder" "HOL-Library.Char_ord"
begin

text \<open>
  The LNURL-pay service, \<open>src/src/lnurl.rs\<close>: the registry of Lightning Addresses built at start-up,
  discovery, and the callback that issues an invoice through Strike. serde_json, SHA-256 with its hex
  encoding and the url crate are fields of an \<open>lnurl_codec\<close>. The hash map of addresses is an
  association list with distinct keys.
\<close>

record lnurl_codec =
  lc_parse_url :: "string \<Rightarrow> url option"
  lc_join :: "url \<Rightarrow> string \<Rightarrow> url option"
  lc_url_text :: "url \<Rightarrow> string"
  lc_print_json :: "json \<Rightarrow> string"
  lc_sha256_hex :: "string \<Rightarrow> string"

record registered_address =
  ra_user :: string
  ra_display_name :: string
  ra_credit_pool :: string
  ra_min_sendable_msat :: u64
  ra_max_sendable_msat :: u64
  ra_metadata :: string
  ra_description_hash :: string

record lnurl_service =
  ls_public_base_url :: url
  ls_invoice_expiry_seconds :: u64
  ls_addresses :: "(string \<times> registered_address) list"

datatype lnurl_error =
    UnknownUser
  | InvalidAmount string
  | Lnurl_busy
  | Lnurl_provider strike_error

definition is_unknown_user :: "lnurl_error \<Rightarrow> bool" where
  "is_unknown_user e \<longleftrightarrow> e = UnknownUser"

definition public_reason :: "lnurl_error \<Rightarrow> string" where
  "public_reason e = (case e of
      UnknownUser \<Rightarrow> ''Unknown Lightning Address''
    | InvalidAmount reason \<Rightarrow> reason
    | Lnurl_provider _ \<Rightarrow> ''Unable to create Lightning invoice''
    | Lnurl_busy \<Rightarrow> ''Invoice service is busy; retry later'')"

record lnurl_pay_request =
  lp_callback :: string
  lp_max_sendable :: u64
  lp_min_sendable :: u64
  lp_metadata :: string

section \<open>Start-up\<close>

definition metadata_json :: "string \<Rightarrow> string \<Rightarrow> json" where
  "metadata_json description identifier = JArr
     [JArr [JStr ''text/plain'', JStr description], JArr [JStr ''text/identifier'', JStr identifier]]"

definition registered ::
  "lnurl_codec \<Rightarrow> string \<Rightarrow> lightning_address_config \<Rightarrow> registered_address" where
  "registered codec host a =
     (let metadata = lc_print_json codec
        (metadata_json (la_description a) (la_user a @ ''@'' @ host)) in
      \<lparr>ra_user = la_user a, ra_display_name = la_display_name a, ra_credit_pool = la_credit_pool a,
       ra_min_sendable_msat = la_min_sendable_msat a, ra_max_sendable_msat = la_max_sendable_msat a,
       ra_metadata = metadata, ra_description_hash = lc_sha256_hex codec metadata\<rparr>)"

fun register_addresses ::
  "lnurl_codec \<Rightarrow> string \<Rightarrow> (string \<times> registered_address) list \<Rightarrow> lightning_address_config list
     \<Rightarrow> (string \<times> registered_address) list fallible" where
  "register_addresses codec host addresses [] = Inr addresses"
| "register_addresses codec host addresses (a # rest) =
     andthen (domain_user ''invalid configured Lightning Address user'' (la_user a)) (\<lambda>_.
     if la_credit_pool a \<noteq> ''herd'' then Inl ''Phase 1 Lightning Address must use herd credit pool''
     else if map_of addresses (la_user a) \<noteq> None then Inl ''duplicate Lightning Address user''
     else register_addresses codec host (addresses @ [(la_user a, registered codec host a)]) rest)"

definition lnurl_service_new ::
  "lnurl_codec \<Rightarrow> lnurl_config \<Rightarrow> lightning_address_config list \<Rightarrow> lnurl_service fallible" where
  "lnurl_service_new codec c configured =
     andthen (ok_or ''invalid LNURL public base URL'' (lc_parse_url codec (ln_public_base_url c))) (\<lambda>u.
     andthen (ok_or ''LNURL public base URL has no host'' (url_host u)) (\<lambda>host.
     andthen (register_addresses codec host [] configured) (\<lambda>addresses.
     Inr \<lparr>ls_public_base_url = u, ls_invoice_expiry_seconds = ln_invoice_expiry_seconds c,
          ls_addresses = addresses\<rparr>)))"

section \<open>Operations\<close>

definition lookup_address :: "lnurl_service \<Rightarrow> string \<Rightarrow> lnurl_error + registered_address" where
  "lookup_address s user =
     (if lightning_address_user user \<noteq> Inr () then Inl UnknownUser
      else ok_or UnknownUser (map_of (ls_addresses s) user))"

definition discovery :: "lnurl_codec \<Rightarrow> lnurl_service \<Rightarrow> string \<Rightarrow> lnurl_error + lnurl_pay_request" where
  "discovery codec s user =
     andthen (lookup_address s user) (\<lambda>a.
     andthen (ok_or (Lnurl_provider (Bail ''relative URL''))
       (lc_join codec (ls_public_base_url s) (''lnurlp/'' @ ra_user a @ ''/callback''))) (\<lambda>u.
     Inr \<lparr>lp_callback = lc_url_text codec u, lp_max_sendable = ra_max_sendable_msat a,
          lp_min_sendable = ra_min_sendable_msat a, lp_metadata = ra_metadata a\<rparr>))"

text \<open>The response carries the invoice, \<open>pr\<close>; its routes are always empty.\<close>

definition lnurl_invoice ::
  "strike_world \<Rightarrow> issue_env \<Rightarrow> lnurl_service \<Rightarrow> string \<Rightarrow> u64 \<Rightarrow> ledger_db
     \<Rightarrow> (lnurl_error + string) \<times> ledger_db" where
  "lnurl_invoice w env s user amount_msat db =
     (case lookup_address s user of
        Inl e \<Rightarrow> (Inl e, db)
      | Inr a \<Rightarrow>
          if amount_msat < ra_min_sendable_msat a
          then (Inl (InvalidAmount ''Amount is below the minimum''), db)
          else if ra_max_sendable_msat a < amount_msat
          then (Inl (InvalidAmount ''Amount exceeds the maximum''), db)
          else if amount_msat mod 1000 \<noteq> 0
          then (Inl (InvalidAmount ''Amount must be a whole number of satoshis''), db)
          else case create_and_record_receive_request w env (ra_user a) (ra_credit_pool a) amount_msat
                 (ra_description_hash a) (ls_invoice_expiry_seconds s) db of
            (Inr created, db') \<Rightarrow> (Inr (cr_invoice created), db')
          | (Inl e, db') \<Rightarrow>
              (Inl (if e = InvoiceCapacity then Lnurl_busy else Lnurl_provider e), db'))"

definition configured_users :: "lnurl_service \<Rightarrow> string list" where
  "configured_users s = sort (map fst (ls_addresses s))"

definition address_display_name :: "lnurl_service \<Rightarrow> string \<Rightarrow> string option" where
  "address_display_name s user = map_option ra_display_name (map_of (ls_addresses s) user)"

section \<open>The registry\<close>

lemma register_addresses_Inr:
  "register_addresses codec host addresses as = Inr addresses' \<longleftrightarrow>
     addresses' = addresses @ map (\<lambda>a. (la_user a, registered codec host a)) as
     \<and> distinct (map la_user as) \<and> set (map la_user as) \<inter> fst ` set addresses = {}
     \<and> (\<forall>a \<in> set as. lightning_address_user (la_user a) = Inr () \<and> la_credit_pool a = ''herd'')"
proof (induction as arbitrary: addresses)
  case (Cons a as)
  show ?case
    unfolding register_addresses.simps andthen_eq_Inr guard_Inr Cons
    by (auto simp: domain_user_def map_of_eq_None_iff)
qed auto

lemma service_new_Inr:
  assumes "lnurl_service_new codec c configured = Inr s"
  shows "distinct (map fst (ls_addresses s))" "map fst (ls_addresses s) = map la_user configured"
    "ls_invoice_expiry_seconds s = ln_invoice_expiry_seconds c"
    "\<exists>host. ls_addresses s = map (\<lambda>a. (la_user a, registered codec host a)) configured"
    "\<forall>a \<in> set configured. la_credit_pool a = ''herd''"
  using assms by (auto simp: lnurl_service_new_def andthen_eq_Inr register_addresses_Inr o_def)

lemma service_lookup:
  assumes "lnurl_service_new codec c configured = Inr s" "lookup_address s user = Inr a"
  obtains cfg host where "cfg \<in> set configured" "la_user cfg = user" "a = registered codec host cfg"
    "la_credit_pool cfg = ''herd''"
  using assms service_new_Inr [OF assms(1)]
  by (auto simp: lookup_address_def split: if_splits dest!: map_of_SomeD)

end
