(* ===== verification/Http_Api.thy ===== *)
theory Http_Api
  imports Lnurl
begin

text \<open>
  The public HTTP handlers of \<open>src/src/main.rs\<close>: the Strike webhook, LNURL discovery and callback, the
  status report, and the admission layer around them. axum's routing, extractors and body limit come
  before a handler runs. A reply is a status with the JSON of its body, if any. A header is looked up
  as \<open>headers.get(..).and_then(|v| v.to_str().ok())\<close>.
\<close>

type_synonym http_reply = "nat \<times> json option"
type_synonym http_headers = "string \<Rightarrow> string option"

section \<open>LNURL\<close>

definition lnurl_error_reply :: "nat \<Rightarrow> string \<Rightarrow> http_reply" where
  "lnurl_error_reply status reason =
     (status, Some (JObj [(''status'', JStr ''ERROR''), (''reason'', JStr reason)]))"

definition pay_request_json :: "lnurl_pay_request \<Rightarrow> json" where
  "pay_request_json r = JObj
     [(''callback'', JStr (lp_callback r)), (''maxSendable'', JU64 (lp_max_sendable r)),
      (''minSendable'', JU64 (lp_min_sendable r)), (''metadata'', JStr (lp_metadata r)),
      (''tag'', JStr ''payRequest'')]"

definition pay_callback_json :: "string \<Rightarrow> json" where
  "pay_callback_json invoice = JObj [(''pr'', JStr invoice), (''routes'', JArr [])]"

definition lnurl_discovery :: "lnurl_codec \<Rightarrow> lnurl_service \<Rightarrow> string \<Rightarrow> http_reply" where
  "lnurl_discovery codec s user =
     (case discovery codec s user of
        Inr response \<Rightarrow> (200, Some (pay_request_json response))
      | Inl e \<Rightarrow> if is_unknown_user e then lnurl_error_reply 404 (public_reason e)
          else lnurl_error_reply 500 (public_reason e))"

definition lnurl_callback ::
  "strike_world \<Rightarrow> issue_env \<Rightarrow> lnurl_service \<Rightarrow> string \<Rightarrow> string option \<Rightarrow> ledger_db
     \<Rightarrow> http_reply \<times> ledger_db" where
  "lnurl_callback w env s user amount db =
     (case amount of
        None \<Rightarrow> (lnurl_error_reply 200 ''Missing amount'', db)
      | Some raw_amount \<Rightarrow>
          (case parse_u64 raw_amount of
             None \<Rightarrow> (lnurl_error_reply 200 ''Invalid amount'', db)
           | Some amount_msat \<Rightarrow>
               (case lnurl_invoice w env s user amount_msat db of
                  (Inr invoice, db') \<Rightarrow> ((200, Some (pay_callback_json invoice)), db')
                | (Inl UnknownUser, db') \<Rightarrow> (lnurl_error_reply 404 ''Unknown Lightning Address'', db')
                | (Inl (InvalidAmount reason), db') \<Rightarrow> (lnurl_error_reply 200 reason, db')
                | (Inl Lnurl_busy, db') \<Rightarrow>
                    (lnurl_error_reply 429 ''Invoice service is busy; retry later'', db')
                | (Inl (Lnurl_provider e), db') \<Rightarrow>
                    (lnurl_error_reply 502 (public_reason (Lnurl_provider e)), db'))))"

section \<open>The Strike webhook\<close>

definition MAX_STRIKE_WEBHOOK_BODY :: nat where
  "MAX_STRIKE_WEBHOOK_BODY = 32 * 1024"

definition is_json_content :: "string \<Rightarrow> bool" where
  "is_json_content v \<longleftrightarrow>
     eq_ignore_ascii_case (trim (takeWhile (\<lambda>c. c \<noteq> CHR 0x3B) v)) ''application/json''"

definition strike_webhook ::
  "strike_codec \<Rightarrow> string \<Rightarrow> i64 \<Rightarrow> http_headers \<Rightarrow> string \<Rightarrow> ledger_db \<Rightarrow> nat \<times> ledger_db" where
  "strike_webhook codec secret now headers body db =
     (if (case headers ''content-type'' of None \<Rightarrow> True | Some v \<Rightarrow> \<not> is_json_content v) then (415, db)
      else if MAX_STRIKE_WEBHOOK_BODY < length body then (413, db)
      else case headers ''x-webhook-signature'' of
        None \<Rightarrow> (401, db)
      | Some signature \<Rightarrow>
          (case verify_signature codec secret body signature of
             Inl _ \<Rightarrow> (401, db)
           | Inr _ \<Rightarrow>
               (case parse_completed_event codec body of
                  Inl _ \<Rightarrow> (400, db)
                | Inr event \<Rightarrow>
                    (case enqueue_strike_event now event db of
                       Inr (_, db') \<Rightarrow> (204, db')
                     | Inl _ \<Rightarrow> (503, db)))))"

section \<open>Status\<close>

definition healthz_reply :: json where
  "healthz_reply = JObj [(''status'', JStr ''ok'')]"

definition json_bool_option :: "bool option \<Rightarrow> json" where
  "json_bool_option b = (case b of None \<Rightarrow> JNull | Some x \<Rightarrow> JBool x)"

text \<open>
  \<open>safety\<close> is the answer of the gateway client and \<open>temperature\<close> the JSON of the temperature the
  gateway reported, null when it reported none. The division by a zero threshold would panic
  (\<open>None\<close>); the configuration refuses a zero threshold.
\<close>

definition status_report ::
  "app_config \<Rightarrow> lnurl_service \<Rightarrow> bool \<Rightarrow> gateway_error + feeder_safety \<Rightarrow> json \<Rightarrow> ledger_db
     \<Rightarrow> (nat + json) option" where
  "status_report c lnurl slot_free safety temperature db =
     (if \<not> slot_free then Some (Inl 503)
      else case feed_credit_sats db of
        Inl _ \<Rightarrow> Some (Inl 500)
      | Inr credit \<Rightarrow>
          (case unresolved_feed_attempt db of
             Inl _ \<Rightarrow> Some (Inl 500)
           | Inr attempt \<Rightarrow>
               let threshold_sats = fc_threshold_sats (ac_feeder c);
                   (gateway_reachable, override_active, remote_enabled_now) =
                     (case safety of
                        Inr s \<Rightarrow> (True, Some (override_enabled s), Some (remote_enabled s))
                      | Inl _ \<Rightarrow> (False, None, None))
               in if threshold_sats = 0 then None
               else Some (Inr (JObj
                 [(''mode'', JStr (mode_str (sv_mode (ac_service c)))),
                  (''payment_backend'', JStr ''strike''),
                  (''lightning_address_users'', JArr (map JStr (configured_users lnurl))),
                  (''gateway_reachable'', JBool gateway_reachable),
                  (''feed_credit_sats'', JU64 credit),
                  (''threshold_sats'', JU64 threshold_sats),
                  (''feeds_due'', JU64 (credit div threshold_sats)),
                  (''remainder_sats'', JU64 (credit mod threshold_sats)),
                  (''unresolved_feed_attempt'', JOptStr (map_option sfa_id attempt)),
                  (''feeder_override_active'', json_bool_option override_active),
                  (''remote_feeding_enabled'', json_bool_option remote_enabled_now),
                  (''temperature_f'', temperature)]))))"

section \<open>Admission and start-up\<close>

text \<open>\<open>inner\<close> is the handler's reply if it came within 30 seconds.\<close>

definition bounded_http :: "string \<Rightarrow> bool \<Rightarrow> http_reply option \<Rightarrow> http_reply" where
  "bounded_http path slot_free inner =
     (let is_lnurl = starts_with path ''/.well-known/lnurlp/'' \<or> starts_with path ''/lnurlp/'';
          rejection = (\<lambda>status. if is_lnurl
            then lnurl_error_reply status ''Invoice service is busy; retry later''
            else (status, None))
      in if \<not> slot_free then rejection 503
         else case inner of Some reply \<Rightarrow> reply | None \<Rightarrow> rejection 408)"

text \<open>\<open>task_exit\<close>: a worker task never ends without an error; \<open>None\<close> is a failed join.\<close>

definition task_exit :: "string \<Rightarrow> unit fallible option \<Rightarrow> unit fallible" where
  "task_exit name result =
     (case result of
        Some (Inr _) \<Rightarrow> Inl (name @ '' exited unexpectedly'')
      | Some (Inl e) \<Rightarrow> Inl (name @ '' failed: '' @ e)
      | None \<Rightarrow> Inl (name @ '' task failed''))"

end
