(* ===== verification/Http_Properties.thy ===== *)
theory Http_Properties
  imports Http_Api
begin

text \<open>
  What the public interface promises: the webhook acknowledges only what is durably in the inbox, the
  LNURL callback hands out only invoices that a configured address allows and that carry the hash of
  the published metadata, and a validated configuration starts.
\<close>

section \<open>The webhook\<close>

lemma find_update_where:
  assumes "\<And>r. q (f r) = q r"
  shows "find q (update_where p f rs) = map_option (\<lambda>r. if p r then f r else r) (find q rs)"
  by (induction rs) (simp_all add: update_where_Cons assms update_where_def)

text \<open>A notification in the inbox under its key.\<close>

definition notified :: "strike_completed_receive_event \<Rightarrow> ledger_db \<Rightarrow> bool" where
  "notified event db \<longleftrightarrow>
     (\<exists>r. find (\<lambda>r. in_work_key r = ''webhook:'' @ sce_event_id event) (strike_inbox db) = Some r
        \<and> in_receive_request_id r = sce_receive_request_id event \<and> in_receive_id r = sce_receive_id event)"

lemma notified_enqueued: "enqueue_strike_event now event db = Inr (u, db') \<Longrightarrow> notified event db'"
  by (auto simp: enqueue_strike_event_def enqueue_strike_work_def notified_def find_append
      split: option.splits if_splits)

lemma notified_again: "notified event db \<Longrightarrow> enqueue_strike_event now event db = Inr ((), db)"
  by (auto simp: enqueue_strike_event_def enqueue_strike_work_def notified_def)

lemma notified_step: "inbox_step db db' \<Longrightarrow> notified event db \<Longrightarrow> notified event db'"
proof (induction rule: inbox_step.induct)
  case (enqueue now key e db db')
  then show ?case
    by (auto simp: enqueue_strike_work_def notified_def find_append split: option.splits if_splits)
next
  case (finish now key db db')
  then show ?case by (auto simp: finish_strike_work_def notified_def find_update_where)
next
  case (retry r db attempts now db')
  then show ?case by (auto simp: retry_strike_work_def Let_def notified_def find_update_where)
qed

lemma notified_steps: "inbox_step\<^sup>*\<^sup>* db db' \<Longrightarrow> notified event db \<Longrightarrow> notified event db'"
  by (induction rule: rtranclp_induct) (auto intro: notified_step)

text \<open>The checks a delivery passes before it is acknowledged.\<close>

definition accepted_event ::
  "strike_codec \<Rightarrow> string \<Rightarrow> http_headers \<Rightarrow> string \<Rightarrow> strike_completed_receive_event \<Rightarrow> bool" where
  "accepted_event codec secret headers body event \<longleftrightarrow>
     (\<exists>v. headers ''content-type'' = Some v \<and> is_json_content v)
     \<and> length body \<le> MAX_STRIKE_WEBHOOK_BODY
     \<and> (\<exists>signature. headers ''x-webhook-signature'' = Some signature
          \<and> sj_hex codec (trim signature) = Some (sj_hmac codec secret body))
     \<and> parse_completed_event codec body = Inr event"

lemma webhook_204:
  assumes "strike_webhook codec secret now headers body db = (204, db')"
  obtains event where "accepted_event codec secret headers body event"
    "enqueue_strike_event now event db = Inr ((), db')"
  using assms
  by (auto simp: strike_webhook_def accepted_event_def verify_signature_def andthen_eq_Inr not_less
      split: if_splits option.splits sum.splits)

lemma webhook_accepted:
  assumes "accepted_event codec secret headers body event" "length (sj_hmac codec secret body) = 32"
  shows "strike_webhook codec secret now headers body db =
    (case enqueue_strike_event now event db of Inr (_, db') \<Rightarrow> (204, db') | Inl _ \<Rightarrow> (503, db))"
  using assms by (auto simp: strike_webhook_def accepted_event_def verify_signature_def split: sum.splits)

lemma webhook_refused:
  "strike_webhook codec secret now headers body db = (status, db') \<Longrightarrow> status \<noteq> 204 \<Longrightarrow>
     db' = db \<and> status \<in> {400, 401, 413, 415, 503}"
  by (auto simp: strike_webhook_def split: if_splits option.splits sum.splits)

lemma webhook_hmac_length:
  "strike_webhook codec secret now headers body db = (204, db') \<Longrightarrow> length (sj_hmac codec secret body) = 32"
  by (auto simp: strike_webhook_def verify_signature_def andthen_eq_Inr
      split: if_splits option.splits sum.splits)

text \<open>
  C12: The webhook acknowledges exactly what is durable. A reply of 204 means that the body carries a
  valid HMAC under the secret, is a completed-receive event, and is in the inbox under its key, with
  the money untouched; a redelivery at any later time, whatever the inbox worker did in between, is
  acknowledged again and changes nothing. Every other reply is one of 400, 401, 413, 415, 503 and
  leaves the ledger as it was.
\<close>

theorem webhook_acknowledges_durable_events:
  assumes "strike_webhook codec secret now headers body db = (status, db')"
  shows "if status = 204
    then \<exists>event. accepted_event codec secret headers body event \<and> notified event db'
      \<and> money_tables db' = money_tables db
      \<and> (\<forall>db2 later. inbox_step\<^sup>*\<^sup>* db' db2 \<longrightarrow>
           strike_webhook codec secret later headers body db2 = (204, db2))
    else db' = db \<and> status \<in> {400, 401, 413, 415, 503}"
proof (cases "status = 204")
  case True
  note w = assms [unfolded True]
  obtain event where e: "accepted_event codec secret headers body event"
    "enqueue_strike_event now event db = Inr ((), db')"
    using webhook_204 [OF w] .
  have "money_tables db' = money_tables db"
    using e(2) inbox_money(1) by (auto simp: enqueue_strike_event_def)
  moreover have "strike_webhook codec secret later headers body db2 = (204, db2)"
    if "inbox_step\<^sup>*\<^sup>* db' db2" for db2 later
    using notified_again [OF notified_steps [OF that notified_enqueued [OF e(2)]]]
    by (simp add: webhook_accepted [OF e(1) webhook_hmac_length [OF w]])
  ultimately show ?thesis using True e notified_enqueued by auto
next
  case False
  then show ?thesis using webhook_refused [OF assms] by simp
qed

definition signed_codec :: strike_codec where
  "signed_codec = (sw_codec sample_world)\<lparr>sj_webhook := (\<lambda>_. Some \<lparr>we_id = ''e1'',
     we_event_type = ''receive-request.receive-completed'', we_version = ''v1'',
     we_entity_id = ''rq1'', we_receive_id = ''rv1''\<rparr>),
     sj_hex := (\<lambda>_. Some (replicate 32 CHR ''h'')), sj_hmac := (\<lambda>_ _. replicate 32 CHR ''h'')\<rparr>"

definition signed_headers :: http_headers where
  "signed_headers name =
     (if name = ''content-type'' then Some ''application/json''
      else if name = ''x-webhook-signature'' then Some ''00'' else None)"

lemma signed_accepted: "accepted_event signed_codec ''s'' signed_headers ''{}'' sample_event"
proof -
  have "is_json_content ''application/json''" by code_simp
  then show ?thesis
    by (simp add: accepted_event_def signed_headers_def MAX_STRIKE_WEBHOOK_BODY_def signed_codec_def
        parse_completed_event_def sample_event_def)
qed

theorem webhook_acknowledges_durable_events_witness:
  "strike_webhook signed_codec ''s'' 160 signed_headers ''{}'' notified_db = (204, notified_db)"
proof -
  have "enqueue_strike_event 150 sample_event invoiced_db = Inr ((), notified_db)"
    by (simp add: enqueue_strike_event_def enqueue_strike_work_def notified_db_def invoiced_db_def
        empty_db_def sample_event_def INBOX_CAPACITY_def count_where_def)
  moreover have "length (sj_hmac signed_codec ''s'' ''{}'') = 32" by (simp add: signed_codec_def)
  ultimately have "strike_webhook signed_codec ''s'' 150 signed_headers ''{}'' invoiced_db = (204, notified_db)"
    by (simp add: webhook_accepted [OF signed_accepted])
  from webhook_acknowledges_durable_events [OF this] show ?thesis by auto
qed

section \<open>The LNURL callback\<close>

lemma create_and_record_money:
  "create_and_record w env user pool amount desc expiry db = (out, db') \<Longrightarrow>
     money_tables db' = money_tables db"
  by (auto simp: create_and_record_def at_ledger_def split: if_splits sum.splits
      dest: strike_request_money)

lemma issue_money:
  assumes "create_and_record_receive_request w env user pool amount desc expiry db = (out, db')"
  shows "money_tables db' = money_tables db"
proof -
  have f: "money_tables db2 = money_tables db1"
    if "finish_invoice_admission a db1 = Inr (u, db2)" for a u db1 db2
    using that by (rule admission_money(2))
  show ?thesis
    using assms
    by (auto simp: create_and_record_receive_request_def at_ledger_def
        split: sum.splits if_splits option.splits prod.splits
        dest!: f create_and_record_money admission_money(1))
qed

lemma lnurl_invoice_Inr:
  assumes "lnurl_invoice w env s user amount db = (Inr invoice_text, db')"
  obtains a created where "lookup_address s user = Inr a" "ra_min_sendable_msat a \<le> amount"
    "amount \<le> ra_max_sendable_msat a" "amount mod 1000 = 0" "invoice_text = cr_invoice created"
    "create_and_record_receive_request w env (ra_user a) (ra_credit_pool a) amount
       (ra_description_hash a) (ls_invoice_expiry_seconds s) db = (Inr created, db')"
  using assms
  by (auto simp: lnurl_invoice_def not_less split: sum.splits if_splits prod.splits del: mod_0_imp_dvd)

lemma lnurl_invoice_Inl:
  "lnurl_invoice w env s user amount db = (Inl e, db') \<Longrightarrow>
     db' = db \<or> e = Lnurl_busy \<or> (\<exists>p. e = Lnurl_provider p)"
  by (auto simp: lnurl_invoice_def split: sum.splits if_splits prod.splits)

lemma lnurl_invoice_money:
  "lnurl_invoice w env s user amount db = (out, db') \<Longrightarrow> money_tables db' = money_tables db"
  by (auto simp: lnurl_invoice_def split: sum.splits if_splits prod.splits dest: issue_money)

text \<open>An invoice of the callback: it is for a configured address, within its limits, and bound to
  the metadata that discovery publishes for it.\<close>

definition lnurl_sale ::
  "lnurl_codec \<Rightarrow> strike_world \<Rightarrow> issue_env \<Rightarrow> lnurl_service \<Rightarrow> lightning_address_config \<Rightarrow> u64
     \<Rightarrow> string \<Rightarrow> ledger_db \<Rightarrow> bool" where
  "lnurl_sale codec w env s cfg amount invoice_text db' \<longleftrightarrow>
     la_min_sendable_msat cfg \<le> amount \<and> amount \<le> la_max_sendable_msat cfg \<and> amount mod 1000 = 0
     \<and> (\<exists>desc request_id invoice row.
          invoice_bound w env (la_user cfg) ''herd'' amount desc (ls_invoice_expiry_seconds s)
            request_id invoice_text invoice row
          \<and> row \<in> set (strike_receive_requests db')
          \<and> (\<forall>published. discovery codec s (la_user cfg) = Inr published \<longrightarrow>
               desc = lc_sha256_hex codec (lp_metadata published)
               \<and> lp_min_sendable published \<le> amount \<and> amount \<le> lp_max_sendable published))"

lemma lnurl_invoice_sale:
  assumes "lnurl_service_new codec c configured = Inr s"
    and "lnurl_invoice w env s user amount db = (Inr invoice_text, db')"
  shows "\<exists>cfg \<in> set configured. la_user cfg = user \<and> lnurl_sale codec w env s cfg amount invoice_text db'"
proof -
  obtain a created where a: "lookup_address s user = Inr a" "ra_min_sendable_msat a \<le> amount"
    "amount \<le> ra_max_sendable_msat a" "amount mod 1000 = 0" "invoice_text = cr_invoice created"
    and c: "create_and_record_receive_request w env (ra_user a) (ra_credit_pool a) amount
       (ra_description_hash a) (ls_invoice_expiry_seconds s) db = (Inr created, db')"
    using lnurl_invoice_Inr [OF assms(2)] .
  obtain cfg host where g: "cfg \<in> set configured" "la_user cfg = user" "a = registered codec host cfg"
    "la_credit_pool cfg = ''herd''"
    using service_lookup [OF assms(1) a(1)] .
  have r: "ra_user a = la_user cfg" "ra_credit_pool a = ''herd''"
    "ra_min_sendable_msat a = la_min_sendable_msat cfg" "ra_max_sendable_msat a = la_max_sendable_msat cfg"
    "ra_description_hash a = lc_sha256_hex codec (ra_metadata a)"
    using g by (simp_all add: registered_def Let_def)
  have p: "lp_metadata published = ra_metadata a \<and> lp_min_sendable published = ra_min_sendable_msat a
      \<and> lp_max_sendable published = ra_max_sendable_msat a"
    if "discovery codec s (la_user cfg) = Inr published" for published
    using that a(1) g(2) by (auto simp: discovery_def andthen_eq_Inr)
  have "lnurl_sale codec w env s cfg amount invoice_text db'"
    unfolding lnurl_sale_def
    using issued_bound [OF c] a(2-5) p unfolding r by metis
  with g show ?thesis by blast
qed

text \<open>
  C21: The LNURL callback sells only what is configured. A reply with an invoice is for a configured
  address and a whole-sat amount within its limits; the invoice is bound to a stored request of that
  user for the herd, and its description hash is the SHA-256 of exactly the metadata that discovery
  publishes for the address. Every other reply is an LNURL error of status 200, 404, 429 or 502; the
  first two leave the ledger as it was, and no reply touches the money.
\<close>

theorem lnurl_callback_sells_what_is_configured:
  assumes "lnurl_service_new codec c configured = Inr s"
    and "lnurl_callback w env s user raw db = ((status, body), db')"
  shows "money_tables db' = money_tables db
    \<and> ((\<exists>cfg \<in> set configured. \<exists>digits amount invoice_text.
          la_user cfg = user \<and> raw = Some digits \<and> parse_u64 digits = Some amount
          \<and> status = 200 \<and> body = Some (pay_callback_json invoice_text)
          \<and> lnurl_sale codec w env s cfg amount invoice_text db')
       \<or> (\<exists>reason. (status, body) = lnurl_error_reply status reason
          \<and> (status \<in> {200, 404} \<and> db' = db \<or> status \<in> {429, 502})))"
proof (cases "raw")
  case None
  then show ?thesis using assms(2) by (auto simp: lnurl_callback_def lnurl_error_reply_def)
next
  case (Some digits)
  show ?thesis
  proof (cases "parse_u64 digits")
    case None
    then show ?thesis using assms(2) Some by (auto simp: lnurl_callback_def lnurl_error_reply_def)
  next
    case (Some amount)
    obtain out db1 where i: "lnurl_invoice w env s user amount db = (out, db1)" by force
    note cb = assms(2) [unfolded lnurl_callback_def \<open>raw = Some digits\<close> option.case Some i prod.case]
    show ?thesis
    proof (cases out)
      case (Inr invoice_text)
      with cb have r: "db' = db1" "status = 200" "body = Some (pay_callback_json invoice_text)" by auto
      from lnurl_invoice_sale [OF assms(1) i [unfolded Inr]] show ?thesis
        unfolding r using lnurl_invoice_money [OF i] Some \<open>raw = Some digits\<close> by blast
    next
      case (Inl e)
      with cb lnurl_invoice_Inl [OF i [unfolded Inl]] lnurl_invoice_money [OF i] show ?thesis
        by (cases e) (auto simp: lnurl_error_reply_def)
    qed
  qed
qed

definition sample_url :: url where
  "sample_url = \<lparr>url_scheme = ''https'', url_username = [], url_password = None,
     url_host = Some ''goats'', url_path = ''/'', url_query = None, url_fragment = None\<rparr>"

definition sample_lnurl_codec :: lnurl_codec where
  "sample_lnurl_codec = \<lparr>lc_parse_url = (\<lambda>_. Some sample_url), lc_join = (\<lambda>u _. Some u),
     lc_url_text = (\<lambda>_. ''https://goats/''), lc_print_json = (\<lambda>_. ''[]''), lc_sha256_hex = (\<lambda>_. sample_desc)\<rparr>"

definition sample_address :: "string \<Rightarrow> lightning_address_config" where
  "sample_address user = \<lparr>la_user = user, la_display_name = ''Goat'', la_description = ''Feed'',
     la_credit_pool = ''herd'', la_min_sendable_msat = 1000, la_max_sendable_msat = 50000\<rparr>"

definition sample_service :: lnurl_service where
  "sample_service = \<lparr>ls_public_base_url = sample_url, ls_invoice_expiry_seconds = 60,
     ls_addresses = [(''herd'', registered sample_lnurl_codec ''goats'' (sample_address ''herd''))]\<rparr>"

lemma herd_user: "lightning_address_user ''herd'' = Inr ()"
  using sample_users(1) by (auto simp: validate_user_def map_err_def split: sum.splits)

lemma sample_service_new:
  "lnurl_service_new sample_lnurl_codec \<lparr>ln_public_base_url = [], ln_invoice_expiry_seconds = 60\<rparr>
     [sample_address ''herd''] = Inr sample_service"
  using herd_user
  by (simp add: lnurl_service_new_def sample_lnurl_codec_def [unfolded atomize_eq] sample_url_def
      sample_service_def domain_user_def sample_address_def)

lemma parse_21000: "parse_u64 ''21000'' = Some 21000"
  by (simp add: parse_u64_def all_digits_def is_ascii_digit_def byte_def digits_value_def digit_value_def)

lemma sample_callback:
  "lnurl_callback sample_world sample_issue sample_service ''herd'' (Some ''21000'') empty_db
     = ((200, Some (pay_callback_json ''lnbc'')), invoiced_db)"
  using sample_created_ok herd_user
  by (simp add: lnurl_callback_def parse_21000 lnurl_invoice_def lookup_address_def sample_service_def
      registered_def Let_def sample_address_def sample_lnurl_codec_def sample_created_def)

theorem lnurl_callback_sells_what_is_configured_witness:
  "lnurl_sale sample_lnurl_codec sample_world sample_issue sample_service (sample_address ''herd'') 21000
     ''lnbc'' invoiced_db"
  using lnurl_callback_sells_what_is_configured [OF sample_service_new sample_callback] parse_21000
  by (auto simp: pay_callback_json_def lnurl_error_reply_def)

section \<open>Start-up\<close>

lemma status_report_returns:
  "fc_threshold_sats (ac_feeder c) \<noteq> 0 \<Longrightarrow> status_report c s slot_free safety temperature db \<noteq> None"
  by (auto simp: status_report_def Let_def split: sum.splits prod.splits)

lemma gateway_origin_client:
  "validate_gateway_origin parse_url raw = Inr () \<Longrightarrow> \<exists>u. gateway_client_new parse_url raw = Inr u"
  by (auto simp: validate_gateway_origin_def gateway_client_new_def validate_gateway_url_def andthen_eq_Inr
      guard_Inr split: if_splits)

text \<open>
  C34: A validated configuration starts. Once \<open>validate\<close> has accepted a configuration, with a nonempty
  credential the gateway client, the Strike client and the LNURL service are all built from it without
  an error; the service answers for every configured user, the six required ones among them, lists
  them in order and without repetition; and the status report never divides by zero.
\<close>

theorem validated_config_starts:
  assumes "config_validate (lc_parse_url codec) sqlite c = Inr ()" and "trim api_key \<noteq> []"
  shows "(\<exists>u. gateway_client_new (lc_parse_url codec) (ac_gateway_url c) = Inr u)
    \<and> (\<exists>k. strike_client_new (lc_parse_url codec) (ac_strike_api_url c) api_key = Inr k)
    \<and> (\<exists>s. lnurl_service_new codec (ac_lnurl c) (ac_lightning_address c) = Inr s
         \<and> sorted (configured_users s) \<and> distinct (configured_users s)
         \<and> set (configured_users s) = la_user ` set (ac_lightning_address c)
         \<and> set REQUIRED_PHASE1_LIGHTNING_USERS \<subseteq> set (configured_users s)
         \<and> (\<forall>user \<in> set (configured_users s). \<exists>a. lookup_address s user = Inr a)
         \<and> (\<forall>slot_free safety temperature db.
              status_report c s slot_free safety temperature db \<noteq> None))"
  using assms(1)
proof (rule config_validate_Inr)
  fix u g
  assume s: "lc_parse_url codec (ac_strike_api_url c) = Some u" "url_scheme u = ''https''"
    "url_host u \<noteq> None" "url_username u = []" "url_password u = None" "url_query u = None"
    "url_fragment u = None"
    and l: "validate_lnurl (lc_parse_url codec) c = Inr ()"
    and gw: "validate_gateway_origin (lc_parse_url codec) (ac_gateway_url c) = Inr ()"
    and t: "fc_threshold_sats (ac_feeder c) \<noteq> 0"
  obtain v host where v: "lc_parse_url codec (ln_public_base_url (ac_lnurl c)) = Some v"
    "url_host v = Some host" "distinct (map la_user (ac_lightning_address c))"
    "\<forall>a \<in> set (ac_lightning_address c). lightning_address_user (la_user a) = Inr () \<and> check_address a = Inr ()"
    "set REQUIRED_PHASE1_LIGHTNING_USERS \<subseteq> set (map la_user (ac_lightning_address c))"
    using validate_lnurl_Inr [OF l] .
  let ?as = "map (\<lambda>a. (la_user a, registered codec host a)) (ac_lightning_address c)"
  let ?s = "\<lparr>ls_public_base_url = v, ls_invoice_expiry_seconds = ln_invoice_expiry_seconds (ac_lnurl c),
     ls_addresses = ?as\<rparr>"
  have "register_addresses codec host [] (ac_lightning_address c) = Inr ?as"
    unfolding register_addresses_Inr using v(3,4) by (auto simp: check_address_Inr)
  then have new: "lnurl_service_new codec (ac_lnurl c) (ac_lightning_address c) = Inr ?s"
    using v(1,2) by (simp add: lnurl_service_new_def)
  have users: "set (configured_users ?s) = la_user ` set (ac_lightning_address c)"
    "sorted (configured_users ?s)" "distinct (configured_users ?s)"
    using v(3) by (auto simp: configured_users_def o_def)
  have "\<exists>a. lookup_address ?s user = Inr a" if "user \<in> set (configured_users ?s)" for user
  proof -
    from that users(1) obtain a where "a \<in> set (ac_lightning_address c)" "la_user a = user" by auto
    moreover from this have "user \<in> fst ` set ?as" by force
    then have "map_of ?as user \<noteq> None" unfolding map_of_eq_None_iff by blast
    ultimately show ?thesis using v(4) by (auto simp: lookup_address_def)
  qed
  moreover have "strike_client_new (lc_parse_url codec) (ac_strike_api_url c) api_key \<noteq> Inl e" for e
    using s assms(2) by (auto simp: strike_client_new_def validate_provider_url_def)
  then have "\<exists>k. strike_client_new (lc_parse_url codec) (ac_strike_api_url c) api_key = Inr k"
    by (cases "strike_client_new (lc_parse_url codec) (ac_strike_api_url c) api_key") auto
  ultimately show ?thesis
    using new users v(5) gateway_origin_client [OF gw] status_report_returns [OF t] by auto
qed

definition sample_parse :: "string \<Rightarrow> url option" where
  "sample_parse s = Some (if s = ''wss://r'' then sample_url\<lparr>url_scheme := ''wss''\<rparr> else sample_url)"

definition sample_sqlite :: sqlite_codec where
  "sample_sqlite = \<lparr>sx_parse = (\<lambda>_. Some \<lparr>so_filename = Some ''a.db'', so_create_if_missing = False,
     so_journal = Journal_default, so_sync = Sync_default, so_foreign_keys = True,
     so_busy_timeout_seconds = 0\<rparr>), sx_query = (\<lambda>_. [])\<rparr>"

definition sample_config :: app_config where
  "sample_config = \<lparr>ac_service = \<lparr>sv_listen_ip = V4 127 0 0 1, sv_mode = Shadow\<rparr>,
     ac_database_url = ''sqlite://a.db'', ac_strike_api_url = ''https://goats/'',
     ac_lnurl = \<lparr>ln_public_base_url = ''https://goats/'', ln_invoice_expiry_seconds = 300\<rparr>,
     ac_lightning_address = map sample_address REQUIRED_PHASE1_LIGHTNING_USERS,
     ac_feeder = \<lparr>fc_threshold_sats = 1000, fc_inter_feed_delay_seconds = 30\<rparr>,
     ac_gateway_url = ''https://goats/'',
     ac_informational = \<lparr>ic_interval_seconds = 60, ic_interface_info_enabled = True,
       ic_weather_enabled = True, ic_interface_info_probability = Finite (1 / 4),
       ic_weather_probability = Finite (1 / 4)\<rparr>,
     ac_nostr = \<lparr>nc_nak_path = ''/n'', nc_nak_config_path = ''/c'', nc_bunker_pubkey = replicate 64 CHR ''0'',
       nc_relays = [''wss://r'']\<rparr>\<rparr>"

lemma required_users: "\<forall>u \<in> set REQUIRED_PHASE1_LIGHTNING_USERS. lightning_address_user u = Inr ()"
  by (simp add: REQUIRED_PHASE1_LIGHTNING_USERS_def lightning_address_user_def MAX_USER_LEN_def
      user_byte_def is_ascii_lowercase_def is_ascii_digit_def byte_def)

lemma sample_address_ok: "check_address (sample_address u) = Inr ()"
proof -
  have "trim ''Goat'' = ''Goat''" "trim ''Feed'' = ''Feed''"
    by (simp_all add: trim_def trim_start.simps trim_end_rev.simps space1_def space3_def byte_def)
  then show ?thesis using herd_user by (simp add: check_address_Inr sample_address_def)
qed

lemma sample_settings_valid: "config_validate sample_parse sample_sqlite sample_config = Inr ()"
proof -
  have l: "la_user (sample_address u) = u" for u by (simp add: sample_address_def)
  have "check_addresses [] (map sample_address REQUIRED_PHASE1_LIGHTNING_USERS)
      = Inr (rev REQUIRED_PHASE1_LIGHTNING_USERS)"
    unfolding check_addresses_Inr using required_users sample_address_ok
    by (simp add: l o_def) (simp add: REQUIRED_PHASE1_LIGHTNING_USERS_def)
  then have "validate_lnurl sample_parse sample_config = Inr ()"
    by (simp add: validate_lnurl_def sample_config_def sample_parse_def sample_url_def list_all_iff)
      (simp add: REQUIRED_PHASE1_LIGHTNING_USERS_def)
  moreover have "durable_options sample_sqlite ''sqlite://a.db'' \<noteq> Inl e" for e
    by (simp add: durable_options_def sample_sqlite_def strip_prefix_def starts_with_def)
  then obtain options where "durable_options sample_sqlite ''sqlite://a.db'' = Inr options"
    by (cases "durable_options sample_sqlite ''sqlite://a.db''") auto
  ultimately show ?thesis
    by (simp add: config_validate_def sample_config_def)
      (simp add: sample_parse_def sample_url_def validate_gateway_origin_def validate_informational_def
        is_probability_def f64_within_def f64_value_def sum_within_one validate_nostr_def is_absolute_def starts_with_def
        list_all_iff is_ascii_hexdigit_def is_ascii_digit_def byte_def)
qed

theorem validated_config_starts_witness:
  "\<exists>s. lnurl_service_new (sample_lnurl_codec\<lparr>lc_parse_url := sample_parse\<rparr>) (ac_lnurl sample_config)
     (ac_lightning_address sample_config) = Inr s"
proof -
  have "trim ''k'' \<noteq> []" by (simp add: trim_def trim_start.simps trim_end_rev.simps space1_def byte_def)
  then show ?thesis
    using validated_config_starts [of "sample_lnurl_codec\<lparr>lc_parse_url := sample_parse\<rparr>" sample_sqlite sample_config "''k''"]
      sample_settings_valid by auto
qed

end
