(* ===== verification/Presentation.thy ===== *)
theory Presentation
  imports Config Ledger_Events
begin

text \<open>
  The presentation of durable events, \<open>src/src/presentation.rs\<close>: the template catalogue and its
  validation, substitution of named fields, the stable choice of a template and a goat, and the
  rendered texts for the overlay and for Nostr. SHA-256 is a parameter. A payload is kept as the JSON
  value that the ledger stored, so \<open>from_str\<close> of its text cannot fail.
\<close>

section \<open>Data\<close>

record overlay_goat =
  og_name :: string
  og_image_url :: string

record rendered_presentation =
  rp_nostr_content :: "string option"
  rp_overlay_type :: "string option"
  rp_overlay_message :: "string option"
  rp_overlay_goats :: "overlay_goat list"

definition empty_presentation :: rendered_presentation where
  "empty_presentation = \<lparr>rp_nostr_content = None, rp_overlay_type = None, rp_overlay_message = None,
     rp_overlay_goats = []\<rparr>"

record template_catalog =
  tc_sats_received :: "string list"
  tc_feeder_trigger :: "string list"
  tc_interface_info :: "string list"

record goat =
  g_user :: string
  g_name :: string
  g_nostr_profile :: string

definition GOATS :: "goat list" where
  "GOATS =
     [\<lparr>g_user = ''dexter'', g_name = ''Dexter'', g_nostr_profile =
        ''nostr:nprofile1qqsw4zlzyfx43mc88psnlse8sywpfl45kuap9dy05yzkepkvu6ca5wg7qyak5''\<rparr>,
      \<lparr>g_user = ''rowan'', g_name = ''Rowan'', g_nostr_profile =
        ''nostr:nprofile1qqs2w94r0fs29gepzfn5zuaupn969gu3fstj3gq8kvw3cvx9fnxmaugwur22r''\<rparr>,
      \<lparr>g_user = ''cosmo'', g_name = ''Cosmo'', g_nostr_profile =
        ''nostr:nprofile1qqsq6n8u7dzrnhhy7xy78k2ee7e4wxlgrkm5g2rgjl3napr9q54n4ncvkqcsj''\<rparr>,
      \<lparr>g_user = ''newton'', g_name = ''Newton'', g_nostr_profile =
        ''nostr:nprofile1qqszdsnpyzwhjcqads3hwfywt5jfmy85jvx8yup06yq0klrh93ldjxc26lmyx''\<rparr>,
      \<lparr>g_user = ''nova'', g_name = ''Nova'', g_nostr_profile =
        ''nostr:nprofile1qqsrzy7clymq5xwcfhh0dfz6zfe7h63k8r0j8yr49mxu6as4yv2084s0vf035''\<rparr>]"

section \<open>Templates\<close>

text \<open>The text before and after the first \<open>c\<close>, as \<open>find\<close> and the slices around it give them.\<close>

fun split_char :: "char \<Rightarrow> string \<Rightarrow> (string \<times> string) option" where
  "split_char c [] = None"
| "split_char c (x # xs) =
     (if x = c then Some ([], xs)
      else case split_char c xs of None \<Rightarrow> None | Some (before, after) \<Rightarrow> Some (x # before, after))"

lemma split_char_eq: "split_char c s = Some (a, b) \<longleftrightarrow> s = a @ c # b \<and> c \<notin> set a"
proof (induction s arbitrary: a)
  case (Cons x s)
  show ?case
  proof (cases a)
    case Nil
    then show ?thesis by (auto split: option.splits)
  next
    case (Cons y ys)
    then show ?thesis using Cons.IH [of ys] by (auto split: option.splits)
  qed
qed simp

lemma split_char_None: "split_char c s = None \<longleftrightarrow> c \<notin> set s"
  by (induction s) (auto split: option.splits)

definition field_byte :: "char \<Rightarrow> bool" where
  "field_byte c \<longleftrightarrow> is_ascii_alphanumeric c \<or> c = CHR ''_''"

definition field_ok :: "string \<Rightarrow> bool" where
  "field_ok field \<longleftrightarrow> field \<noteq> [] \<and> list_all field_byte field \<and> \<not> is_ascii_digit (hd field)"

function validate_template_syntax :: "string \<Rightarrow> unit fallible" where
  "validate_template_syntax rest =
     (case split_char CHR ''{'' rest of
        None \<Rightarrow> if CHR ''}'' \<in> set rest then Inl ''template contains an unmatched closing brace'' else Inr ()
      | Some (_, after_open) \<Rightarrow>
          (case split_char CHR ''}'' after_open of
             None \<Rightarrow> Inl ''template contains an unmatched opening brace''
           | Some (field, after_close) \<Rightarrow>
               if \<not> field_ok field then Inl ''template contains unsafe placeholder''
               else validate_template_syntax after_close))"
  by auto
termination by (relation "measure length") (auto simp: split_char_eq)

declare validate_template_syntax.simps [simp del]

text \<open>The loop of \<open>safe_substitute\<close>, after the syntax check; \<open>rendered\<close> is the text so far.\<close>

function substitute_loop :: "(string \<rightharpoonup> string) \<Rightarrow> string \<Rightarrow> string \<Rightarrow> string fallible" where
  "substitute_loop values rendered rest =
     (case split_char CHR ''{'' rest of
        None \<Rightarrow> Inr (rendered @ rest)
      | Some (before, after_open) \<Rightarrow>
          (case split_char CHR ''}'' after_open of
             None \<Rightarrow> Inl ''template contains an unmatched opening brace''
           | Some (field, after_close) \<Rightarrow>
               (case values field of
                  None \<Rightarrow> Inl ''template requires unavailable field''
                | Some v \<Rightarrow> substitute_loop values (rendered @ before @ v) after_close)))"
  by auto
termination by (relation "measure (\<lambda>(_, _, rest). length rest)") (auto simp: split_char_eq)

declare substitute_loop.simps [simp del]

definition safe_substitute :: "string \<Rightarrow> (string \<rightharpoonup> string) \<Rightarrow> string fallible" where
  "safe_substitute template values =
     andthen (validate_template_syntax template) (\<lambda>_. substitute_loop values [] template)"

fun validate_templates :: "string list \<Rightarrow> unit fallible" where
  "validate_templates [] = Inr ()"
| "validate_templates (t # ts) =
     (if trim t = [] \<or> 8192 < length t then Inl ''Phase 1 template category contains an invalid template length''
      else andthen (validate_template_syntax t) (\<lambda>_. validate_templates ts))"

definition validate_category :: "string list \<Rightarrow> unit fallible" where
  "validate_category templates =
     (if templates = [] then Inl ''Phase 1 template category is empty''
      else if 1000 < length templates then Inl ''Phase 1 template category is unexpectedly large''
      else validate_templates templates)"

definition validate_catalog :: "template_catalog \<Rightarrow> unit fallible" where
  "validate_catalog catalog =
     andthen (validate_category (tc_sats_received catalog)) (\<lambda>_.
     andthen (validate_category (tc_feeder_trigger catalog)) (\<lambda>_.
     validate_category (tc_interface_info catalog)))"

text \<open>\<open>parsed\<close> is the deserialized \<open>templates/phase1.toml\<close>.\<close>

definition embedded :: "template_catalog option \<Rightarrow> template_catalog fallible" where
  "embedded parsed =
     andthen (ok_or ''invalid embedded Phase 1 message templates'' parsed) (\<lambda>catalog.
     andthen (validate_catalog catalog) (\<lambda>_. Inr catalog))"

section \<open>Stable choices\<close>

definition be_bytes :: "u64 \<Rightarrow> string" where
  "be_bytes w = map (\<lambda>i. char_of (unat (drop_bit (8 * (7 - i)) w))) [0..<8]"

definition from_be_bytes :: "string \<Rightarrow> nat" where
  "from_be_bytes s = foldl (\<lambda>v c. 256 * v + byte c) 0 s"

definition stable_index :: "(string \<Rightarrow> string) \<Rightarrow> durable_event \<Rightarrow> string \<Rightarrow> nat \<Rightarrow> nat" where
  "stable_index sha256 event purpose len =
     from_be_bytes (take 8 (sha256
       (be_bytes (de_seq event) @ de_event_type event @ [CHR 0x00] @ purpose))) mod len"

definition select_template :: "(string \<Rightarrow> string) \<Rightarrow> string list \<Rightarrow> durable_event \<Rightarrow> string \<Rightarrow> string fallible" where
  "select_template sha256 templates event purpose =
     (if templates = [] then Inl ''template category is empty''
      else Inr (templates ! stable_index sha256 event purpose (length templates)))"

definition goat_for_event :: "(string \<Rightarrow> string) \<Rightarrow> durable_event \<Rightarrow> string option \<Rightarrow> goat" where
  "goat_for_event sha256 event address_user =
     (case Option.bind address_user (\<lambda>user. find (\<lambda>g. g_user g = user) GOATS) of
        Some g \<Rightarrow> g
      | None \<Rightarrow> GOATS ! stable_index sha256 event ''goat'' (length GOATS))"

definition goat_image :: "goat \<Rightarrow> overlay_goat" where
  "goat_image g = \<lparr>og_name = g_name g, og_image_url = ''images/'' @ g_user g @ ''.png''\<rparr>"

section \<open>Rendering\<close>

definition remaining_sats :: "u64 \<Rightarrow> u64 \<Rightarrow> u64" where
  "remaining_sats credit threshold =
     (if credit < threshold then threshold - credit else threshold - (credit mod threshold))"

definition difference_message :: "u64 \<Rightarrow> u64 \<Rightarrow> string" where
  "difference_message credit threshold =
     (if credit < threshold then show_u64 (threshold - credit) @ '' sats until feeder activation.''
      else
        let feeds_due = credit div threshold; remainder = credit mod threshold in
        if remainder = 0 then ''Feeder ready! '' @ show_u64 feeds_due @ '' feeding(s) are funded.''
        else ''Feeder ready! '' @ show_u64 feeds_due @ '' feeding(s) are funded, with ''
          @ show_u64 remainder @ '' sats already toward the following feeding.'')"

definition common_values :: "u64 \<Rightarrow> string \<Rightarrow> string \<Rightarrow> (string \<rightharpoonup> string)" where
  "common_values amount difference goat_name =
     [''new_amount'' \<mapsto> show_u64 amount, ''difference_message'' \<mapsto> difference, ''goat_name'' \<mapsto> goat_name]"

text \<open>\<open>Value::as_u64\<close> and \<open>as_str\<close> of a field of the payload.\<close>

definition required_u64 :: "(string \<times> json) list \<Rightarrow> string \<Rightarrow> u64 fallible" where
  "required_u64 payload field =
     (case map_of payload field of
        Some (JNum n) \<Rightarrow>
          if 0 \<le> n \<and> n < 2 ^ 64 then Inr (word_of_int n)
          else Inl ''durable event is missing unsigned integer field''
      | _ \<Rightarrow> Inl ''durable event is missing unsigned integer field'')"

definition field_str :: "(string \<times> json) list \<Rightarrow> string \<Rightarrow> string option" where
  "field_str payload field = (case map_of payload field of Some (JStr s) \<Rightarrow> Some s | _ \<Rightarrow> None)"

definition render_payment ::
  "(string \<Rightarrow> string) \<Rightarrow> template_catalog \<Rightarrow> durable_event \<Rightarrow> (string \<times> json) list \<Rightarrow> u64
     \<Rightarrow> rendered_presentation fallible" where
  "render_payment sha256 catalog event payload threshold =
     andthen (required_u64 payload ''amount_sats'') (\<lambda>amount.
     andthen (required_u64 payload ''feed_credit_sats'') (\<lambda>credit.
     let address_user = (case field_str payload ''address_user'' of None \<Rightarrow> ''herd'' | Some u \<Rightarrow> u);
         g = goat_for_event sha256 event (Some address_user);
         difference = difference_message credit threshold;
         with_difference = (\<lambda>vs. vs(''difference'' \<mapsto> show_u64 (remaining_sats credit threshold)))
     in
     andthen (select_template sha256 (tc_sats_received catalog) event ''sats_received'') (\<lambda>template.
     andthen (safe_substitute template
       (with_difference (common_values amount difference (g_nostr_profile g)))) (\<lambda>nostr.
     andthen (safe_substitute template
       (with_difference (common_values amount difference (g_name g)))) (\<lambda>overlay.
     Inr \<lparr>rp_nostr_content = Some nostr, rp_overlay_type = Some ''sats_received'',
          rp_overlay_message = Some overlay, rp_overlay_goats = [goat_image g]\<rparr>)))))"

definition render_feeder ::
  "(string \<Rightarrow> string) \<Rightarrow> template_catalog \<Rightarrow> durable_event \<Rightarrow> (string \<times> json) list \<Rightarrow> u64
     \<Rightarrow> rendered_presentation fallible" where
  "render_feeder sha256 catalog event payload threshold =
     andthen (required_u64 payload ''threshold_sats'') (\<lambda>amount.
     andthen (required_u64 payload ''feed_credit_sats'') (\<lambda>credit.
     let g = goat_for_event sha256 event None;
         difference = difference_message credit threshold in
     andthen (select_template sha256 (tc_feeder_trigger catalog) event ''feeder_trigger'') (\<lambda>template.
     andthen (safe_substitute template (common_values amount difference (g_nostr_profile g))) (\<lambda>nostr.
     andthen (safe_substitute template (common_values amount difference (g_name g))) (\<lambda>overlay.
     Inr \<lparr>rp_nostr_content = Some nostr, rp_overlay_type = Some ''feeder_trigger'',
          rp_overlay_message = Some overlay, rp_overlay_goats = [goat_image g]\<rparr>)))))"

definition render_interface_info ::
  "(string \<Rightarrow> string) \<Rightarrow> template_catalog \<Rightarrow> durable_event \<Rightarrow> rendered_presentation fallible" where
  "render_interface_info sha256 catalog event =
     andthen (select_template sha256 (tc_interface_info catalog) event ''interface_info'') (\<lambda>template.
     andthen (safe_substitute template Map.empty) (\<lambda>overlay.
     Inr \<lparr>rp_nostr_content = None, rp_overlay_type = Some ''interface_info'',
          rp_overlay_message = Some overlay, rp_overlay_goats = []\<rparr>))"

definition render_weather :: "(string \<times> json) list \<Rightarrow> rendered_presentation fallible" where
  "render_weather payload =
     andthen (ok_or ''weather_status event is missing string field message'' (field_str payload ''message'')) (\<lambda>message.
     if trim message = [] \<or> 2000 < length message
     then Inl ''weather_status message must contain 1 to 2000 characters''
     else Inr \<lparr>rp_nostr_content = None, rp_overlay_type = Some ''weather_status'',
       rp_overlay_message = Some message, rp_overlay_goats = []\<rparr>)"

definition render ::
  "(string \<Rightarrow> string) \<Rightarrow> template_catalog \<Rightarrow> durable_event \<Rightarrow> u64 \<Rightarrow> rendered_presentation fallible" where
  "render sha256 catalog event threshold =
     (if threshold = 0 then Inl ''feeder threshold must be greater than zero''
      else case de_payload_json event of
        JObj payload \<Rightarrow>
          if de_event_type event = ''payment_received''
          then render_payment sha256 catalog event payload threshold
          else if de_event_type event = ''feeder_confirmed''
          then render_feeder sha256 catalog event payload threshold
          else if de_event_type event = ''interface_info'' then render_interface_info sha256 catalog event
          else if de_event_type event = ''weather_status'' then render_weather payload
          else Inr empty_presentation
      | _ \<Rightarrow> Inl ''durable event payload must be a JSON object'')"

end
