(* ===== verification/Presentation_Properties.thy ===== *)
theory Presentation_Properties
  imports Presentation
begin

text \<open>
  What the template language means: a template is a sequence of literal texts and named fields, and
  substitution replaces each field by its value in one pass.
\<close>

definition template_text :: "(string \<times> string) list \<Rightarrow> string \<Rightarrow> string" where
  "template_text parts tail = concat (map (\<lambda>(l, f). l @ CHR ''{'' # f @ ''}'') parts) @ tail"

text \<open>The literal before each field has no opening brace, the last text has no brace at all.\<close>

definition template_parts :: "string \<Rightarrow> (string \<times> string) list \<Rightarrow> string \<Rightarrow> bool" where
  "template_parts t parts tail \<longleftrightarrow> t = template_text parts tail
     \<and> list_all (\<lambda>(l, f). CHR ''{'' \<notin> set l \<and> field_ok f) parts
     \<and> CHR ''{'' \<notin> set tail \<and> CHR ''}'' \<notin> set tail"

definition filled :: "(string \<rightharpoonup> string) \<Rightarrow> (string \<times> string) list \<Rightarrow> string \<Rightarrow> string" where
  "filled vs parts tail = concat (map (\<lambda>(l, f). l @ the (vs f)) parts) @ tail"

lemma field_no_brace: "field_ok f \<Longrightarrow> CHR ''}'' \<notin> set f"
  by (auto simp: field_ok_def list_all_iff field_byte_def is_ascii_alphanumeric_def is_ascii_digit_def
      is_ascii_lowercase_def is_ascii_uppercase_def byte_def)

lemma template_text_simps:
  "template_text [] tail = tail"
  "template_text ((l, f) # parts) tail = l @ CHR ''{'' # f @ CHR ''}'' # template_text parts tail"
  by (simp_all add: template_text_def)

lemma split_field:
  assumes "CHR ''{'' \<notin> set l" "field_ok f"
  shows "split_char CHR ''{'' (l @ CHR ''{'' # f @ CHR ''}'' # t) = Some (l, f @ CHR ''}'' # t)"
    "split_char CHR ''}'' (f @ CHR ''}'' # t) = Some (f, t)"
  using assms field_no_brace by (simp_all add: split_char_eq)

lemma validate_parts:
  "template_parts t parts tail \<Longrightarrow> validate_template_syntax t = Inr ()"
proof (induction parts arbitrary: t)
  case Nil
  then have "split_char CHR ''{'' t = None" by (simp add: template_parts_def template_text_simps split_char_None)
  with Nil show ?case
    by (simp add: validate_template_syntax.simps [of tail] template_parts_def template_text_simps)
next
  case (Cons part parts)
  obtain l f where p: "part = (l, f)" by (cases part)
  from Cons.prems have t: "t = l @ CHR ''{'' # f @ CHR ''}'' # template_text parts tail"
    and lf: "CHR ''{'' \<notin> set l" "field_ok f" and rest: "template_parts (template_text parts tail) parts tail"
    by (auto simp: template_parts_def p template_text_simps)
  show ?case
    unfolding validate_template_syntax.simps [of t] unfolding t split_field [OF lf]
    using lf(2) Cons.IH [OF rest] by (simp add: split_field(2) [OF lf])
qed

lemma parts_of_valid:
  "validate_template_syntax t = Inr () \<Longrightarrow> \<exists>parts tail. template_parts t parts tail"
proof (induction t rule: validate_template_syntax.induct)
  case (1 t)
  note valid = 1(2) [unfolded validate_template_syntax.simps [of t]]
  show ?case
  proof (cases "split_char CHR ''{'' t")
    case None
    with valid have "template_parts t [] t"
      by (auto simp: template_parts_def template_text_simps split_char_None split: if_splits)
    then show ?thesis by blast
  next
    case (Some pair)
    obtain l rest where p: "pair = (l, rest)" by (cases pair)
    with Some valid obtain f after where q: "split_char CHR ''}'' rest = Some (f, after)" "field_ok f"
      "validate_template_syntax after = Inr ()"
      by (auto split: option.splits if_splits)
    from 1(1) [OF Some p [symmetric] q(1) refl _ q(3)] q(2) obtain parts tail where "template_parts after parts tail" by auto
    then have "template_parts t ((l, f) # parts) tail"
      using Some p q by (auto simp: template_parts_def template_text_simps split_char_eq)
    then show ?thesis by blast
  qed
qed

lemma substitute_parts:
  "template_parts t parts tail \<Longrightarrow> substitute_loop vs acc t =
     (if list_all (\<lambda>(l, f). vs f \<noteq> None) parts then Inr (acc @ filled vs parts tail)
      else Inl ''template requires unavailable field'')"
proof (induction parts arbitrary: t acc)
  case Nil
  then have "split_char CHR ''{'' t = None" by (simp add: template_parts_def template_text_simps split_char_None)
  with Nil show ?case
    by (simp add: substitute_loop.simps [of vs acc tail] template_parts_def template_text_simps filled_def)
next
  case (Cons part parts)
  obtain l f where p: "part = (l, f)" by (cases part)
  from Cons.prems have t: "t = l @ CHR ''{'' # f @ CHR ''}'' # template_text parts tail"
    and lf: "CHR ''{'' \<notin> set l" "field_ok f" and rest: "template_parts (template_text parts tail) parts tail"
    by (auto simp: template_parts_def p template_text_simps)
  show ?case
    unfolding substitute_loop.simps [of vs acc t] unfolding t split_field [OF lf]
    using Cons.IH [OF rest] by (auto simp: p filled_def split_field(2) [OF lf] split: option.splits)
qed


text \<open>A closing brace before the first field or between fields is not noticed, though one after the
  last field is refused: the literal before a field is never searched for it.\<close>

lemma stray_closing_brace_accepted:
  "validate_template_syntax ''}{x}'' = Inr ()"
  "validate_template_syntax ''{x}}'' = Inl ''template contains an unmatched closing brace''"
  by (simp_all add: validate_template_syntax.simps field_ok_def field_byte_def is_ascii_alphanumeric_def
      is_ascii_lowercase_def is_ascii_uppercase_def is_ascii_digit_def byte_def)

end
