(* ===== verification/Nostr_Client.thy ===== *)
theory Nostr_Client
  imports Config
begin

text \<open>
  The Nostr client, \<open>src/src/nostr.rs\<close>: the checks of a signed event, signing through the NIP-46
  bunker and publication, each by running the external program \<open>nak\<close>. A run of \<open>nak\<close> is a
  parameter: from its arguments, its input and the signer environment to what it printed, or \<open>None\<close>
  when it could not be started, did not finish in time or its pipes failed.
\<close>

record nostr_event =
  ne_id :: string
  ne_pubkey :: string
  ne_created_at :: u64
  ne_kind :: u64
  ne_tags :: "string list list"
  ne_content :: string
  ne_sig :: string

record nak_output =
  no_success :: bool
  no_stdout :: string
  no_stderr :: string

type_synonym nak_program = "string list \<Rightarrow> string \<Rightarrow> (string \<times> string) option \<Rightarrow> nak_output option"

record nostr_codec =
  nx_print_json :: "json \<Rightarrow> string"
  nx_print_event :: "nostr_event \<Rightarrow> string"
  nx_parse_event :: "string \<Rightarrow> nostr_event option"
  nx_utf8 :: "string \<Rightarrow> bool"
  nx_bunker_uri :: "string \<Rightarrow> string list \<Rightarrow> string option"
  nx_create_dir :: "string \<Rightarrow> bool"

record nak_client =
  nk_path :: string
  nk_config_path :: string
  nk_bunker_uri :: string
  nk_project_pubkey :: string
  nk_client_key :: string
  nk_relays :: "string list"

definition MAX_NAK_INPUT :: nat where "MAX_NAK_INPUT = 64 * 1024"
definition MAX_NAK_STDOUT :: nat where "MAX_NAK_STDOUT = 64 * 1024"
definition MAX_NAK_STDERR :: nat where "MAX_NAK_STDERR = 8 * 1024"
definition PUBLISH_DUMMY_SECRET :: string where "PUBLISH_DUMMY_SECRET = ''01''"

definition nak_client_new :: "nostr_codec \<Rightarrow> nostr_config \<Rightarrow> string \<Rightarrow> nak_client fallible" where
  "nak_client_new codec c client_key =
     (if trim client_key = [] then Inl ''NIP-46 client key is empty''
      else andthen (ok_or ''failed constructing NIP-46 bunker URL''
        (nx_bunker_uri codec (nc_bunker_pubkey c) (nc_relays c))) (\<lambda>uri.
      Inr \<lparr>nk_path = nc_nak_path c, nk_config_path = nc_nak_config_path c, nk_bunker_uri = uri,
           nk_project_pubkey = to_ascii_lowercase (nc_bunker_pubkey c), nk_client_key = client_key,
           nk_relays = nc_relays c\<rparr>))"

section \<open>Checks\<close>

definition validate_hex :: "string \<Rightarrow> nat \<Rightarrow> unit fallible" where
  "validate_hex v expected_len =
     (if length v \<noteq> expected_len \<or> \<not> list_all is_ascii_hexdigit v
      then Inl ''is not valid hexadecimal'' else Inr ())"

definition validate_signed_event :: "nostr_event \<Rightarrow> string \<Rightarrow> unit fallible" where
  "validate_signed_event event expected_pubkey =
     (if ne_pubkey event \<noteq> expected_pubkey
      then Inl ''signed Nostr event pubkey does not match configured Lightning Goats identity''
      else andthen (validate_hex (ne_id event) 64) (\<lambda>_.
      andthen (validate_hex (ne_pubkey event) 64) (\<lambda>_.
      andthen (validate_hex (ne_sig event) 128) (\<lambda>_.
      if ne_created_at event = 0 then Inl ''signed Nostr event has zero created_at''
      else if ne_kind event \<noteq> 1 then Inl ''unexpected signed Nostr event kind''
      else Inr ()))))"

section \<open>Running \<open>nak\<close>\<close>

text \<open>\<open>read_bounded\<close> refuses more than \<open>limit\<close> bytes; both pipes are read before the exit status is
  looked at.\<close>

definition read_bounded :: "nat \<Rightarrow> string \<Rightarrow> string fallible" where
  "read_bounded limit bytes =
     (if limit < length bytes then Inl ''nak output exceeds its limit'' else Inr bytes)"

definition run_nak ::
  "nostr_codec \<Rightarrow> nak_program \<Rightarrow> string list \<Rightarrow> string \<Rightarrow> (string \<times> string) option \<Rightarrow> string fallible" where
  "run_nak codec nak args stdin_text signer =
     (if MAX_NAK_INPUT < length stdin_text then Inl ''nak input exceeds its limit''
      else andthen (ok_or ''nak operation failed'' (nak args (stdin_text @ [CHR 0x0A]) signer)) (\<lambda>output.
      andthen (read_bounded MAX_NAK_STDOUT (no_stdout output)) (\<lambda>stdout.
      andthen (read_bounded MAX_NAK_STDERR (no_stderr output)) (\<lambda>_.
      if \<not> no_success output then Inl ''nak exited with an error; subprocess stderr withheld''
      else if \<not> nx_utf8 codec stdout then Inl ''nak stdout was not UTF-8''
      else Inr stdout))))"

definition verify_event ::
  "nostr_codec \<Rightarrow> nak_program \<Rightarrow> nak_client \<Rightarrow> nostr_event \<Rightarrow> unit fallible" where
  "verify_event codec nak c event =
     andthen (validate_signed_event event (nk_project_pubkey c)) (\<lambda>_.
     andthen (run_nak codec nak [''verify''] (nx_print_event codec event) None) (\<lambda>_. Inr ()))"

definition partial_event :: "string \<Rightarrow> string list list \<Rightarrow> json" where
  "partial_event content tags = JObj [(''kind'', JNum 1), (''content'', JStr content),
     (''tags'', JArr (map (\<lambda>tag. JArr (map JStr tag)) tags))]"

definition sign_kind1 ::
  "nostr_codec \<Rightarrow> nak_program \<Rightarrow> nak_client \<Rightarrow> string \<Rightarrow> string list list \<Rightarrow> nostr_event fallible" where
  "sign_kind1 codec nak c content tags =
     (if \<not> nx_create_dir codec (nk_config_path c)
      then Inl ''failed creating nak runtime config directory''
      else andthen (run_nak codec nak [''event''] (nx_print_json codec (partial_event content tags))
        (Some (nk_bunker_uri c, nk_client_key c))) (\<lambda>output.
      andthen (ok_or ''nak returned invalid signed Nostr event JSON'' (nx_parse_event codec (trim output))) (\<lambda>event.
      andthen (validate_signed_event event (nk_project_pubkey c)) (\<lambda>_.
      if ne_content event \<noteq> content \<or> ne_tags event \<noteq> tags
      then Inl ''signed Nostr event does not match requested content or tags''
      else andthen (verify_event codec nak c event) (\<lambda>_. Inr event)))))"

definition publish_signed ::
  "nostr_codec \<Rightarrow> nak_program \<Rightarrow> nak_client \<Rightarrow> nostr_event \<Rightarrow> unit fallible" where
  "publish_signed codec nak c event =
     andthen (validate_signed_event event (nk_project_pubkey c)) (\<lambda>_.
     andthen (verify_event codec nak c event) (\<lambda>_.
     andthen (run_nak codec nak ([''event'', ''--sec'', PUBLISH_DUMMY_SECRET] @ nk_relays c)
       (nx_print_event codec event) None) (\<lambda>output.
     andthen (ok_or ''nak returned invalid publication event JSON'' (nx_parse_event codec (trim output))) (\<lambda>echoed.
     if echoed \<noteq> event then Inl ''nak publication returned a different persisted event'' else Inr ()))))"

section \<open>What a success establishes\<close>

lemma validate_signed_Inr:
  "validate_signed_event event pubkey = Inr () \<longleftrightarrow>
     ne_pubkey event = pubkey \<and> length pubkey = 64 \<and> length (ne_id event) = 64 \<and> length (ne_sig event) = 128
     \<and> list_all is_ascii_hexdigit (ne_id event) \<and> list_all is_ascii_hexdigit pubkey
     \<and> list_all is_ascii_hexdigit (ne_sig event) \<and> ne_created_at event \<noteq> 0 \<and> ne_kind event = 1"
  by (auto simp: validate_signed_event_def validate_hex_def andthen_eq_Inr guard_Inr)

lemma sign_kind1_Inr:
  assumes "sign_kind1 codec nak c content tags = Inr event"
  shows "ne_content event = content" "ne_tags event = tags"
    "validate_signed_event event (nk_project_pubkey c) = Inr ()"
    "\<exists>output. nak [''verify''] (nx_print_event codec event @ [CHR 0x0A]) None = Some output \<and> no_success output"
  using assms by (auto simp: sign_kind1_def verify_event_def run_nak_def andthen_eq_Inr guard_Inr)

lemma publish_signed_Inr:
  assumes "publish_signed codec nak c event = Inr ()"
  shows "validate_signed_event event (nk_project_pubkey c) = Inr ()"
    "\<exists>output. nak ([''event'', ''--sec'', PUBLISH_DUMMY_SECRET] @ nk_relays c)
       (nx_print_event codec event @ [CHR 0x0A]) None = Some output \<and> no_success output
       \<and> nx_parse_event codec (trim (no_stdout output)) = Some event"
  using assms
  by (auto simp: publish_signed_def run_nak_def read_bounded_def andthen_eq_Inr guard_Inr)

end
