(* ===== verification/Messaging.thy ===== *)
theory Messaging
  imports Presentation Nostr_Client Ledger_Properties
begin

text \<open>
  The Nostr messages, \<open>src/src/messaging.rs\<close>: \<open>process_next_message\<close> turns the next durable event into
  a signed message in the outbox, and one turn of the publisher's loop publishes the oldest message.
  The endless loops are any runs of these steps. A step that fails changes nothing, so it returns its
  error alone.
\<close>

datatype message_step =
    Message_idle
  | Publication_disabled u64
  | Non_public_skipped u64
  | Message_enqueued u64

datatype messaging_error = Message_ledger ledger_error | Message_failed string

record messaging_env =
  me_mode :: runtime_mode
  me_threshold :: u64
  me_sha256 :: "string \<Rightarrow> string"
  me_catalog :: template_catalog
  me_codec :: nostr_codec
  me_nak :: "nak_client option"

type_synonym 'a messaging_result = "messaging_error + 'a \<times> ledger_db"

abbreviation in_ledger :: "ledger_error + 'a \<Rightarrow> messaging_error + 'a" where
  "in_ledger \<equiv> map_err Message_ledger"

abbreviation in_messages :: "'a fallible \<Rightarrow> messaging_error + 'a" where
  "in_messages \<equiv> map_err Message_failed"

definition message_tags :: "string list list" where
  "message_tags = [[''t'', ''LightningGoats'']]"

definition process_next_message ::
  "messaging_env \<Rightarrow> nak_program \<Rightarrow> i64 \<Rightarrow> ledger_db \<Rightarrow> message_step messaging_result" where
  "process_next_message env nak now db =
     (if me_threshold env = 0 then Inl (Message_failed ''feeder threshold must be greater than zero'')
      else andthen (in_ledger (read_message_cursor db)) (\<lambda>cursor.
      andthen (in_ledger (events_after cursor 1 db)) (\<lambda>events.
      case events of
        [] \<Rightarrow> Inr (Message_idle, db)
      | event # _ \<Rightarrow>
          if \<not> nostr_enabled (me_mode env)
          then andthen (in_ledger (advance_message_cursor (de_seq event) db)) (\<lambda>(_, db').
            Inr (Publication_disabled (de_seq event), db'))
          else andthen (in_messages (render (me_sha256 env) (me_catalog env) event (me_threshold env))) (\<lambda>rendered.
          case rp_nostr_content rendered of
            None \<Rightarrow> andthen (in_ledger (advance_message_cursor (de_seq event) db)) (\<lambda>(_, db').
              Inr (Non_public_skipped (de_seq event), db'))
          | Some content \<Rightarrow>
              andthen (in_messages (ok_or ''active messaging requires a configured NIP-46 nak client''
                (me_nak env))) (\<lambda>c.
              andthen (in_messages (sign_kind1 (me_codec env) nak c content message_tags)) (\<lambda>signed.
              andthen (in_ledger (enqueue_signed_message now (de_seq event) (ne_id signed)
                (nx_print_event (me_codec env) signed) db)) (\<lambda>(_, db').
              Inr (Message_enqueued (de_seq event), db'))))))))"

text \<open>The pause of the endless loop after a step, in milliseconds; an error keeps the cursor.\<close>

definition processor_sleep :: "message_step messaging_result \<Rightarrow> nat" where
  "processor_sleep result = (case result of
     Inl _ \<Rightarrow> 5000 | Inr (step, _) \<Rightarrow> if step = Message_idle then 250 else 0)"

text \<open>\<open>publish_retry_delay\<close>, in seconds: \<open>min(1 << min(attempts, 5), 30)\<close>.\<close>

definition publish_retry_delay :: "u64 \<Rightarrow> nat" where
  "publish_retry_delay previous_attempts = min (2 ^ unat (min previous_attempts 5)) 30"

text \<open>
  One turn of the publisher: the outbox identity and the event it hands to \<open>nak\<close>, if any, and the
  sleep in milliseconds that follows.
\<close>

datatype publish_step = Publish_idle | Publish_invalid | Published | Publish_failed

definition publisher_sleep :: "publish_step \<Rightarrow> u64 \<Rightarrow> nat" where
  "publisher_sleep step attempts = (case step of
     Publish_idle \<Rightarrow> 500 | Published \<Rightarrow> 0
   | Publish_invalid \<Rightarrow> 1000 * publish_retry_delay attempts
   | Publish_failed \<Rightarrow> 1000 * publish_retry_delay attempts)"

definition publisher_step ::
  "nostr_codec \<Rightarrow> nak_client \<Rightarrow> nak_program \<Rightarrow> ledger_db
     \<Rightarrow> (string \<times> nostr_event) option \<times> publish_step messaging_result" where
  "publisher_step codec c nak db =
     (case next_outbox_entry db of
        Inl e \<Rightarrow> (None, Inl (Message_ledger e))
      | Inr None \<Rightarrow> (None, Inr (Publish_idle, db))
      | Inr (Some entry) \<Rightarrow>
          (case nx_parse_event codec (oe_signed_event_json entry) of
             None \<Rightarrow> (None, andthen (in_ledger (mark_outbox_failed (oe_event_id entry)
               ''invalid signed event JSON'' db)) (\<lambda>(_, db'). Inr (Publish_invalid, db')))
           | Some event \<Rightarrow> (Some (oe_event_id entry, event),
               case publish_signed codec nak c event of
                 Inr _ \<Rightarrow> andthen (in_ledger (mark_outbox_published (oe_event_id entry) db))
                   (\<lambda>(_, db'). Inr (Published, db'))
               | Inl message \<Rightarrow> andthen (in_ledger (mark_outbox_failed (oe_event_id entry) message db))
                   (\<lambda>(_, db'). Inr (Publish_failed, db')))))"

section \<open>Runs\<close>

text \<open>Messages are processed and published in any order, between any other transactions of the
  ledger.\<close>

inductive messaging_step :: "messaging_env \<Rightarrow> ledger_db \<Rightarrow> ledger_db \<Rightarrow> bool" for env where
  process: "process_next_message env nak now db = Inr (step, db') \<Longrightarrow> messaging_step env db db'"
| publish: "publisher_step (me_codec env) c nak db = (attempt, Inr (step', db')) \<Longrightarrow>
     messaging_step env db db'"
| other: "ledger_step db db' \<Longrightarrow> message_outbox db' = message_outbox db \<Longrightarrow>
     message_cursor db' = message_cursor db \<Longrightarrow> messaging_step env db db'"

definition public_event :: "messaging_env \<Rightarrow> event_row \<Rightarrow> string \<Rightarrow> bool" where
  "public_event env e content \<longleftrightarrow> nostr_enabled (me_mode env)
     \<and> (\<exists>p. render (me_sha256 env) (me_catalog env) (event_of_row e) (me_threshold env) = Inr p
          \<and> rp_nostr_content p = Some content)"

text \<open>An outbox row that holds the signed message of one event of the log.\<close>

definition faithful_row :: "messaging_env \<Rightarrow> event_row list \<Rightarrow> outbox_row \<Rightarrow> bool" where
  "faithful_row env events row \<longleftrightarrow>
     (\<exists>e \<in> set events. ev_seq e = ob_source_event_seq row
        \<and> (\<exists>content signed c. public_event env e content \<and> me_nak env = Some c
             \<and> ob_signed_event_json row = nx_print_event (me_codec env) signed
             \<and> ob_event_id row = ne_id signed
             \<and> ne_content signed = content \<and> ne_tags signed = message_tags
             \<and> validate_signed_event signed (nk_project_pubkey c) = Inr ()))"

definition messaging_inv :: "messaging_env \<Rightarrow> ledger_db \<Rightarrow> bool" where
  "messaging_inv env db \<longleftrightarrow> outbox_inv db \<and> message_cursor db \<le> int (length (event_log db))
     \<and> (\<forall>row \<in> set (message_outbox db). faithful_row env (event_log db) row)
     \<and> (\<forall>e \<in> set (event_log db). ev_seq e \<le> message_cursor db \<longrightarrow> (\<exists>content. public_event env e content) \<longrightarrow>
          (\<exists>row \<in> set (message_outbox db). ob_source_event_seq row = ev_seq e))"

lemma process_cases:
  assumes "process_next_message env nak now db = Inr (step, db')"
  obtains
    (idle) "db' = db"
  | (advance) event rest cursor where "read_message_cursor db = Inr cursor"
      "events_after cursor 1 db = Inr (event # rest)"
      "advance_message_cursor (de_seq event) db = Inr ((), db')"
      "\<not> nostr_enabled (me_mode env) \<or> (\<exists>p. render (me_sha256 env) (me_catalog env) event (me_threshold env) = Inr p
         \<and> rp_nostr_content p = None)"
  | (enqueue) event rest cursor p content c signed where "read_message_cursor db = Inr cursor"
      "events_after cursor 1 db = Inr (event # rest)" "nostr_enabled (me_mode env)"
      "render (me_sha256 env) (me_catalog env) event (me_threshold env) = Inr p"
      "rp_nostr_content p = Some content" "me_nak env = Some c"
      "sign_kind1 (me_codec env) nak c content message_tags = Inr signed"
      "enqueue_signed_message now (de_seq event) (ne_id signed) (nx_print_event (me_codec env) signed) db
         = Inr ((), db')"
proof -
  from assms obtain cursor events where c: "read_message_cursor db = Inr cursor"
    "events_after cursor 1 db = Inr events"
    and rest: "(case events of
        [] \<Rightarrow> Inr (Message_idle, db)
      | event # _ \<Rightarrow>
          if \<not> nostr_enabled (me_mode env)
          then andthen (in_ledger (advance_message_cursor (de_seq event) db)) (\<lambda>(_, db').
            Inr (Publication_disabled (de_seq event), db'))
          else andthen (in_messages (render (me_sha256 env) (me_catalog env) event (me_threshold env))) (\<lambda>rendered.
          case rp_nostr_content rendered of
            None \<Rightarrow> andthen (in_ledger (advance_message_cursor (de_seq event) db)) (\<lambda>(_, db').
              Inr (Non_public_skipped (de_seq event), db'))
          | Some content \<Rightarrow>
              andthen (in_messages (ok_or ''active messaging requires a configured NIP-46 nak client''
                (me_nak env))) (\<lambda>c.
              andthen (in_messages (sign_kind1 (me_codec env) nak c content message_tags)) (\<lambda>signed.
              andthen (in_ledger (enqueue_signed_message now (de_seq event) (ne_id signed)
                (nx_print_event (me_codec env) signed) db)) (\<lambda>(_, db').
              Inr (Message_enqueued (de_seq event), db'))))))
        = (Inr (step, db') :: message_step messaging_result)"
    by (auto simp: process_next_message_def andthen_eq_Inr split: if_splits)
  show thesis
  proof (cases events)
    case Nil
    with rest show thesis by (simp add: idle)
  next
    case (Cons event es)
    note e = c(2) [unfolded Cons]
    show thesis
    proof (cases "nostr_enabled (me_mode env)")
      case False
      with rest have "advance_message_cursor (de_seq event) db = Inr ((), db')"
        by (auto simp: Cons andthen_eq_Inr)
      with advance c(1) e False show thesis by blast
    next
      case True
      with rest obtain p where p: "render (me_sha256 env) (me_catalog env) event (me_threshold env) = Inr p"
        by (auto simp: Cons andthen_eq_Inr)
      show thesis
      proof (cases "rp_nostr_content p")
        case None
        with rest True p have "advance_message_cursor (de_seq event) db = Inr ((), db')"
          by (auto simp: Cons andthen_eq_Inr)
        with advance c(1) e p None show thesis by blast
      next
        case (Some content)
        with rest True p enqueue [OF c(1) e True p Some] show thesis
          by (auto simp: Cons andthen_eq_Inr)
      qed
    qed
  qed
qed

lemma publisher_cases:
  assumes "publisher_step codec c nak db = (attempt, Inr (step, db'))"
  obtains (idle) "db' = db" "attempt = None"
  | (failed) i e where "mark_outbox_failed i e db = Inr ((), db')"
  | (published) i where "mark_outbox_published i db = Inr ((), db')"
  using assms
  by (auto simp: publisher_step_def andthen_eq_Inr split: sum.splits option.splits)

lemma messaging_step_ledger: "messaging_step env db db' \<Longrightarrow> ledger_steps db db'"
proof (induction rule: messaging_step.induct)
  case (process nak now db step db')
  then show ?case
    by (cases rule: process_cases) (auto intro: ledger_step.cursor ledger_step.enqueue_message)
next
  case (publish c nak db attempt step' db')
  then show ?case
    by (cases rule: publisher_cases) (auto intro: ledger_step.failed ledger_step.published)
qed auto

end
