(* ===== verification/Sample_Codec.thy ===== *)
theory Sample_Codec
  imports Nostr_Client Strike_Amounts
begin

text \<open>
  A concrete text format for signed events, in place of serde_json, for the instances of theorems that
  rest on its round trip: a list is its elements, each after an \<open>x\<close>, closed by a full stop.
\<close>

definition write_list :: "('a \<Rightarrow> string) \<Rightarrow> 'a list \<Rightarrow> string" where
  "write_list w xs = concat (map (\<lambda>x. CHR ''x'' # w x) xs) @ ''.''"

fun read_list :: "(string \<Rightarrow> ('a \<times> string) option) \<Rightarrow> nat \<Rightarrow> string \<Rightarrow> ('a list \<times> string) option" where
  "read_list r 0 s = None"
| "read_list r (Suc n) [] = None"
| "read_list r (Suc n) (c # s) =
     (if c = CHR ''.'' then Some ([], s)
      else case r s of None \<Rightarrow> None
        | Some (x, t) \<Rightarrow> (case read_list r n t of None \<Rightarrow> None | Some (xs, u) \<Rightarrow> Some (x # xs, u)))"

definition reads :: "('a \<Rightarrow> string) \<Rightarrow> (string \<Rightarrow> ('a \<times> string) option) \<Rightarrow> bool" where
  "reads w r \<longleftrightarrow> (\<forall>x s. r (w x @ s) = Some (x, s))"

definition list_reader :: "(string \<Rightarrow> ('a \<times> string) option) \<Rightarrow> string \<Rightarrow> ('a list \<times> string) option" where
  "list_reader r s = read_list r (Suc (length s)) s"

lemma read_write_list:
  assumes "reads w r" and "length xs < n"
  shows "read_list r n (write_list w xs @ s) = Some (xs, s)"
  using assms(2)
proof (induction xs arbitrary: n)
  case Nil
  then show ?case by (cases n) (simp_all add: write_list_def)
next
  case (Cons x xs)
  then obtain m where n: "n = Suc m" "length xs < m" by (cases n) auto
  have "r (w x @ write_list w xs @ s) = Some (x, write_list w xs @ s)"
    using assms(1) by (simp add: reads_def)
  then show ?case using Cons.IH [OF n(2)] by (simp add: n(1) write_list_def)
qed

lemma length_write_list: "length xs < length (write_list w xs)"
  by (induction xs) (simp_all add: write_list_def)

lemma list_reads: "reads w r \<Longrightarrow> reads (write_list w) (list_reader r)"
proof -
  assume r: "reads w r"
  have "length xs < Suc (length (write_list w xs @ s))" for xs s
    using length_write_list [of xs w] by simp
  then show ?thesis using read_write_list [OF r] unfolding reads_def list_reader_def by blast
qed

definition write_char :: "char \<Rightarrow> string" where
  "write_char c = [c]"

definition read_char :: "string \<Rightarrow> (char \<times> string) option" where
  "read_char s = (case s of [] \<Rightarrow> None | c # t \<Rightarrow> Some (c, t))"

abbreviation write_text :: "string \<Rightarrow> string" where
  "write_text \<equiv> write_list write_char"

abbreviation read_text :: "string \<Rightarrow> (string \<times> string) option" where
  "read_text \<equiv> list_reader read_char"

definition write_tags :: "string list list \<Rightarrow> string" where
  "write_tags = write_list (write_list write_text)"

definition read_tags :: "string \<Rightarrow> (string list list \<times> string) option" where
  "read_tags = list_reader (list_reader read_text)"

lemma char_reads: "reads write_char read_char"
  by (simp add: reads_def write_char_def read_char_def)

lemma read_write_text [simp]: "read_text (write_text x @ s) = Some (x, s)"
  using list_reads [OF char_reads] by (simp add: reads_def)

lemma read_write_tags [simp]: "read_tags (write_tags x @ s) = Some (x, s)"
  using list_reads [OF list_reads [OF list_reads [OF char_reads]]]
  by (simp add: reads_def read_tags_def write_tags_def)

definition write_event :: "nostr_event \<Rightarrow> string" where
  "write_event e = write_text (ne_id e) @ write_text (ne_pubkey e) @ write_text (show_u64 (ne_created_at e))
     @ write_text (show_u64 (ne_kind e)) @ write_tags (ne_tags e) @ write_text (ne_content e)
     @ write_text (ne_sig e) @ ''.''"

definition read_event :: "string \<Rightarrow> nostr_event option" where
  "read_event s =
     Option.bind (read_text s) (\<lambda>(i, s1). Option.bind (read_text s1) (\<lambda>(p, s2).
     Option.bind (read_text s2) (\<lambda>(c, s3). Option.bind (read_text s3) (\<lambda>(k, s4).
     Option.bind (read_tags s4) (\<lambda>(ts, s5). Option.bind (read_text s5) (\<lambda>(t, s6).
     Option.bind (read_text s6) (\<lambda>(g, s7). Option.bind (parse_u64 c) (\<lambda>created.
     Option.bind (parse_u64 k) (\<lambda>kind.
       Some \<lparr>ne_id = i, ne_pubkey = p, ne_created_at = created, ne_kind = kind, ne_tags = ts,
         ne_content = t, ne_sig = g\<rparr>)))))))))"

lemma read_write_event [simp]: "read_event (write_event e) = Some e"
  by (simp add: read_event_def write_event_def)

lemma length_write_text: "length (write_text s) = 2 * length s + 1"
  by (induction s) (simp_all add: write_list_def write_char_def)

lemma trim_unspaced: "list_all unspaced s \<Longrightarrow> trim s = s"
proof -
  assume u: "list_all unspaced s"
  then have "list_all unspaced (rev s)" by (simp add: list_all_iff)
  with u show ?thesis
    by (simp add: trim_def unspaced_edges trim_start.simps [of s] trim_end_rev.simps [of "rev s"])
qed

lemma unspaced_write_list:
  "(\<forall>x \<in> set xs. list_all unspaced (w x)) \<Longrightarrow> list_all unspaced (write_list w xs)"
  by (induction xs) (auto simp: write_list_def unspaced_def space1_def byte_def)

lemma unspaced_text: "list_all unspaced s \<Longrightarrow> list_all unspaced (write_text s)"
  by (rule unspaced_write_list) (simp add: write_char_def list_all_iff)

end
