(* ===== verification/Sample_Event.thy ===== *)
theory Sample_Event
  imports Presentation Ledger_Properties
begin

text \<open>The event of a sample payment, shared by the witnesses on the readers of the event log.\<close>

definition sample_catalog :: template_catalog where
  "sample_catalog = \<lparr>tc_sats_received = [''hi''], tc_feeder_trigger = [], tc_interface_info = []\<rparr>"

lemma paid_tables:
  "message_cursor paid_db = 0" "message_outbox paid_db = []"
  "event_log paid_db = [received_event sample_payment empty_db]"
  by (simp_all add: paid_db_def posted_tables) (simp_all add: posted_def logged_def Let_def empty_db_def)

lemma sample_event_row:
  "event_of_row (received_event sample_payment empty_db) =
     \<lparr>de_seq = 1, de_event_type = ''payment_received'',
      de_payload_json = ev_payload (received_event sample_payment empty_db)\<rparr>"
  by (simp add: event_of_row_def received_event_def next_id_def empty_db_def)

lemma sample_renders:
  "\<exists>p. render (\<lambda>_. []) sample_catalog
     (event_of_row (received_event sample_payment empty_db)) 1000 = Inr p
     \<and> rp_nostr_content p = Some ''hi''"
proof -
  have u: "required_u64 [a, b, c, d, e, (''amount_sats'', JU64 x), (''feed_credit_sats'', JU64 y)] ''amount_sats'' = Inr x"
    if "fst ` {a, b, c, d, e} \<inter> {''amount_sats''} = {}" for a b c d e x y
    using that uint_bounded [of x] by (cases a; cases b; cases c; cases d; cases e)
      (auto simp: required_u64_def JU64_def)
  have v: "required_u64 [a, b, c, d, e, (''amount_sats'', JU64 x), (''feed_credit_sats'', JU64 y)] ''feed_credit_sats'' = Inr y"
    if "fst ` {a, b, c, d, e} \<inter> {''feed_credit_sats''} = {}" for a b c d e x y
    using that uint_bounded [of y] by (cases a; cases b; cases c; cases d; cases e)
      (auto simp: required_u64_def JU64_def)
  have s: "safe_substitute ''hi'' vs = Inr ''hi''" for vs
    by (simp add: safe_substitute_def validate_template_syntax.simps substitute_loop.simps)
  show ?thesis
    by (simp add: render_def event_of_row_def received_event_def render_payment_def u v Let_def
        select_template_def stable_index_def sample_catalog_def s)
qed

end
