(* ===== verification/Log_Growth.thy ===== *)
theory Log_Growth
  imports Ledger_Properties
begin

text \<open>
  The event log is append-only: whatever the ledger does, its rows and their order stay and new rows
  come at the end. The readers of the log (messages and overlay) rest on this.
\<close>

definition log_grows :: "ledger_db \<Rightarrow> ledger_db \<Rightarrow> bool" where
  "log_grows db db' \<longleftrightarrow> (\<exists>es. event_log db' = event_log db @ es)"

lemma log_grows_refl: "event_log db' = event_log db \<Longrightarrow> log_grows db db'"
  by (simp add: log_grows_def)

lemma log_grows_trans: "log_grows a b \<Longrightarrow> log_grows b c \<Longrightarrow> log_grows a c"
  by (auto simp: log_grows_def)

lemma money_grows: "money_tables db' = money_tables db \<Longrightarrow> log_grows db db'"
  by (simp add: money_tables_def log_grows_def)

lemma feed_write_grows: "feed_write db db' \<Longrightarrow> log_grows db db'"
  by (auto simp: feed_write_def log_grows_def)

lemma credit_write_grows: "credit_write db db' \<Longrightarrow> log_grows db db'"
  using credit_write_posts by (fastforce simp: log_posts_def log_grows_def)

lemma credit_writes_grow: "credit_write\<^sup>*\<^sup>* db db' \<Longrightarrow> log_grows db db'"
  by (induction rule: rtranclp_induct)
    (auto intro: log_grows_refl log_grows_trans credit_write_grows)

lemma register_grows: "register_xmr_intent_in_transaction intent db = Inr db' \<Longrightarrow> log_grows db db'"
  using register_write credit_write_grows log_grows_refl by blast

lemma bind_grows:
  assumes "bind_xmr_quote q intent now db = Inr (u, db')"
  shows "log_grows db db'"
proof (rule bind_xmr_quote_cases [OF assms])
  fix db1 db2
  assume 1: "check_clock now db = Inr db1"
    and 2: "db2 = db1 \<or> (\<exists>db3 bs. register_xmr_intent_in_transaction intent db1 = Inr db3
       \<and> db2 = db3\<lparr>xmr_quote_bindings := bs\<rparr>)"
    and 3: "register_xmr_intent_in_transaction intent db2 = Inr db'"
  have "log_grows db db1" using 1 by (auto simp: check_clock_Inr log_grows_def)
  moreover have "log_grows db1 db2" using 2 register_grows by (fastforce simp: log_grows_def)
  ultimately show ?thesis using register_grows [OF 3] log_grows_trans by blast
qed

lemmas step_grows =
  feed_writes [THEN feed_write_grows] bind_grows advance_money [THEN money_grows]
  enqueue_money [THEN money_grows] mark_money [THEN money_grows]
  strike_request_money [THEN money_grows] inbox_money [THEN money_grows]
  admission_money [THEN money_grows] quote_money [THEN money_grows]

lemma resolve_grows:
  assumes "resolve_as_fed aid st now db = Inr (u, db')" "ledger_inv_all db"
    "st = St_intent_committed \<or> st = St_unknown"
  shows "log_grows db db'"
  using feed_write_grows [OF resolve_as_fed_write [OF assms(1) _ assms(3)]] assms(2)
  by (simp add: ledger_inv_all_def)

lemma ledger_step_grows: "ledger_step db db' \<Longrightarrow> ledger_inv_all db \<Longrightarrow> log_grows db db'"
proof (induction rule: ledger_step.induct)
  case (payment parse_json p db out db')
  from payment(1,3,2) show ?case
    by (cases rule: record_payment_cases) (auto simp: log_grows_def posted_tables)
next
  case (register intent db u db')
  then show ?case using register_grows by (auto simp: register_xmr_credit_intent_def res_simps)
next
  case (hold i db u db')
  then show ?case
    by (auto simp: hold_xmr_credit_intent_def set_hold_def log_grows_def split: if_splits)
next
  case (receipt i ob db res db')
  then show ?case
    using credit_writes_grow record_xmr_receipt_writes by (auto simp: ledger_inv_all_def)
next
  case (confirm aid now db u db')
  then show ?case unfolding confirm_feed_attempt_def using resolve_grows by blast
next
  case (reconcile_fed aid now db u db')
  then show ?case unfolding db_reconcile_unknown_as_fed_def using resolve_grows by blast
next
  case (overlay_reset fresh db id' db')
  then show ?case by (auto simp: reset_overlay_stream_def log_grows_def)
next
  case (overlay_id fresh db id' db')
  then show ?case by (auto simp: overlay_stream_id_def log_grows_def split: option.splits)
qed (rule step_grows, assumption)+

lemma ledger_steps_grow: "ledger_steps db db' \<Longrightarrow> ledger_inv_all db \<Longrightarrow> log_grows db db'"
proof (induction rule: rtranclp_induct)
  case base
  show ?case by (simp add: log_grows_def)
next
  case (step y z)
  then show ?case using ledger_steps_all ledger_step_grows log_grows_trans by blast
qed

text \<open>A state on the way to \<open>final\<close>, whose log fits the 64-bit key.\<close>

definition on_the_way :: "ledger_db \<Rightarrow> ledger_db \<Rightarrow> bool" where
  "on_the_way final db \<longleftrightarrow> ledger_steps empty_db db \<and> ledger_steps db final"

lemma on_the_way_log:
  assumes "on_the_way final db" "int (length (event_log final)) \<le> i64_max"
  shows "log_inv db" "\<exists>es. event_log final = event_log db @ es" "ledger_inv_all db"
proof -
  show inv: "ledger_inv_all db" using assms(1) reachable_inv by (simp add: on_the_way_def)
  show "\<exists>es. event_log final = event_log db @ es"
    using assms(1) ledger_steps_grow [OF _ inv] by (simp add: on_the_way_def log_grows_def)
  then have "length (event_log db) \<le> length (event_log final)" by auto
  then show "log_inv db" using inv assms(2) by (simp add: log_inv_def ledger_inv_all_def)
qed

lemma on_the_way_trans:
  "on_the_way final db \<Longrightarrow> ledger_steps db db' \<Longrightarrow> ledger_steps db' final \<Longrightarrow> on_the_way final db'"
  unfolding on_the_way_def by (meson rtranclp_trans)

end
