(* ===== verification/Messaging_Properties.thy ===== *)
theory Messaging_Properties
  imports Messaging Sample_Codec Sample_Event Log_Growth
begin

text \<open>
  What the Nostr messages of a run are: the outbox holds, in the order of the log, exactly one signed
  message for each public event the cursor has passed, with the rendered content under the
  project's key; publication hands out the oldest stored message and never one it has published.
\<close>

section \<open>The next event\<close>

lemma next_event:
  assumes "events_contiguous db" "outbox_inv db" "read_message_cursor db = Inr cursor"
    and "events_after cursor 1 db = Inr (event # rest)"
  obtains e where "e \<in> set (event_log db)" "event = event_of_row e" "ev_seq e = message_cursor db + 1"
    "uint cursor = message_cursor db" "message_cursor db + 1 \<le> int (length (event_log db))"
proof -
  have c: "uint cursor = message_cursor db" "uint cursor \<le> i64_max"
    using assms(2,3) by (auto simp: read_message_cursor_def to_u64_def u64_of_i64_Some outbox_inv_def
        uint_word_of_int_i64)
  let ?n = "unat cursor"
  have "event # rest = map event_of_row (take (clamp_limit 1) (drop ?n (event_log db)))"
    using assms(4) events_after_eq [OF assms(1) c(2), of 1] by simp
  then obtain e es where d: "drop ?n (event_log db) = e # es" and ev: "event = event_of_row e"
    by (cases "drop ?n (event_log db)") (auto simp: clamp_limit_def)
  have n: "?n < length (event_log db)" and e: "e = event_log db ! ?n"
    using d by (metis drop_all list.distinct(1) not_less) (metis d nth_via_drop)
  have "ev_seq e = int ?n + 1" unfolding e by (rule nth_contiguous [OF assms(1) n])
  moreover have i: "int ?n = message_cursor db" using c(1) by simp
  moreover have "message_cursor db + 1 \<le> int (length (event_log db))" using n i by linarith
  ultimately show thesis using that [of e] n e ev c(1) by simp
qed

section \<open>The invariant\<close>

lemma faithful_mono:
  "faithful_row env events row \<Longrightarrow> set events \<subseteq> set events' \<Longrightarrow> faithful_row env events' row"
  unfolding faithful_row_def by blast

lemma messaging_inv_empty: "messaging_inv env empty_db"
  by (simp add: messaging_inv_def outbox_inv_empty) (simp add: empty_db_def)

text \<open>Steps that move neither the cursor nor the outbox keep the invariant as the log grows.\<close>

lemma messaging_inv_other:
  assumes "messaging_inv env db" "message_outbox db' = message_outbox db"
    "message_cursor db' = message_cursor db" "log_grows db db'" "events_contiguous db'"
  shows "messaging_inv env db'"
proof -
  obtain es where g: "event_log db' = event_log db @ es" using assms(4) by (auto simp: log_grows_def)
  have old: "e \<in> set (event_log db)"
    if e: "e \<in> set (event_log db')" and le: "ev_seq e \<le> message_cursor db" for e
  proof -
    obtain i where i: "i < length (event_log db')" "e = event_log db' ! i"
      using e unfolding in_set_conv_nth by blast
    have "ev_seq e = int i + 1" unfolding i(2) by (rule nth_contiguous [OF assms(5) i(1)])
    with le assms(1) have "i < length (event_log db)" by (simp add: messaging_inv_def)
    then show ?thesis using i g by (auto simp: nth_append)
  qed
  have sub: "set (event_log db) \<subseteq> set (event_log db')" by (simp add: g)
  have "\<exists>row \<in> set (message_outbox db'). ob_source_event_seq row = ev_seq e"
    if "e \<in> set (event_log db')" "ev_seq e \<le> message_cursor db'" "public_event env e content" for e content
    using that assms(1-3) old [OF that(1)] unfolding messaging_inv_def by (metis (no_types))
  moreover have "\<forall>row \<in> set (message_outbox db'). faithful_row env (event_log db') row"
    using assms(1,2) faithful_mono [OF _ sub] by (simp add: messaging_inv_def)
  ultimately show ?thesis
    using assms(1-3) outbox_inv_cong [of db' db] by (auto simp: messaging_inv_def g)
qed

lemma update_rows_inv:
  assumes "messaging_inv env db" "outbox_inv db'" "message_cursor db' = message_cursor db"
    "event_log db' = event_log db"
    and rows: "message_outbox db' = update_where p f (message_outbox db)"
    and f: "\<And>r. ob_source_event_seq (f r) = ob_source_event_seq r" "\<And>r. ob_event_id (f r) = ob_event_id r"
      "\<And>r. ob_signed_event_json (f r) = ob_signed_event_json r"
  shows "messaging_inv env db'"
proof -
  have "faithful_row env (event_log db) row" if r: "row \<in> set (message_outbox db')" for row
  proof -
    obtain r0 where "r0 \<in> set (message_outbox db)" "row = r0 \<or> row = f r0"
      using r by (auto simp: rows update_where_def)
    then show ?thesis using assms(1) f by (auto simp: messaging_inv_def faithful_row_def)
  qed
  moreover have "map ob_source_event_seq (message_outbox db') = map ob_source_event_seq (message_outbox db)"
    by (simp add: rows update_where_def f)
  then have "ob_source_event_seq ` set (message_outbox db') = ob_source_event_seq ` set (message_outbox db)"
    by (metis set_map)
  then have "(\<exists>row \<in> set (message_outbox db'). ob_source_event_seq row = n)
      \<longleftrightarrow> (\<exists>row \<in> set (message_outbox db). ob_source_event_seq row = n)" for n
    by (simp only: bex_key)
  ultimately show ?thesis using assms(1-4) by (simp add: messaging_inv_def)
qed

lemma mark_rows_inv:
  assumes "mark_outbox i f db = Inr (u, db')" "messaging_inv env db" "outbox_inv db'"
    and "\<And>r. ob_source_event_seq (f r) = ob_source_event_seq r" "\<And>r. ob_event_id (f r) = ob_event_id r"
      "\<And>r. ob_signed_event_json (f r) = ob_signed_event_json r"
  shows "messaging_inv env db'"
proof -
  have u: "message_outbox db' = update_where (\<lambda>r. ob_event_id r = i \<and> publishable r) f (message_outbox db)"
    "message_cursor db' = message_cursor db" "event_log db' = event_log db"
    using assms(1) by (auto simp: mark_outbox_def Let_def split: if_splits)
  show ?thesis by (rule update_rows_inv [OF assms(2,3) u(2,3,1)]) (rule assms)+
qed

lemma published_rows_inv:
  assumes "mark_outbox_published i db = Inr (u, db')" "messaging_inv env db"
  shows "messaging_inv env db'"
proof -
  have "outbox_inv db'" using mark_published_inv [OF assms(1)] assms(2) by (simp add: messaging_inv_def)
  from mark_rows_inv [OF assms(1) [unfolded mark_outbox_published_def] assms(2) this] show ?thesis by simp
qed

lemma failed_rows_inv:
  assumes "mark_outbox_failed i e db = Inr (u, db')" "messaging_inv env db"
  shows "messaging_inv env db'"
proof -
  have "outbox_inv db'" using mark_failed_inv [OF assms(1)] assms(2) by (simp add: messaging_inv_def)
  from mark_rows_inv [OF assms(1) [unfolded mark_outbox_failed_def] assms(2) this] show ?thesis by simp
qed

lemma uint_below: "0 \<le> n \<Longrightarrow> n < 2 ^ 64 \<Longrightarrow> uint (word_of_int n :: u64) = n"
  by (simp add: uint_word_of_int)

lemma covered_below:
  assumes "events_contiguous db" "e \<in> set (event_log db)" "e' \<in> set (event_log db)" "ev_seq e = ev_seq e'"
  shows "e = e'"
proof -
  have "distinct (map ev_seq (event_log db))" using assms(1) by (simp add: events_contiguous_def)
  with assms(2-4) show ?thesis by (simp add: distinct_map inj_on_def)
qed

lemma process_inv:
  assumes "process_next_message env nak now db = Inr (step, db')" "messaging_inv env db"
    and contiguous: "events_contiguous db"
  shows "messaging_inv env db'"
  using assms(1)
proof (cases rule: process_cases)
  case idle
  then show ?thesis using assms(2) by simp
next
  case (advance event rest cursor)
  have o: "outbox_inv db" using assms(2) by (simp add: messaging_inv_def)
  obtain e where e: "e \<in> set (event_log db)" "event = event_of_row e" "ev_seq e = message_cursor db + 1"
    "message_cursor db + 1 \<le> int (length (event_log db))"
    using next_event [OF contiguous o advance(1,2)] .
  have quiet: "\<not> public_event env e content" for content
    using advance(4) e(2) by (auto simp: public_event_def)
  have o': "outbox_inv db'" using advance_outbox_inv [OF advance(3) o] .
  have s: "uint (de_seq event) \<le> i64_max" using advance(3)
    by (auto simp: advance_message_cursor_def andthen_eq_Inr to_i64_Inr)
  have "0 \<le> message_cursor db" "message_cursor db \<le> i64_max" using o by (simp_all add: outbox_inv_def)
  then have "uint (word_of_int (message_cursor db + 1) :: u64) = message_cursor db + 1"
    by (intro uint_below) (simp_all add: i64_max_def)
  then have "uint (de_seq event) = message_cursor db + 1" by (simp add: e(2,3) event_of_row_def)
  then have db': "db' = db\<lparr>message_cursor := message_cursor db + 1\<rparr>"
    using advance(3) by (auto simp: advance_message_cursor_def andthen_eq_Inr to_i64_Inr Let_def)
  have "\<exists>row \<in> set (message_outbox db). ob_source_event_seq row = ev_seq e'"
    if "e' \<in> set (event_log db)" "ev_seq e' \<le> message_cursor db + 1" "public_event env e' content" for e' content
  proof -
    have "ev_seq e' \<noteq> message_cursor db + 1"
      using covered_below [OF contiguous that(1) e(1)] e(3) quiet that(3) by metis
    then have "ev_seq e' \<le> message_cursor db" using that(2) by simp
    then show ?thesis using assms(2) that(1,3) unfolding messaging_inv_def by blast
  qed
  then show ?thesis using assms(2) o' e(4) by (auto simp: messaging_inv_def db')
next
  case (enqueue event rest cursor p content c signed)
  have o: "outbox_inv db" using assms(2) by (simp add: messaging_inv_def)
  obtain e where e: "e \<in> set (event_log db)" "event = event_of_row e" "ev_seq e = message_cursor db + 1"
    "message_cursor db + 1 \<le> int (length (event_log db))"
    using next_event [OF contiguous o enqueue(1,2)] .
  have public: "public_event env e content" using enqueue(3-5) e(2) by (auto simp: public_event_def)
  have o': "outbox_inv db'" using enqueue_outbox_inv [OF enqueue(8) o] .
  have "0 \<le> message_cursor db" "message_cursor db \<le> i64_max" using o by (simp_all add: outbox_inv_def)
  then have "uint (word_of_int (message_cursor db + 1) :: u64) = message_cursor db + 1"
    by (intro uint_below) (simp_all add: i64_max_def)
  then have seq: "uint (de_seq event) = ev_seq e" by (simp add: e(2,3) event_of_row_def)
  let ?row = "\<lparr>ob_event_id = ne_id signed, ob_signed_event_json = nx_print_event (me_codec env) signed,
     ob_status = Ob_pending, ob_attempts = 0, ob_last_error = None, ob_created_at = now,
     ob_source_event_seq = ev_seq e\<rparr>"
  have db': "db' = db\<lparr>message_outbox := message_outbox db @ [?row], message_cursor := ev_seq e\<rparr>"
    using enqueue(8) by (simp add: enqueue_Inr seq)
  have row: "faithful_row env (event_log db) ?row"
    unfolding faithful_row_def
    using e(1) public enqueue(6) sign_kind1_Inr [OF enqueue(7)] by fastforce
  have "\<exists>row \<in> set (message_outbox db'). ob_source_event_seq row = ev_seq e'"
    if "e' \<in> set (event_log db)" "ev_seq e' \<le> ev_seq e" "public_event env e' content'" for e' content'
  proof (cases "ev_seq e' = ev_seq e")
    case True
    then show ?thesis by (simp add: db')
  next
    case False
    then have "ev_seq e' \<le> message_cursor db" using that(2) e(3) by simp
    then show ?thesis using assms(2) that(1,3) unfolding messaging_inv_def db' by fastforce
  qed
  then show ?thesis using assms(2) o' e(3,4) row by (auto simp: messaging_inv_def db')
qed

lemma publish_inv:
  assumes "publisher_step codec c nak db = (attempt, Inr (step, db'))" "messaging_inv env db"
  shows "messaging_inv env db'"
  using assms(1)
proof (cases rule: publisher_cases)
  case idle
  then show ?thesis using assms(2) by simp
next
  case (failed i e)
  then show ?thesis using failed_rows_inv assms(2) by blast
next
  case (published i)
  then show ?thesis using published_rows_inv assms(2) by blast
qed

lemma messaging_step_inv:
  "messaging_step env db db' \<Longrightarrow> messaging_inv env db \<Longrightarrow> ledger_inv_all db \<Longrightarrow> messaging_inv env db'"
proof (induction rule: messaging_step.induct)
  case (process nak now db step db')
  from process_inv [OF process(1,2)] process(3) show ?case by (simp add: ledger_inv_all_def)
next
  case (publish c nak db attempt step' db')
  from publish_inv [OF publish(1,2)] show ?case .
next
  case (other db db')
  have "events_contiguous db'" using ledger_step_all [OF other(1,5)] by (simp add: ledger_inv_all_def)
  from messaging_inv_other [OF other(4,2,3) ledger_step_grows [OF other(1,5)] this] show ?case .
qed

lemma messaging_run_inv:
  "(messaging_step env)\<^sup>*\<^sup>* empty_db db \<Longrightarrow> messaging_inv env db \<and> ledger_inv_all db"
proof (induction rule: rtranclp_induct)
  case base
  show ?case by (simp add: messaging_inv_empty ledger_inv_all_empty)
next
  case (step y z)
  then show ?case using messaging_step_inv messaging_step_ledger ledger_steps_all by blast
qed

section \<open>Properties\<close>

text \<open>
  C13: Every public event is announced exactly once, in order and faithfully. However processing,
  publication and all other transactions interleave from an empty ledger, the outbox is strictly
  ordered by event; each of its rows holds a validated event of the project's key whose content is
  what the renderer gives for that event of the log; every public event up to the cursor has its row,
  and the cursor never runs past the log. Outside the active mode the outbox stays empty.
\<close>

theorem messages_cover_the_log:
  assumes "(messaging_step env)\<^sup>*\<^sup>* empty_db db"
  shows "sorted_wrt (<) (map ob_source_event_seq (message_outbox db))
    \<and> (\<forall>row \<in> set (message_outbox db). faithful_row env (event_log db) row)
    \<and> (\<forall>e \<in> set (event_log db). ev_seq e \<le> message_cursor db \<longrightarrow> (\<exists>content. public_event env e content) \<longrightarrow>
         (\<exists>row \<in> set (message_outbox db). ob_source_event_seq row = ev_seq e))
    \<and> message_cursor db \<le> int (length (event_log db))
    \<and> (\<not> nostr_enabled (me_mode env) \<longrightarrow> message_outbox db = [])"
proof -
  have inv: "messaging_inv env db" using messaging_run_inv [OF assms] by simp
  have "message_outbox db = []" if "\<not> nostr_enabled (me_mode env)"
  proof -
    have "\<not> faithful_row env (event_log db) row" for row
      using that by (auto simp: faithful_row_def public_event_def)
    with inv have "set (message_outbox db) = {}" by (auto simp: messaging_inv_def)
    then show ?thesis by simp
  qed
  with inv show ?thesis by (auto simp: messaging_inv_def outbox_inv_def)
qed

text \<open>Rows keep their identity and, once published, their status.\<close>

definition published_row :: "string \<Rightarrow> ledger_db \<Rightarrow> bool" where
  "published_row i db \<longleftrightarrow> distinct (map ob_event_id (message_outbox db))
     \<and> (\<exists>row \<in> set (message_outbox db). ob_event_id row = i \<and> \<not> publishable row)"

lemma published_not_next:
  assumes "outbox_inv db" "published_row i db" "next_outbox_entry db = Inr (Some entry)"
  shows "oe_event_id entry \<noteq> i"
proof -
  obtain r where r: "find publishable (message_outbox db) = Some r" "oe_event_id entry = ob_event_id r"
    using assms(3) next_outbox_eq [OF assms(1)] by (auto split: option.splits)
  then have "r \<in> set (message_outbox db)" "publishable r" using find_Some_in by metis+
  with assms(2) show ?thesis unfolding published_row_def r(2) distinct_map by (auto dest: inj_onD)
qed

lemma publisher_attempt:
  assumes "publisher_step codec c nak db = (Some (i, event), out)"
  obtains entry where "next_outbox_entry db = Inr (Some entry)" "oe_event_id entry = i"
    "nx_parse_event codec (oe_signed_event_json entry) = Some event"
  using assms by (auto simp: publisher_step_def split: sum.splits option.splits)

lemma in_update_where:
  "r \<in> set rs \<Longrightarrow> p r \<Longrightarrow> f r \<in> set (update_where p f rs)"
  "r \<in> set rs \<Longrightarrow> \<not> p r \<Longrightarrow> r \<in> set (update_where p f rs)"
  by (force simp: update_where_def)+

lemma published_marked:
  assumes "mark_outbox_published i db = Inr (u, db')" "outbox_inv db"
  shows "published_row i db'"
proof -
  have db': "message_outbox db' = update_where (\<lambda>r. ob_event_id r = i \<and> publishable r)
      (\<lambda>r. r\<lparr>ob_status := Ob_published, ob_attempts := ob_attempts r + 1, ob_last_error := None\<rparr>)
      (message_outbox db)"
    and one: "count_where (\<lambda>r. ob_event_id r = i \<and> publishable r) (message_outbox db) = 1"
    using assms(1) by (auto simp: mark_outbox_published_def mark_outbox_def Let_def split: if_splits)
  have "\<exists>r \<in> set (message_outbox db). ob_event_id r = i \<and> publishable r"
    using one count_where_0 [of "\<lambda>r. ob_event_id r = i \<and> publishable r" "message_outbox db"] by linarith
  then obtain r where r: "r \<in> set (message_outbox db)" "ob_event_id r = i" "publishable r" by blast
  then have new: "r\<lparr>ob_status := Ob_published, ob_attempts := ob_attempts r + 1, ob_last_error := None\<rparr>
      \<in> set (message_outbox db')"
    unfolding db' by (intro in_update_where(1)) simp_all
  moreover have "distinct (map ob_event_id (message_outbox db'))"
    using mark_published_inv [OF assms] by (simp add: outbox_inv_def)
  ultimately show ?thesis
    unfolding published_row_def by (intro conjI bexI [OF _ new]) (simp_all add: r(2) publishable_def)
qed

lemma published_mark_kept:
  assumes "mark_outbox k f db = Inr (u, db')" "published_row i db"
    and "\<And>r. ob_event_id (f r) = ob_event_id r"
  shows "published_row i db'"
proof -
  have db': "message_outbox db' = update_where (\<lambda>r. ob_event_id r = k \<and> publishable r) f (message_outbox db)"
    using assms(1) by (auto simp: mark_outbox_def Let_def split: if_splits)
  have ids: "map ob_event_id (message_outbox db') = map ob_event_id (message_outbox db)"
    by (simp add: db' update_where_def assms(3))
  obtain row where row: "row \<in> set (message_outbox db)" "ob_event_id row = i" "\<not> publishable row"
    and d: "distinct (map ob_event_id (message_outbox db))"
    using assms(2) by (auto simp: published_row_def)
  have "row \<in> set (message_outbox db')" unfolding db' using row(1,3) by (intro in_update_where(2)) simp_all
  with row d ids show ?thesis unfolding published_row_def by metis
qed

lemma published_step:
  assumes "messaging_step env db db'" "published_row i db"
  shows "published_row i db'"
  using assms
proof (induction rule: messaging_step.induct)
  case (process nak now db step db')
  from process(1) show ?case
  proof (cases rule: process_cases)
    case (advance event rest cursor)
    then show ?thesis
      using process(2) by (auto simp: advance_message_cursor_def andthen_eq_Inr Let_def published_row_def
          split: if_splits)
  next
    case (enqueue event rest cursor p content c signed)
    then show ?thesis using process(2) by (auto simp: enqueue_Inr published_row_def)
  qed (use process in simp)
next
  case (publish c nak db attempt step' db')
  from publish(1) show ?case
    by (cases rule: publisher_cases)
      (use publish(2) published_mark_kept in \<open>auto simp: mark_outbox_published_def mark_outbox_failed_def\<close>)
next
  case (other db db')
  then show ?case by (simp add: published_row_def)
qed

lemma published_steps: "(messaging_step env)\<^sup>*\<^sup>* db db' \<Longrightarrow> published_row i db \<Longrightarrow> published_row i db'"
  by (induction rule: rtranclp_induct) (auto intro: published_step)

lemma published_outcome:
  assumes "publisher_step codec c nak db = (Some (i, event), Inr (Published, db'))"
  shows "publish_signed codec nak c event = Inr ()" "mark_outbox_published i db = Inr ((), db')"
  using assms by (auto simp: publisher_step_def andthen_eq_Inr split: sum.splits option.splits)

text \<open>The oldest row that is not published.\<close>

lemma next_is_oldest:
  assumes "outbox_inv db" "next_outbox_entry db = Inr (Some entry)"
  obtains row where "row \<in> set (message_outbox db)" "ob_event_id row = oe_event_id entry"
    "ob_signed_event_json row = oe_signed_event_json entry"
    "\<forall>r \<in> set (message_outbox db). ob_source_event_seq r < ob_source_event_seq row \<longrightarrow> \<not> publishable r"
proof -
  obtain row where f: "find publishable (message_outbox db) = Some row"
    and e: "oe_event_id entry = ob_event_id row" "oe_signed_event_json entry = ob_signed_event_json row"
    using assms(2) next_outbox_eq [OF assms(1)] by (auto split: option.splits)
  obtain k where k: "k < length (message_outbox db)" "row = message_outbox db ! k"
    "\<forall>j < k. \<not> publishable (message_outbox db ! j)"
    using f by (auto simp: find_Some_iff)
  have "\<not> publishable r" if r: "r \<in> set (message_outbox db)"
    and lt: "ob_source_event_seq r < ob_source_event_seq row" for r
  proof -
    obtain j where j: "j < length (message_outbox db)" "r = message_outbox db ! j"
      using r by (auto simp: in_set_conv_nth)
    have "\<not> k < j"
    proof
      assume "k < j"
      then have "ob_source_event_seq row < ob_source_event_seq r"
        using assms(1) j k sorted_wrt_nth_less [of "(<)" "map ob_source_event_seq (message_outbox db)" k j]
        by (simp add: outbox_inv_def)
      with lt show False by simp
    qed
    moreover have "j \<noteq> k" using lt j k by auto
    ultimately show ?thesis using k(3) j by simp
  qed
  moreover have "row \<in> set (message_outbox db)" using k(1,2) by simp
  ultimately show thesis by (intro that [of row]) (simp_all add: e)
qed

text \<open>
  C14: Publication is in order and final. What the publisher hands to nak is the stored event of the
  oldest message that is not published, signed under the project's key with the rendered content of
  its source event; and once a message is published, no later turn of the publisher hands it out again,
  whatever happens in between.
\<close>

theorem published_messages_are_not_resent:
  assumes codec: "\<forall>e. nx_parse_event (me_codec env) (nx_print_event (me_codec env) e) = Some e"
    and "(messaging_step env)\<^sup>*\<^sup>* empty_db db"
    and "publisher_step (me_codec env) c nak db = (Some (i, event), Inr (Published, db1))"
  shows "(\<forall>db2 c' nak' j event' out. (messaging_step env)\<^sup>*\<^sup>* db1 db2 \<longrightarrow>
         publisher_step (me_codec env) c' nak' db2 = (Some (j, event'), out) \<longrightarrow> j \<noteq> i)
    \<and> (\<exists>row \<in> set (message_outbox db). ob_event_id row = i \<and> ne_id event = i
         \<and> (\<exists>e \<in> set (event_log db). ev_seq e = ob_source_event_seq row \<and> public_event env e (ne_content event))
         \<and> (\<exists>k. me_nak env = Some k \<and> validate_signed_event event (nk_project_pubkey k) = Inr ())
         \<and> (\<forall>r \<in> set (message_outbox db).
              ob_source_event_seq r < ob_source_event_seq row \<longrightarrow> \<not> publishable r))"
proof -
  have inv: "messaging_inv env db" using messaging_run_inv [OF assms(2)] by simp
  then have o: "outbox_inv db" by (simp add: messaging_inv_def)
  have step: "messaging_step env db db1" by (rule messaging_step.publish [OF assms(3)])
  have fresh: "j \<noteq> i" if later: "(messaging_step env)\<^sup>*\<^sup>* db1 db2"
    and again: "publisher_step (me_codec env) c' nak' db2 = (Some (j, event'), out)" for db2 c' nak' j event' out
  proof -
    have "(messaging_step env)\<^sup>*\<^sup>* empty_db db2"
      using assms(2) later step by (meson converse_rtranclp_into_rtranclp rtranclp_trans)
    then have o2: "outbox_inv db2" using messaging_run_inv by (simp add: messaging_inv_def)
    have "published_row i db2"
      using published_steps [OF later published_marked [OF published_outcome(2) [OF assms(3)] o]] .
    then show ?thesis using publisher_attempt [OF again] published_not_next [OF o2] by metis
  qed
  obtain entry where entry: "next_outbox_entry db = Inr (Some entry)" "oe_event_id entry = i"
    "nx_parse_event (me_codec env) (oe_signed_event_json entry) = Some event"
    using publisher_attempt [OF assms(3)] .
  obtain row where row: "row \<in> set (message_outbox db)" "ob_event_id row = oe_event_id entry"
    "ob_signed_event_json row = oe_signed_event_json entry"
    "\<forall>r \<in> set (message_outbox db). ob_source_event_seq r < ob_source_event_seq row \<longrightarrow> \<not> publishable r"
    using next_is_oldest [OF o entry(1)] .
  have "faithful_row env (event_log db) row" using inv row(1) by (simp add: messaging_inv_def)
  then obtain e content signed k where f: "e \<in> set (event_log db)" "ev_seq e = ob_source_event_seq row"
    "public_event env e content" "me_nak env = Some k"
    "ob_signed_event_json row = nx_print_event (me_codec env) signed" "ob_event_id row = ne_id signed"
    "ne_content signed = content" "validate_signed_event signed (nk_project_pubkey k) = Inr ()"
    unfolding faithful_row_def by blast
  have "nx_parse_event (me_codec env) (nx_print_event (me_codec env) signed) = Some event"
    using entry(3) row(3) f(5) by simp
  then have "signed = event" using codec by simp
  with row f entry(2) have "\<exists>row \<in> set (message_outbox db). ob_event_id row = i \<and> ne_id event = i
         \<and> (\<exists>e \<in> set (event_log db). ev_seq e = ob_source_event_seq row \<and> public_event env e (ne_content event))
         \<and> (\<exists>k. me_nak env = Some k \<and> validate_signed_event event (nk_project_pubkey k) = Inr ())
         \<and> (\<forall>r \<in> set (message_outbox db).
              ob_source_event_seq r < ob_source_event_seq row \<longrightarrow> \<not> publishable r)" by auto
  with fresh show ?thesis by blast
qed

section \<open>A sample run\<close>

definition sample_signed :: nostr_event where
  "sample_signed = \<lparr>ne_id = replicate 64 CHR ''1'', ne_pubkey = replicate 64 CHR ''0'', ne_created_at = 1,
     ne_kind = 1, ne_tags = message_tags, ne_content = ''hi'', ne_sig = replicate 128 CHR ''2''\<rparr>"

definition sample_nak :: nak_client where
  "sample_nak = \<lparr>nk_path = ''/n'', nk_config_path = ''/c'', nk_bunker_uri = ''bunker://0'',
     nk_project_pubkey = replicate 64 CHR ''0'', nk_client_key = ''k'', nk_relays = []\<rparr>"

definition sample_program :: nak_program where
  "sample_program args input signer =
     Some \<lparr>no_success = True, no_stdout = write_event sample_signed, no_stderr = []\<rparr>"

definition sample_env :: messaging_env where
  "sample_env = \<lparr>me_mode = Active, me_threshold = 1000, me_sha256 = (\<lambda>_. []),
     me_catalog = sample_catalog,
     me_codec = \<lparr>nx_print_json = (\<lambda>_. ''{}''), nx_print_event = write_event, nx_parse_event = read_event,
       nx_utf8 = (\<lambda>_. True), nx_bunker_uri = (\<lambda>_ _. None), nx_create_dir = (\<lambda>_. True)\<rparr>,
     me_nak = Some sample_nak\<rparr>"

lemma sample_codec:
  "nx_parse_event (me_codec sample_env) (nx_print_event (me_codec sample_env) e) = Some e"
  by (simp add: sample_env_def)

lemma sample_text_bounds:
  "trim (write_event sample_signed) = write_event sample_signed"
  "length (write_event sample_signed) < 1000"
proof -
  have d: "show_u64 1 = ''1''" by (simp add: show_u64_def show_nat.simps digit_def char_of_def bit_0)
  have "list_all unspaced ''hi''" "list_all unspaced ''1''" "list_all unspaced (replicate n CHR ''0'')"
    "list_all unspaced (replicate n CHR ''1'')" "list_all unspaced (replicate n CHR ''2'')"
    "list_all unspaced ''t''" "list_all unspaced ''LightningGoats''" "unspaced CHR ''.''" for n
    by (simp_all add: unspaced_def space1_def byte_def list_all_iff)
  then show "trim (write_event sample_signed) = write_event sample_signed"
    by (intro trim_unspaced)
      (simp add: write_event_def sample_signed_def d unspaced_text write_tags_def message_tags_def
        unspaced_write_list)
  show "length (write_event sample_signed) < 1000"
    by (simp add: write_event_def sample_signed_def d length_write_text write_tags_def message_tags_def)
      (simp add: write_list_def write_char_def)
qed

lemma sample_validated: "validate_signed_event sample_signed (nk_project_pubkey sample_nak) = Inr ()"
  by (simp add: validate_signed_Inr sample_signed_def sample_nak_def list_all_iff is_ascii_hexdigit_def
      is_ascii_digit_def byte_def)

lemma sample_verify: "verify_event (me_codec sample_env) sample_program sample_nak sample_signed = Inr ()"
  using sample_validated sample_text_bounds
  by (simp add: verify_event_def run_nak_def sample_program_def read_bounded_def MAX_NAK_INPUT_def
      MAX_NAK_STDOUT_def MAX_NAK_STDERR_def sample_env_def)

lemma sample_signs:
  "sign_kind1 (me_codec sample_env) sample_program sample_nak ''hi'' message_tags = Inr sample_signed"
proof -
  have "run_nak (me_codec sample_env) sample_program [''event'']
      (nx_print_json (me_codec sample_env) (partial_event ''hi'' message_tags))
      (Some (nk_bunker_uri sample_nak, nk_client_key sample_nak)) = Inr (write_event sample_signed)"
    using sample_text_bounds(2)
    by (simp add: run_nak_def sample_program_def read_bounded_def MAX_NAK_INPUT_def MAX_NAK_STDOUT_def
        MAX_NAK_STDERR_def sample_env_def)
  moreover have "ne_content sample_signed = ''hi''" "ne_tags sample_signed = message_tags"
    by (simp_all add: sample_signed_def)
  ultimately show ?thesis
    using sample_validated sample_verify sample_text_bounds(1)
    by (simp add: sign_kind1_def) (simp add: sample_env_def)
qed

lemma sample_publishes: "publish_signed (me_codec sample_env) sample_program sample_nak sample_signed = Inr ()"
proof -
  have "run_nak (me_codec sample_env) sample_program args (nx_print_event (me_codec sample_env) sample_signed) None
      = Inr (write_event sample_signed)" for args
    using sample_text_bounds(2)
    by (simp add: run_nak_def sample_program_def read_bounded_def MAX_NAK_INPUT_def MAX_NAK_STDOUT_def
        MAX_NAK_STDERR_def sample_env_def)
  then show ?thesis
    using sample_validated sample_verify sample_text_bounds(1)
    by (simp add: publish_signed_def) (simp add: sample_env_def)
qed

definition announced_row :: outbox_row where
  "announced_row = \<lparr>ob_event_id = ne_id sample_signed, ob_signed_event_json = write_event sample_signed,
     ob_status = Ob_pending, ob_attempts = 0, ob_last_error = None, ob_created_at = 7,
     ob_source_event_seq = 1\<rparr>"

definition announced_db :: ledger_db where
  "announced_db = paid_db\<lparr>message_outbox := [announced_row], message_cursor := 1\<rparr>"

lemma sample_processed:
  "process_next_message sample_env sample_program 7 paid_db = Inr (Message_enqueued 1, announced_db)"
proof -
  obtain p where p: "render (\<lambda>_. []) sample_catalog
     (event_of_row (received_event sample_payment empty_db)) 1000 = Inr p"
     "rp_nostr_content p = Some ''hi''"
    using sample_renders by blast
  have "events_contiguous paid_db"
    using reachable_inv [OF paid_reachable] by (simp add: ledger_inv_all_def)
  then have "events_after 0 1 paid_db = Inr [event_of_row (received_event sample_payment empty_db)]"
    by (subst events_after_eq) (simp_all add: paid_tables clamp_limit_def i64_max_def)
  moreover have "read_message_cursor paid_db = Inr 0"
    by (simp add: read_message_cursor_def paid_tables to_u64_def u64_of_i64_def)
  moreover have "enqueue_signed_message 7 1 (ne_id sample_signed) (write_event sample_signed) paid_db
      = Inr ((), announced_db)"
    by (simp add: enqueue_Inr paid_tables announced_db_def announced_row_def i64_max_def)
  moreover have "me_sha256 sample_env = (\<lambda>_. [])" "me_catalog sample_env = sample_catalog"
    "me_threshold sample_env = 1000" "me_mode sample_env = Active"
    "me_nak sample_env = Some sample_nak" "nx_print_event (me_codec sample_env) = write_event"
    by (simp_all add: sample_env_def)
  moreover have "de_seq (event_of_row (received_event sample_payment empty_db)) = 1"
    by (simp add: sample_event_row)
  ultimately show ?thesis
    using p sample_signs by (simp add: process_next_message_def nostr_enabled_def)
qed

lemma announced_run: "(messaging_step sample_env)\<^sup>*\<^sup>* empty_db announced_db"
proof -
  have "ledger_step empty_db paid_db"
    by (rule ledger_step.payment [OF sample_recorded]) (simp add: empty_db_def i64_max_def)
  then have "messaging_step sample_env empty_db paid_db"
    by (rule messaging_step.other) (simp_all add: paid_tables empty_db_def)
  moreover have "messaging_step sample_env paid_db announced_db"
    by (rule messaging_step.process [OF sample_processed])
  ultimately show ?thesis by (meson converse_rtranclp_into_rtranclp rtranclp.rtrancl_refl)
qed

theorem messages_cover_the_log_witness:
  "faithful_row sample_env (event_log announced_db) announced_row"
  using messages_cover_the_log [OF announced_run] by (simp add: announced_db_def)

theorem published_messages_are_not_resent_witness:
  "\<exists>row \<in> set (message_outbox announced_db). ob_event_id row = ne_id sample_signed"
proof -
  have "outbox_inv announced_db" using messaging_run_inv [OF announced_run] by (simp add: messaging_inv_def)
  from next_outbox_eq [OF this]
  have n: "next_outbox_entry announced_db = Inr (Some \<lparr>oe_event_id = ne_id sample_signed,
      oe_signed_event_json = write_event sample_signed, oe_source_event_seq = 1, oe_attempts = 0\<rparr>)"
    by (simp add: announced_db_def announced_row_def publishable_def)
  have "mark_outbox_published (ne_id sample_signed) announced_db = Inr ((), announced_db\<lparr>message_outbox :=
      [announced_row\<lparr>ob_status := Ob_published, ob_attempts := 1\<rparr>]\<rparr>)"
    by (simp add: mark_outbox_published_def mark_outbox_def announced_db_def announced_row_def
        publishable_def count_where_def update_where_def)
  then have "publisher_step (me_codec sample_env) sample_nak sample_program announced_db
      = (Some (ne_id sample_signed, sample_signed), Inr (Published, announced_db\<lparr>message_outbox :=
      [announced_row\<lparr>ob_status := Ob_published, ob_attempts := 1\<rparr>]\<rparr>))"
    using n sample_publishes sample_codec [of sample_signed]
    by (simp add: publisher_step_def) (simp add: sample_env_def)
  with published_messages_are_not_resent [OF _ announced_run] sample_codec show ?thesis by blast
qed

end
