(* ===== verification/Overlay.thy ===== *)
theory Overlay
  imports Presentation Ledger_Properties "HOL-Library.AList"
begin

text \<open>
  The overlay socket, \<open>src/src/overlay.rs\<close>: the resume request, snapshots, the rendering of a window
  of events, and the select loop of one connection as a state machine. An input is one branch of the
  select that fires; a send that fails or times out ends the connection. Instants are milliseconds.
  serde_json's printer, the clock and the validation of observation times (\<open>fresh\<close>) are parameters;
  an event's JSON is kept until it is printed, so parsing a printed body is the identity.
\<close>

type_synonym instant = nat

section \<open>Requests\<close>

record overlay_resume =
  ov_version :: "8 word option"
  ov_stream :: "uuid option"
  ov_after :: "u64 option"

definition resume_validate :: "overlay_resume \<Rightarrow> unit fallible" where
  "resume_validate r =
     (if (case ov_version r of None \<Rightarrow> False | Some v \<Rightarrow> v \<noteq> 1)
         \<or> (case ov_after r of None \<Rightarrow> False | Some s \<Rightarrow> i64_max < uint s)
         \<or> (ov_after r \<noteq> None \<and> (ov_version r \<noteq> Some 1 \<or> ov_stream r = None))
      then Inl ''unsupported overlay resume request'' else Inr ())"

definition MAX_MESSAGE :: nat where "MAX_MESSAGE = 16 * 1024"
definition MAX_QUEUE :: nat where "MAX_QUEUE = 512 * 1024"

record timing =
  tm_heartbeat :: nat
  tm_pong :: nat
  tm_send :: nat
  tm_poll :: nat

definition default_timing :: timing where
  "default_timing = \<lparr>tm_heartbeat = 25000, tm_pong = 10000, tm_send = 5000, tm_poll = 250\<rparr>"

record overlay_env =
  ve_threshold :: u64
  ve_sha256 :: "string \<Rightarrow> string"
  ve_catalog :: template_catalog
  ve_print :: "json \<Rightarrow> string"
  ve_timing :: timing

section \<open>Messages\<close>

record queued =
  qd_seq :: u64
  qd_body :: string
  qd_weather_observed_at :: "string option"

definition skipped_weather :: "overlay_env \<Rightarrow> u64 \<Rightarrow> string" where
  "skipped_weather env s = ve_print env (JObj
     [(''type'', JStr ''event_skipped''), (''source_type'', JStr ''weather_status''), (''seq'', JU64 s),
      (''reason'', JStr ''stale_or_invalid_observation'')])"

text \<open>\<open>raw.is_some_and(..)\<close>; \<open>fresh\<close> answers for the clock of the call.\<close>

definition fresh_observation :: "(string \<Rightarrow> bool) \<Rightarrow> string option \<Rightarrow> bool" where
  "fresh_observation fresh raw = (case raw of None \<Rightarrow> False | Some t \<Rightarrow> fresh t)"

definition current_body :: "overlay_env \<Rightarrow> (string \<Rightarrow> bool) \<Rightarrow> queued \<Rightarrow> string" where
  "current_body env fresh q =
     (if qd_weather_observed_at q \<noteq> None \<and> \<not> fresh_observation fresh (qd_weather_observed_at q)
      then skipped_weather env (qd_seq q) else qd_body q)"

text \<open>\<open>value["data"]["observed_at"].as_str()\<close>.\<close>

definition observed_at :: "json \<Rightarrow> string option" where
  "observed_at v =
     (case v of JObj members \<Rightarrow>
        (case map_of members ''data'' of Some (JObj data) \<Rightarrow> field_str data ''observed_at'' | _ \<Rightarrow> None)
      | _ \<Rightarrow> None)"

definition goat_json :: "overlay_goat \<Rightarrow> json" where
  "goat_json g = JObj [(''name'', JStr (og_name g)), (''imageUrl'', JStr (og_image_url g))]"

definition presented :: "durable_event \<Rightarrow> rendered_presentation \<Rightarrow> (string \<times> json) list \<Rightarrow> (string \<times> json) list" where
  "presented event p members =
     (let overlay_type = (case rp_overlay_type p of None \<Rightarrow> de_event_type event | Some t \<Rightarrow> t);
          f1 = AList.update ''seq'' (JU64 (de_seq event))
                 (AList.update ''source_type'' (JStr (de_event_type event))
                   (AList.update ''type'' (JStr overlay_type) members));
          f2 = (case rp_overlay_message p of None \<Rightarrow> f1 | Some m \<Rightarrow> AList.update ''message'' (JStr m) f1)
      in if rp_overlay_goats p = [] then f2
         else AList.update ''goats'' (JArr (map goat_json (rp_overlay_goats p))) f2)"

text \<open>\<open>durable_event_message\<close>: the printed body with the observation time read back from it.\<close>

definition durable_event_message ::
  "overlay_env \<Rightarrow> (string \<Rightarrow> bool) \<Rightarrow> durable_event \<Rightarrow> (string \<times> string option) fallible" where
  "durable_event_message env fresh event =
     (if de_event_type event = ''weather_status''
         \<and> \<not> fresh_observation fresh (observed_at (de_payload_json event))
      then Inr (skipped_weather env (de_seq event), None)
      else andthen (render (ve_sha256 env) (ve_catalog env) event (ve_threshold env)) (\<lambda>p.
      case de_payload_json event of
        JObj members \<Rightarrow> let v = JObj (presented event p members) in Inr (ve_print env v, observed_at v)
      | _ \<Rightarrow> Inl ''durable overlay event payload must be a JSON object''))"

text \<open>The loop of \<open>render_window\<close>; \<open>so_far\<close> is the sum of the bodies so far.\<close>

fun render_events ::
  "overlay_env \<Rightarrow> (string \<Rightarrow> bool) \<Rightarrow> nat \<Rightarrow> durable_event list \<Rightarrow> queued list fallible" where
  "render_events env fresh so_far [] = Inr []"
| "render_events env fresh so_far (event # events) =
     andthen (durable_event_message env fresh event) (\<lambda>(body, observed).
     if MAX_MESSAGE < length body \<or> MAX_QUEUE < so_far + length body
     then Inl ''overlay replay exceeds output bounds''
     else andthen (render_events env fresh (so_far + length body) events) (\<lambda>queue.
       Inr (\<lparr>qd_seq = de_seq event, qd_body = body,
             qd_weather_observed_at =
               (if de_event_type event = ''weather_status'' then observed else None)\<rparr> # queue)))"

definition render_window ::
  "overlay_env \<Rightarrow> (string \<Rightarrow> bool) \<Rightarrow> durable_event list \<Rightarrow> queued list fallible" where
  "render_window env fresh events = render_events env fresh 0 events"

definition overlay_checkpoint ::
  "overlay_env \<Rightarrow> uuid \<Rightarrow> string option \<Rightarrow> ledger_db \<Rightarrow> ledger_error + queued" where
  "overlay_checkpoint env stream reason db =
     andthen (overlay_snapshot_message (ve_threshold env) db) (\<lambda>(s, encoded).
     let members = (case encoded of JObj fs \<Rightarrow> fs | _ \<Rightarrow> []);
         f1 = AList.update ''stream_id'' (JStr stream) (AList.update ''version'' (JNum 1) members);
         f2 = (case reason of None \<Rightarrow> f1 | Some r \<Rightarrow> AList.update ''reset_reason'' (JStr r) f1)
     in Inr \<lparr>qd_seq = s, qd_body = ve_print env (JObj f2), qd_weather_observed_at = None\<rparr>)"

definition resume_text :: "overlay_env \<Rightarrow> uuid \<Rightarrow> u64 \<Rightarrow> u64 \<Rightarrow> string" where
  "resume_text env stream after through = ve_print env (JObj
     [(''type'', JStr ''resume''), (''version'', JNum 1), (''stream_id'', JStr stream),
      (''after'', JU64 after), (''through'', JU64 through)])"

section \<open>The connection\<close>

datatype ws_message = Ws_text string | Ws_ping string | Ws_pong string

record overlay_state =
  os_last_seq :: u64
  os_queue :: "queued list"
  os_pending_pong :: "(string \<times> instant) option"
  os_nonce :: u64
  os_input_window :: instant
  os_inputs :: nat

datatype overlay_failure = Overlay_ledger ledger_error | Overlay_failed string

text \<open>The events after \<open>after\<close> up to \<open>through\<close>, rendered, if the ledger has them all and they fit.\<close>

definition rendered_window ::
  "overlay_env \<Rightarrow> (string \<Rightarrow> bool) \<Rightarrow> u64 \<Rightarrow> u64 \<Rightarrow> ledger_db \<Rightarrow> ledger_error + queued list option" where
  "rendered_window env fresh after through db =
     andthen (overlay_event_window (ve_print env) after through db) (\<lambda>window.
     Inr (Option.bind window (\<lambda>events. result_ok (render_window env fresh events))))"

text \<open>
  Opening a connection. Once the stream id is known, the statements read the ledger one after the
  other: the first checkpoint, the replay and perhaps a second checkpoint, at \<open>dbs 0\<close>, \<open>dbs 1\<close> and
  \<open>dbs 2\<close>.
\<close>

definition resume_replay ::
  "overlay_env \<Rightarrow> (string \<Rightarrow> bool) \<Rightarrow> (nat \<Rightarrow> ledger_db) \<Rightarrow> overlay_resume \<Rightarrow> uuid \<Rightarrow> queued \<Rightarrow> u64
     \<Rightarrow> ledger_error + queued list option" where
  "resume_replay env fresh dbs resume stream checkpoint after =
     andthen (if ov_stream resume = Some stream
              then rendered_window env fresh after (qd_seq checkpoint) (dbs 1) else Inr None) (\<lambda>replay.
     Inr (case replay of None \<Rightarrow> None
        | Some queue \<Rightarrow>
            if sum_list (map (length \<circ> qd_body) queue) + length (qd_body checkpoint) \<le> MAX_QUEUE
            then Some queue else None))"

definition overlay_connect ::
  "overlay_env \<Rightarrow> (string \<Rightarrow> bool) \<Rightarrow> (nat \<Rightarrow> ledger_db) \<Rightarrow> instant \<Rightarrow> uuid \<Rightarrow> overlay_resume
     \<Rightarrow> overlay_failure + (ws_message list \<times> overlay_state)" where
  "overlay_connect env fresh dbs now stream resume =
     andthen (map_err Overlay_ledger (overlay_checkpoint env stream None (dbs 0))) (\<lambda>checkpoint.
     let open_at = (\<lambda>last_seq queue. \<lparr>os_last_seq = last_seq, os_queue = queue, os_pending_pong = None,
           os_nonce = 0, os_input_window = now, os_inputs = 0\<rparr>) in
     case ov_after resume of
       None \<Rightarrow> Inr ([], open_at (qd_seq checkpoint) [checkpoint])
     | Some after \<Rightarrow>
         andthen (map_err Overlay_ledger (resume_replay env fresh dbs resume stream checkpoint after)) (\<lambda>replay.
         case replay of
           Some queue \<Rightarrow>
             Inr ([Ws_text (resume_text env stream after (qd_seq checkpoint))],
               open_at after (queue @ [checkpoint]))
         | None \<Rightarrow>
             andthen (map_err Overlay_ledger
               (overlay_checkpoint env stream (Some ''resume_unavailable'') (dbs 2))) (\<lambda>fallback.
             Inr ([], open_at (qd_seq fallback) [fallback]))))"

text \<open>
  \<open>serve_with_timing\<close> up to its loop: the request is checked, the stream id is read from \<open>db\<close> (and
  made of \<open>new_id\<close> when there is none), then the connection opens.
\<close>

definition overlay_accept ::
  "overlay_env \<Rightarrow> (string \<Rightarrow> bool) \<Rightarrow> uuid \<Rightarrow> (nat \<Rightarrow> ledger_db) \<Rightarrow> instant \<Rightarrow> overlay_resume \<Rightarrow> ledger_db
     \<Rightarrow> overlay_failure + (uuid \<times> ledger_db \<times> ws_message list \<times> overlay_state)" where
  "overlay_accept env fresh new_id dbs now resume db =
     andthen (map_err Overlay_failed (resume_validate resume)) (\<lambda>_.
     andthen (map_err Overlay_ledger (overlay_stream_id new_id db)) (\<lambda>(stream, db').
     andthen (overlay_connect env fresh dbs now stream resume) (\<lambda>(sent, st).
     Inr (stream, db', sent, st))))"

text \<open>\<open>overlay_ws\<close> of \<open>src/src/main.rs\<close>: the status of the upgrade.\<close>

definition overlay_ws :: "overlay_resume \<Rightarrow> bool \<Rightarrow> nat" where
  "overlay_ws resume slot_free =
     (if resume_validate resume \<noteq> Inr () then 400 else if \<not> slot_free then 503 else 101)"

text \<open>What a client sends.\<close>

datatype client_message =
  Client_pong string | Client_ping string | Client_close | Client_data | Client_error

datatype overlay_input =
    Pong_deadline
  | Heartbeat
  | Incoming client_message
  | Deliver
  | Poll

text \<open>The guards of the branches.\<close>

definition overlay_enabled :: "overlay_state \<Rightarrow> instant \<Rightarrow> overlay_input \<Rightarrow> bool" where
  "overlay_enabled st now i = (case i of
      Pong_deadline \<Rightarrow> (case os_pending_pong st of None \<Rightarrow> False | Some (_, deadline) \<Rightarrow> deadline \<le> now)
    | Heartbeat \<Rightarrow> True
    | Incoming _ \<Rightarrow> True
    | Deliver \<Rightarrow> os_queue st \<noteq> []
    | Poll \<Rightarrow> os_queue st = [])"

datatype overlay_result =
    Overlay_ended overlay_failure
  | Overlay_closed
  | Overlay_next "ws_message list" overlay_state

definition saturating_add_u64 :: "u64 \<Rightarrow> u64 \<Rightarrow> u64" where
  "saturating_add_u64 a b = (if unat a + unat b < 2 ^ 64 then a + b else - 1)"

definition overlay_poll ::
  "overlay_env \<Rightarrow> (string \<Rightarrow> bool) \<Rightarrow> (nat \<Rightarrow> ledger_db) \<Rightarrow> uuid \<Rightarrow> overlay_state \<Rightarrow> overlay_failure + overlay_state" where
  "overlay_poll env fresh dbs stream st =
     andthen (map_err Overlay_ledger (latest_event_seq (dbs 0))) (\<lambda>latest.
     if latest = os_last_seq st then Inr st
     else
       let through = min latest (saturating_add_u64 (os_last_seq st) 100) in
       andthen (map_err Overlay_ledger (rendered_window env fresh (os_last_seq st) through (dbs 1))) (\<lambda>messages.
       case messages of
         Some queue \<Rightarrow> Inr (st\<lparr>os_queue := queue\<rparr>)
       | None \<Rightarrow>
           andthen (map_err Overlay_ledger
             (overlay_checkpoint env stream (Some ''event_window_unavailable'') (dbs 2))) (\<lambda>checkpoint.
           Inr (st\<lparr>os_queue := os_queue st @ [checkpoint]\<rparr>))))"

definition overlay_incoming ::
  "overlay_state \<Rightarrow> instant \<Rightarrow> client_message \<Rightarrow> overlay_result" where
  "overlay_incoming st now m =
     (let st = (if 10000 \<le> now - os_input_window st then st\<lparr>os_input_window := now, os_inputs := 0\<rparr> else st);
          st = st\<lparr>os_inputs := os_inputs st + 1\<rparr>
      in if 20 < os_inputs st then Overlay_ended (Overlay_failed ''overlay input rate exceeded'')
         else case m of
           Client_pong payload \<Rightarrow>
             Overlay_next [] (if (case os_pending_pong st of None \<Rightarrow> False | Some (expected, _) \<Rightarrow> payload = expected)
               then st\<lparr>os_pending_pong := None\<rparr> else st)
         | Client_ping payload \<Rightarrow> Overlay_next [Ws_pong payload] st
         | Client_close \<Rightarrow> Overlay_closed
         | Client_data \<Rightarrow> Overlay_ended (Overlay_failed ''overlay accepts control frames only'')
         | Client_error \<Rightarrow> Overlay_ended (Overlay_failed ''overlay receive failed''))"

definition overlay_step ::
  "overlay_env \<Rightarrow> (string \<Rightarrow> bool) \<Rightarrow> (nat \<Rightarrow> ledger_db) \<Rightarrow> uuid \<Rightarrow> instant \<Rightarrow> overlay_state \<Rightarrow> overlay_input
     \<Rightarrow> overlay_result" where
  "overlay_step env fresh dbs stream now st i = (case i of
      Pong_deadline \<Rightarrow> Overlay_ended (Overlay_failed ''overlay pong deadline exceeded'')
    | Heartbeat \<Rightarrow>
        if os_pending_pong st = None then
          let nonce = os_nonce st + 1; payload = be_bytes nonce in
          Overlay_next [Ws_ping payload] (st\<lparr>os_nonce := nonce,
            os_pending_pong := Some (payload, now + tm_pong (ve_timing env))\<rparr>)
        else Overlay_next [] st
    | Incoming m \<Rightarrow> overlay_incoming st now m
    | Deliver \<Rightarrow>
        (case os_queue st of
           [] \<Rightarrow> Overlay_next [] st
         | item # rest \<Rightarrow> Overlay_next [Ws_text (current_body env fresh item)]
             (st\<lparr>os_queue := rest, os_last_seq := qd_seq item\<rparr>))
    | Poll \<Rightarrow>
        (case overlay_poll env fresh dbs stream st of
           Inl e \<Rightarrow> Overlay_ended e
         | Inr st' \<Rightarrow> Overlay_next [] st'))"

text \<open>A send that fails or exceeds its deadline ends the connection.\<close>

definition overlay_turn ::
  "overlay_env \<Rightarrow> (string \<Rightarrow> bool) \<Rightarrow> (nat \<Rightarrow> ledger_db) \<Rightarrow> uuid \<Rightarrow> instant \<Rightarrow> bool \<Rightarrow> overlay_state
     \<Rightarrow> overlay_input \<Rightarrow> overlay_result" where
  "overlay_turn env fresh dbs stream now send_ok st i =
     (case overlay_step env fresh dbs stream now st i of
        Overlay_next sent st' \<Rightarrow>
          if sent \<noteq> [] \<and> \<not> send_ok then Overlay_ended (Overlay_failed ''overlay send failed'')
          else Overlay_next sent st'
      | r \<Rightarrow> r)"

end
