(* ===== verification/Overlay_Properties.thy ===== *)
theory Overlay_Properties
  imports Overlay Log_Growth Sample_Event
begin

text \<open>
  What an overlay client sees: after a snapshot or an accepted resume, each following frame is the next
  event of the log, without a gap and without a repetition, or a new snapshot that is not behind.
\<close>

section \<open>The frames of a client\<close>

fun texts :: "ws_message list \<Rightarrow> string list" where
  "texts [] = []"
| "texts (Ws_text t # ms) = t # texts ms"
| "texts (Ws_ping _ # ms) = texts ms"
| "texts (Ws_pong _ # ms) = texts ms"

lemma texts_append: "texts (xs @ ys) = texts xs @ texts ys"
  by (induction xs rule: texts.induct) simp_all

text \<open>The text of the event numbered \<open>n\<close>: its presentation, or the notice for a stale observation.\<close>

definition event_frame :: "overlay_env \<Rightarrow> ledger_db \<Rightarrow> u64 \<Rightarrow> string \<Rightarrow> bool" where
  "event_frame env final n t \<longleftrightarrow>
     (\<exists>e \<in> set (event_log final). ev_seq e = uint n
        \<and> ((ev_type e = ''weather_status'' \<and> t = skipped_weather env n)
           \<or> (\<exists>fresh observed. durable_event_message env fresh (event_of_row e) = Inr (t, observed))))"

text \<open>A snapshot of a state on the way to \<open>final\<close> whose log ends at \<open>n\<close>.\<close>

definition snapshot_frame :: "overlay_env \<Rightarrow> ledger_db \<Rightarrow> u64 \<Rightarrow> string \<Rightarrow> bool" where
  "snapshot_frame env final n t \<longleftrightarrow>
     (\<exists>db stream reason q. on_the_way final db \<and> overlay_checkpoint env stream reason db = Inr q
        \<and> uint n = int (length (event_log db)) \<and> t = qd_body q)"

text \<open>The position of the client before and after some frames; \<open>None\<close> before the first.\<close>

inductive frames_ok :: "overlay_env \<Rightarrow> ledger_db \<Rightarrow> u64 option \<Rightarrow> string list \<Rightarrow> u64 option \<Rightarrow> bool"
  for env final where
  none: "frames_ok env final p [] p"
| event: "event_frame env final n t \<Longrightarrow> uint n = uint m + 1 \<Longrightarrow>
    frames_ok env final (Some n) ts p \<Longrightarrow> frames_ok env final (Some m) (t # ts) p"
| snapshot: "snapshot_frame env final n t \<Longrightarrow> (\<forall>m. q = Some m \<longrightarrow> m \<le> n) \<Longrightarrow>
    frames_ok env final (Some n) ts p \<Longrightarrow> frames_ok env final q (t # ts) p"
| resume: "frames_ok env final (Some after) ts p \<Longrightarrow>
    frames_ok env final None (resume_text env stream after through # ts) p"

lemma frames_ok_append:
  "frames_ok env final p xs q \<Longrightarrow> frames_ok env final q ys r \<Longrightarrow> frames_ok env final p (xs @ ys) r"
  by (induction rule: frames_ok.induct) (auto intro: frames_ok.intros)

section \<open>Queues\<close>

definition event_item :: "overlay_env \<Rightarrow> ledger_db \<Rightarrow> u64 \<Rightarrow> queued \<Rightarrow> bool" where
  "event_item env final pos q \<longleftrightarrow> uint (qd_seq q) = uint pos + 1
     \<and> (\<forall>fresh. event_frame env final (qd_seq q) (current_body env fresh q))"

definition snapshot_item :: "overlay_env \<Rightarrow> ledger_db \<Rightarrow> queued \<Rightarrow> bool" where
  "snapshot_item env final q \<longleftrightarrow>
     (\<forall>fresh. snapshot_frame env final (qd_seq q) (current_body env fresh q))"

fun items_ok :: "overlay_env \<Rightarrow> ledger_db \<Rightarrow> u64 \<Rightarrow> queued list \<Rightarrow> bool" where
  "items_ok env final pos [] \<longleftrightarrow> True"
| "items_ok env final pos (q # qs) \<longleftrightarrow>
     (event_item env final pos q \<or> pos \<le> qd_seq q \<and> snapshot_item env final q)
     \<and> items_ok env final (qd_seq q) qs"

fun items_end :: "u64 \<Rightarrow> queued list \<Rightarrow> u64" where
  "items_end pos [] = pos"
| "items_end pos (q # qs) = items_end (qd_seq q) qs"

lemma items_ok_snoc:
  "items_ok env final pos (xs @ [q]) \<longleftrightarrow> items_ok env final pos xs \<and> items_ok env final (items_end pos xs) [q]"
  by (induction xs arbitrary: pos) auto

lemma uint_word_of_nat_i64: "int n \<le> i64_max \<Longrightarrow> uint (word_of_nat n :: u64) = int n"
  using uint_word_of_int_i64 [of "int n"] by simp

lemma snapshot_state_seq:
  assumes "overlay_snapshot_state db = Inr s" "log_inv db"
  shows "uint (snap_seq s) = int (length (event_log db))"
proof -
  have "max_event_seq db = int (length (event_log db))"
    using assms(2) max_event_seq_contiguous by (simp add: log_inv_def)
  then show ?thesis using assms
    by (auto simp: overlay_snapshot_state_def andthen_eq_Inr to_u64_def u64_of_i64_Some log_inv_def
        uint_word_of_nat_i64 split: if_splits)
qed

lemma items_end_append: "items_end pos (xs @ [q]) = qd_seq q"
  by (induction xs arbitrary: pos) simp_all

lemma checkpoint_item:
  assumes "overlay_checkpoint env stream reason db = Inr q" "on_the_way final db"
    and "int (length (event_log final)) \<le> i64_max"
  shows "snapshot_item env final q" "uint (qd_seq q) = int (length (event_log db))"
proof -
  obtain n encoded where m: "overlay_snapshot_message (ve_threshold env) db = Inr (n, encoded)"
    and q: "qd_seq q = n" "qd_weather_observed_at q = None"
    using assms(1) by (auto simp: overlay_checkpoint_def andthen_eq_Inr Let_def simp del: AList.update.simps)
  obtain s where "overlay_snapshot_state db = Inr s" "n = snap_seq s"
    using m by (auto simp: overlay_snapshot_message_def andthen_eq_Inr Let_def split: if_splits)
  with q(1) show s: "uint (qd_seq q) = int (length (event_log db))"
    using snapshot_state_seq on_the_way_log(1) [OF assms(2,3)] by simp
  have "snapshot_frame env final (qd_seq q) (qd_body q)"
    unfolding snapshot_frame_def using assms(1,2) s by blast
  then show "snapshot_item env final q"
    by (simp add: snapshot_item_def current_body_def q(2))
qed

text \<open>Events of the log with consecutive numbers.\<close>

fun consecutive :: "ledger_db \<Rightarrow> u64 \<Rightarrow> durable_event list \<Rightarrow> bool" where
  "consecutive final pos [] \<longleftrightarrow> True"
| "consecutive final pos (e # es) \<longleftrightarrow>
     (\<exists>r \<in> set (event_log final). e = event_of_row r \<and> ev_seq r = uint (de_seq e))
     \<and> uint (de_seq e) = uint pos + 1 \<and> consecutive final (de_seq e) es"

lemma consecutive_slice:
  assumes "log_inv db" "event_log final = event_log db @ es"
  shows "consecutive final pos (map event_of_row (take n (drop (unat pos) (event_log db))))"
proof (induction n arbitrary: pos)
  case (Suc n)
  show ?case
  proof (cases "unat pos < length (event_log db)")
    case True
    let ?r = "event_log db ! unat pos"
    have s: "ev_seq ?r = uint pos + 1"
      using nth_contiguous [of db "unat pos"] assms(1) True by (simp add: log_inv_def)
    have "uint pos + 1 \<le> i64_max"
      using assms(1) True unfolding log_inv_def uint_nat by linarith
    then have u: "uint (de_seq (event_of_row ?r)) = uint pos + 1"
      using uint_word_of_int_i64 [of "uint pos + 1"] by (simp add: event_of_row_def s del: of_int_add)
    then have n: "unat (de_seq (event_of_row ?r)) = Suc (unat pos)"
      unfolding uint_nat by linarith
    have d: "drop (unat pos) (event_log db) = ?r # drop (Suc (unat pos)) (event_log db)"
      using True by (rule Cons_nth_drop_Suc [symmetric])
    have "?r \<in> set (event_log final)" using True assms(2) by simp
    then have r: "\<exists>r \<in> set (event_log final). event_of_row ?r = event_of_row r
        \<and> ev_seq r = uint (de_seq (event_of_row ?r))"
      using s u by (intro bexI [of _ ?r]) simp_all
    show ?thesis
      unfolding d take_Suc_Cons list.map consecutive.simps
      using Suc [of "de_seq (event_of_row ?r)"] r u unfolding n by blast
  qed simp
qed simp

lemma render_item:
  assumes "durable_event_message env fresh e = Inr (body, observed)"
    and "row \<in> set (event_log final)" "e = event_of_row row" "ev_seq row = uint (de_seq e)"
    and "uint (de_seq e) = uint pos + 1"
  shows "event_item env final pos \<lparr>qd_seq = de_seq e, qd_body = body, qd_weather_observed_at =
    (if de_event_type e = ''weather_status'' then observed else None)\<rparr>"
proof -
  have ty: "de_event_type e = ev_type row" by (simp add: assms(3) event_of_row_def)
  have body: "event_frame env final (de_seq e) body"
    unfolding event_frame_def using assms(1-4) by blast
  have skip: "event_frame env final (de_seq e) (skipped_weather env (de_seq e))"
    if "de_event_type e = ''weather_status''"
    unfolding event_frame_def using assms(2,4) that ty by auto
  show ?thesis using assms(5) body skip by (simp add: event_item_def current_body_def)
qed

lemma consecutive_end:
  "render_events env fresh k es = Inr items \<Longrightarrow> consecutive final pos es \<Longrightarrow>
     items_ok env final pos items \<and> uint (items_end pos items) = uint pos + int (length es)"
proof (induction es arbitrary: k pos items)
  case (Cons e es)
  from Cons.prems(1) obtain body observed rest where
    m: "durable_event_message env fresh e = Inr (body, observed)"
    and r: "render_events env fresh (k + length body) es = Inr rest"
    and items: "items = \<lparr>qd_seq = de_seq e, qd_body = body, qd_weather_observed_at =
       (if de_event_type e = ''weather_status'' then observed else None)\<rparr> # rest"
    by (auto simp: andthen_eq_Inr split: if_splits)
  obtain row where row: "row \<in> set (event_log final)" "e = event_of_row row" "ev_seq row = uint (de_seq e)"
    using Cons.prems(2) by auto
  have "event_item env final pos (hd items)"
    using render_item [OF m row] Cons.prems(2) by (simp add: items)
  then show ?case using Cons.IH [OF r] Cons.prems(2) by (simp add: items)
qed simp

lemma window_items:
  assumes "rendered_window env fresh after through db = Inr (Some items)" "on_the_way final db"
    and "int (length (event_log final)) \<le> i64_max"
  shows "items_ok env final after items" "items_end after items = through" "after \<le> through"
    "after = through \<or> unat through \<le> length (event_log db)"
proof -
  note log = on_the_way_log [OF assms(2,3)]
  from assms(1) obtain es where w: "overlay_event_window (ve_print env) after through db = Inr (Some es)"
    and r: "render_events env fresh 0 es = Inr items"
    by (auto simp: rendered_window_def andthen_eq_Inr render_window_def bind_eq_Some_conv)
  from w have es: "es = map event_of_row (take (unat through - unat after) (drop (unat after) (event_log db)))"
    and le: "after \<le> through" and len: "after = through \<or> unat through \<le> length (event_log db)"
    by (simp_all add: overlay_window_Some [OF log(1)])
  obtain extra where "event_log final = event_log db @ extra" using log(2) by blast
  from consecutive_end [OF r [unfolded es] consecutive_slice [OF log(1) this]]
  have i: "items_ok env final after items" "uint (items_end after items) = uint after + int (length es)"
    by (simp_all add: es)
  have "length es = unat through - unat after" using len by (auto simp: es)
  then have "uint (items_end after items) = uint through"
    using i(2) le unfolding word_le_nat_alt uint_nat by linarith
  then show "items_ok env final after items" "items_end after items = through" "after \<le> through"
    "after = through \<or> unat through \<le> length (event_log db)"
    using i(1) le len by (simp_all add: word_uint_eq_iff)
qed

lemma items_end_ge: "items_ok env final pos items \<Longrightarrow> pos \<le> items_end pos items"
proof (induction items arbitrary: pos)
  case (Cons q qs)
  then have "pos \<le> qd_seq q" by (auto simp: event_item_def word_le_def)
  then show ?case using Cons by (auto intro: order_trans)
qed simp

section \<open>Connections\<close>

text \<open>The states that three statements in a row read, with other writers in between.\<close>

definition ledger_reads :: "ledger_db \<Rightarrow> ledger_db \<Rightarrow> (nat \<Rightarrow> ledger_db) \<Rightarrow> bool" where
  "ledger_reads final db dbs \<longleftrightarrow> ledger_steps db (dbs 0) \<and> ledger_steps (dbs 0) (dbs 1)
     \<and> ledger_steps (dbs 1) (dbs 2) \<and> ledger_steps (dbs 2) final"

text \<open>What a connection has sent, its state, and the state of the ledger it last read.\<close>

inductive overlay_run ::
  "overlay_env \<Rightarrow> ledger_db \<Rightarrow> uuid \<Rightarrow> ws_message list \<Rightarrow> overlay_state \<Rightarrow> ledger_db \<Rightarrow> bool"
  for env final stream where
  opened: "ledger_steps empty_db db \<Longrightarrow>
    overlay_accept env fresh new_id dbs now resume db = Inr (stream, db', sent, st) \<Longrightarrow>
    ledger_reads final db' dbs \<Longrightarrow>
    overlay_run env final stream sent st (dbs 2)"
| turn: "overlay_run env final stream sent st db \<Longrightarrow> ledger_reads final db dbs \<Longrightarrow>
    overlay_enabled st now i \<Longrightarrow>
    overlay_turn env fresh dbs stream now send_ok st i = Overlay_next extra st' \<Longrightarrow>
    overlay_run env final stream (sent @ extra) st' (dbs 2)"

lemma reads_on_the_way:
  assumes "ledger_reads final db dbs" "on_the_way final db"
  shows "on_the_way final (dbs 0)" "on_the_way final (dbs 1)" "on_the_way final (dbs 2)"
  using assms unfolding ledger_reads_def on_the_way_def by (meson rtranclp_trans)+

lemma on_the_way_length:
  assumes "on_the_way final db" "ledger_steps db db'"
  shows "length (event_log db) \<le> length (event_log db')"
proof -
  have "ledger_inv_all db" using assms(1) reachable_inv by (simp add: on_the_way_def)
  then show ?thesis using ledger_steps_grow [OF assms(2)] by (auto simp: log_grows_def)
qed

lemma reads_length:
  assumes "ledger_reads final db dbs" "on_the_way final db"
  shows "length (event_log db) \<le> length (event_log (dbs 0))"
    "length (event_log (dbs 0)) \<le> length (event_log (dbs 1))"
    "length (event_log (dbs 1)) \<le> length (event_log (dbs 2))"
  using assms reads_on_the_way [OF assms] by (auto simp: ledger_reads_def intro: on_the_way_length)

definition client_position :: "overlay_env \<Rightarrow> ledger_db \<Rightarrow> ws_message list \<Rightarrow> overlay_state \<Rightarrow> bool" where
  "client_position env final sent st \<longleftrightarrow>
     frames_ok env final None (texts sent) (Some (os_last_seq st))
     \<or> (texts sent = [] \<and> (\<exists>q. os_queue st = [q] \<and> snapshot_item env final q))"

definition client_inv ::
  "overlay_env \<Rightarrow> ledger_db \<Rightarrow> ws_message list \<Rightarrow> overlay_state \<Rightarrow> ledger_db \<Rightarrow> bool" where
  "client_inv env final sent st db \<longleftrightarrow> on_the_way final db \<and> client_position env final sent st
     \<and> items_ok env final (os_last_seq st) (os_queue st)
     \<and> uint (items_end (os_last_seq st) (os_queue st)) \<le> int (length (event_log db))"

lemma client_inv_idle:
  assumes "client_inv env final sent st db" "ledger_reads final db dbs"
    and "texts extra = []" "os_queue st' = os_queue st" "os_last_seq st' = os_last_seq st"
  shows "client_inv env final (sent @ extra) st' (dbs 2)"
proof -
  have "on_the_way final db" using assms(1) by (simp add: client_inv_def)
  with assms show ?thesis
    using reads_on_the_way(3) [OF assms(2)] reads_length [OF assms(2)]
    by (auto simp: client_inv_def client_position_def texts_append)
qed

lemma single_item:
  assumes "overlay_checkpoint env stream reason db = Inr q" "on_the_way final db"
    and "int (length (event_log final)) \<le> i64_max" "pos \<le> qd_seq q"
  shows "items_ok env final pos [q]"
  using checkpoint_item [OF assms(1-3)] assms(4) by simp

lemma connect_inv:
  assumes "overlay_connect env fresh dbs now stream resume = Inr (sent, st)"
    and "ledger_reads final db dbs" "on_the_way final db" "int (length (event_log final)) \<le> i64_max"
  shows "client_inv env final sent st (dbs 2)"
proof -
  note way = reads_on_the_way [OF assms(2,3)] and len = reads_length [OF assms(2,3)]
  obtain c where c: "overlay_checkpoint env stream None (dbs 0) = Inr c"
    using assms(1) by (auto simp: overlay_connect_def andthen_eq_Inr Let_def)
  note c' = checkpoint_item [OF c way(1) assms(4)]
  have alone: "client_inv env final [] st (dbs 2)"
    if q: "os_queue st = [q]" "os_last_seq st = qd_seq q" "overlay_checkpoint env stream reason (dbs k) = Inr q"
      "k = 0 \<or> k = 2" for q reason k
  proof -
    have w: "on_the_way final (dbs k)" "length (event_log (dbs k)) \<le> length (event_log (dbs 2))"
      using q(4) way len by auto
    note s = checkpoint_item [OF q(3) w(1) assms(4)]
    show ?thesis using s q(1,2) way(3) w(2) by (auto simp: client_inv_def client_position_def)
  qed
  show ?thesis
  proof (cases "ov_after resume")
    case None
    then have "sent = []" "os_queue st = [c]" "os_last_seq st = qd_seq c"
      using assms(1) c by (auto simp: overlay_connect_def andthen_eq_Inr Let_def)
    then show ?thesis using alone c by blast
  next
    case (Some after)
    obtain replay where r: "resume_replay env fresh dbs resume stream c after = Inr replay"
      using assms(1) c Some by (auto simp: overlay_connect_def andthen_eq_Inr Let_def)
    show ?thesis
    proof (cases replay)
      case None
      with r have "\<exists>f. overlay_checkpoint env stream (Some ''resume_unavailable'') (dbs 2) = Inr f \<and> sent = []
          \<and> os_queue st = [f] \<and> os_last_seq st = qd_seq f"
        using assms(1) c Some by (auto simp: overlay_connect_def andthen_eq_Inr Let_def)
      then show ?thesis using alone by blast
    next
      case (Some items)
      have w: "rendered_window env fresh after (qd_seq c) (dbs 1) = Inr (Some items)"
        using r Some by (auto simp: resume_replay_def andthen_eq_Inr split: if_splits option.splits)
      have st: "sent = [Ws_text (resume_text env stream after (qd_seq c))]" "os_last_seq st = after"
          "os_queue st = items @ [c]"
        using assms(1) c \<open>ov_after resume = Some after\<close> r Some
        by (auto simp: overlay_connect_def andthen_eq_Inr Let_def)
      note i = window_items [OF w way(2) assms(4)]
      have "items_ok env final after (items @ [c])" "items_end after (items @ [c]) = qd_seq c"
        using i(1,2) c'(1) by (simp_all add: items_ok_snoc items_end_append)
      then show ?thesis using st c'(2) len way(3)
        by (auto simp: client_inv_def client_position_def intro!: frames_ok.resume frames_ok.none)
    qed
  qed
qed

lemma accept_inv:
  assumes "ledger_steps empty_db db"
    and "overlay_accept env fresh new_id dbs now resume db = Inr (stream, db', sent, st)"
    and "ledger_reads final db' dbs" "int (length (event_log final)) \<le> i64_max"
  shows "client_inv env final sent st (dbs 2)"
proof -
  from assms(2) have "overlay_stream_id new_id db = Inr (stream, db')"
    and c: "overlay_connect env fresh dbs now stream resume = Inr (sent, st)"
    by (auto simp: overlay_accept_def andthen_eq_Inr)
  then have "ledger_steps empty_db db'"
    using ledger_step.overlay_id assms(1) by (metis rtranclp.rtrancl_into_rtrancl)
  moreover have "ledger_steps db' final"
    using assms(3) unfolding ledger_reads_def by (meson rtranclp_trans)
  ultimately have "on_the_way final db'" by (simp add: on_the_way_def)
  then show ?thesis using connect_inv [OF c assms(3)] assms(4) by blast
qed

lemma deliver_inv:
  assumes "client_inv env final sent st db" "ledger_reads final db dbs" "os_queue st = q # rest"
  shows "client_inv env final (sent @ [Ws_text (current_body env fresh q)])
    (st\<lparr>os_queue := rest, os_last_seq := qd_seq q\<rparr>) (dbs 2)"
proof -
  let ?t = "current_body env fresh q"
  have way: "on_the_way final db" and pos: "client_position env final sent st"
    and items: "items_ok env final (os_last_seq st) (q # rest)"
    and e: "uint (items_end (os_last_seq st) (q # rest)) \<le> int (length (event_log db))"
    using assms(1,3) by (simp_all add: client_inv_def)
  have frame: "frames_ok env final (Some (os_last_seq st)) [?t] (Some (qd_seq q))"
    using items by (auto simp: event_item_def snapshot_item_def intro: frames_ok.intros)
  have first: "frames_ok env final None [?t] (Some (qd_seq q))" if "snapshot_item env final q"
    using that by (auto simp: snapshot_item_def intro!: frames_ok.snapshot frames_ok.none)
  have "frames_ok env final None (texts sent @ [?t]) (Some (qd_seq q))"
    using pos frame first unfolding client_position_def assms(3)
    by (auto intro: frames_ok_append)
  then show ?thesis
    using items e reads_on_the_way(3) [OF assms(2) way] reads_length [OF assms(2) way]
    by (auto simp: client_inv_def client_position_def texts_append)
qed

lemma poll_inv:
  assumes "client_inv env final sent st db" "ledger_reads final db dbs" "os_queue st = []"
    and "overlay_poll env fresh dbs stream st = Inr st'" "int (length (event_log final)) \<le> i64_max"
  shows "client_inv env final sent st' (dbs 2)"
proof -
  have way: "on_the_way final db" and pos: "frames_ok env final None (texts sent) (Some (os_last_seq st))"
    and e: "uint (os_last_seq st) \<le> int (length (event_log db))"
    using assms(1,3) by (auto simp: client_inv_def client_position_def)
  note ways = reads_on_the_way [OF assms(2) way] and len = reads_length [OF assms(2) way]
  have inv: "client_inv env final sent st' (dbs 2)"
    if "os_last_seq st' = os_last_seq st" "items_ok env final (os_last_seq st) (os_queue st')"
      "uint (items_end (os_last_seq st) (os_queue st')) \<le> int (length (event_log (dbs 2)))"
    using that pos ways(3) by (simp add: client_inv_def client_position_def)
  have bound: "uint t \<le> int (length (event_log (dbs 2)))"
    if "os_last_seq st = t \<or> unat t \<le> length (event_log (dbs 1))" for t
  proof (cases "os_last_seq st = t")
    case True
    then show ?thesis using e len by simp
  next
    case False
    then show ?thesis using that len unfolding uint_nat by linarith
  qed
  obtain latest where latest: "latest_event_seq (dbs 0) = Inr latest"
    using assms(4) by (auto simp: overlay_poll_def andthen_eq_Inr)
  show ?thesis
  proof (cases "latest = os_last_seq st")
    case True
    then have "st' = st" using assms(4) latest by (simp add: overlay_poll_def)
    then show ?thesis using client_inv_idle [OF assms(1,2), of "[]" st] by simp
  next
    case False
    let ?through = "min latest (saturating_add_u64 (os_last_seq st) 100)"
    obtain messages where w: "rendered_window env fresh (os_last_seq st) ?through (dbs 1) = Inr messages"
      using assms(4) latest False by (auto simp: overlay_poll_def andthen_eq_Inr Let_def)
    show ?thesis
    proof (cases messages)
      case (Some items)
      with w have w: "rendered_window env fresh (os_last_seq st) ?through (dbs 1) = Inr (Some items)" by simp
      have st': "st' = st\<lparr>os_queue := items\<rparr>"
        using assms(4) latest False w by (simp add: overlay_poll_def Let_def)
      note i = window_items [OF w ways(2) assms(5)]
      have "uint ?through \<le> int (length (event_log (dbs 2)))"
        using i(4) by (rule bound)
      then show ?thesis using inv i(1,2) by (simp add: st')
    next
      case None
      then obtain c where c: "overlay_checkpoint env stream (Some ''event_window_unavailable'') (dbs 2) = Inr c"
        and st': "st' = st\<lparr>os_queue := [c]\<rparr>"
        using assms(3,4) latest False w by (auto simp: overlay_poll_def andthen_eq_Inr Let_def)
      note n = checkpoint_item(2) [OF c ways(3) assms(5)]
      have "os_last_seq st \<le> qd_seq c" using n e len by (simp add: word_le_def)
      then show ?thesis
        using inv single_item [OF c ways(3) assms(5)] n by (simp add: st')
    qed
  qed
qed

lemma incoming_idle:
  "overlay_incoming st now m = Overlay_next extra st' \<Longrightarrow>
     texts extra = [] \<and> os_queue st' = os_queue st \<and> os_last_seq st' = os_last_seq st"
  by (auto simp: overlay_incoming_def Let_def split: if_splits client_message.splits)

lemma turn_inv:
  assumes "client_inv env final sent st db" "ledger_reads final db dbs"
    and "overlay_enabled st now i" "overlay_turn env fresh dbs stream now send_ok st i = Overlay_next extra st'"
    and "int (length (event_log final)) \<le> i64_max"
  shows "client_inv env final (sent @ extra) st' (dbs 2)"
proof -
  have s: "overlay_step env fresh dbs stream now st i = Overlay_next extra st'"
    using assms(4) by (auto simp: overlay_turn_def split: overlay_result.splits if_splits)
  show ?thesis
  proof (cases i)
    case Pong_deadline
    then show ?thesis using s by (simp add: overlay_step_def)
  next
    case Heartbeat
    then have "texts extra = []" "os_queue st' = os_queue st" "os_last_seq st' = os_last_seq st"
      using s by (auto simp: overlay_step_def Let_def split: if_splits)
    then show ?thesis by (rule client_inv_idle [OF assms(1,2)])
  next
    case (Incoming m)
    then have "overlay_incoming st now m = Overlay_next extra st'" using s by (simp add: overlay_step_def)
    then show ?thesis using client_inv_idle [OF assms(1,2)] incoming_idle by blast
  next
    case Deliver
    then obtain q rest where "os_queue st = q # rest"
      using assms(3) by (auto simp: overlay_enabled_def neq_Nil_conv)
    with deliver_inv [OF assms(1,2) this] show ?thesis using s Deliver by (auto simp: overlay_step_def)
  next
    case Poll
    then have "overlay_poll env fresh dbs stream st = Inr st'" "extra = []" "os_queue st = []"
      using s assms(3) by (auto simp: overlay_step_def overlay_enabled_def split: sum.splits)
    then show ?thesis using poll_inv [OF assms(1,2) _ _ assms(5)] by simp
  qed
qed

lemma overlay_run_inv:
  "overlay_run env final stream sent st db \<Longrightarrow> int (length (event_log final)) \<le> i64_max \<Longrightarrow>
     client_inv env final sent st db"
  by (induction rule: overlay_run.induct) (auto intro: accept_inv turn_inv)


section \<open>A sample connection\<close>

definition sample_overlay :: overlay_env where
  "sample_overlay = \<lparr>ve_threshold = 1000, ve_sha256 = (\<lambda>_. []), ve_catalog = sample_catalog,
     ve_print = (\<lambda>_. ''{}''), ve_timing = default_timing\<rparr>"

definition watched_db :: ledger_db where
  "watched_db = paid_db\<lparr>overlay_identity := Some ''s''\<rparr>"

lemma watched_steps: "ledger_steps empty_db paid_db" "ledger_steps paid_db watched_db"
proof -
  have "ledger_step empty_db paid_db"
    by (rule ledger_step.payment [OF sample_recorded]) (simp add: empty_db_def i64_max_def)
  then show "ledger_steps empty_db paid_db" by (rule r_into_rtranclp)
  have "overlay_identity paid_db = None"
    by (simp add: paid_db_def posted_def logged_def Let_def empty_db_def)
  then have "overlay_stream_id ''s'' paid_db = Inr (''s'', watched_db)"
    by (simp add: overlay_stream_id_def watched_db_def)
  then show "ledger_steps paid_db watched_db" using ledger_step.overlay_id by blast
qed

lemma sample_message:
  "\<exists>observed. durable_event_message sample_overlay fresh
     (event_of_row (received_event sample_payment empty_db)) = Inr (''{}'', observed)"
proof -
  obtain p where "render (\<lambda>_. []) sample_catalog
     (event_of_row (received_event sample_payment empty_db)) 1000 = Inr p"
    using sample_renders by blast
  moreover obtain ms where "ev_payload (received_event sample_payment empty_db) = JObj ms"
    by (simp add: received_event_def)
  ultimately show ?thesis
    by (simp add: durable_event_message_def sample_event_row) (simp add: sample_overlay_def Let_def)
qed

lemma watched_tables:
  "event_log watched_db = [received_event sample_payment empty_db]" "log_inv watched_db"
  "max_event_seq watched_db = 1"
proof -
  show log: "event_log watched_db = [received_event sample_payment empty_db]"
    by (simp add: watched_db_def paid_tables)
  have "ledger_steps empty_db watched_db" using watched_steps by (rule rtranclp_trans)
  then have "events_contiguous watched_db" using reachable_inv by (simp add: ledger_inv_all_def)
  then show "log_inv watched_db" "max_event_seq watched_db = 1"
    using max_event_seq_contiguous [of watched_db] by (simp_all add: log_inv_def log i64_max_def)
qed

definition shown :: "u64 \<Rightarrow> queued" where
  "shown n = \<lparr>qd_seq = n, qd_body = ''{}'', qd_weather_observed_at = None\<rparr>"

lemma sample_window:
  "rendered_window sample_overlay (\<lambda>_. True) 0 1 watched_db = Inr (Some [shown 1])"
proof -
  let ?e = "event_of_row (received_event sample_payment empty_db)"
  obtain observed where m: "durable_event_message sample_overlay (\<lambda>_. True) ?e = Inr (''{}'', observed)"
    using sample_message by blast
  have "overlay_event_window (ve_print sample_overlay) 0 1 watched_db = Inr (Some [?e])"
    by (simp add: overlay_window_Some [OF watched_tables(2)] MAX_ACCOUNTING_UNITS_def)
      (simp add: watched_tables sample_overlay_def event_bytes_def received_event_def)
  moreover have "render_window sample_overlay (\<lambda>_. True) [?e] = Inr [shown 1]"
    using m by (simp add: render_window_def MAX_MESSAGE_def MAX_QUEUE_def sample_event_row shown_def)
  ultimately show ?thesis by (simp add: rendered_window_def)
qed

lemma sample_checkpoint: "overlay_checkpoint sample_overlay ''s'' None watched_db = Inr (shown 1)"
proof -
  have "sql_sum (map le_delta_sats (ledger_entries watched_db)) = Some 21"
    by (simp add: watched_db_def paid_db_def posted_tables)
      (simp add: sql_sum_def in_i64_def i64_max_def i64_min_def entry_of_def sample_payment_def empty_db_def)
  moreover have "unresolved_feed_attempt watched_db = Inr None"
    by (simp add: watched_db_def paid_db_def posted_tables unresolved_feed_attempt_def)
      (simp add: empty_db_def)
  ultimately show ?thesis
    using watched_tables(3)
    by (simp add: overlay_checkpoint_def overlay_snapshot_message_def overlay_snapshot_state_def
      shown_def Let_def to_u64_def u64_of_i64_def) (simp add: sample_overlay_def)
qed

definition resuming :: overlay_resume where
  "resuming = \<lparr>ov_version = Some 1, ov_stream = Some ''s'', ov_after = Some 0\<rparr>"

definition watching :: overlay_state where
  "watching = \<lparr>os_last_seq = 0, os_queue = [shown 1, shown 1], os_pending_pong = None, os_nonce = 0,
     os_input_window = 0, os_inputs = 0\<rparr>"

lemma sample_accepted:
  "overlay_accept sample_overlay (\<lambda>_. True) ''s'' (\<lambda>_. watched_db) 0 resuming paid_db
     = Inr (''s'', watched_db, [Ws_text ''{}''], watching)"
proof -
  have "overlay_identity paid_db = None"
    by (simp add: paid_db_def posted_def logged_def Let_def empty_db_def)
  moreover have "qd_seq (shown 1) = 1" "length (qd_body (shown 1)) = 2" by (simp_all add: shown_def)
  moreover have "resume_text sample_overlay ''s'' 0 1 = ''{}''" by (simp add: resume_text_def sample_overlay_def)
  ultimately show ?thesis
    using sample_checkpoint sample_window
    by (simp add: overlay_accept_def resuming_def resume_validate_def overlay_stream_id_def overlay_connect_def
        resume_replay_def watched_db_def [symmetric] MAX_QUEUE_def watching_def i64_max_def)
qed

lemma sample_delivers:
  "overlay_turn sample_overlay (\<lambda>_. True) (\<lambda>_. watched_db) ''s'' 0 True (watching\<lparr>os_queue := shown 1 # rest,
      os_last_seq := n\<rparr>) Deliver
     = Overlay_next [Ws_text ''{}''] (watching\<lparr>os_queue := rest, os_last_seq := 1\<rparr>)"
  by (simp add: overlay_turn_def overlay_step_def current_body_def shown_def)

lemma sample_watch_run:
  "overlay_run sample_overlay watched_db ''s'' [Ws_text ''{}'', Ws_text ''{}'', Ws_text ''{}'']
     (watching\<lparr>os_queue := [], os_last_seq := 1\<rparr>) watched_db"
proof -
  let ?run = "overlay_run sample_overlay watched_db ''s''"
  have reads: "ledger_reads watched_db watched_db (\<lambda>_. watched_db)" by (simp add: ledger_reads_def)
  have deliver: "?run (sent @ [Ws_text ''{}'']) (watching\<lparr>os_queue := rest, os_last_seq := 1\<rparr>) watched_db"
    if "?run sent (watching\<lparr>os_queue := shown 1 # rest, os_last_seq := n\<rparr>) watched_db" for sent rest n
    using overlay_run.turn [OF that reads _ sample_delivers] by (simp add: overlay_enabled_def)
  have "?run [Ws_text ''{}''] watching watched_db"
    by (rule overlay_run.opened [OF watched_steps(1) sample_accepted reads])
  then have "?run [Ws_text ''{}''] (watching\<lparr>os_queue := [shown 1, shown 1], os_last_seq := 0\<rparr>) watched_db"
    by (simp add: watching_def)
  from deliver [OF deliver [OF this]] show ?thesis by simp
qed


end
