(* ===== verification/Weather.thy ===== *)
theory Weather
  imports Presentation Openhab Float64
begin

text \<open>
  Temperature and weather, from the sensor to the daemon: the weather adapter of the gateway,
  \<open>src/src/gateway/weather.rs\<close>, openHAB's temperature Item (\<open>src/src/openhab.rs\<close>), the two handlers
  of \<open>src/src/gateway/server.rs\<close> and the two calls of \<open>src/src/gateway/client.rs\<close>. chrono, serde_json's
  reading and printing of doubles and \<open>char::to_uppercase\<close> beyond ASCII are the fields of a
  \<open>weather_codec\<close>; \<open>now\<close> is the clock of a call, in seconds. Texts are UTF-8 bytes.
\<close>

section \<open>Snapshots\<close>

record weather_snapshot =
  ws_observed_at :: string
  ws_temperature :: f64
  ws_humidity :: u64
  ws_wind_speed :: f64
  ws_wind_direction :: string
  ws_uv_index :: u64
  ws_apparent_temperature :: "f64 option"
  ws_wind_gust :: "f64 option"
  ws_pressure_relative :: "f64 option"
  ws_pressure_trend :: "string option"
  ws_rain_hourly :: "f64 option"
  ws_rain_daily :: "f64 option"
  ws_solar_radiation :: "f64 option"

text \<open>\<open>wx_rfc3339\<close> and \<open>wx_naive\<close> are chrono's two parsers, as seconds since the epoch, and
  \<open>wx_print_time\<close> its RFC 3339 text of an instant; \<open>wx_json\<close> is a body as JSON, \<open>wx_float\<close> the double
  of a JSON number's text and \<open>wx_print_float\<close> the text of a double.\<close>

record weather_codec =
  wx_rfc3339 :: "string \<Rightarrow> i64 option"
  wx_naive :: "string \<Rightarrow> i64 option"
  wx_print_time :: "i64 \<Rightarrow> string option"
  wx_json :: "string \<Rightarrow> json option"
  wx_float :: "string \<Rightarrow> f64"
  wx_print_float :: "f64 \<Rightarrow> string"
  wx_upper :: "string \<Rightarrow> string"

section \<open>Time\<close>

definition now_epoch :: "i64 \<Rightarrow> i64 fallible" where
  "now_epoch clock = (if clock < 0 then Inl ''clock is before the epoch'' else Inr clock)"

definition observation_epoch :: "weather_codec \<Rightarrow> string \<Rightarrow> i64 fallible" where
  "observation_epoch c raw =
     andthen (case wx_rfc3339 c raw of
         Some epoch \<Rightarrow> Inr epoch
       | None \<Rightarrow> ok_or ''weather dateutc must be RFC3339 or YYYY-MM-DD HH:MM:SS UTC'' (wx_naive c raw)) (\<lambda>epoch.
     if epoch < 0 then Inl ''weather observation precedes Unix epoch'' else Inr epoch)"

definition saturating_sub_i64 :: "i64 \<Rightarrow> i64 \<Rightarrow> i64" where
  "saturating_sub_i64 a b = max i64_min (min i64_max (a - b))"

definition validate_observation_time :: "weather_codec \<Rightarrow> string \<Rightarrow> i64 \<Rightarrow> u64 \<Rightarrow> i64 fallible" where
  "validate_observation_time c raw now max_stale =
     andthen (observation_epoch c raw) (\<lambda>epoch.
     if saturating_sub_i64 epoch now > 30
     then Inl ''weather observation is stale or too far in the future''
     else andthen (ok_or ''out of range integral type conversion attempted'' (i64_of_u64 max_stale)) (\<lambda>stale.
       if saturating_sub_i64 now epoch > stale
       then Inl ''weather observation is stale or too far in the future''
       else Inr epoch))"

section \<open>Fields\<close>

type_synonym json_object = "(string \<times> json) list"

definition required_bounded_string :: "json_object \<Rightarrow> string \<Rightarrow> nat \<Rightarrow> string fallible" where
  "required_bounded_string object key max_len =
     andthen (ok_or ''weather field must be a string'' (field_str object key)) (\<lambda>raw.
     let value = trim raw in
     if value = [] \<or> max_len < length value then Inl ''weather field has invalid length'' else Inr value)"

fun optional_bounded_string :: "json_object \<Rightarrow> string list \<Rightarrow> nat \<Rightarrow> string option fallible" where
  "optional_bounded_string object [] max_len = Inr None"
| "optional_bounded_string object (key # keys) max_len =
     (case map_of object key of
        None \<Rightarrow> optional_bounded_string object keys max_len
      | Some JNull \<Rightarrow> optional_bounded_string object keys max_len
      | Some (JStr raw) \<Rightarrow>
          (let value = trim raw in
           if value = [] \<or> max_len < length value then Inl ''weather field has invalid length''
           else Inr (Some value))
      | Some _ \<Rightarrow> Inl ''weather field must be a string'')"

text \<open>\<open>Value::as_f64\<close> of a number, or a number in a string.\<close>

definition numeric :: "weather_codec \<Rightarrow> json \<Rightarrow> f64 option" where
  "numeric c value = (case value of
      JNum i \<Rightarrow> Some (f64_of_rat (of_int i))
    | JFloat t \<Rightarrow> Some (wx_float c t)
    | JStr t \<Rightarrow> parse_f64 t
    | _ \<Rightarrow> None)"

definition parse_number :: "weather_codec \<Rightarrow> json \<Rightarrow> rat \<Rightarrow> rat \<Rightarrow> f64 fallible" where
  "parse_number c value lo hi =
     andthen (ok_or ''weather field must be numeric'' (numeric c value)) (\<lambda>number.
     if \<not> f64_within lo hi number then Inl ''weather field is out of range'' else Inr number)"

definition required_number :: "weather_codec \<Rightarrow> json_object \<Rightarrow> string \<Rightarrow> rat \<Rightarrow> rat \<Rightarrow> f64 fallible" where
  "required_number c object key lo hi =
     andthen (ok_or ''weather field is missing'' (map_of object key)) (\<lambda>value. parse_number c value lo hi)"

fun optional_number ::
  "weather_codec \<Rightarrow> json_object \<Rightarrow> string list \<Rightarrow> rat \<Rightarrow> rat \<Rightarrow> f64 option fallible" where
  "optional_number c object [] lo hi = Inr None"
| "optional_number c object (key # keys) lo hi =
     (case map_of object key of
        None \<Rightarrow> optional_number c object keys lo hi
      | Some JNull \<Rightarrow> optional_number c object keys lo hi
      | Some value \<Rightarrow> andthen (parse_number c value lo hi) (\<lambda>x. Inr (Some x)))"

text \<open>\<open>f64_of_u64\<close> is exact on the bounds of the code; \<open>as u64\<close> truncates.\<close>

definition required_integer :: "weather_codec \<Rightarrow> json_object \<Rightarrow> string \<Rightarrow> nat \<Rightarrow> nat \<Rightarrow> u64 fallible" where
  "required_integer c object key lo hi =
     andthen (required_number c object key (of_nat lo) (of_nat hi)) (\<lambda>number.
     let x = (case f64_value number of None \<Rightarrow> 0 | Some x \<Rightarrow> x) in
     if x \<noteq> of_int \<lfloor>x\<rfloor> then Inl ''weather field must be an integer'' else Inr (word_of_int \<lfloor>x\<rfloor>))"

definition directions :: "string list" where
  "directions = [''N'', ''NNE'', ''NE'', ''ENE'', ''E'', ''ESE'', ''SE'', ''SSE'', ''S'', ''SSW'', ''SW'',
     ''WSW'', ''W'', ''WNW'', ''NW'', ''NNW'']"

definition degrees_to_cardinal :: "f64 \<Rightarrow> string fallible" where
  "degrees_to_cardinal degrees =
     (if \<not> f64_within 0 360 degrees then Inl ''weather wind direction is out of range''
      else
        let normalized = (if f64_value degrees = Some 360 then Finite 0 else degrees);
            sum = f64_op (+) (f64_op (/) normalized (Finite (45 / 2))) (Finite (1 / 2));
            x = (case f64_value sum of None \<Rightarrow> 0 | Some x \<Rightarrow> x)
        in Inr (directions ! (nat \<lfloor>x\<rfloor> mod length directions)))"

definition direction_byte :: "char \<Rightarrow> bool" where
  "direction_byte c \<longleftrightarrow> is_ascii_alphanumeric c \<or> c = CHR ''-''"

definition normalize_wind_direction :: "weather_codec \<Rightarrow> json option \<Rightarrow> string fallible" where
  "normalize_wind_direction c value =
     andthen (ok_or ''weather field winddir is missing'' value) (\<lambda>v.
     case v of
       JStr raw \<Rightarrow>
         (let text = trim raw in
          if text \<noteq> [] \<and> length text \<le> 16 \<and> list_all direction_byte text
          then (case parse_f64 text of Some degrees \<Rightarrow> degrees_to_cardinal degrees | None \<Rightarrow> Inr text)
          else Inl ''weather field winddir has invalid string value'')
     | _ \<Rightarrow> andthen (parse_number c v 0 360) degrees_to_cardinal)"

section \<open>The adapter\<close>

definition MAX_WEATHER_BODY :: nat where
  "MAX_WEATHER_BODY = 64 * 1024"

record weather_adapter =
  wa_url :: url
  wa_max_stale :: u64

definition weather_adapter_new :: "(string \<Rightarrow> url option) \<Rightarrow> string \<Rightarrow> u64 \<Rightarrow> weather_adapter fallible" where
  "weather_adapter_new parse_url text max_stale =
     (if max_stale = 0 then Inl ''weather max stale duration must be greater than zero''
      else andthen (ok_or ''invalid trusted weather URL'' (parse_url text)) (\<lambda>u.
      if url_scheme u \<noteq> ''http'' \<or> url_host u \<noteq> Some ''127.0.0.1''
      then Inl ''trusted weather URL must use http://127.0.0.1''
      else if url_path u \<noteq> ''/get_received_data'' \<or> url_query u \<noteq> None \<or> url_fragment u \<noteq> None
      then Inl ''trusted weather URL must be exactly /get_received_data without query/fragment''
      else Inr \<lparr>wa_url = u, wa_max_stale = max_stale\<rparr>))"

text \<open>The loop over an array: the first of the latest entries.\<close>

fun latest_entry ::
  "weather_codec \<Rightarrow> (i64 \<times> json) option \<Rightarrow> json list \<Rightarrow> (i64 \<times> json) option fallible" where
  "latest_entry c latest [] = Inr latest"
| "latest_entry c latest (item # items) =
     (case item of
        JObj object \<Rightarrow>
          andthen (required_bounded_string object ''dateutc'' 64) (\<lambda>raw.
          andthen (observation_epoch c raw) (\<lambda>epoch.
          latest_entry c
            (if (case latest of None \<Rightarrow> True | Some (previous, _) \<Rightarrow> previous < epoch)
             then Some (epoch, item) else latest) items))
      | _ \<Rightarrow> Inl ''weather array entry must be an object'')"

definition latest_observation :: "weather_codec \<Rightarrow> json \<Rightarrow> json fallible" where
  "latest_observation c value = (case value of
      JArr items \<Rightarrow>
        andthen (latest_entry c None items) (\<lambda>latest.
        andthen (ok_or ''trusted weather array is empty'' latest) (\<lambda>(_, item). Inr item))
    | JObj _ \<Rightarrow> Inr value
    | _ \<Rightarrow> Inl ''trusted weather response must be an object or non-empty array'')"

definition read_snapshot :: "weather_codec \<Rightarrow> json_object \<Rightarrow> string \<Rightarrow> weather_snapshot fallible" where
  "read_snapshot c object seen_at =
     andthen (required_number c object ''tempf'' (- 100) 150) (\<lambda>temperature.
     andthen (required_integer c object ''humidity'' 0 100) (\<lambda>humidity.
     andthen (required_number c object ''windspeedmph'' 0 250) (\<lambda>wind_speed.
     andthen (normalize_wind_direction c (map_of object ''winddir'')) (\<lambda>wind_direction.
     andthen (required_integer c object ''uv'' 0 50) (\<lambda>uv_index.
     andthen (optional_number c object [''feelslikef''] (- 100) 150) (\<lambda>apparent.
     andthen (optional_number c object [''windgustmph''] 0 300) (\<lambda>gust.
     andthen (optional_number c object [''baromrelin'', ''baromrelinin''] 20 40) (\<lambda>pressure.
     andthen (optional_bounded_string object [''pressuretrend''] 32) (\<lambda>trend.
     andthen (optional_number c object [''hourlyrainin''] 0 20) (\<lambda>hourly.
     andthen (optional_number c object [''dailyrainin''] 0 100) (\<lambda>daily.
     andthen (optional_number c object [''solarradiation''] 0 2000) (\<lambda>solar.
     Inr \<lparr>ws_observed_at = seen_at, ws_temperature = temperature, ws_humidity = humidity,
          ws_wind_speed = wind_speed, ws_wind_direction = wind_direction, ws_uv_index = uv_index,
          ws_apparent_temperature = apparent, ws_wind_gust = gust, ws_pressure_relative = pressure,
          ws_pressure_trend = trend, ws_rain_hourly = hourly, ws_rain_daily = daily,
          ws_solar_radiation = solar\<rparr>))))))))))))"

definition weather_fetch ::
  "weather_codec \<Rightarrow> network \<Rightarrow> weather_adapter \<Rightarrow> i64 \<Rightarrow> gateway_store
     \<Rightarrow> (weather_snapshot \<times> gateway_store) fallible" where
  "weather_fetch c send a clock store =
     andthen (map_err (\<lambda>_. ''trusted weather read failed'')
       (send \<lparr>rq_method = GET, rq_url = wa_url a, rq_timeout_seconds = 3\<rparr>)) (\<lambda>response.
     if \<not> is_success (hr_status response) then Inl ''trusted weather returned an error status''
     else andthen (map_err (\<lambda>_. ''weather body is too large or broken'')
       (bounded_body MAX_WEATHER_BODY response)) (\<lambda>body.
     andthen (ok_or ''trusted weather JSON is malformed'' (wx_json c body)) (\<lambda>value.
     andthen (latest_observation c value) (\<lambda>latest.
     case latest of
       JObj object \<Rightarrow>
         andthen (required_bounded_string object ''dateutc'' 64) (\<lambda>raw.
         andthen (now_epoch clock) (\<lambda>now.
         andthen (validate_observation_time c raw now (wa_max_stale a)) (\<lambda>epoch.
         andthen (ok_or ''invalid observation time'' (wx_print_time c epoch)) (\<lambda>seen_at.
         andthen (read_snapshot c object seen_at) (\<lambda>snapshot.
         andthen (map_err (\<lambda>_. ''weather observation timestamp regressed'')
           (accept_weather_time epoch store)) (\<lambda>store'.
         Inr (snapshot, store')))))))
     | _ \<Rightarrow> Inl ''trusted weather latest entry must be a JSON object''))))"

section \<open>The client's check\<close>

definition trend_ok :: "string \<Rightarrow> bool" where
  "trend_ok t \<longleftrightarrow> trim t \<noteq> [] \<and> length t \<le> 32 \<and> \<not> has_control t"

definition validate_snapshot :: "weather_codec \<Rightarrow> i64 \<Rightarrow> weather_snapshot \<Rightarrow> unit fallible" where
  "validate_snapshot c clock w =
     andthen (andthen (now_epoch clock) (\<lambda>now. validate_observation_time c (ws_observed_at w) now 300)) (\<lambda>_.
     if \<not> f64_within (- 100) 150 (ws_temperature w) \<or> \<not> f64_within 0 250 (ws_wind_speed w)
     then Inl ''invalid normalized weather value''
     else if 100 < ws_humidity w \<or> 50 < ws_uv_index w then Inl ''invalid normalized weather range''
     else andthen (normalize_wind_direction c (Some (JStr (ws_wind_direction w)))) (\<lambda>_.
     if (case ws_pressure_trend w of None \<Rightarrow> False | Some t \<Rightarrow> \<not> trend_ok t)
     then Inl ''invalid normalized weather trend''
     else if list_ex (\<lambda>(value, lo, hi). case value of None \<Rightarrow> False | Some v \<Rightarrow> \<not> f64_within lo hi v)
       [(ws_apparent_temperature w, - 100, 150), (ws_wind_gust w, 0, 300),
        (ws_pressure_relative w, 20, 40), (ws_rain_hourly w, 0, 20), (ws_rain_daily w, 0, 100),
        (ws_solar_radiation w, 0, 2000)]
     then Inl ''invalid optional normalized weather value''
     else Inr ()))"

definition client_weather ::
  "weather_codec \<Rightarrow> network \<Rightarrow> weather_snapshot json_reader \<Rightarrow> url \<Rightarrow> i64 \<Rightarrow> weather_snapshot fallible" where
  "client_weather c send parse base clock =
     andthen (map_err (\<lambda>_. ''integration gateway weather request failed'')
       (get_json send parse (join_path base ''v1/weather''))) (\<lambda>snapshot.
     andthen (validate_snapshot c clock snapshot) (\<lambda>_. Inr snapshot))"

definition client_temperature ::
  "network \<Rightarrow> f64 option json_reader \<Rightarrow> url \<Rightarrow> f64 option fallible" where
  "client_temperature send parse base =
     andthen (map_err (\<lambda>_. ''integration gateway temperature request failed'')
       (get_json send parse (join_path base ''v1/temperature''))) (\<lambda>t.
     if t = Some NonFinite then Inl ''integration gateway returned non-finite temperature'' else Inr t)"

section \<open>The handlers\<close>

definition float_json :: "weather_codec \<Rightarrow> f64 \<Rightarrow> json" where
  "float_json c x = JFloat (wx_print_float c x)"

definition optional_member :: "string \<Rightarrow> json option \<Rightarrow> json_object" where
  "optional_member key value = (case value of None \<Rightarrow> [] | Some v \<Rightarrow> [(key, v)])"

definition snapshot_json :: "weather_codec \<Rightarrow> weather_snapshot \<Rightarrow> json" where
  "snapshot_json c w = JObj
     ([(''observed_at'', JStr (ws_observed_at w)), (''temperature_f'', float_json c (ws_temperature w)),
       (''humidity'', JU64 (ws_humidity w)), (''wind_speed_mph'', float_json c (ws_wind_speed w)),
       (''wind_direction'', JStr (ws_wind_direction w)), (''uv_index'', JU64 (ws_uv_index w))]
      @ optional_member ''apparent_temperature_f'' (map_option (float_json c) (ws_apparent_temperature w))
      @ optional_member ''wind_gust_mph'' (map_option (float_json c) (ws_wind_gust w))
      @ optional_member ''pressure_relative_inhg'' (map_option (float_json c) (ws_pressure_relative w))
      @ optional_member ''pressure_trend'' (map_option JStr (ws_pressure_trend w))
      @ optional_member ''rain_hourly_in'' (map_option (float_json c) (ws_rain_hourly w))
      @ optional_member ''rain_daily_in'' (map_option (float_json c) (ws_rain_daily w))
      @ optional_member ''solar_radiation_w_m2'' (map_option (float_json c) (ws_solar_radiation w)))"

definition failure_json :: "string \<Rightarrow> json" where
  "failure_json reason = JObj [(''status'', JStr ''ERROR''), (''reason'', JStr reason)]"

definition server_weather ::
  "weather_codec \<Rightarrow> network \<Rightarrow> weather_adapter \<Rightarrow> i64 \<Rightarrow> gateway_store \<Rightarrow> (nat \<times> json) \<times> gateway_store" where
  "server_weather c send a clock store =
     (case weather_fetch c send a clock store of
        Inr (snapshot, store') \<Rightarrow> ((200, snapshot_json c snapshot), store')
      | Inl _ \<Rightarrow> ((502, failure_json ''Weather data unavailable''), store))"

section \<open>OpenHAB's temperature\<close>

definition strip_suffix :: "string \<Rightarrow> string \<Rightarrow> string option" where
  "strip_suffix suffix s = (if ends_with s suffix then Some (take (length s - length suffix) s) else None)"

definition degree_sign :: string where
  "degree_sign = [CHR 0xC2, CHR 0xB0]"

definition parse_temperature_f :: "string \<Rightarrow> f64 fallible" where
  "parse_temperature_f raw =
     (let s = trim raw in
      andthen
        (case (strip_suffix (degree_sign @ ''F'') s, strip_suffix ''F'' s,
               strip_suffix (degree_sign @ ''C'') s, strip_suffix ''C'' s) of
           (Some value, _, _, _) \<Rightarrow> Inr (value, False)
         | (None, Some value, _, _) \<Rightarrow> Inr (value, False)
         | (None, None, Some value, _) \<Rightarrow> Inr (value, True)
         | (None, None, None, Some value) \<Rightarrow> Inr (value, True)
         | _ \<Rightarrow> Inl ''OpenHAB temperature must include explicit Celsius or Fahrenheit units'') (\<lambda>(number, celsius).
      andthen (ok_or ''invalid OpenHAB temperature number'' (parse_f64 (trim number))) (\<lambda>value.
      let fahrenheit =
        (if celsius
         then f64_op (+) (f64_op (/) (f64_op (*) value (Finite 9)) (Finite 5)) (Finite 32) else value) in
      if \<not> f64_within (- 100) 150 fahrenheit
      then Inl ''OpenHAB temperature is non-finite or out of range'' else Inr fahrenheit)))"

definition openhab_temperature ::
  "oh_codec \<Rightarrow> oh_network \<Rightarrow> openhab_client \<Rightarrow> f64 option fallible" where
  "openhab_temperature codec send c =
     (case oh_temperature_item c of
        None \<Rightarrow> Inr None
      | Some item \<Rightarrow>
          andthen (map_err (\<lambda>_. ''failed requesting OpenHAB item state'') (item_state codec send c item)) (\<lambda>state.
          andthen (parse_temperature_f state) (\<lambda>t. Inr (Some t))))"

definition server_temperature ::
  "weather_codec \<Rightarrow> oh_codec \<Rightarrow> oh_network \<Rightarrow> openhab_client \<Rightarrow> nat \<times> json" where
  "server_temperature c codec send client =
     (case openhab_temperature codec send client of
        Inr t \<Rightarrow> (200, JObj [(''temperature_f'', case t of None \<Rightarrow> JNull | Some x \<Rightarrow> float_json c x)])
      | Inl _ \<Rightarrow> (502, failure_json ''OpenHAB temperature unavailable''))"

section \<open>The message\<close>

text \<open>\<open>capitalize\<close>: the first character, of one to four bytes, in upper case.\<close>

definition utf8_width :: "char \<Rightarrow> nat" where
  "utf8_width a = (if byte a < 0xC0 then 1 else if byte a < 0xE0 then 2 else if byte a < 0xF0 then 3 else 4)"

definition upper_byte :: "char \<Rightarrow> char" where
  "upper_byte a = (if is_ascii_lowercase a then char_of (byte a - 32) else a)"

definition capitalize :: "weather_codec \<Rightarrow> string \<Rightarrow> string" where
  "capitalize c s = (case s of
      [] \<Rightarrow> []
    | a # rest \<Rightarrow> if byte a < 128 then upper_byte a # rest
        else wx_upper c (take (utf8_width a) s) @ drop (utf8_width a) s)"

fun join_text :: "string \<Rightarrow> string list \<Rightarrow> string" where
  "join_text separator [] = []"
| "join_text separator [s] = s"
| "join_text separator (s # t # ts) = s @ separator @ join_text separator (t # ts)"

definition weather_sign :: string where
  "weather_sign = [CHR 0xF0, CHR 0x9F, CHR 0x8C, CHR 0xA4, CHR 0xEF, CHR 0xB8, CHR 0x8F]"

definition square_metre :: string where
  "square_metre = ''m'' @ [CHR 0xC2, CHR 0xB2]"

definition inches :: string where
  "inches = [CHR 0x22]"

definition positive :: "f64 option \<Rightarrow> f64 option" where
  "positive x = (case x of None \<Rightarrow> None | Some v \<Rightarrow> if f64_less (Finite 0) v then Some v else None)"

definition weather_extras :: "weather_codec \<Rightarrow> weather_snapshot \<Rightarrow> string list" where
  "weather_extras c w =
     (case (ws_pressure_relative w, ws_pressure_trend w) of
        (Some p, Some trend) \<Rightarrow> [capitalize c trend @ '' pressure '' @ fixed 2 p @ '' inHg'']
      | (Some p, None) \<Rightarrow> [''Pressure '' @ fixed 2 p @ '' inHg'']
      | (None, Some trend) \<Rightarrow> [capitalize c trend @ '' pressure'']
      | (None, None) \<Rightarrow> [])
     @ (case (positive (ws_rain_hourly w), positive (ws_rain_daily w)) of
          (Some hourly, _) \<Rightarrow> [''Rain '' @ fixed 2 hourly @ inches @ '' per hour'']
        | (None, Some daily) \<Rightarrow> [''Rain today '' @ fixed 2 daily @ inches]
        | (None, None) \<Rightarrow> [])
     @ (case positive (ws_solar_radiation w) of
          Some solar \<Rightarrow> [''Solar '' @ fixed 0 solar @ '' W/'' @ square_metre]
        | None \<Rightarrow> [])"

definition format_weather_message :: "weather_codec \<Rightarrow> weather_snapshot \<Rightarrow> string" where
  "format_weather_message c w =
     (let temperature = fixed 0 (ws_temperature w) @ degree_sign @ ''F''
            @ (case ws_apparent_temperature w of
                 None \<Rightarrow> []
               | Some apparent \<Rightarrow> '' (feels like '' @ fixed 1 apparent @ degree_sign @ ''F)'');
          wind = fixed 0 (ws_wind_speed w) @ '' mph wind from '' @ ws_wind_direction w
            @ (case ws_wind_gust w of
                 None \<Rightarrow> []
               | Some gust \<Rightarrow> if f64_less (ws_wind_speed w) gust
                   then '', gusts up to '' @ fixed 1 gust @ '' mph'' else []);
          primary = [temperature, show_u64 (ws_humidity w) @ ''% humidity'', wind,
            ''UV index '' @ show_u64 (ws_uv_index w)];
          extras = weather_extras c w
      in weather_sign @ '' Weather Update: '' @ join_text '', '' primary
         @ (if extras = [] then [] else ''. '' @ join_text ''; '' extras))"

end
