(* ===== verification/Informational.thy ===== *)
theory Informational
  imports Weather
begin

text \<open>
  The informational worker, \<open>src/src/informational.rs\<close>: once per interval it may append an information
  event or a weather event to the log. The choice is a fixed function of the cycle number and the
  configuration, made with doubles from a SHA-256 digest. The endless loop is any run of cycles.
\<close>

datatype informational_choice = Choice_none | Choice_interface_info | Choice_weather

section \<open>The choice\<close>

definition current_cycle :: "i64 \<Rightarrow> u64 \<Rightarrow> u64 fallible" where
  "current_cycle clock interval_seconds =
     (if interval_seconds = 0 then Inl ''informational interval must be greater than zero''
      else if clock < 0 then Inl ''system clock is before Unix epoch''
      else Inr (word_of_int clock div interval_seconds))"

definition draw_digest :: "(string \<Rightarrow> string) \<Rightarrow> u64 \<Rightarrow> string \<Rightarrow> u64" where
  "draw_digest sha256 cycle purpose =
     of_nat (from_be_bytes (take 8 (sha256 (''lightning-goats-info-v1'' @ be_bytes cycle @ purpose))))"

definition stable_draw :: "(string \<Rightarrow> string) \<Rightarrow> u64 \<Rightarrow> string \<Rightarrow> f64" where
  "stable_draw sha256 cycle purpose =
     f64_op (/) (f64_of_u64 (draw_digest sha256 cycle purpose)) (f64_op (+) (f64_of_u64 (- 1)) (Finite 1))"

definition validate_probability :: "f64 \<Rightarrow> unit fallible" where
  "validate_probability p =
     (if \<not> f64_within 0 1 p then Inl ''informational probability must be finite and between 0 and 1'' else Inr ())"

definition conditional_weather_probability :: "informational_config \<Rightarrow> f64" where
  "conditional_weather_probability c =
     (if ic_interface_info_enabled c then
        let denominator = f64_op (-) (Finite 1) (ic_interface_info_probability c) in
        if \<not> f64_less (Finite 0) denominator then Finite 0
        else f64_min (f64_op (/) (ic_weather_probability c) denominator) (Finite 1)
      else ic_weather_probability c)"

definition choose_for_cycle ::
  "(string \<Rightarrow> string) \<Rightarrow> u64 \<Rightarrow> informational_config \<Rightarrow> informational_choice fallible" where
  "choose_for_cycle sha256 cycle c =
     andthen (validate_probability (ic_interface_info_probability c)) (\<lambda>_.
     andthen (validate_probability (ic_weather_probability c)) (\<lambda>_.
     if f64_less (Finite 1) (f64_op (+) (ic_interface_info_probability c) (ic_weather_probability c))
     then Inl ''informational unconditional probabilities must not exceed 1''
     else if ic_interface_info_enabled c
       \<and> f64_less (stable_draw sha256 cycle ''interface-info'') (ic_interface_info_probability c)
     then Inr Choice_interface_info
     else if \<not> ic_weather_enabled c \<or> f64_value (ic_weather_probability c) = Some 0 then Inr Choice_none
     else if f64_less (stable_draw sha256 cycle ''weather'') (conditional_weather_probability c)
     then Inr Choice_weather else Inr Choice_none))"

section \<open>A cycle\<close>

text \<open>The gateway as the client reaches it, the two readers of its answers, and the clock, read once for
  the cycle and once when the weather is checked.\<close>

record informational_env =
  in_sha256 :: "string \<Rightarrow> string"
  in_codec :: weather_codec
  in_send :: network
  in_base :: url
  in_parse_safety :: "feeder_safety json_reader"
  in_parse_weather :: "weather_snapshot json_reader"
  in_cycle_clock :: i64
  in_weather_clock :: i64

definition weather_event :: "weather_codec \<Rightarrow> weather_snapshot \<Rightarrow> json" where
  "weather_event c w =
     JObj [(''message'', JStr (format_weather_message c w)), (''data'', snapshot_json c w)]"

definition run_informational_cycle ::
  "informational_env \<Rightarrow> informational_config \<Rightarrow> ledger_db \<Rightarrow> (informational_choice \<times> ledger_db) fallible" where
  "run_informational_cycle env c db =
     andthen (map_err (\<lambda>_. ''trusted gateway safety unavailable for informational cycle'')
       (client_feeder_safety (in_send env) (in_parse_safety env) (in_base env))) (\<lambda>safety.
     if override_enabled safety then Inr (Choice_none, db)
     else andthen (current_cycle (in_cycle_clock env) (ic_interval_seconds c)) (\<lambda>cycle.
     andthen (choose_for_cycle (in_sha256 env) cycle c) (\<lambda>choice.
     case choice of
       Choice_none \<Rightarrow> Inr (choice, db)
     | Choice_interface_info \<Rightarrow>
         andthen (map_err (\<lambda>_. ''failed appending event'') (append_event ''interface_info'' (JObj []) db)) (\<lambda>(_, db').
         Inr (choice, db'))
     | Choice_weather \<Rightarrow>
         andthen (client_weather (in_codec env) (in_send env) (in_parse_weather env) (in_base env)
           (in_weather_clock env)) (\<lambda>w.
         andthen (map_err (\<lambda>_. ''failed appending event'')
           (append_event ''weather_status'' (weather_event (in_codec env) w) db)) (\<lambda>(_, db').
         Inr (choice, db'))))))"

end
