(* ===== verification/Weather_Properties.thy ===== *)
theory Weather_Properties
  imports Weather
begin

text \<open>
  What a weather observation is worth when it has passed the gateway: every field is within the range
  the daemon checks again, the direction is in normal form, the time only moves forward.
\<close>

section \<open>Trimming\<close>

lemma leading_space_trim_start: "leading_space (trim_start s) = 0"
proof (induction s rule: trim_start.induct)
  case (1 s)
  then show ?case by (cases "leading_space s = 0") (simp_all add: trim_start.simps [of s])
qed

lemma trailing_space_trim_end: "trailing_space (trim_end_rev s) = 0"
proof (induction s rule: trim_end_rev.induct)
  case (1 s)
  then show ?case by (cases "trailing_space s = 0") (simp_all add: trim_end_rev.simps [of s])
qed

lemma trim_end_rev_suffix: "\<exists>p. s = p @ trim_end_rev s"
proof (induction s rule: trim_end_rev.induct)
  case (1 s)
  show ?case
  proof (cases "trailing_space s = 0")
    case False
    with 1 obtain p where "drop (trailing_space s) s = p @ trim_end_rev (drop (trailing_space s) s)" by blast
    then have "s = (take (trailing_space s) s @ p) @ trim_end_rev (drop (trailing_space s) s)"
      by (metis append.assoc append_take_drop_id)
    with False show ?thesis by (metis trim_end_rev.simps)
  qed (simp add: trim_end_rev.simps [of s])
qed

lemma leading_space_prefix: "leading_space (s @ t) = 0 \<Longrightarrow> leading_space s = 0"
  by (cases s rule: leading_space.cases; cases t rule: leading_space.cases) (auto split: if_splits)

lemma trim_trim: "trim (trim s) = trim s"
proof -
  obtain p where "rev (trim_start s) = p @ trim_end_rev (rev (trim_start s))"
    using trim_end_rev_suffix by blast
  then have "trim_start s = trim s @ rev p" by (metis rev_append rev_rev_ident trim_def)
  then have "leading_space (trim s) = 0" using leading_space_trim_start leading_space_prefix by metis
  then have "trim_start (trim s) = trim s" by (simp add: trim_start.simps [of "trim s"])
  moreover have "trim_end_rev (rev (trim s)) = rev (trim s)"
    using trailing_space_trim_end by (simp add: trim_def trim_end_rev.simps [of "trim_end_rev t" for t])
  ultimately show ?thesis by (simp add: trim_def)
qed

section \<open>Directions\<close>

lemma lower_letters:
  "to_ascii_lower CHR ''N'' = CHR ''n''" "to_ascii_lower CHR ''E'' = CHR ''e''"
  "to_ascii_lower CHR ''S'' = CHR ''s''" "to_ascii_lower CHR ''W'' = CHR ''w''"
  "to_ascii_lower CHR ''i'' = CHR ''i''" "to_ascii_lower CHR ''n'' = CHR ''n''"
  "to_ascii_lower CHR ''f'' = CHR ''f''" "to_ascii_lower CHR ''a'' = CHR ''a''"
  by (simp_all add: to_ascii_lower_def is_ascii_uppercase_def byte_def char_of_def bit_0)

lemma letters_no_number:
  assumes "a \<in> {CHR ''N'', CHR ''E'', CHR ''S'', CHR ''W''}"
  shows "signed_rest (a # s) = (False, a # s)" "parse_decimal (a # s) = None" "direction_byte a"
  using assms
  by (auto simp: signed_rest_def parse_decimal_def is_ascii_digit_def byte_def direction_byte_def
      is_ascii_alphanumeric_def is_ascii_uppercase_def)

lemma directions_normal:
  "list_all (\<lambda>d. parse_f64 d = None \<and> d \<noteq> [] \<and> length d \<le> 16 \<and> list_all direction_byte d) directions"
  by (simp add: directions_def parse_f64_def letters_no_number eq_ignore_ascii_case_def
      to_ascii_lowercase_def lower_letters)

lemma direction_trimmed: "list_all direction_byte d \<Longrightarrow> trim d = d"
proof -
  assume "list_all direction_byte d"
  then have u: "list_all unspaced d"
    by (auto simp: list_all_iff direction_byte_def is_ascii_alphanumeric_def is_ascii_digit_def
        is_ascii_lowercase_def is_ascii_uppercase_def unspaced_def space1_def byte_def)
  then have "list_all unspaced (rev d)" by (simp add: list_all_iff)
  with u have "trim_start d = d" "trim_end_rev (rev d) = rev d"
    by (simp_all add: unspaced_edges trim_start.simps [of d] trim_end_rev.simps [of "rev d"])
  then show ?thesis by (simp add: trim_def)
qed

lemma cardinal_direction: "degrees_to_cardinal x = Inr d \<Longrightarrow> d \<in> set directions"
proof -
  assume "degrees_to_cardinal x = Inr d"
  moreover have "0 < length directions" by (simp add: directions_def)
  ultimately show ?thesis by (auto simp: degrees_to_cardinal_def Let_def split: if_splits)
qed

lemma normalized_direction:
  assumes "normalize_wind_direction c v = Inr d"
  shows "parse_f64 d = None \<and> d \<noteq> [] \<and> length d \<le> 16 \<and> list_all direction_byte d"
proof (cases "d \<in> set directions")
  case True
  then show ?thesis using directions_normal by (auto simp: list_all_iff)
next
  case False
  then have none: "degrees_to_cardinal x \<noteq> Inr d" for x using cardinal_direction by blast
  obtain v' where v: "v = Some v'" using assms by (cases v) (simp_all add: normalize_wind_direction_def)
  show ?thesis
  proof (cases "\<exists>raw. v' = JStr raw")
    case True
    then obtain raw where raw: "v' = JStr raw" by blast
    show ?thesis
      using assms none
      by (cases "parse_f64 (trim raw)") (simp_all add: normalize_wind_direction_def v raw Let_def split: if_splits)
  next
    case other: False
    then have "andthen (parse_number c v' 0 360) degrees_to_cardinal = Inr d"
      using assms by (cases v') (simp_all add: normalize_wind_direction_def v)
    with none show ?thesis by (cases "parse_number c v' 0 360") simp_all
  qed
qed

lemma normalize_again:
  assumes "normalize_wind_direction c v = Inr d"
  shows "normalize_wind_direction c (Some (JStr d)) = Inr d"
  using normalized_direction [OF assms] by (simp add: normalize_wind_direction_def Let_def direction_trimmed)

section \<open>Ranges\<close>

lemma parse_number_within: "parse_number c v lo hi = Inr x \<Longrightarrow> f64_within lo hi x"
  by (auto simp: parse_number_def andthen_eq_Inr split: if_splits)

lemma required_number_within: "required_number c object key lo hi = Inr x \<Longrightarrow> f64_within lo hi x"
  by (auto simp: required_number_def andthen_eq_Inr parse_number_within)

lemma optional_number_within: "optional_number c object keys lo hi = Inr (Some x) \<Longrightarrow> f64_within lo hi x"
  by (induction keys) (auto simp: andthen_eq_Inr parse_number_within split: option.splits json.splits)

lemma uint_word_of_int_eq_small:
  "0 \<le> i \<Longrightarrow> i \<le> int n \<Longrightarrow> n < 2 ^ 64 \<Longrightarrow> uint (word_of_int i :: u64) = i"
  by (simp add: uint_word_of_int)

lemma required_integer_le:
  assumes "required_integer c object key 0 hi = Inr n" "hi < 2 ^ 64"
  shows "unat n \<le> hi"
proof -
  obtain number where x: "required_number c object key 0 (of_nat hi) = Inr number"
    using assms(1) by (auto simp: required_integer_def andthen_eq_Inr)
  then obtain q where q: "f64_value number = Some q" "0 \<le> q" "q \<le> of_nat hi"
    using required_number_within [OF x] by (auto simp: f64_within_def split: option.splits)
  then have n: "n = word_of_int \<lfloor>q\<rfloor>"
    using assms(1) x by (auto simp: required_integer_def Let_def split: if_splits)
  have "\<lfloor>q\<rfloor> \<le> int hi" using q(3) by (simp add: floor_le_iff)
  moreover have "0 \<le> \<lfloor>q\<rfloor>" using q(2) by simp
  ultimately have "uint n = \<lfloor>q\<rfloor>"
    using uint_word_of_int_eq_small assms(2) by (simp add: n)
  then show ?thesis using \<open>\<lfloor>q\<rfloor> \<le> int hi\<close> by (simp add: unat_eq_nat_uint)
qed

lemma optional_string_ok:
  "optional_bounded_string object keys n = Inr (Some t) \<Longrightarrow> \<exists>raw. t = trim raw \<and> t \<noteq> [] \<and> length t \<le> n"
  by (induction keys) (auto simp: Let_def split: option.splits json.splits if_splits)

lemma observation_again:
  assumes "validate_observation_time c raw now stale = Inr epoch" "stale \<le> 300"
    and "wx_rfc3339 c text' = Some epoch"
  shows "validate_observation_time c text' now 300 = Inr epoch"
proof -
  obtain s where o: "observation_epoch c raw = Inr epoch" and s: "i64_of_u64 stale = Some s"
    and t: "\<not> saturating_sub_i64 epoch now > 30" "\<not> saturating_sub_i64 now epoch > s"
    using assms(1) by (auto simp: validate_observation_time_def andthen_eq_Inr split: if_splits)
  have "0 \<le> epoch" using o by (auto simp: observation_epoch_def andthen_eq_Inr split: if_splits)
  then have "observation_epoch c text' = Inr epoch" using assms(3) by (simp add: observation_epoch_def)
  moreover have "s \<le> 300" using s assms(2) by (auto simp: i64_of_u64_Some word_le_uint)
  moreover have "i64_of_u64 300 = Some 300" by (simp add: i64_of_u64_Some i64_max_def)
  ultimately show ?thesis using t by (simp add: validate_observation_time_def)
qed

section \<open>Properties\<close>

text \<open>What \<open>read_snapshot\<close> has checked.\<close>

definition snapshot_ranges :: "weather_snapshot \<Rightarrow> bool" where
  "snapshot_ranges w \<longleftrightarrow> f64_within (- 100) 150 (ws_temperature w) \<and> f64_within 0 250 (ws_wind_speed w)
     \<and> ws_humidity w \<le> 100 \<and> ws_uv_index w \<le> 50
     \<and> list_all (\<lambda>(value, lo, hi). case value of None \<Rightarrow> True | Some v \<Rightarrow> f64_within lo hi v)
       [(ws_apparent_temperature w, - 100, 150), (ws_wind_gust w, 0, 300),
        (ws_pressure_relative w, 20, 40), (ws_rain_hourly w, 0, 20), (ws_rain_daily w, 0, 100),
        (ws_solar_radiation w, 0, 2000)]"

lemma read_snapshot_sound:
  assumes "read_snapshot c object seen_at = Inr w"
  shows "snapshot_ranges w" "ws_observed_at w = seen_at"
    "normalize_wind_direction c (Some (JStr (ws_wind_direction w))) = Inr (ws_wind_direction w)"
    "\<And>t. ws_pressure_trend w = Some t \<Longrightarrow> trim t \<noteq> [] \<and> length t \<le> 32"
proof -
  obtain temperature humidity speed direction uv apparent gust pressure trend hourly daily solar where
    n: "required_number c object ''tempf'' (- 100) 150 = Inr temperature"
      "required_integer c object ''humidity'' 0 100 = Inr humidity"
      "required_number c object ''windspeedmph'' 0 250 = Inr speed"
      "normalize_wind_direction c (map_of object ''winddir'') = Inr direction"
      "required_integer c object ''uv'' 0 50 = Inr uv"
      "optional_number c object [''feelslikef''] (- 100) 150 = Inr apparent"
      "optional_number c object [''windgustmph''] 0 300 = Inr gust"
      "optional_number c object [''baromrelin'', ''baromrelinin''] 20 40 = Inr pressure"
      "optional_bounded_string object [''pressuretrend''] 32 = Inr trend"
      "optional_number c object [''hourlyrainin''] 0 20 = Inr hourly"
      "optional_number c object [''dailyrainin''] 0 100 = Inr daily"
      "optional_number c object [''solarradiation''] 0 2000 = Inr solar"
    and w: "w = \<lparr>ws_observed_at = seen_at, ws_temperature = temperature, ws_humidity = humidity,
      ws_wind_speed = speed, ws_wind_direction = direction, ws_uv_index = uv,
      ws_apparent_temperature = apparent, ws_wind_gust = gust, ws_pressure_relative = pressure,
      ws_pressure_trend = trend, ws_rain_hourly = hourly, ws_rain_daily = daily, ws_solar_radiation = solar\<rparr>"
    using assms unfolding read_snapshot_def andthen_eq_Inr by (auto simp del: optional_number.simps optional_bounded_string.simps)
  have small: "humidity \<le> 100" "uv \<le> 50"
    using required_integer_le [OF n(2)] required_integer_le [OF n(5)] by (simp_all add: word_le_nat_alt)
  have opt: "case x of None \<Rightarrow> True | Some v \<Rightarrow> f64_within lo hi v"
    if "optional_number c object keys lo hi = Inr x" for keys lo hi x
    using that optional_number_within by (cases x) auto
  show "snapshot_ranges w"
    using small required_number_within [OF n(1)] required_number_within [OF n(3)]
      opt [OF n(6)] opt [OF n(7)] opt [OF n(8)] opt [OF n(10)] opt [OF n(11)] opt [OF n(12)]
    by (simp add: snapshot_ranges_def w)
  show "ws_observed_at w = seen_at" by (simp add: w)
  show "normalize_wind_direction c (Some (JStr (ws_wind_direction w))) = Inr (ws_wind_direction w)"
    using normalize_again [OF n(4)] by (simp add: w)
  show "trim t \<noteq> [] \<and> length t \<le> 32" if "ws_pressure_trend w = Some t" for t
  proof -
    have "optional_bounded_string object [''pressuretrend''] 32 = Inr (Some t)" using n(9) that by (simp add: w)
    then show ?thesis using optional_string_ok trim_trim by metis
  qed
qed

lemma validate_snapshot_sound:
  assumes "snapshot_ranges w" "0 \<le> clock" "validate_observation_time c (ws_observed_at w) clock 300 = Inr epoch"
    and "normalize_wind_direction c (Some (JStr (ws_wind_direction w))) = Inr d"
    and "\<And>t. ws_pressure_trend w = Some t \<Longrightarrow> trend_ok t"
  shows "validate_snapshot c clock w = Inr ()"
proof -
  have "\<not> list_ex (\<lambda>(value, lo, hi). case value of None \<Rightarrow> False | Some v \<Rightarrow> \<not> f64_within lo hi v)
       [(ws_apparent_temperature w, - 100, 150), (ws_wind_gust w, 0, 300),
        (ws_pressure_relative w, 20, 40), (ws_rain_hourly w, 0, 20), (ws_rain_daily w, 0, 100),
        (ws_solar_radiation w, 0, 2000)]"
    using assms(1) by (auto simp: snapshot_ranges_def split: option.splits)
  moreover have "\<not> (case ws_pressure_trend w of None \<Rightarrow> False | Some t \<Rightarrow> \<not> trend_ok t)"
    using assms(5) by (cases "ws_pressure_trend w") simp_all
  ultimately show ?thesis
    using assms(1-4) by (simp add: validate_snapshot_def snapshot_ranges_def now_epoch_def not_less)
qed

lemma weather_fetch_sound:
  assumes "weather_fetch c sensor a clock store = Inr (w, store')"
  obtains object raw epoch where "0 \<le> clock"
    "validate_observation_time c raw clock (wa_max_stale a) = Inr epoch"
    "wx_print_time c epoch = Some (ws_observed_at w)" "read_snapshot c object (ws_observed_at w) = Inr w"
    "accept_weather_time epoch store = Inr store'"
proof -
  from assms obtain latest where f: "(case latest of
       JObj object \<Rightarrow>
         andthen (required_bounded_string object ''dateutc'' 64) (\<lambda>raw.
         andthen (now_epoch clock) (\<lambda>now.
         andthen (validate_observation_time c raw now (wa_max_stale a)) (\<lambda>epoch.
         andthen (ok_or ''invalid observation time'' (wx_print_time c epoch)) (\<lambda>seen_at.
         andthen (read_snapshot c object seen_at) (\<lambda>snapshot.
         andthen (map_err (\<lambda>_. ''weather observation timestamp regressed'')
           (accept_weather_time epoch store)) (\<lambda>store'.
         Inr (snapshot, store')))))))
     | _ \<Rightarrow> Inl ''trusted weather latest entry must be a JSON object'') = Inr (w, store')"
    unfolding weather_fetch_def andthen_eq_Inr by (auto simp: andthen_eq_Inr split: if_splits)
  then obtain object where "latest = JObj object" by (cases latest) simp_all
  with f obtain raw epoch seen_at where
    v: "validate_observation_time c raw clock (wa_max_stale a) = Inr epoch" and n: "now_epoch clock = Inr clock"
    and p: "wx_print_time c epoch = Some seen_at" and r: "read_snapshot c object seen_at = Inr w"
    and s: "accept_weather_time epoch store = Inr store'"
    by (auto simp: andthen_eq_Inr now_epoch_def split: if_splits)
  have "ws_observed_at w = seen_at" by (rule read_snapshot_sound(2) [OF r])
  moreover have "0 \<le> clock" using n by (simp add: now_epoch_def split: if_splits)
  ultimately show thesis using that v p r s by simp
qed


section \<open>A sample observation\<close>

definition sample_object :: json_object where
  "sample_object = [(''dateutc'', JStr ''T''), (''tempf'', JNum 68), (''humidity'', JNum 40),
     (''windspeedmph'', JNum 5), (''winddir'', JStr ''E''), (''uv'', JNum 1)]"

definition sample_weather_codec :: weather_codec where
  "sample_weather_codec = \<lparr>wx_rfc3339 = (\<lambda>t. if t = ''T'' then Some 100 else None), wx_naive = (\<lambda>_. None),
     wx_print_time = (\<lambda>e. if e = 100 then Some ''T'' else None),
     wx_json = (\<lambda>_. Some (JObj sample_object)),
     wx_float = (\<lambda>_. NonFinite), wx_print_float = (\<lambda>_. []), wx_upper = take 12\<rparr>"

definition sample_weather :: weather_snapshot where
  "sample_weather = \<lparr>ws_observed_at = ''T'', ws_temperature = Finite 68, ws_humidity = 40,
     ws_wind_speed = Finite 5, ws_wind_direction = ''E'', ws_uv_index = 1, ws_apparent_temperature = None,
     ws_wind_gust = None, ws_pressure_relative = None, ws_pressure_trend = None, ws_rain_hourly = None,
     ws_rain_daily = None, ws_solar_radiation = None\<rparr>"

definition sample_sensor_url :: url where
  "sample_sensor_url = \<lparr>url_scheme = ''http'', url_username = [], url_password = None,
     url_host = Some ''127.0.0.1'', url_path = ''/get_received_data'', url_query = None, url_fragment = None\<rparr>"

definition sample_answer :: network where
  "sample_answer _ = Inr \<lparr>hr_status = 200, hr_content_length = None, hr_chunks = [Inr []]\<rparr>"

lemma sample_fetch:
  "weather_fetch sample_weather_codec sample_answer \<lparr>wa_url = sample_sensor_url, wa_max_stale = 300\<rparr> 110 empty_store
     = Inr (sample_weather, empty_store\<lparr>weather_high_water := Some 100\<rparr>)"
proof -
  have e: "''E'' \<in> set directions" "''T'' \<noteq> ([] :: string)" by (simp_all add: directions_def)
  then have d: "normalize_wind_direction sample_weather_codec (Some (JStr ''E'')) = Inr ''E''"
    using directions_normal direction_trimmed [of "''E''"]
    by (auto simp: list_all_iff normalize_wind_direction_def Let_def)
  have t: "trim ''T'' = ''T''"
    by (rule direction_trimmed)
      (simp add: direction_byte_def is_ascii_alphanumeric_def is_ascii_uppercase_def byte_def)
  have n: "f64_of_rat 68 = Finite 68" "f64_of_rat 40 = Finite 40" "f64_of_rat 5 = Finite 5" "f64_of_rat 1 = Finite 1"
    using f64_of_small_int [of 68] f64_of_small_int [of 40] f64_of_small_int [of 5] f64_of_small_int [of 1] by simp_all
  have x: "f64_within 0 100 (Finite 40)" "f64_within (- 100) 150 (Finite 68)" "f64_within 0 250 (Finite 5)"
    "f64_within 0 50 (Finite 1)" "f64_value (Finite q) = Some q" for q
    by (simp_all add: f64_within_def f64_value_def)
  have snapshot: "read_snapshot sample_weather_codec sample_object ''T'' = Inr sample_weather"
    using d by (simp add: read_snapshot_def required_number_def required_integer_def parse_number_def
        numeric_def sample_object_def n x sample_weather_def)
  have time: "validate_observation_time sample_weather_codec ''T'' 110 300 = Inr 100"
    by (simp add: validate_observation_time_def observation_epoch_def sample_weather_codec_def
        saturating_sub_i64_def i64_of_u64_def i64_max_def i64_min_def)
  have field: "required_bounded_string sample_object ''dateutc'' 64 = Inr ''T''"
    by (simp add: required_bounded_string_def field_str_def sample_object_def t Let_def)
  have "wx_json sample_weather_codec b = Some (JObj sample_object)"
    "wx_print_time sample_weather_codec 100 = Some ''T''" for b
    by (simp_all add: sample_weather_codec_def)
  then show ?thesis
    using field time snapshot
    by (simp add: weather_fetch_def sample_answer_def is_success_def bounded_body_def MAX_WEATHER_BODY_def
        latest_observation_def now_epoch_def accept_weather_time_def empty_store_def)
qed


end
