(* ===== verification/Informational_Properties.thy ===== *)
theory Informational_Properties
  imports Informational Weather_Properties
begin

text \<open>
  The range of a draw, the length of a weather message, and the promise the worker makes to the readers
  of the log: what it appends can be rendered.
\<close>

section \<open>Draws\<close>

lemma from_be_bytes_snoc: "from_be_bytes (s @ [c]) = 256 * from_be_bytes s + byte c"
  by (simp add: from_be_bytes_def)

lemma from_be_bytes_less: "from_be_bytes s < 256 ^ length s"
proof (induction s rule: rev_induct)
  case Nil
  show ?case by (simp add: from_be_bytes_def)
next
  case (snoc c s)
  have "byte c < 256" by (simp add: byte_def)
  with snoc show ?case by (simp add: from_be_bytes_snoc)
qed

text \<open>The double of a 64-bit number is at most \<open>2 ^ 64\<close>, and less exactly below the midpoint of the
  last two doubles.\<close>

lemma pow2_64: "pow2 64 = 18446744073709551616" "pow2 63 = 9223372036854775808" "pow2 12 = 4096"
    "pow2 11 = 2048" "pow2 0 = 1" "pow2 (- 1) = 1 / 2" "pow2 (- 53) = 1 / 9007199254740992"
  by (simp_all add: pow2_def)

lemma round_even_less:
  assumes "even m"
  shows "round_even x < m \<longleftrightarrow> x < of_int m - 1 / 2"
proof -
  let ?f = "\<lfloor>x\<rfloor>"
  have f: "of_int ?f \<le> x" "x < of_int ?f + 1" by linarith+
  consider "?f \<le> m - 2" | "?f = m - 1" | "m \<le> ?f" by linarith
  then show ?thesis
  proof cases
    case 1
    then have "round_even x \<le> ?f + 1" by (simp add: round_even_def Let_def)
    moreover have "of_int ?f \<le> (of_int m - 2 :: rat)" using 1 by (metis of_int_diff of_int_le_iff of_int_numeral)
    ultimately show ?thesis using 1 f(2) by linarith
  next
    case 2
    then have "odd ?f" using assms by simp
    then show ?thesis using 2 f by (auto simp: round_even_def Let_def)
  next
    case 3
    then have "?f \<le> round_even x" by (simp add: round_even_def Let_def)
    moreover have "of_int m \<le> (of_int ?f :: rat)" using 3 by simp
    ultimately show ?thesis using 3 f(1) by linarith
  qed
qed

lemma round_u64:
  assumes "n < 18446744073709551616"
  shows "0 \<le> round_f64 (of_nat n)" "round_f64 (of_nat n) \<le> 18446744073709551616"
    "n < 18446744073709550592 \<Longrightarrow> round_f64 (of_nat n) \<le> 18446744073709549568"
    "18446744073709550592 \<le> n \<Longrightarrow> round_f64 (of_nat n) = 18446744073709551616"
proof -
  let ?x = "of_nat n :: rat"
  show "0 \<le> round_f64 ?x" by (rule round_nonneg) simp
  show le: "round_f64 ?x \<le> 18446744073709551616"
  proof (cases "n = 0")
    case False
    have "?x \<le> 18446744073709551616" using assms by linarith
    with False show ?thesis using round_le_pow2 [of ?x 64] by (simp add: pow2_64)
  qed (simp add: round_f64_def)
  have big: "round_f64 ?x = of_int (round_even (?x / 2048)) * 2048" if "9223372036854775808 \<le> n"
  proof -
    have "binade ?x = 63" using that assms by (intro binade_unique) (simp_all add: pow2_64)
    then have "ulp ?x = 2048" by (simp add: ulp_def pow2_64)
    then show ?thesis using that by (simp add: round_f64_def)
  qed
  have half: "round_even (?x / 2048) < 9007199254740992 \<longleftrightarrow> n < 18446744073709550592"
    by (simp add: round_even_less pos_divide_less_eq)
  show "round_f64 ?x \<le> 18446744073709549568" if "n < 18446744073709550592"
  proof (cases "9223372036854775808 \<le> n")
    case True
    have "round_even (?x / 2048) \<le> 9007199254740991" using half that by linarith
    then have "(of_int (round_even (?x / 2048)) :: rat) \<le> 9007199254740991" by (metis of_int_le_iff of_int_numeral)
    then show ?thesis by (simp add: big [OF True])
  next
    case False
    show ?thesis
    proof (cases "n = 0")
      case False
      have "?x \<le> 9223372036854775808" using \<open>\<not> 9223372036854775808 \<le> n\<close> by linarith
      with False show ?thesis using round_le_pow2 [of ?x 63] by (simp add: pow2_64)
    qed (simp add: round_f64_def)
  qed
  show "round_f64 ?x = 18446744073709551616" if "18446744073709550592 \<le> n"
  proof -
    have "9007199254740992 \<le> round_even (?x / 2048)" using half that by linarith
    then have "(9007199254740992 :: rat) \<le> of_int (round_even (?x / 2048))" by (metis of_int_le_iff of_int_numeral)
    then show ?thesis using le big that by simp
  qed
qed

lemma f64_of_u64_eq: "f64_of_u64 w = Finite (round_f64 (of_nat (unat w)))"
proof -
  have w: "unat w < 18446744073709551616" using unsigned_less [of w, where ?'a = nat] by simp
  have "(18446744073709551616 :: rat) < 2 ^ 1024" by simp
  then have "round_f64 (of_nat (unat w)) < 2 ^ 1024" using round_u64(2) [OF w] by linarith
  then show ?thesis unfolding f64_of_u64_def by (rule f64_of_rat_nonneg [OF of_nat_0_le_iff])
qed

text \<open>The divisor of a draw is \<open>2 ^ 64\<close>: the addition of one is lost in rounding.\<close>

lemma draw_divisor: "f64_op (+) (f64_of_u64 (- 1)) (Finite 1) = Finite 18446744073709551616"
proof -
  have "unat (- 1 :: u64) = 18446744073709551615" by (simp add: unsigned_minus_1_eq_mask mask_eq_exp_minus_1)
  then have m: "f64_of_u64 (- 1) = Finite 18446744073709551616"
    using round_u64(4) [of 18446744073709551615] by (simp add: f64_of_u64_eq)
  let ?x = "18446744073709551617 :: rat"
  have "binade ?x = 64" by (intro binade_unique) (simp_all add: pow2_def)
  then have "ulp ?x = 4096" by (simp add: ulp_def pow2_64)
  moreover have "round_even (?x / 4096) = 4503599627370496"
  proof -
    have "\<lfloor>?x / 4096\<rfloor> = 4503599627370496" by (rule floor_unique) simp_all
    then show ?thesis by (simp add: round_even_def)
  qed
  ultimately have "round_f64 ?x = 18446744073709551616" by (simp add: round_f64_def)
  then have "f64_of_rat ?x = Finite 18446744073709551616" by (simp add: f64_of_rat_nonneg)
  then show ?thesis by (simp add: f64_op_def f64_value_def m)
qed


section \<open>The length of a message\<close>

lemma length_fixed:
  assumes "f64_within lo hi a" "- 2000 \<le> lo" "hi \<le> 2000"
  shows "length (fixed n a) \<le> 6 + n"
proof -
  obtain x where x: "f64_value a = Some x" "\<bar>x\<bar> \<le> 2000"
    using assms by (auto simp: f64_within_def split: option.splits)
  let ?r = "nat (round_even (\<bar>x\<bar> * 10 ^ n))"
  have "\<bar>x\<bar> * 10 ^ n \<le> of_int (2000 * 10 ^ n)" using x(2) by simp
  then have "round_even (\<bar>x\<bar> * 10 ^ n) \<le> 2000 * 10 ^ n" by (rule round_even_le)
  then have "?r \<le> 2000 * 10 ^ n" by (simp add: nat_le_iff)
  then have "?r div 10 ^ n \<le> 2000" using div_le_mono [of ?r "2000 * 10 ^ n" "10 ^ n"] by simp
  then have whole: "length (show_nat (?r div 10 ^ n)) \<le> 4" by (intro length_show_nat) simp_all
  have fraction: "length (show_nat (?r mod 10 ^ n)) \<le> n" if "n \<noteq> 0"
    using that by (intro length_show_nat) simp_all
  show ?thesis
    using whole fraction by (cases "n = 0") (simp_all add: fixed_def x(1) Let_def pad_digits_def del: abs_of_nonneg
      cong: if_cong)
qed

lemma length_join_text: "length (join_text sep ss) \<le> sum_list (map (\<lambda>s. length sep + length s) ss)"
  by (induction sep ss rule: join_text.induct) simp_all

lemma length_capitalize:
  assumes "\<And>t. length (wx_upper c t) \<le> 12"
  shows "length (capitalize c s) \<le> 12 + length s"
  using assms [of "take (utf8_width (hd s)) s"] by (cases s) (auto simp: capitalize_def)

lemma positive_within: "positive x = Some v \<Longrightarrow> x = Some v"
  by (auto simp: positive_def split: option.splits if_splits)

definition text_total :: "string list \<Rightarrow> nat" where
  "text_total ss = sum_list (map (\<lambda>s. 2 + length s) ss)"

lemma text_total_simps: "text_total [] = 0" "text_total (s # ss) = 2 + length s + text_total ss"
    "text_total (ss @ ts) = text_total ss + text_total ts"
  by (simp_all add: text_total_def)

lemma weather_extras_short:
  assumes r: "snapshot_ranges w" and upper: "\<And>t. length (wx_upper c t) \<le> 12"
    and trend: "\<And>t. ws_pressure_trend w = Some t \<Longrightarrow> length t \<le> 32"
  shows "text_total (weather_extras c w) \<le> 200"
proof -
  have pressure: "text_total (case (ws_pressure_relative w, ws_pressure_trend w) of
        (Some p, Some trend) \<Rightarrow> [capitalize c trend @ '' pressure '' @ fixed 2 p @ '' inHg'']
      | (Some p, None) \<Rightarrow> [''Pressure '' @ fixed 2 p @ '' inHg'']
      | (None, Some trend) \<Rightarrow> [capitalize c trend @ '' pressure'']
      | (None, None) \<Rightarrow> []) \<le> 100" (is "text_total ?p \<le> _")
  proof -
    have "length (fixed 2 p) \<le> 8" if "ws_pressure_relative w = Some p" for p
      using that r length_fixed [of 20 40 p 2] by (simp add: snapshot_ranges_def)
    moreover have "length (capitalize c t) \<le> 44" if "ws_pressure_trend w = Some t" for t
      using length_capitalize [OF upper, of t] trend [OF that] by simp
    ultimately show ?thesis by (fastforce simp: text_total_simps split: option.splits)
  qed
  have rain: "text_total (case (positive (ws_rain_hourly w), positive (ws_rain_daily w)) of
          (Some hourly, _) \<Rightarrow> [''Rain '' @ fixed 2 hourly @ inches @ '' per hour'']
        | (None, Some daily) \<Rightarrow> [''Rain today '' @ fixed 2 daily @ inches]
        | (None, None) \<Rightarrow> []) \<le> 50"
  proof -
    have "length (fixed 2 p) \<le> 8" if "positive (ws_rain_hourly w) = Some p" for p
      using positive_within [OF that] r length_fixed [of 0 20 p 2] by (simp add: snapshot_ranges_def)
    moreover have "length (fixed 2 p) \<le> 8" if "positive (ws_rain_daily w) = Some p" for p
      using positive_within [OF that] r length_fixed [of 0 100 p 2] by (simp add: snapshot_ranges_def)
    ultimately show ?thesis by (fastforce simp: text_total_simps inches_def split: option.splits)
  qed
  have solar: "text_total (case positive (ws_solar_radiation w) of
          Some solar \<Rightarrow> [''Solar '' @ fixed 0 solar @ '' W/'' @ square_metre]
        | None \<Rightarrow> []) \<le> 50"
  proof -
    have "length (fixed 0 p) \<le> 6" if "positive (ws_solar_radiation w) = Some p" for p
      using positive_within [OF that] r length_fixed [of 0 2000 p 0] by (simp add: snapshot_ranges_def)
    then show ?thesis by (fastforce simp: text_total_simps square_metre_def split: option.splits)
  qed
  show ?thesis
    using pressure rain solar unfolding weather_extras_def text_total_simps by linarith
qed

lemma f64_less_parts: "f64_less a b \<Longrightarrow> f64_value b \<noteq> None"
  by (auto simp: f64_less_def split: option.splits)

lemma weather_message_short:
  assumes r: "snapshot_ranges w" and upper: "\<And>t. length (wx_upper c t) \<le> 12"
    and trend: "\<And>t. ws_pressure_trend w = Some t \<Longrightarrow> length t \<le> 32"
    and direction: "length (ws_wind_direction w) \<le> 16"
  shows "length (format_weather_message c w) \<le> 2000"
proof -
  have temperature: "length (fixed 0 (ws_temperature w)) \<le> 6" "length (fixed 0 (ws_wind_speed w)) \<le> 6"
    using r length_fixed [of "- 100" 150 "ws_temperature w" 0] length_fixed [of 0 250 "ws_wind_speed w" 0]
    by (simp_all add: snapshot_ranges_def)
  have apparent: "length (fixed 1 x) \<le> 7" if "ws_apparent_temperature w = Some x" for x
    using that r length_fixed [of "- 100" 150 x 1] by (simp add: snapshot_ranges_def)
  have gust: "length (fixed 1 x) \<le> 7" if "ws_wind_gust w = Some x" for x
    using that r length_fixed [of 0 300 x 1] by (simp add: snapshot_ranges_def)
  have counts: "length (show_u64 (ws_humidity w)) \<le> 3" "length (show_u64 (ws_uv_index w)) \<le> 3"
    using r unfolding show_u64_def snapshot_ranges_def by (auto intro!: length_show_nat simp: word_le_nat_alt)
  have feels: "length (case ws_apparent_temperature w of
                 None \<Rightarrow> []
               | Some apparent \<Rightarrow> '' (feels like '' @ fixed 1 apparent @ degree_sign @ ''F)'') \<le> 50"
    using apparent by (fastforce simp: degree_sign_def split: option.splits)
  have gusts: "length (case ws_wind_gust w of
                 None \<Rightarrow> []
               | Some gust \<Rightarrow> if f64_less (ws_wind_speed w) gust
                   then '', gusts up to '' @ fixed 1 gust @ '' mph'' else []) \<le> 50"
    using gust by (fastforce split: option.splits)
  have extras: "length (join_text ''; '' (weather_extras c w)) \<le> 200"
    using weather_extras_short [OF r upper trend] length_join_text [of "''; ''" "weather_extras c w"]
    by (simp add: text_total_def)
  show ?thesis
    using temperature counts direction feels gusts extras
    by (simp add: format_weather_message_def Let_def weather_sign_def degree_sign_def)
qed

section \<open>The message is not blank\<close>

lemma space_bytes:
  "space1 a \<Longrightarrow> a < 240" "space3 a b d \<Longrightarrow> a < 240 \<and> b < 240 \<and> d < 240"
  by (auto simp: space1_def space3_def)

lemma take_upto_3:
  "take (Suc 0) (a # xs) = [a]" "take 2 (a # b # xs) = [a, b]" "take 3 (a # b # d # xs) = [a, b, d]"
  by (simp_all add: numeral_2_eq_2 numeral_3_eq_3)

lemma trailing_space_bytes: "x \<in> set (take (trailing_space s) s) \<Longrightarrow> byte x < 240"
  by (cases s rule: trailing_space.cases) (auto simp: take_upto_3 space_bytes split: if_splits)

lemma trim_end_rev_keeps:
  assumes "c \<in> set s" "240 \<le> byte c"
  shows "trim_end_rev s \<noteq> []"
  using assms(1)
proof (induction s rule: trim_end_rev.induct)
  case (1 s)
  show ?case
  proof (cases "trailing_space s = 0")
    case True
    with 1(2) show ?thesis by (auto simp: trim_end_rev.simps [of s])
  next
    case False
    have "c \<in> set (drop (trailing_space s) s)"
      using 1(2) assms(2) trailing_space_bytes [of c s] append_take_drop_id [of "trailing_space s" s]
      by (metis Un_iff linorder_not_le set_append)
    with 1(1) [OF False] show ?thesis using False by (simp add: trim_end_rev.simps [of s])
  qed
qed

lemma weather_message_not_blank: "trim (format_weather_message c w) \<noteq> []"
proof -
  obtain rest where m: "format_weather_message c w = CHR 0xF0 # rest"
    by (simp add: format_weather_message_def Let_def weather_sign_def)
  have b: "byte (CHR 0xF0) = 0xF0" by (simp add: byte_def)
  have "leading_space (CHR 0xF0 # rest) = 0"
    by (cases "CHR 0xF0 # rest" rule: leading_space.cases) (auto simp: b space1_def space3_def)
  then have "trim_start (format_weather_message c w) = CHR 0xF0 # rest" by (simp add: m trim_start.simps)
  then show ?thesis using trim_end_rev_keeps [of "CHR 0xF0" "rev (CHR 0xF0 # rest)"] by (simp add: trim_def b)
qed

section \<open>What the worker appends can be shown\<close>

lemma validated_snapshot:
  assumes "validate_snapshot c clock w = Inr ()"
  shows "snapshot_ranges w" "\<And>t. ws_pressure_trend w = Some t \<Longrightarrow> length t \<le> 32"
  using assms
  by (auto simp: validate_snapshot_def andthen_eq_Inr snapshot_ranges_def trend_ok_def not_less
      split: if_splits option.splits)

lemma plain_template:
  assumes "validate_template_syntax t = Inr ()" "CHR ''{'' \<notin> set t"
  shows "safe_substitute t values = Inr t"
proof -
  have "split_char CHR ''{'' t = None" using assms(2) by (simp add: split_char_None)
  then show ?thesis using assms(1) by (simp add: safe_substitute_def substitute_loop.simps [of _ _ t])
qed

lemma valid_templates: "validate_templates ts = Inr () \<Longrightarrow> t \<in> set ts \<Longrightarrow> validate_template_syntax t = Inr ()"
  by (induction ts) (auto simp: andthen_eq_Inr split: if_splits)

lemma interface_info_shown:
  assumes "validate_catalog catalog = Inr ()" "\<And>t. t \<in> set (tc_interface_info catalog) \<Longrightarrow> CHR ''{'' \<notin> set t"
  shows "\<exists>message. render_interface_info sha256 catalog event = Inr \<lparr>rp_nostr_content = None,
    rp_overlay_type = Some ''interface_info'', rp_overlay_message = Some message, rp_overlay_goats = []\<rparr>"
proof -
  let ?ts = "tc_interface_info catalog"
  have v: "?ts \<noteq> []" "validate_templates ?ts = Inr ()"
    using assms(1) by (auto simp: validate_catalog_def validate_category_def andthen_eq_Inr split: if_splits)
  let ?t = "?ts ! stable_index sha256 event ''interface_info'' (length ?ts)"
  have "?t \<in> set ?ts" using v(1) by (intro nth_mem) (simp add: stable_index_def)
  then have "safe_substitute ?t Map.empty = Inr ?t"
    using plain_template valid_templates [OF v(2)] assms(2) by blast
  then show ?thesis by (simp add: render_interface_info_def select_template_def v(1))
qed

lemma weather_event_shown:
  assumes "validate_snapshot c clock w = Inr ()" "length (ws_wind_direction w) \<le> 16"
    and "\<And>t. length (wx_upper c t) \<le> 12" and "weather_event c w = JObj payload"
  shows "render_weather payload = Inr \<lparr>rp_nostr_content = None, rp_overlay_type = Some ''weather_status'',
    rp_overlay_message = Some (format_weather_message c w), rp_overlay_goats = []\<rparr>"
proof -
  note v = validated_snapshot [OF assms(1)]
  have "field_str payload ''message'' = Some (format_weather_message c w)"
    using assms(4) by (auto simp: weather_event_def field_str_def)
  moreover have "length (format_weather_message c w) \<le> 2000"
    using weather_message_short [OF v(1) assms(3) v(2) assms(2)] .
  ultimately show ?thesis using weather_message_not_blank [of c w] by (simp add: render_weather_def not_less)
qed

lemma client_weather_snapshot:
  assumes "client_weather c send parse base clock = Inr w"
  shows "\<exists>b. parse b = Some w" "validate_snapshot c clock w = Inr ()"
  using assms by (auto simp: client_weather_def get_json_def andthen_eq_Inr split: if_splits)

lemma cycle_cases:
  assumes "run_informational_cycle env config db = Inr (choice, db')"
  obtains "choice = Choice_none" "db' = db"
  | seq where "choice = Choice_interface_info" "append_event ''interface_info'' (JObj []) db = Inr (seq, db')"
  | w seq where "choice = Choice_weather"
      "client_weather (in_codec env) (in_send env) (in_parse_weather env) (in_base env) (in_weather_clock env) = Inr w"
      "append_event ''weather_status'' (weather_event (in_codec env) w) db = Inr (seq, db')"
proof -
  obtain safety where s: "client_feeder_safety (in_send env) (in_parse_safety env) (in_base env) = Inr safety"
    using assms by (auto simp: run_informational_cycle_def andthen_eq_Inr)
  show thesis
  proof (cases "override_enabled safety")
    case True
    with assms s show thesis using that(1) by (simp add: run_informational_cycle_def)
  next
    case False
    then obtain choice' where "(case choice' of
       Choice_none \<Rightarrow> Inr (choice', db)
     | Choice_interface_info \<Rightarrow>
         andthen (map_err (\<lambda>_. ''failed appending event'') (append_event ''interface_info'' (JObj []) db)) (\<lambda>(_, db').
         Inr (choice', db'))
     | Choice_weather \<Rightarrow>
         andthen (client_weather (in_codec env) (in_send env) (in_parse_weather env) (in_base env)
           (in_weather_clock env)) (\<lambda>w.
         andthen (map_err (\<lambda>_. ''failed appending event'')
           (append_event ''weather_status'' (weather_event (in_codec env) w) db)) (\<lambda>(_, db').
         Inr (choice', db')))) = Inr (choice, db')"
      using assms s by (auto simp: run_informational_cycle_def andthen_eq_Inr)
    then show thesis using that by (cases choice') (auto simp: andthen_eq_Inr)
  qed
qed

lemma appended_row:
  assumes "append_event ty p db = Inr (seq, db')"
  shows "\<exists>row n. db' = db\<lparr>event_log := event_log db @ [row]\<rparr>
    \<and> durable_of_row row = Inr \<lparr>de_seq = n, de_event_type = ty, de_payload_json = p\<rparr>"
  using assms next_id_pos [of ev_seq "event_log db"]
  by (auto simp: append_event_def append_event_eq durable_of_row_nonneg less_imp_le)

text \<open>
  C26: What the informational worker appends can be shown: a cycle changes nothing, or appends exactly one
  event that the presentation renders, for the overlay alone. The weather message of a validated snapshot
  has between 1 and 2000 bytes when the direction is the normal form the gateway sends and
  \<open>char::to_uppercase\<close> yields at most twelve bytes; the texts about the interface have no placeholder.
\<close>

theorem informational_events_are_shown:
  assumes "run_informational_cycle env config db = Inr (choice, db')"
    and "validate_catalog catalog = Inr ()" "\<And>t. t \<in> set (tc_interface_info catalog) \<Longrightarrow> CHR ''{'' \<notin> set t"
    and "\<And>b w. in_parse_weather env b = Some w \<Longrightarrow>
      normalize_wind_direction (in_codec env) (Some (JStr (ws_wind_direction w))) = Inr (ws_wind_direction w)"
    and "\<And>t. length (wx_upper (in_codec env) t) \<le> 12" and "threshold \<noteq> 0"
  shows "choice = Choice_none \<and> db' = db
    \<or> (\<exists>row event message. db' = db\<lparr>event_log := event_log db @ [row]\<rparr> \<and> durable_of_row row = Inr event
        \<and> render sha256 catalog event threshold = Inr \<lparr>rp_nostr_content = None,
            rp_overlay_type = Some (if choice = Choice_weather then ''weather_status'' else ''interface_info''),
            rp_overlay_message = Some message, rp_overlay_goats = []\<rparr>)"
  using assms(1)
proof (cases rule: cycle_cases)
  case 1
  then show ?thesis by simp
next
  case (2 seq)
  from appended_row [OF 2(2)] show ?thesis
    using interface_info_shown [OF assms(2,3), of sha256] assms(6) 2(1) by (fastforce simp: render_def)
next
  case (3 w seq)
  note w = client_weather_snapshot [OF 3(2)]
  have d: "length (ws_wind_direction w) \<le> 16" using w(1) normalized_direction [OF assms(4)] by blast
  obtain payload where p: "weather_event (in_codec env) w = JObj payload" by (simp add: weather_event_def)
  show ?thesis
    using appended_row [OF 3(3)] weather_event_shown [OF w(2) d assms(5) p] assms(6) 3(1)
    by (fastforce simp: render_def p)
qed

section \<open>A sample cycle\<close>

definition sample_informational_env :: informational_env where
  "sample_informational_env = \<lparr>in_sha256 = (\<lambda>_. []), in_codec = sample_weather_codec, in_send = sample_answer,
     in_base = sample_sensor_url, in_parse_safety = (\<lambda>_. Some \<lparr>override_enabled = False, remote_enabled = True\<rparr>),
     in_parse_weather = (\<lambda>_. Some sample_weather), in_cycle_clock = 110, in_weather_clock = 110\<rparr>"

definition sample_informational_config :: informational_config where
  "sample_informational_config = \<lparr>ic_interval_seconds = 60, ic_interface_info_enabled = False,
     ic_weather_enabled = True, ic_interface_info_probability = Finite 0, ic_weather_probability = Finite 1\<rparr>"

definition sample_catalog :: template_catalog where
  "sample_catalog = \<lparr>tc_sats_received = [''a''], tc_feeder_trigger = [''a''], tc_interface_info = [''a'']\<rparr>"

lemma sample_catalog_valid: "validate_catalog sample_catalog = Inr ()"
proof -
  have t: "trim ''a'' = ''a''"
    by (rule direction_trimmed)
      (simp add: direction_byte_def is_ascii_alphanumeric_def is_ascii_lowercase_def byte_def)
  have "validate_template_syntax ''a'' = Inr ()" by (simp add: validate_template_syntax.simps)
  then show ?thesis by (simp add: validate_catalog_def validate_category_def sample_catalog_def t)
qed

lemma sample_snapshot_valid:
  "validate_snapshot sample_weather_codec 110 sample_weather = Inr ()"
  "normalize_wind_direction sample_weather_codec (Some (JStr (ws_wind_direction sample_weather)))
     = Inr (ws_wind_direction sample_weather)"
proof -
  obtain object raw epoch where f: "validate_observation_time sample_weather_codec raw 110 300 = Inr epoch"
    "wx_print_time sample_weather_codec epoch = Some (ws_observed_at sample_weather)"
    "read_snapshot sample_weather_codec object (ws_observed_at sample_weather) = Inr sample_weather"
    by (rule weather_fetch_sound [OF sample_fetch]) simp
  note r = read_snapshot_sound [OF f(3)]
  have "wx_rfc3339 sample_weather_codec (ws_observed_at sample_weather) = Some epoch"
    using f(2) by (auto simp: sample_weather_codec_def split: if_splits)
  then show "validate_snapshot sample_weather_codec 110 sample_weather = Inr ()"
    using validate_snapshot_sound [OF r(1) _ observation_again [OF f(1)] r(3)] by (simp add: sample_weather_def)
  show "normalize_wind_direction sample_weather_codec (Some (JStr (ws_wind_direction sample_weather)))
     = Inr (ws_wind_direction sample_weather)" by (rule r(3))
qed

lemma sample_cycle:
  "\<exists>db'. run_informational_cycle sample_informational_env sample_informational_config db = Inr (Choice_weather, db')"
proof -
  have "f64_of_rat 0 = Finite 0" "f64_of_rat 1 = Finite 1" using f64_of_small_int [of 0] f64_of_small_int [of 1] by simp_all
  then have "f64_of_u64 0 = Finite 0" "f64_op (+) (Finite 0) (Finite 1) = Finite 1"
    "f64_op (/) (Finite 0) (Finite 18446744073709551616) = Finite 0"
    by (simp_all add: f64_of_u64_def f64_op_def f64_value_def)
  then have draw: "stable_draw (\<lambda>_. []) n p = Finite 0" for n p
    unfolding stable_draw_def draw_divisor by (simp add: draw_digest_def from_be_bytes_def)
  have "choose_for_cycle (\<lambda>_. []) n sample_informational_config = Inr Choice_weather" for n
    using \<open>f64_op (+) (Finite 0) (Finite 1) = Finite 1\<close>
    by (simp add: choose_for_cycle_def sample_informational_config_def validate_probability_def draw
        f64_within_def f64_less_def f64_value_def conditional_weather_probability_def)
  moreover have "client_weather sample_weather_codec sample_answer (\<lambda>_. Some sample_weather) sample_sensor_url 110
     = Inr sample_weather"
    by (simp add: client_weather_def get_json_def sample_answer_def is_success_def bounded_body_def sample_snapshot_valid)
  moreover have "current_cycle 110 60 = Inr 1" by (simp add: current_cycle_def)
  ultimately show ?thesis
    by (simp add: run_informational_cycle_def sample_informational_env_def client_feeder_safety_def get_json_def
        sample_answer_def is_success_def bounded_body_def append_event_def append_event_eq
        sample_informational_config_def)
qed

theorem informational_events_are_shown_witness:
  "\<exists>event message. render (\<lambda>_. []) sample_catalog event 1000 = Inr \<lparr>rp_nostr_content = None,
     rp_overlay_type = Some ''weather_status'', rp_overlay_message = Some message, rp_overlay_goats = []\<rparr>"
proof -
  obtain db' where "run_informational_cycle sample_informational_env sample_informational_config empty_db
      = Inr (Choice_weather, db')"
    using sample_cycle by blast
  from informational_events_are_shown [OF this sample_catalog_valid, of 1000 "\<lambda>_. []"]
  show ?thesis
    using sample_snapshot_valid(2)
    by (fastforce simp: sample_catalog_def sample_informational_env_def sample_weather_codec_def)
qed

end
