(* ===== verification/Startup.thy ===== *)
theory Startup
  imports Http_Api Nostr_Client Weather
begin

text \<open>
  Starting the three programs: the daemon (\<open>main\<close> of \<open>src/src/main.rs\<close>), the gateway
  (\<open>src/src/bin/lightning-goats-gateway.rs\<close>, \<open>GatewayServerConfig::load\<close> and
  \<open>TrustedGateway::from_config\<close> of \<open>src/src/gateway/server.rs\<close>) and the commands of the operator's tool,
  \<open>src/src/bin/lightning-goatsctl.rs\<close>. The file system, the TOML deserializer, the credential files and
  the opening of a database are the fields of a \<open>startup_world\<close>. The result of a start carries the
  ledger as it is left, \<open>None\<close> when it was not opened.
\<close>

section \<open>Storage\<close>

text \<open>What opening a database file yields: the rows of the four queries of \<open>verify_connection\<close> and
  the tables it holds once the schema is in place. The pool opens the same file under the same check.\<close>

record 'db opened_db =
  od_databases :: "(string \<times> string) list"
  od_journal :: string
  od_synchronous :: i64
  od_foreign_keys :: i64
  od_tables :: 'db

definition connect_durable ::
  "sqlite_codec \<Rightarrow> (sqlite_options \<Rightarrow> 'db opened_db option) \<Rightarrow> string \<Rightarrow> 'db fallible" where
  "connect_durable sqlite open_file database_url =
     andthen (durable_options sqlite database_url) (\<lambda>options.
     andthen (ok_or ''failed opening durable SQLite database'' (open_file options)) (\<lambda>opened.
     andthen (map_err (\<lambda>_. ''SQLite durability check failed'')
       (verify_connection (od_databases opened) (od_journal opened) (od_synchronous opened)
         (od_foreign_keys opened))) (\<lambda>_.
     Inr (od_tables opened))))"

record startup_world =
  su_read :: "string \<Rightarrow> string option"
  su_parse_config :: "string \<Rightarrow> app_config option"
  su_sqlite :: sqlite_codec
  su_open_ledger :: "sqlite_options \<Rightarrow> ledger_db opened_db option"
  su_catalog :: "template_catalog option"
  su_credentials :: "string option"
  su_read_credential :: "string \<Rightarrow> string \<Rightarrow> string option"
  su_lnurl :: lnurl_codec
  su_nostr :: nostr_codec
  su_bound :: bool

definition credential :: "startup_world \<Rightarrow> string \<Rightarrow> string fallible" where
  "credential w name = read_systemd_credential (su_credentials w) (su_read_credential w) name"

definition ledger_connect :: "startup_world \<Rightarrow> string \<Rightarrow> ledger_db fallible" where
  "ledger_connect w database_url =
     map_err (\<lambda>_. ''failed opening Lightning Goats SQLite database'')
       (connect_durable (su_sqlite w) (su_open_ledger w) database_url)"

definition load_app_config :: "startup_world \<Rightarrow> string \<Rightarrow> app_config fallible" where
  "load_app_config w path =
     config_load (su_read w) (su_parse_config w) (lc_parse_url (su_lnurl w)) (su_sqlite w) path"

section \<open>The daemon\<close>

definition strike_from_config :: "startup_world \<Rightarrow> string \<Rightarrow> (strike_client \<times> string) fallible" where
  "strike_from_config w api_url =
     andthen (credential w ''strike-api-key'') (\<lambda>api_key.
     andthen (map_err (\<lambda>_. ''Strike client'')
       (strike_client_new (lc_parse_url (su_lnurl w)) api_url api_key)) (\<lambda>client.
     andthen (credential w ''strike-webhook-secret'') (\<lambda>secret.
     andthen (map_err (\<lambda>_. ''Strike webhook secret'') (webhook_verifier_new secret)) (\<lambda>verifier.
     Inr (client, verifier)))))"

definition nak_from_config :: "startup_world \<Rightarrow> nostr_config \<Rightarrow> nak_client fallible" where
  "nak_from_config w c =
     andthen (credential w ''nostr-client-key'') (\<lambda>client_key. nak_client_new (su_nostr w) c client_key)"

text \<open>What the tasks of the daemon are started with.\<close>

record daemon =
  dm_config :: app_config
  dm_renderer :: template_catalog
  dm_gateway :: url
  dm_strike :: strike_client
  dm_verifier :: string
  dm_lnurl :: lnurl_service
  dm_nostr :: "nak_client option"

definition daemon_services :: "startup_world \<Rightarrow> app_config \<Rightarrow> template_catalog \<Rightarrow> daemon fallible" where
  "daemon_services w c renderer =
     andthen (map_err (\<lambda>_. ''gateway client'')
       (gateway_client_new (lc_parse_url (su_lnurl w)) (ac_gateway_url c))) (\<lambda>gateway.
     andthen (strike_from_config w (ac_strike_api_url c)) (\<lambda>(strike, verifier).
     andthen (lnurl_service_new (su_lnurl w) (ac_lnurl c) (ac_lightning_address c)) (\<lambda>lnurl.
     andthen (if nostr_enabled (sv_mode (ac_service c))
              then andthen (nak_from_config w (ac_nostr c)) (\<lambda>nak. Inr (Some nak)) else Inr None) (\<lambda>nostr.
     if \<not> su_bound w then Inl ''failed binding the listener''
     else Inr \<lparr>dm_config = c, dm_renderer = renderer, dm_gateway = gateway, dm_strike = strike,
       dm_verifier = verifier, dm_lnurl = lnurl, dm_nostr = nostr\<rparr>))))"

definition daemon_start :: "startup_world \<Rightarrow> string \<Rightarrow> daemon fallible \<times> ledger_db option" where
  "daemon_start w path =
     (case load_app_config w path of
        Inl e \<Rightarrow> (Inl e, None)
      | Inr c \<Rightarrow>
          (case ledger_connect w (ac_database_url c) of
             Inl e \<Rightarrow> (Inl e, None)
           | Inr db \<Rightarrow>
               (case embedded (su_catalog w) of
                  Inl e \<Rightarrow> (Inl e, Some db)
                | Inr renderer \<Rightarrow>
                    (case mark_interrupted_feed_intents_unknown db of
                       Inl _ \<Rightarrow> (Inl ''interrupted feed intents'', Some db)
                     | Inr (_, db1) \<Rightarrow> (daemon_services w c renderer, Some db1)))))"

section \<open>The operator's tool\<close>

datatype reconcile_outcome = Physically_fed | Not_physically_fed

datatype ctl_command = Reconcile_feed uuid reconcile_outcome | Reset_overlay_stream | Show_status

definition debug_status :: "stored_attempt_status \<Rightarrow> string" where
  "debug_status s = (case s of Stored_IntentCommitted \<Rightarrow> ''IntentCommitted'' | Stored_Unknown \<Rightarrow> ''Unknown'')"

text \<open>The lines printed by \<open>status\<close>; the configuration has refused a zero threshold.\<close>

definition status_lines :: "app_config \<Rightarrow> u64 \<Rightarrow> stored_feed_attempt option \<Rightarrow> string list" where
  "status_lines c credit attempt =
     (let threshold = fc_threshold_sats (ac_feeder c) in
      [''mode='' @ mode_str (sv_mode (ac_service c)), ''payment_backend=strike'',
       ''feed_credit_sats='' @ show_u64 credit, ''threshold_sats='' @ show_u64 threshold,
       ''feeds_due='' @ show_u64 (credit div threshold),
       ''remainder_sats='' @ show_u64 (credit mod threshold)]
      @ (case attempt of
           Some a \<Rightarrow> [''unresolved_feed_attempt_id='' @ sfa_id a,
             ''unresolved_feed_attempt_status='' @ debug_status (sfa_status a)]
         | None \<Rightarrow> [''unresolved_feed_attempt_id=none'']))"

text \<open>\<open>fresh\<close> is the new stream identity, \<open>now\<close> the time of the transaction.\<close>

definition ctl_command_on ::
  "app_config \<Rightarrow> uuid \<Rightarrow> i64 \<Rightarrow> ctl_command \<Rightarrow> ledger_db \<Rightarrow> ledger_error + (string list \<times> ledger_db)" where
  "ctl_command_on c fresh now command db =
     (case command of
        Reset_overlay_stream \<Rightarrow>
          andthen (reset_overlay_stream fresh db) (\<lambda>(stream, db1). Inr ([''overlay_stream_id='' @ stream], db1))
      | Reconcile_feed aid outcome \<Rightarrow>
          (case outcome of
             Physically_fed \<Rightarrow>
               andthen (db_reconcile_unknown_as_fed aid now db) (\<lambda>(_, db1).
               Inr ([''reconciled feed attempt '' @ aid @ '' as physically fed''], db1))
           | Not_physically_fed \<Rightarrow>
               andthen (db_reconcile_unknown_as_not_fed aid now db) (\<lambda>(_, db1).
               Inr ([''reconciled feed attempt '' @ aid @ '' as not physically fed''], db1)))
      | Show_status \<Rightarrow>
          andthen (feed_credit_sats db) (\<lambda>credit.
          andthen (unresolved_feed_attempt db) (\<lambda>attempt.
          Inr (status_lines c credit attempt, db))))"

definition ctl_main ::
  "startup_world \<Rightarrow> uuid \<Rightarrow> i64 \<Rightarrow> string \<Rightarrow> ctl_command \<Rightarrow> (string list \<times> ledger_db) fallible" where
  "ctl_main w fresh now path command =
     andthen (load_app_config w path) (\<lambda>c.
     andthen (ledger_connect w (ac_database_url c)) (\<lambda>db.
     map_err (\<lambda>_. ''operator command failed'') (ctl_command_on c fresh now command db)))"

section \<open>The gateway\<close>

record gateway_config =
  gt_server :: gateway_server_config
  gt_openhab :: openhab_config
  gt_weather_url :: string

record gateway_world =
  gs_read :: "string \<Rightarrow> string option"
  gs_parse_config :: "string \<Rightarrow> gateway_config option"
  gs_sqlite :: sqlite_codec
  gs_open_store :: "sqlite_options \<Rightarrow> gateway_store opened_db option"
  gs_credentials :: "string option"
  gs_read_credential :: "string \<Rightarrow> string \<Rightarrow> string option"
  gs_parse_url :: "string \<Rightarrow> url option"

definition gateway_config_ok :: "gateway_world \<Rightarrow> gateway_config \<Rightarrow> unit fallible" where
  "gateway_config_ok w c =
     map_err (\<lambda>_. ''invalid gateway configuration'')
       (validate_server_config
         (\<lambda>database_url. case durable_options (gs_sqlite w) database_url of Inl _ \<Rightarrow> False | Inr _ \<Rightarrow> True)
         (gt_server c))"

definition gateway_config_load :: "gateway_world \<Rightarrow> string \<Rightarrow> gateway_config fallible" where
  "gateway_config_load w path =
     andthen (ok_or ''failed reading gateway config'' (gs_read w path)) (\<lambda>raw.
     andthen (ok_or ''failed parsing gateway config'' (gs_parse_config w raw)) (\<lambda>c.
     andthen (gateway_config_ok w c) (\<lambda>_. Inr c)))"

definition openhab_from_config :: "gateway_world \<Rightarrow> openhab_config \<Rightarrow> openhab_client fallible" where
  "openhab_from_config w c =
     andthen (read_systemd_credential (gs_credentials w) (gs_read_credential w) ''openhab-token'') (\<lambda>token.
     map_err (\<lambda>_. ''invalid openHAB configuration'') (openhab_new (gs_parse_url w) c token))"

record trusted_gateway =
  tg_openhab :: openhab_client
  tg_store :: gateway_store
  tg_weather :: weather_adapter
  tg_ack_timeout_seconds :: u64
  tg_ack_poll_milliseconds :: u64
  tg_min_feed_interval_seconds :: u64
  tg_max_feeds_per_hour :: u64
  tg_listen_ip :: ip_addr

definition trusted_gateway_from_config :: "gateway_world \<Rightarrow> gateway_config \<Rightarrow> trusted_gateway fallible" where
  "trusted_gateway_from_config w c =
     andthen (gateway_config_ok w c) (\<lambda>_.
     andthen (openhab_from_config w (gt_openhab c)) (\<lambda>openhab.
     andthen (map_err (\<lambda>_. ''failed opening integration gateway SQLite database'')
       (connect_durable (gs_sqlite w) (gs_open_store w) (gc_database_url (gt_server c)))) (\<lambda>store.
     andthen (weather_adapter_new (gs_parse_url w) (gt_weather_url c) (gc_max_stale_seconds (gt_server c)))
       (\<lambda>weather.
     Inr \<lparr>tg_openhab = openhab, tg_store = store, tg_weather = weather,
       tg_ack_timeout_seconds = gc_ack_timeout_seconds (gt_server c),
       tg_ack_poll_milliseconds = gc_ack_poll_milliseconds (gt_server c),
       tg_min_feed_interval_seconds = gc_min_feed_interval_seconds (gt_server c),
       tg_max_feeds_per_hour = gc_max_feeds_per_hour (gt_server c),
       tg_listen_ip = gc_listen_ip (gt_server c)\<rparr>))))"

definition gateway_start :: "gateway_world \<Rightarrow> string \<Rightarrow> trusted_gateway fallible" where
  "gateway_start w path =
     andthen (gateway_config_load w path) (\<lambda>c. trusted_gateway_from_config w c)"

end
