(* ===== verification/Startup_Properties.thy ===== *)
theory Startup_Properties
  imports Startup Http_Properties Weather_Properties
begin

text \<open>
  A restart after an interrupted feed: the daemon starts with the attempt marked unknown, begins no
  other feed, and the operator's tool settles it either way.
\<close>

section \<open>The start\<close>

lemma credential_trimmed: "credential w name = Inr v \<Longrightarrow> v \<noteq> [] \<and> trim v = v"
  by (auto simp: credential_def read_systemd_credential_def andthen_eq_Inr Let_def trim_trim split: if_splits)

lemma load_validates:
  "load_app_config w path = Inr c \<Longrightarrow> config_validate (lc_parse_url (su_lnurl w)) (su_sqlite w) c = Inr ()"
  by (auto simp: load_app_config_def config_load_def andthen_eq_Inr)

lemma validated_lnurl_starts:
  assumes "validate_lnurl (lc_parse_url codec) c = Inr ()"
  shows "\<exists>s. lnurl_service_new codec (ac_lnurl c) (ac_lightning_address c) = Inr s"
proof (rule validate_lnurl_Inr [OF assms], goal_cases)
  case (1 u host)
  then have "register_addresses codec host [] (ac_lightning_address c)
    = Inr (map (\<lambda>a. (la_user a, registered codec host a)) (ac_lightning_address c))"
    unfolding register_addresses_Inr by (auto simp: check_address_Inr)
  with 1(1,2) show ?case by (simp add: lnurl_service_new_def)
qed

lemma validated_strike_starts:
  assumes "parse_url api_url = Some u" "url_scheme u = ''https''" "url_host u \<noteq> None" "url_username u = []"
    "url_password u = None" "url_query u = None" "url_fragment u = None" "trim api_key \<noteq> []"
  shows "\<exists>k. strike_client_new parse_url api_url api_key = Inr k"
  using assms by (auto simp: strike_client_new_def validate_provider_url_def)

text \<open>Everything the services need beside a validated configuration.\<close>

definition services_available :: "startup_world \<Rightarrow> app_config \<Rightarrow> bool" where
  "services_available w c \<longleftrightarrow> su_bound w
     \<and> credential w ''strike-api-key'' \<in> range Inr \<and> credential w ''strike-webhook-secret'' \<in> range Inr
     \<and> (nostr_enabled (sv_mode (ac_service c)) \<longrightarrow> nak_from_config w (ac_nostr c) \<in> range Inr)"

lemma daemon_services_start:
  assumes "config_validate (lc_parse_url (su_lnurl w)) sqlite c = Inr ()" "services_available w c"
  shows "\<exists>d. daemon_services w c renderer = Inr d \<and> dm_config d = c
    \<and> (dm_nostr d \<noteq> None \<longleftrightarrow> sv_mode (ac_service c) = Active)"
proof (rule config_validate_Inr [OF assms(1)], goal_cases)
  case (1 u g)
  obtain base where g: "gateway_client_new (lc_parse_url (su_lnurl w)) (ac_gateway_url c) = Inr base"
    using gateway_origin_client [OF 1(10)] by blast
  obtain api_key secret where k: "credential w ''strike-api-key'' = Inr api_key"
    "credential w ''strike-webhook-secret'' = Inr secret"
    using assms(2) by (auto simp: services_available_def)
  obtain strike where "strike_client_new (lc_parse_url (su_lnurl w)) (ac_strike_api_url c) api_key = Inr strike"
    using validated_strike_starts [of "lc_parse_url (su_lnurl w)" "ac_strike_api_url c" u api_key] 1(1-7)
      credential_trimmed [OF k(1)] by auto
  then have s: "strike_from_config w (ac_strike_api_url c) = Inr (strike, secret)"
    using k credential_trimmed [OF k(2)] by (simp add: strike_from_config_def webhook_verifier_new_def)
  obtain lnurl where l: "lnurl_service_new (su_lnurl w) (ac_lnurl c) (ac_lightning_address c) = Inr lnurl"
    using validated_lnurl_starts [OF 1(8)] by blast
  obtain nostr where "(if nostr_enabled (sv_mode (ac_service c))
      then andthen (nak_from_config w (ac_nostr c)) (\<lambda>nak. Inr (Some nak)) else Inr None) = Inr nostr"
    "nostr \<noteq> None \<longleftrightarrow> sv_mode (ac_service c) = Active"
    using assms(2)
    by (cases "sv_mode (ac_service c) = Active") (auto simp: services_available_def nostr_enabled_def)
  with g s l show ?case using assms(2) by (simp add: daemon_services_def services_available_def)
qed

lemma interrupted_succeeds: "\<exists>n db. mark_interrupted_feed_intents_unknown stored = Inr (n, db)"
  by (simp add: mark_interrupted_feed_intents_unknown_def Let_def append_event_eq)

lemma interrupted_unknown:
  assumes "mark_interrupted_feed_intents_unknown stored = Inr (n, db)"
    and "r \<in> set (feed_attempts stored)" "unresolved r"
  obtains r' where "r' \<in> set (feed_attempts db)" "fa_id r' = fa_id r" "fa_status r' = St_unknown"
    "fa_threshold_sats r' = fa_threshold_sats r"
proof -
  let ?p = "\<lambda>r. fa_status r = St_intent_committed"
  let ?f = "\<lambda>r. r\<lparr>fa_status := St_unknown,
    fa_error := Some ''daemon restarted with an unresolved feed intent''\<rparr>"
  have "feed_attempts db = update_where ?p ?f (feed_attempts stored)"
    using assms(1)
    by (auto simp: mark_interrupted_feed_intents_unknown_def Let_def append_event_eq split: if_splits)
  then have "(if ?p r then ?f r else r) \<in> set (feed_attempts db)"
    using assms(2) by (auto simp: update_where_def)
  then show thesis using that assms(3) by (auto simp: unresolved_def split: if_splits)
qed

lemma interrupted_balance:
  "mark_interrupted_feed_intents_unknown stored = Inr (n, db) \<Longrightarrow> balance db = balance stored"
  by (auto simp: mark_interrupted_feed_intents_unknown_def Let_def append_event_eq balance_def split: if_splits)

section \<open>The operator\<close>

lemma begin_blocked:
  assumes "feed_inv db" "r \<in> set (feed_attempts db)" "unresolved r"
  shows "\<exists>e. begin_feed_attempt t now fresh db = Inl e"
  using find_unresolved [OF assms] by (cases "to_i64 t") (simp_all add: begin_feed_attempt_def)

lemma reconcile_fed:
  assumes "feed_inv db" "r \<in> set (feed_attempts db)" "fa_status r = St_unknown"
  shows "\<exists>out db'. ctl_command_on c fresh now (Reconcile_feed (fa_id r) Physically_fed) db = Inr (out, db')
    \<and> balance db' = balance db - fa_threshold_sats r \<and> unresolved_feed_attempt db' = Inr None"
proof (rule resolve_as_fed_ok [OF assms disjI2 [OF refl], of now], goal_cases)
  case (1 xs ys)
  have "unresolved r" using assms(3) by (simp add: unresolved_def)
  from fed_db_inv [OF assms(1,2) this 1(1), of now] 1(2) show ?case
    by (simp add: ctl_command_on_def db_reconcile_unknown_as_fed_def unresolved_feed_attempt_def)
qed

lemma reconcile_not_fed:
  assumes "feed_inv db" "r \<in> set (feed_attempts db)" "fa_status r = St_unknown"
  shows "\<exists>out db'. ctl_command_on c fresh now (Reconcile_feed (fa_id r) Not_physically_fed) db = Inr (out, db')
    \<and> balance db' = balance db \<and> unresolved_feed_attempt db' = Inr None"
proof (rule update_attempt_ok [OF assms(1,2) refl, where ok = "\<lambda>s. s = St_unknown"
      and f = "\<lambda>r. r\<lparr>fa_status := St_reconciled_not_fed, fa_resolved_at := Some now, fa_error := None\<rparr>"
      and e = NotInExpectedState], goal_cases)
  case 1
  show ?case by (rule assms(3))
next
  case (2 xs ys)
  have "unresolved r" using assms(3) by (simp add: unresolved_def)
  then have none: "find unresolved (xs @ r\<lparr>fa_status := St_reconciled_not_fed, fa_resolved_at := Some now,
      fa_error := None\<rparr> # ys) = None"
    using find_unresolved_replaced [OF assms(1) 2(1), of "\<lambda>r. r\<lparr>fa_status := St_reconciled_not_fed,
      fa_resolved_at := Some now, fa_error := None\<rparr>"] by (simp add: unresolved_def)
  have "feed_credit_in_transaction (db\<lparr>feed_attempts := q\<rparr>) = feed_credit_in_transaction db" for q
    by (simp add: feed_credit_in_transaction_def)
  with 2(2) none feed_inv_credit(1) [OF assms(1)] show ?case
    by (simp add: ctl_command_on_def db_reconcile_unknown_as_not_fed_def append_event_eq balance_def
        unresolved_feed_attempt_def)
qed

text \<open>
  C10: A feed that a stop of the daemon interrupted is neither repeated nor forgotten. Over a ledger with
  an unresolved attempt the daemon starts when its configuration is valid, its storage is durable, the
  templates are valid and the credentials are there; it then signs for Nostr exactly in active mode. The
  ledger keeps its invariant and its credit, no new feed begins, and the operator's tool settles the
  attempt by either verdict: fed debits exactly its threshold, not fed debits nothing, and after both no
  attempt is unresolved.
\<close>

theorem interrupted_feed_waits_for_operator:
  assumes "load_app_config w path = Inr c" "ledger_connect w (ac_database_url c) = Inr stored"
    and "embedded (su_catalog w) = Inr renderer" "services_available w c"
    and "feed_inv stored" "r \<in> set (feed_attempts stored)" "unresolved r"
  shows "\<exists>d db. daemon_start w path = (Inr d, Some db)
    \<and> (dm_nostr d \<noteq> None \<longleftrightarrow> sv_mode (ac_service c) = Active)
    \<and> feed_inv db \<and> balance db = balance stored
    \<and> (\<exists>e. begin_feed_attempt (fc_threshold_sats (ac_feeder c)) now fresh db = Inl e)
    \<and> (\<exists>out db'. ctl_command_on c fresh now (Reconcile_feed (fa_id r) Physically_fed) db = Inr (out, db')
         \<and> balance db' = balance stored - fa_threshold_sats r \<and> unresolved_feed_attempt db' = Inr None)
    \<and> (\<exists>out db'. ctl_command_on c fresh now (Reconcile_feed (fa_id r) Not_physically_fed) db = Inr (out, db')
         \<and> balance db' = balance stored \<and> unresolved_feed_attempt db' = Inr None)"
proof -
  obtain n db where m: "mark_interrupted_feed_intents_unknown stored = Inr (n, db)"
    using interrupted_succeeds by blast
  obtain d where d: "daemon_services w c renderer = Inr d"
    "dm_nostr d \<noteq> None \<longleftrightarrow> sv_mode (ac_service c) = Active"
    using daemon_services_start [OF load_validates [OF assms(1)] assms(4)] by blast
  obtain r' where r: "r' \<in> set (feed_attempts db)" "fa_id r' = fa_id r" "fa_status r' = St_unknown"
    "fa_threshold_sats r' = fa_threshold_sats r"
    using interrupted_unknown [OF m assms(6,7)] .
  have inv: "feed_inv db" using interrupted_inv [OF m assms(5)] .
  have "unresolved r'" using r(3) by (simp add: unresolved_def)
  note blocked = begin_blocked [OF inv r(1) this]
  have "daemon_start w path = (Inr d, Some db)" using assms(1-3) m d(1) by (simp add: daemon_start_def)
  then show ?thesis
    using d(2) inv blocked reconcile_fed [OF inv r(1,3)] reconcile_not_fed [OF inv r(1,3)]
      interrupted_balance [OF m] r(2,4) by metis
qed

section \<open>A sample restart\<close>

definition sample_startup :: startup_world where
  "sample_startup = \<lparr>su_read = (\<lambda>_. Some []), su_parse_config = (\<lambda>_. Some sample_config),
     su_sqlite = sample_sqlite,
     su_open_ledger = (\<lambda>_. Some \<lparr>od_databases = [(''main'', ''/a.db'')], od_journal = ''wal'', od_synchronous = 2,
       od_foreign_keys = 1, od_tables = sample_feed_db\<rparr>),
     su_catalog = Some \<lparr>tc_sats_received = [''a''], tc_feeder_trigger = [''a''], tc_interface_info = [''a'']\<rparr>,
     su_credentials = Some [], su_read_credential = (\<lambda>_ _. Some ''k''),
     su_lnurl = sample_lnurl_codec\<lparr>lc_parse_url := sample_parse\<rparr>,
     su_nostr = \<lparr>nx_print_json = (\<lambda>_. []), nx_print_event = (\<lambda>_. []), nx_parse_event = (\<lambda>_. None),
       nx_utf8 = (\<lambda>_. True), nx_bunker_uri = (\<lambda>_ _. None), nx_create_dir = (\<lambda>_. True)\<rparr>, su_bound = True\<rparr>"

lemma trim_letter: "trim ''k'' = ''k''" "trim ''a'' = ''a''"
  by (simp_all add: trim_def trim_start.simps trim_end_rev.simps space1_def byte_def)

lemma sample_startup_ok:
  "load_app_config sample_startup [] = Inr sample_config"
  "ledger_connect sample_startup (ac_database_url sample_config) = Inr sample_feed_db"
  "\<exists>renderer. embedded (su_catalog sample_startup) = Inr renderer"
  "services_available sample_startup sample_config"
proof -
  show "load_app_config sample_startup [] = Inr sample_config"
    using sample_settings_valid by (simp add: load_app_config_def config_load_def sample_startup_def)
  have "durable_options sample_sqlite ''sqlite://a.db'' \<noteq> Inl e" for e
    by (simp add: durable_options_def sample_sqlite_def strip_prefix_def starts_with_def)
  then obtain options where "durable_options sample_sqlite ''sqlite://a.db'' = Inr options"
    by (cases "durable_options sample_sqlite ''sqlite://a.db''") auto
  then show "ledger_connect sample_startup (ac_database_url sample_config) = Inr sample_feed_db"
    by (simp add: ledger_connect_def connect_durable_def sample_config_def)
      (simp add: sample_startup_def verify_connection_def)
  have "validate_template_syntax ''a'' = Inr ()" by (simp add: validate_template_syntax.simps)
  then show "\<exists>renderer. embedded (su_catalog sample_startup) = Inr renderer"
    by (simp add: embedded_def sample_startup_def validate_catalog_def validate_category_def trim_letter)
  have "credential sample_startup name = Inr ''k''" if "name \<in> {''strike-api-key'', ''strike-webhook-secret''}" for name
    using that by (auto simp: credential_def read_systemd_credential_def sample_startup_def trim_letter Let_def
        is_ascii_alphanumeric_def is_ascii_lowercase_def byte_def)
  then show "services_available sample_startup sample_config"
    by (simp add: services_available_def nostr_enabled_def sample_config_def) (simp add: sample_startup_def)
qed

theorem interrupted_feed_waits_for_operator_witness:
  "\<exists>d db. daemon_start sample_startup [] = (Inr d, Some db) \<and> dm_nostr d = None \<and> balance db = 120
     \<and> (\<exists>out db'. ctl_command_on sample_config [] 7 (Reconcile_feed ''u1'' Physically_fed) db = Inr (out, db')
          \<and> balance db' = 20)"
proof -
  obtain renderer where e: "embedded (su_catalog sample_startup) = Inr renderer" using sample_startup_ok(3) by blast
  have "sv_mode (ac_service sample_config) = Shadow" by (simp add: sample_config_def)
  with interrupted_feed_waits_for_operator [OF sample_startup_ok(1,2) e sample_startup_ok(4) sample_feed_inv,
      of "pending_row ''u1'' St_intent_committed 100" 7 "[]"]
  show ?thesis by (fastforce simp: sample_feed_attempts pending_row_def unresolved_def)
qed

end
