(* ===== verification/Spec2Isabelle.thy ===== *)
theory Spec2Isabelle
  imports Feeder_Properties Quote_Properties Openhab_Properties Strike_Properties Http_Properties
    Presentation_Properties Messaging_Properties Overlay_Properties
    Informational_Properties Startup_Properties
begin

text \<open>
  Lightning Goats credits Lightning and Monero payments to a herd and, whenever the credit reaches a
  threshold, has a feeder opened through an owner-controlled home automation. This development
  models the Rust program and proves what its parts promise each other. Paths are under
  \<open>src/src/\<close>.

  \<^bold>\<open>The program.\<close> The daemon keeps one SQLite database, the ledger. Settled payments enter it through
  Strike (\<open>strike.rs\<close>) or as Monero receipts under a quote (\<open>quotes.rs\<close>), a feeder worker
  (\<open>feeder/mod.rs\<close>) spends credit by asking a separate gateway process to feed, and every change
  appends to an event log that the overlay and the message publisher read. The gateway
  (\<open>gateway/\<close>) has its own small database, admits each request at most once under spacing and
  hourly limits, sends the command to openHAB (\<open>openhab.rs\<close>) and reports what became of it.

  \<^bold>\<open>Theories and code.\<close>
  \<^item> \<open>Prelude\<close>, \<open>Decimal_Text\<close>, \<open>Rust_Text\<close>, \<open>Runs\<close>: machine integers and checked conversions,
    results as sums, tables as lists of rows, decimal text, \<open>str::trim\<close>, and runs of a step relation
    with the locale \<open>once_only\<close>.
  \<^item> \<open>Domain_Credit\<close>, \<open>Domain_Feed\<close>, \<open>Domain_Payment\<close>: \<open>domain/credit.rs\<close>, \<open>domain/feed.rs\<close>,
    \<open>domain/payment.rs\<close> and the validators. Valuation is exact floor arithmetic on \<open>u128\<close>;
    \<open>feed_runtime\<close> is the abstract specification that the durable feed ledger refines.
  \<^item> \<open>Ledger_DB\<close> (the tables of \<open>migrations/0001\<close> to \<open>0011\<close>), \<open>Ledger_Events\<close>, \<open>Ledger_Feed\<close>,
    \<open>Ledger_Credit\<close>, \<open>Ledger_Payment\<close>, \<open>Ledger_Outbox\<close>, \<open>Ledger_Inbox\<close>, \<open>Ledger_Quotes\<close>: the files of
    \<open>ledger/\<close>, one function per transaction. \<open>Credit_Invariant\<close>, \<open>Payment_Posting\<close> and
    \<open>Payment_Invariant\<close> carry the invariants; \<open>Ledger_System\<close> is the step relation of all
    transactions in any order and \<open>Ledger_Properties\<close> what holds of every reachable ledger.
  \<^item> \<open>Gateway_Client\<close> (\<open>gateway/client.rs\<close>, \<open>http.rs\<close>), \<open>Gateway_Store\<close> (\<open>gateway/store.rs\<close>),
    \<open>Gateway_Server\<close> (\<open>gateway/server.rs\<close>), \<open>Openhab\<close> and \<open>Openhab_Properties\<close> (\<open>openhab.rs\<close>).
  \<^item> \<open>Feeder\<close> and \<open>Feeder_Properties\<close> (\<open>feeder/mod.rs\<close>): the worker over any gateway that keeps the
    contract of the locale \<open>feed_gateway\<close>; the gateway server behind a lossy network is its
    interpretation.
  \<^item> \<open>Rate_Oracle\<close> (\<open>quotes/oracle.rs\<close>), \<open>Quote_Domain\<close>, \<open>Quote_Service\<close>, \<open>Quote_Runs\<close>,
    \<open>Quote_Properties\<close> (\<open>quotes.rs\<close>).
  \<^item> \<open>Strike_Amounts\<close>, \<open>Strike_Provider\<close> and \<open>Strike_Runtime\<close> (\<open>strike.rs\<close>, \<open>bolt11.rs\<close>): the exact BTC
    decimals, the calls and every check of an answer, the webhook signature, and the operations over
    the ledger: issuing, reconciling, one recovery step. \<open>Strike_Properties\<close> is what a receive is worth.
  \<^item> \<open>Config\<close> (\<open>config.rs\<close>, \<open>sqlite.rs\<close>, \<open>secrets.rs\<close>), \<open>Lnurl\<close> (\<open>lnurl.rs\<close>), \<open>Http_Api\<close> and
    \<open>Http_Properties\<close> (the handlers of \<open>main.rs\<close>).
  \<^item> \<open>Presentation\<close> and \<open>Presentation_Properties\<close> (\<open>presentation.rs\<close>), \<open>Nostr_Client\<close> (\<open>nostr.rs\<close>),
    \<open>Messaging\<close> and \<open>Messaging_Properties\<close> (\<open>messaging.rs\<close>), \<open>Overlay\<close> and \<open>Overlay_Properties\<close>
    (\<open>overlay.rs\<close>): the readers of the event log. \<open>Log_Growth\<close> shows that the log is append-only under
    every transaction, which both rest on; \<open>Sample_Codec\<close> and \<open>Sample_Event\<close> serve the instances of
    their theorems.
  \<^item> \<open>Float64\<close> (Rust's \<open>f64\<close>: a finite double is the rational it stands for, operations round to 53
    bits with ties to even), \<open>Weather\<close> and \<open>Weather_Properties\<close> (\<open>gateway/weather.rs\<close> and the
    temperature and weather calls of the gateway, its client and openHAB), \<open>Informational\<close> and
    \<open>Informational_Properties\<close> (\<open>informational.rs\<close>): the worker that announces them.
  \<^item> \<open>Startup\<close> and \<open>Startup_Properties\<close>: how the daemon, the gateway and the operator's tool
    (\<open>main.rs\<close>, \<open>gateway/server.rs\<close>, \<open>bin/\<close>) are put together from the parts above.

  \<^bold>\<open>How state and operations correspond.\<close> A table is the list of its rows in rowid order, the
  database a record of tables; a transaction is a function from the database to an error, which
  leaves the database as it was, or to a result and the new database. \<open>unixepoch()\<close>, \<open>Uuid::new_v4()\<close>
  and clock readings are parameters, one reading per transaction or call. Concurrent callers are any
  sequence of transactions, because SQLite serialises writers. Code outside the repository is a
  parameter: serde_json and the HTTP stack (functions from texts and requests to values), SHA-256,
  chrono, the url crate.

  \<^bold>\<open>What the lemmas show.\<close> Money: a settlement is credited once, the books balance, credit is backed
  by eligible receipts at the locked terms, holds freeze an intent, every physical feed is paid for
  and debited once. Commands: a request id is admitted and dispatched at most once, admissions are
  spaced, refusals are exact, and what the client reads is what the server wrote. Quotes: an issued
  document decodes and never changes, the amount is the least that covers the target, rates never go
  back, admission limits hold in every window. Data: decimals are parsed and printed exactly, event
  paging is complete, queues are bounded and fair. Strike: a receive is credited once, at the amount,
  hash and account of the request that was issued, finished work has been credited, and a
  notification is acknowledged only when it is stored. Readers of the log: every public event gets one
  faithful message in order, a published message is not sent again, and an overlay client sees the
  events without a gap, or a snapshot. What the gateway accepts as weather the daemon accepts, every
  informational event can be shown, and a draw is at most 1. Restart: an interrupted feed is kept
  for the operator, whose verdict settles it.

  \<^bold>\<open>Bounds and fuel.\<close> The gateway's acknowledgement loop is \<open>partial_function\<close>; with the validated
  limits it returns within \<open>timeout / poll + 2\<close> polls (\<open>feed_request_returns\<close>). The openHAB history
  has the code's own limit of eight pages as fuel. All other loops are structural or end by a
  \<open>measure\<close>.

  \<^bold>\<open>Not modelled.\<close> The transport of \<open>server.rs\<close>, the axum routing table, logging, arguments and signals
  of the binaries, the clean-up of the nak child process, \<open>terms_json\<close> of \<open>quotes.rs\<close>, the example
  programs and the web front end: they are I/O or display around the modelled operations. Of \<open>f64\<close>,
  infinities and NaN are one value, because every use in the program only rejects them.
\<close>

end
